(* ===== verification/Pold_Prelude.thy ===== *)
theory Pold_Prelude
  imports Main "HOL-Library.AList" "HOL-Library.Sublist"
begin

text \<open>
  Shared vocabulary of the development: the collections of rewrite rules the component
  theories fill, the errno values the C code returns, the GLib data types the C code
  keeps its state in (hash tables, singly linked lists, strings) and the lemmas on them.

  A \<open>GHashTable\<close> is an association list with distinct keys. Its order stands for the
  order in which \<open>g_hash_table_iter_next\<close> would visit the entries; GLib does not fix
  that order, and no property of the development assumes one. \<open>g_hash_table_insert\<close>
  and \<open>g_hash_table_replace\<close> differ only in which copy of an equal key is freed, so
  both are \<open>gh_replace\<close>. A \<open>GSList\<close> is a list, a \<open>char *\<close> a string, and a
  pointer that may be NULL an option.
\<close>

named_theorems glib_simps "equations of the GLib data types"
named_theorems wf_intros "well-formedness of states, operation by operation"

section \<open>Error numbers\<close>

abbreviation (input) ENOENT :: int where "ENOENT \<equiv> 2"
abbreviation (input) EIO :: int where "EIO \<equiv> 5"
abbreviation (input) ENOMEM :: int where "ENOMEM \<equiv> 12"
abbreviation (input) EINVAL :: int where "EINVAL \<equiv> 22"

section \<open>Strings\<close>

definition g_str_has_prefix :: "string \<Rightarrow> string \<Rightarrow> bool" where
  "g_str_has_prefix str pre = (take (length pre) str = pre)"

definition g_str_has_suffix :: "string \<Rightarrow> string \<Rightarrow> bool" where
  "g_str_has_suffix str suf = (length suf \<le> length str \<and> drop (length str - length suf) str = suf)"

lemma g_str_has_prefix_iff: "g_str_has_prefix s p \<longleftrightarrow> prefix p s"
  by (metis append_eq_conv_conj append_take_drop_id g_str_has_prefix_def prefix_def)

lemma g_str_has_suffix_iff: "g_str_has_suffix s p \<longleftrightarrow> suffix p s"
  by (auto simp: g_str_has_suffix_def suffix_def)
    (metis append_take_drop_id)

text \<open>\<open>g_strsplit\<close> with a one-character delimiter; \<open>split_at\<close> is its inner loop.\<close>

fun split_at :: "char \<Rightarrow> string \<Rightarrow> string \<times> string option" where
  "split_at d [] = ([], None)"
| "split_at d (c # cs) =
     (if c = d then ([], Some cs)
      else (case split_at d cs of (tok, rest) \<Rightarrow> (c # tok, rest)))"

lemma split_at_Some_length: "split_at d s = (tok, Some rest) \<Longrightarrow> length rest < length s"
  by (induction s arbitrary: tok) (auto split: if_splits prod.splits)

lemma split_at_notin: "d \<notin> set s \<Longrightarrow> split_at d s = (s, None)"
  by (induction s) auto

lemma split_at_append: "d \<notin> set s \<Longrightarrow> split_at d (s @ d # t) = (s, Some t)"
  by (induction s) auto

text \<open>All tokens: the remainder is split until the delimiter no longer occurs.\<close>

function split_all :: "char \<Rightarrow> string \<Rightarrow> string list" where
  "split_all d s =
     (case split_at d s of
        (tok, None) \<Rightarrow> [tok]
      | (tok, Some rest) \<Rightarrow> tok # split_all d rest)"
  by pat_completeness auto
termination
  by (relation "measure (\<lambda>(d, s). length s)") (auto dest: split_at_Some_length[OF sym])

declare split_all.simps [simp del]

definition g_strsplit :: "string \<Rightarrow> char \<Rightarrow> string list" where
  \<comment> \<open>\<open>g_strsplit (s, d, 0)\<close>: the empty string has no token\<close>
  "g_strsplit s d = (if s = [] then [] else split_all d s)"

definition g_strsplit2 :: "string \<Rightarrow> char \<Rightarrow> string list" where
  \<comment> \<open>\<open>g_strsplit (s, d, 2)\<close>: at most two tokens, the second keeps the remainder\<close>
  "g_strsplit2 s d =
     (if s = [] then []
      else (case split_at d s of
              (tok, None) \<Rightarrow> [tok]
            | (tok, Some rest) \<Rightarrow> [tok, rest]))"

lemma split_all_notin: "d \<notin> set s \<Longrightarrow> split_all d s = [s]"
  by (subst split_all.simps) (simp add: split_at_notin)

lemma split_all_append: "d \<notin> set s \<Longrightarrow> split_all d (s @ d # t) = s # split_all d t"
  by (subst split_all.simps) (simp add: split_at_append)

lemma g_strsplit2_append: "d \<notin> set s \<Longrightarrow> g_strsplit2 (s @ d # t) d = [s, t]"
  by (simp add: g_strsplit2_def split_at_append)

text \<open>The conversion \<open>%d\<close> of a non-negative number.\<close>

definition digit_char :: "nat \<Rightarrow> char" where
  "digit_char n = char_of (48 + n)"

fun show_nat :: "nat \<Rightarrow> string" where
  "show_nat n = (if n < 10 then [digit_char n] else show_nat (n div 10) @ [digit_char (n mod 10)])"

declare show_nat.simps [simp del]

lemma digit_char_inj: "m < 10 \<Longrightarrow> n < 10 \<Longrightarrow> digit_char m = digit_char n \<Longrightarrow> m = n"
  by (simp add: digit_char_def)

lemma show_nat_nonempty [simp]: "show_nat n \<noteq> []" "[] \<noteq> show_nat n"
  by (subst show_nat.simps; simp)+

lemma show_nat_inj: "show_nat m = show_nat n \<Longrightarrow> m = n"
proof (induction m arbitrary: n rule: show_nat.induct)
  case (1 m)
  show ?case
  proof (cases "m < 10")
    case True
    with "1.prems" show ?thesis
      by (cases "n < 10")
        (auto simp: show_nat.simps[of m] show_nat.simps[of n] show_nat_nonempty
          intro: digit_char_inj)
  next
    case False
    with "1.prems" have "\<not> n < 10"
      by (auto simp: show_nat.simps[of m] show_nat.simps[of n] show_nat_nonempty)
    with False "1.prems" have "show_nat (m div 10) = show_nat (n div 10)"
      and d: "digit_char (m mod 10) = digit_char (n mod 10)"
      by (auto simp: show_nat.simps[of m] show_nat.simps[of n])
    with "1.IH"[OF False] have "m div 10 = n div 10" by blast
    moreover from d have "m mod 10 = n mod 10"
      by (rule digit_char_inj[rotated 2]) auto
    ultimately show ?thesis by (metis div_mult_mod_eq)
  qed
qed

section \<open>Hash tables\<close>

type_synonym ('k, 'v) ghash = "('k \<times> 'v) list"

abbreviation (input) gh_empty :: "('k, 'v) ghash" where "gh_empty \<equiv> []"

abbreviation gh_lookup :: "('k, 'v) ghash \<Rightarrow> 'k \<Rightarrow> 'v option" where
  "gh_lookup t k \<equiv> map_of t k"

definition gh_contains :: "('k, 'v) ghash \<Rightarrow> 'k \<Rightarrow> bool" where
  "gh_contains t k = (map_of t k \<noteq> None)"

definition gh_replace :: "'k \<Rightarrow> 'v \<Rightarrow> ('k, 'v) ghash \<Rightarrow> ('k, 'v) ghash" where
  "gh_replace k v t = AList.update k v t"

definition gh_remove :: "'k \<Rightarrow> ('k, 'v) ghash \<Rightarrow> ('k, 'v) ghash" where
  "gh_remove k t = AList.delete k t"

definition gh_wf :: "('k, 'v) ghash \<Rightarrow> bool" where
  "gh_wf t = distinct (map fst t)"

text \<open>The contract of a hash table, as its clients use it.\<close>

locale hash_table =
  fixes empty :: "'t"
    and replace :: "'k \<Rightarrow> 'v \<Rightarrow> 't \<Rightarrow> 't"
    and remove :: "'k \<Rightarrow> 't \<Rightarrow> 't"
    and lookup :: "'t \<Rightarrow> 'k \<Rightarrow> 'v option"
    and wf :: "'t \<Rightarrow> bool"
  assumes lookup_empty: "lookup empty k = None"
    and lookup_replace: "lookup (replace k v t) j = (if j = k then Some v else lookup t j)"
    and lookup_remove: "lookup (remove k t) j = (if j = k then None else lookup t j)"
    and wf_empty: "wf empty"
    and wf_replace: "wf t \<Longrightarrow> wf (replace k v t)"
    and wf_remove: "wf t \<Longrightarrow> wf (remove k t)"
begin

lemma remove_replace: "lookup (remove k (replace k v t)) = lookup (remove k t)"
  by (simp add: fun_eq_iff lookup_remove lookup_replace)

lemma replace_replace: "lookup (replace k v (replace k w t)) = lookup (replace k v t)"
  by (simp add: fun_eq_iff lookup_replace)

lemma replace_other: "j \<noteq> k \<Longrightarrow> lookup (replace k v t) j = lookup t j"
  by (simp add: lookup_replace)

lemma remove_other: "j \<noteq> k \<Longrightarrow> lookup (remove k t) j = lookup t j"
  by (simp add: lookup_remove)

text \<open>A sequence of insertions: the last one for a key wins.\<close>

lemma lookup_fold_replace:
  "lookup (fold (\<lambda>(k, v). replace k v) kvs t) j =
     (case map_of (rev kvs) j of Some v \<Rightarrow> Some v | None \<Rightarrow> lookup t j)"
  by (induction kvs arbitrary: t)
    (auto simp: lookup_replace map_add_def split: option.splits if_splits)

end

interpretation gh: hash_table "[]" gh_replace gh_remove map_of gh_wf
  by unfold_locales
    (auto simp: gh_replace_def gh_remove_def gh_wf_def update_conv delete_conv
      distinct_update distinct_delete)

lemmas gh_lookup_simps [simp, glib_simps] = gh.lookup_replace gh.lookup_remove

lemma gh_contains_iff [simp, glib_simps]: "gh_contains t k \<longleftrightarrow> (\<exists>v. map_of t k = Some v)"
  by (auto simp: gh_contains_def)

lemma gh_wf_simps [simp, wf_intros]:
  "gh_wf []" "gh_wf t \<Longrightarrow> gh_wf (gh_replace k v t)" "gh_wf t \<Longrightarrow> gh_wf (gh_remove k t)"
  by (rule gh.wf_empty gh.wf_replace gh.wf_remove; assumption?)+

lemma gh_mem_lookup: "gh_wf t \<Longrightarrow> (k, v) \<in> set t \<longleftrightarrow> map_of t k = Some v"
  by (simp add: gh_wf_def)

text \<open>A set kept in a hash table (\<open>g_hash_table_add\<close>).\<close>

definition gh_add :: "'a \<Rightarrow> 'a list \<Rightarrow> 'a list" where
  "gh_add x xs = (if x \<in> set xs then xs else xs @ [x])"

lemma set_gh_add [simp, glib_simps]: "set (gh_add x xs) = insert x (set xs)"
  by (auto simp: gh_add_def)

lemma distinct_gh_add [simp, wf_intros]: "distinct xs \<Longrightarrow> distinct (gh_add x xs)"
  by (simp add: gh_add_def)

section \<open>Singly linked lists\<close>

abbreviation (input) g_slist_append :: "'a list \<Rightarrow> 'a \<Rightarrow> 'a list" where
  "g_slist_append xs x \<equiv> xs @ [x]"

abbreviation (input) g_slist_remove :: "'a list \<Rightarrow> 'a \<Rightarrow> 'a list" where
  "g_slist_remove xs x \<equiv> remove1 x xs"

lemma count_list_remove1:
  "count_list (remove1 y xs) x = (if x = y then count_list xs x - 1 else count_list xs x)"
proof (induction xs)
  case (Cons z zs)
  then show ?case
    by (cases "y \<in> set zs") (auto simp: count_list_0_iff remove1_idem count_notin)
qed simp

lemma find_append:
  "find P (xs @ ys) = (case find P xs of None \<Rightarrow> find P ys | Some x \<Rightarrow> Some x)"
  by (induction xs) simp_all

end
