(* ===== verification/Jansson.thy ===== *)
theory Jansson
  imports Pold_Prelude "HOL-Library.Word"
begin

text \<open>
  JSON values as the code sees them through Jansson: the eight type tags of
  \<open>json_typeof\<close>, with 64-bit integers (\<open>json_int_t\<close>) and reals as the 64 bits of the
  IEEE double. Jansson itself (parser and printer) is not part of the repository: the
  operations that call it take a \<open>jansson\<close> record of functions as an argument, and the
  properties that rely on them state what they need as hypotheses.
\<close>

datatype json =
    JObject "(string \<times> json) list"
  | JArray "json list"
  | JString string
  | JInteger "64 word"
  | JReal "64 word"
  | JTrue
  | JFalse
  | JNull

datatype json_type =
    JSON_OBJECT | JSON_ARRAY | JSON_STRING | JSON_INTEGER
  | JSON_REAL | JSON_TRUE | JSON_FALSE | JSON_NULL

fun json_typeof :: "json \<Rightarrow> json_type" where
  "json_typeof (JObject _) = JSON_OBJECT"
| "json_typeof (JArray _) = JSON_ARRAY"
| "json_typeof (JString _) = JSON_STRING"
| "json_typeof (JInteger _) = JSON_INTEGER"
| "json_typeof (JReal _) = JSON_REAL"
| "json_typeof JTrue = JSON_TRUE"
| "json_typeof JFalse = JSON_FALSE"
| "json_typeof JNull = JSON_NULL"

abbreviation json_is_boolean :: "json \<Rightarrow> bool" where
  "json_is_boolean v \<equiv> json_typeof v \<in> {JSON_TRUE, JSON_FALSE}"

abbreviation json_is_object :: "json \<Rightarrow> bool" where
  "json_is_object v \<equiv> json_typeof v = JSON_OBJECT"

text \<open>\<open>json_object_get\<close>: NULL for a missing key and for a value that is no object.\<close>

fun json_object_get :: "json \<Rightarrow> string \<Rightarrow> json option" where
  "json_object_get (JObject kvs) k = map_of kvs k"
| "json_object_get _ k = None"

text \<open>\<open>json_object_set\<close>: \<open>None\<close> (returned as -1) where the value is no object.\<close>

fun json_object_set :: "json \<Rightarrow> string \<Rightarrow> json \<Rightarrow> json option" where
  "json_object_set (JObject kvs) k v = Some (JObject (AList.update k v kvs))"
| "json_object_set _ k v = None"

record jansson =
  json_loads :: "string \<Rightarrow> json option"  \<comment> \<open>\<open>json_loads (text, 0, NULL)\<close>; NULL is \<open>None\<close>\<close>
  json_dumps :: "json \<Rightarrow> string option"  \<comment> \<open>\<open>json_dumps (value, 0)\<close>; NULL is \<open>None\<close>\<close>

lemma json_is_object_iff: "json_is_object v \<longleftrightarrow> (\<exists>kvs. v = JObject kvs)"
  by (cases v) auto

end
