(* ===== verification/Policy.thy ===== *)
theory Policy
  imports Jansson
begin

text \<open>
  The policy store, \<open>src/policy.c\<close>. The static hash tables of the file are the fields of
  \<open>policy_state\<close>. A \<open>struct pold_agent_app *\<close> is a reference into \<open>app_heap\<close>,
  where a freed application is \<open>None\<close>: reading one is a use after free, and every
  operation that would do so (or dereference NULL) returns \<open>None\<close>. A pointer to a policy
  names the object it points to, the default policy or the value of a key of
  \<open>id_to_policy\<close>. \<open>default_policy\<close> and \<open>own_policy\<close> are the objects the two
  static pointers point to; where there is none, \<open>default_dangling\<close> and \<open>own_dangling\<close>
  tell a pointer to a freed object from NULL.
\<close>

section \<open>State\<close>

type_synonym app_ref = nat

record pold_policy =
  policy_id :: string
  policy_json :: "string option"

record pold_agent_app =
  app_id :: string
  policy_ids :: "string list"
  agent_policy_json :: "string option"

datatype policy_ptr = DefaultPolicy | TablePolicy string

record policy_state =
  default_policy :: "pold_policy option"
  own_policy :: "pold_policy option"
  default_dangling :: bool
  own_dangling :: bool
  id_to_policy :: "(string, pold_policy) ghash"
  id_to_apps :: "(string, app_ref option list) ghash"
  app_id_to_app :: "(string, app_ref) ghash"
  update_apps :: "app_ref list"
  app_heap :: "app_ref \<Rightarrow> pold_agent_app option"
  next_app :: app_ref
  disc_watches :: "(string \<times> app_ref) list"

section \<open>Policy ids\<close>

text \<open>
  The pattern \<open>(selinux|user|group):[a-zA-Z]+\<close>. It is not anchored: \<open>g_regex_match\<close>
  searches for a match anywhere in the id. \<open>pattern_here\<close> matches at the start of its
  argument; one letter after the colon is all that \<open>[a-zA-Z]+\<close> needs.
\<close>

definition ascii_letter :: "char \<Rightarrow> bool" where
  "ascii_letter c =
     (let n = (of_char c :: nat) in (97 \<le> n \<and> n \<le> 122) \<or> (65 \<le> n \<and> n \<le> 90))"

definition policy_types :: "string list" where
  "policy_types = [''selinux:'', ''user:'', ''group:'']"

definition pattern_here :: "string \<Rightarrow> bool" where
  "pattern_here s =
     list_ex (\<lambda>t. g_str_has_prefix s t \<and>
                  (case drop (length t) s of [] \<Rightarrow> False | c # _ \<Rightarrow> ascii_letter c))
       policy_types"

fun valid_policy_ids_match :: "string \<Rightarrow> bool" where
  "valid_policy_ids_match [] = pattern_here []"
| "valid_policy_ids_match (c # cs) = (pattern_here (c # cs) \<or> valid_policy_ids_match cs)"

definition is_valid_policy_id :: "string option \<Rightarrow> bool" where
  "is_valid_policy_id pid = (case pid of None \<Rightarrow> False | Some s \<Rightarrow> valid_policy_ids_match s)"

definition get_policy_priority :: "string option \<Rightarrow> int" where
  "get_policy_priority pid =
     (case pid of
        None \<Rightarrow> -1
      | Some s \<Rightarrow>
          (if g_str_has_prefix s ''selinux:'' then 2
           else if g_str_has_prefix s ''user:'' then 1
           else if g_str_has_prefix s ''group:'' then 0
           else -1))"

section \<open>The active policy of an application\<close>

text \<open>
  The loop of \<open>get_active_policy\<close>, with its two accumulators. Where no policy is chosen and
  \<open>default_policy\<close> points to no object, the result is \<open>None\<close>, for NULL and for a dangling
  pointer alike: its callers read through it, which is undefined for both.
\<close>

fun active_policy_loop ::
  "(string, pold_policy) ghash \<Rightarrow> string list \<Rightarrow> policy_ptr option \<Rightarrow> int \<Rightarrow> policy_ptr option"
where
  "active_policy_loop t [] policy max_priority = policy"
| "active_policy_loop t (pid # ids) policy max_priority =
     (let current_priority = get_policy_priority (Some pid) in
      if current_priority > max_priority \<and> gh_contains t pid
      then active_policy_loop t ids (Some (TablePolicy pid)) current_priority
      else active_policy_loop t ids policy max_priority)"

definition get_active_policy :: "policy_state \<Rightarrow> pold_agent_app \<Rightarrow> policy_ptr option" where
  "get_active_policy st app =
     (case active_policy_loop (id_to_policy st) (policy_ids app) None (-1) of
        Some p \<Rightarrow> Some p
      | None \<Rightarrow> (if default_policy st = None then None else Some DefaultPolicy))"

text \<open>Reading the object a policy pointer points to.\<close>

fun policy_at :: "policy_state \<Rightarrow> policy_ptr \<Rightarrow> pold_policy option" where
  "policy_at st DefaultPolicy = default_policy st"
| "policy_at st (TablePolicy pid) = gh_lookup (id_to_policy st) pid"

definition active_policy :: "policy_state \<Rightarrow> pold_agent_app \<Rightarrow> pold_policy option" where
  "active_policy st app = Option.bind (get_active_policy st app) (policy_at st)"

text \<open>
  \<open>mark_update_apps\<close>: the loop over \<open>app_id_to_app\<close>. A freed application or a NULL
  policy makes it undefined.
\<close>

fun mark_update_loop ::
  "policy_state \<Rightarrow> (string \<times> app_ref) list \<Rightarrow> app_ref list \<Rightarrow> app_ref list option"
where
  "mark_update_loop st [] marked = Some marked"
| "mark_update_loop st ((key, r) # rest) marked =
     (case app_heap st r of
        None \<Rightarrow> None
      | Some app \<Rightarrow>
          (case active_policy st app of
             None \<Rightarrow> None
           | Some policy \<Rightarrow>
               mark_update_loop st rest
                 (if agent_policy_json app \<noteq> policy_json policy
                  then gh_add r marked else marked)))"

definition mark_update_apps :: "policy_state \<Rightarrow> policy_state option" where
  "mark_update_apps st =
     (case mark_update_loop st (app_id_to_app st) [] of
        None \<Rightarrow> None
      | Some marked \<Rightarrow> Some (st\<lparr>update_apps := marked\<rparr>))"

section \<open>Policy files\<close>

text \<open>
  The file system as the code meets it: the files of the policy directory (names and
  contents, in no particular order), the order in which \<open>g_dir_read_name\<close> returns the
  entries of a directory, which GLib leaves open, whether \<open>g_dir_open\<close> fails, the default
  and the own policy file, and which \<open>unlink\<close> and which \<open>g_file_set_contents\<close> fail.
\<close>

record disk =
  policy_dir :: "(string \<times> string) list"
  listing :: "(string \<times> string) list \<Rightarrow> (string \<times> string) list"
  open_fails :: bool
  default_file :: "string option"
  own_file :: "string option"
  unlink_fails :: "string \<Rightarrow> bool"
  write_fails :: "string \<Rightarrow> bool"

definition load_policy :: "jansson \<Rightarrow> string option \<Rightarrow> pold_policy option" where
  "load_policy J content =
     (case Option.bind content (json_loads J) of
        None \<Rightarrow> None
      | Some root \<Rightarrow>
          (if \<not> json_is_object root then None
           else (case json_object_get root ''Id'' of
                   Some (JString pid) \<Rightarrow>
                     Some \<lparr>policy_id = pid, policy_json = json_dumps J root\<rparr>
                 | _ \<Rightarrow> None)))"

definition full_path :: "string \<Rightarrow> string \<Rightarrow> string" where
  "full_path dir name = dir @ ''/'' @ name"

definition is_valid_policy_filename :: "string \<Rightarrow> bool" where
  "is_valid_policy_filename filename = g_str_has_suffix filename ''.policy''"

fun load_policies_loop ::
  "jansson \<Rightarrow> string \<Rightarrow> (string \<times> string) list \<Rightarrow> (string, pold_policy) ghash
     \<Rightarrow> int \<times> (string, pold_policy) ghash"
where
  "load_policies_loop J dir [] t = (0, t)"
| "load_policies_loop J dir ((name, content) # rest) t =
     (if is_valid_policy_filename (full_path dir name)
      then (case load_policy J (Some content) of
              None \<Rightarrow> (- ENOENT, t)
            | Some policy \<Rightarrow>
                load_policies_loop J dir rest (gh_replace (policy_id policy) policy t))
      else load_policies_loop J dir rest t)"

text \<open>The entries of the policy directory as they are read.\<close>

definition dir_entries :: "disk \<Rightarrow> (string \<times> string) list" where
  "dir_entries d = listing d (policy_dir d)"

text \<open>
  \<open>g_dir_open\<close> gets the address of an uninitialised \<open>GError *\<close>: where it fails, it reads
  that pointer, and the result is undefined.
\<close>

definition load_policies ::
  "jansson \<Rightarrow> string \<Rightarrow> disk \<Rightarrow> policy_state \<Rightarrow> (int \<times> policy_state) option"
where
  "load_policies J dir d st =
     (if open_fails d then None
      else
        (let (error, t) = load_policies_loop J dir (dir_entries d) gh_empty
         in Some (error, st\<lparr>id_to_policy := t\<rparr>)))"

text \<open>
  Writing a file enters it into the directory or replaces it there; its place among the
  files means nothing, since \<open>listing\<close> decides in which order they are read.
\<close>

definition policy_file_name :: "nat \<Rightarrow> string" where
  "policy_file_name counter = show_nat counter @ ''.policy''"

definition save_policy :: "nat \<Rightarrow> string option \<Rightarrow> disk \<Rightarrow> int \<times> disk" where
  "save_policy counter json_text d =
     (case json_text of
        None \<Rightarrow> (- EIO, d)
      | Some text \<Rightarrow>
          (if write_fails d (policy_file_name counter) then (- EIO, d)
           else (0, d\<lparr>policy_dir := AList.update (policy_file_name counter) text (policy_dir d)\<rparr>)))"

fun save_policies_loop :: "jansson \<Rightarrow> nat \<Rightarrow> json list \<Rightarrow> disk \<Rightarrow> int \<times> disk" where
  "save_policies_loop J i [] d = (0, d)"
| "save_policies_loop J i (policy # rest) d =
     (if \<not> json_is_object policy then (EINVAL, d)
      else (case save_policy i (json_dumps J policy) d of
              (error, d') \<Rightarrow>
                (if error \<noteq> 0 then (error, d')
                 else save_policies_loop J (Suc i) rest d')))"

definition save_policies :: "jansson \<Rightarrow> string \<Rightarrow> disk \<Rightarrow> int \<times> disk" where
  "save_policies J policies_json d =
     (case json_loads J policies_json of
        Some (JArray policies) \<Rightarrow> save_policies_loop J 0 policies d
      | _ \<Rightarrow> (- EINVAL, d))"

fun delete_policies_loop :: "string \<Rightarrow> (string \<times> string) list \<Rightarrow> disk \<Rightarrow> int \<times> disk" where
  "delete_policies_loop dir [] d = (0, d)"
| "delete_policies_loop dir ((name, content) # rest) d =
     (if is_valid_policy_filename (full_path dir name)
      then (if unlink_fails d name then (- EIO, d)
            else delete_policies_loop dir rest
                   (d\<lparr>policy_dir := AList.delete name (policy_dir d)\<rparr>))
      else delete_policies_loop dir rest d)"

definition delete_all_policies :: "string \<Rightarrow> disk \<Rightarrow> (int \<times> disk) option" where
  "delete_all_policies dir d =
     (if open_fails d then None else Some (delete_policies_loop dir (dir_entries d) d))"

section \<open>Watching applications\<close>

definition free_app :: "app_ref \<Rightarrow> policy_state \<Rightarrow> policy_state" where
  "free_app r st = st\<lparr>app_heap := (app_heap st)(r := None)\<rparr>"

text \<open>
  \<open>add_app\<close>: a new list gets the NULL sentinel first, so that appending never changes
  the head pointer the table holds.
\<close>

definition add_app :: "string \<Rightarrow> app_ref \<Rightarrow> policy_state \<Rightarrow> policy_state" where
  "add_app pid r st =
     (let apps = (case gh_lookup (id_to_apps st) pid of
                    None \<Rightarrow> g_slist_append [] None
                  | Some apps \<Rightarrow> apps)
      in st\<lparr>id_to_apps := gh_replace pid (g_slist_append apps (Some r)) (id_to_apps st)\<rparr>)"

definition append_policy_id :: "string \<Rightarrow> app_ref \<Rightarrow> policy_state \<Rightarrow> policy_state" where
  "append_policy_id pid r st =
     st\<lparr>app_heap := (app_heap st)(r := map_option
         (\<lambda>app. app\<lparr>policy_ids := g_slist_append (policy_ids app) pid\<rparr>) (app_heap st r))\<rparr>"

text \<open>The loop over the variable arguments of \<open>pold_policy_watch_app\<close>.\<close>

fun watch_app_ids :: "string list \<Rightarrow> app_ref \<Rightarrow> policy_state \<Rightarrow> policy_state" where
  "watch_app_ids [] r st = st"
| "watch_app_ids (pid # rest) r st =
     (if is_valid_policy_id (Some pid)
      then watch_app_ids rest r (add_app pid r (append_policy_id pid r st))
      else watch_app_ids rest r st)"

definition app_id_of :: "string \<Rightarrow> string \<Rightarrow> string" where
  "app_id_of agent_owner app_owner = agent_owner @ ''/'' @ app_owner"

definition pold_policy_watch_app ::
  "string \<Rightarrow> string \<Rightarrow> string list \<Rightarrow> policy_state \<Rightarrow> policy_state option"
where
  "pold_policy_watch_app agent_owner app_owner ids st =
     (let key = app_id_of agent_owner app_owner in
      if gh_contains (app_id_to_app st) key then Some st
      else
        let r = next_app st;
            st1 = st\<lparr>next_app := Suc r,
                     app_heap := (app_heap st)(r := Some
                       \<lparr>app_id = key, policy_ids = [], agent_policy_json = None\<rparr>)\<rparr>;
            st2 = watch_app_ids ids r st1
        in (case app_heap st2 r of
              None \<Rightarrow> None
            | Some app \<Rightarrow>
                (case active_policy st2 app of
                   None \<Rightarrow> None
                 | Some policy \<Rightarrow>
                     Some (st2\<lparr>app_heap := (app_heap st2)(r := Some
                                 (app\<lparr>agent_policy_json := policy_json policy\<rparr>)),
                               app_id_to_app := gh_replace key r (app_id_to_app st2),
                               disc_watches := disc_watches st2 @ [(app_owner, r)]\<rparr>))))"

text \<open>
  \<open>stop_watching_app\<close>. The result of \<open>g_slist_remove\<close> is dropped: where the removed
  link were the head, the table would keep a freed link, so that case is undefined.
\<close>

fun unlink_app :: "string list \<Rightarrow> app_ref \<Rightarrow> policy_state \<Rightarrow> policy_state option" where
  "unlink_app [] r st = Some st"
| "unlink_app (pid # rest) r st =
     (case gh_lookup (id_to_apps st) pid of
        None \<Rightarrow> unlink_app rest r st
      | Some [] \<Rightarrow> unlink_app rest r st
      | Some (h # t) \<Rightarrow>
          (if h = Some r then None
           else unlink_app rest r
             (st\<lparr>id_to_apps := gh_replace pid (h # g_slist_remove t (Some r)) (id_to_apps st)\<rparr>)))"

text \<open>Removing a key from \<open>app_id_to_app\<close> frees the application stored under it.\<close>

definition remove_app_entry :: "string \<Rightarrow> policy_state \<Rightarrow> policy_state" where
  "remove_app_entry key st =
     (case gh_lookup (app_id_to_app st) key of
        None \<Rightarrow> st
      | Some r \<Rightarrow> free_app r (st\<lparr>app_id_to_app := gh_remove key (app_id_to_app st)\<rparr>))"

definition stop_watching_app :: "app_ref \<Rightarrow> policy_state \<Rightarrow> policy_state option" where
  "stop_watching_app r st =
     (case app_heap st r of
        None \<Rightarrow> None
      | Some app \<Rightarrow>
          (case unlink_app (policy_ids app) r st of
             None \<Rightarrow> None
           | Some st' \<Rightarrow> Some (remove_app_entry (app_id app) st')))"

text \<open>\<open>fill_apps_to_remove\<close>: the inner loop skips the sentinel.\<close>

fun fill_from_list ::
  "policy_state \<Rightarrow> string \<Rightarrow> app_ref option list \<Rightarrow> app_ref list \<Rightarrow> app_ref list option"
where
  "fill_from_list st agent_owner [] acc = Some acc"
| "fill_from_list st agent_owner (None # rest) acc = None"
| "fill_from_list st agent_owner (Some r # rest) acc =
     (case app_heap st r of
        None \<Rightarrow> None
      | Some app \<Rightarrow>
          fill_from_list st agent_owner rest
            (if g_str_has_prefix (app_id app) agent_owner then gh_add r acc else acc))"

fun fill_apps_to_remove ::
  "policy_state \<Rightarrow> string \<Rightarrow> (string \<times> app_ref option list) list \<Rightarrow> app_ref list
     \<Rightarrow> app_ref list option"
where
  "fill_apps_to_remove st agent_owner [] acc = Some acc"
| "fill_apps_to_remove st agent_owner ((pid, apps) # rest) acc =
     (case apps of
        [] \<Rightarrow> None
      | _ # apps' \<Rightarrow>
          (case fill_from_list st agent_owner apps' acc of
             None \<Rightarrow> None
           | Some acc' \<Rightarrow> fill_apps_to_remove st agent_owner rest acc'))"

fun stop_watching_apps :: "app_ref list \<Rightarrow> policy_state \<Rightarrow> policy_state option" where
  "stop_watching_apps [] st = Some st"
| "stop_watching_apps (r # rest) st =
     (case stop_watching_app r st of
        None \<Rightarrow> None
      | Some st' \<Rightarrow> stop_watching_apps rest st')"

definition pold_remove_agent_apps :: "string \<Rightarrow> policy_state \<Rightarrow> policy_state option" where
  "pold_remove_agent_apps agent_owner st =
     (case fill_apps_to_remove st agent_owner (id_to_apps st) [] of
        None \<Rightarrow> None
      | Some apps_to_remove \<Rightarrow> stop_watching_apps apps_to_remove st)"

definition pold_policy_get :: "policy_state \<Rightarrow> string \<Rightarrow> pold_policy option" where
  "pold_policy_get st pid = gh_lookup (id_to_policy st) pid"

definition pold_policy_get_default :: "policy_state \<Rightarrow> pold_policy option" where
  "pold_policy_get_default st = default_policy st"

definition pold_policy_get_own_policy :: "policy_state \<Rightarrow> pold_policy option" where
  "pold_policy_get_own_policy st = own_policy st"

text \<open>An unknown application id gives NULL, which \<open>get_active_policy\<close> dereferences.\<close>

definition pold_policy_get_active_policy :: "policy_state \<Rightarrow> string \<Rightarrow> policy_ptr option" where
  "pold_policy_get_active_policy st key =
     (case Option.bind (gh_lookup (app_id_to_app st) key) (app_heap st) of
        None \<Rightarrow> None
      | Some app \<Rightarrow> get_active_policy st app)"

section \<open>Updating the agents\<close>

text \<open>
  \<open>pold_manager_update_agent\<close> belongs to the manager, which itself calls this component;
  here it is the argument \<open>upd\<close> (agent owner, application owner, policy), a function on
  the caller's world that returns the C error code, or \<open>None\<close> where it is undefined. The
  manager's own function is supplied in theory \<open>Manager\<close>.
\<close>

type_synonym 'w agent_updater = "string \<Rightarrow> string \<Rightarrow> pold_policy \<Rightarrow> 'w \<Rightarrow> (int \<times> 'w) option"

definition set_agent_policy_json ::
  "app_ref \<Rightarrow> string option \<Rightarrow> policy_state \<Rightarrow> policy_state"
where
  "set_agent_policy_json r json st =
     st\<lparr>app_heap := (app_heap st)(r := map_option
         (\<lambda>app. app\<lparr>agent_policy_json := json\<rparr>) (app_heap st r))\<rparr>"

fun update_agents_loop ::
  "'w agent_updater \<Rightarrow> app_ref list \<Rightarrow> policy_state \<Rightarrow> 'w \<Rightarrow> (int \<times> policy_state \<times> 'w) option"
where
  "update_agents_loop upd [] st w = Some (0, st, w)"
| "update_agents_loop upd (r # rest) st w =
     (case app_heap st r of
        None \<Rightarrow> None
      | Some app \<Rightarrow>
          (case (active_policy st app, g_strsplit2 (app_id app) (CHR ''/'')) of
             (Some policy, [agent_owner, app_owner]) \<Rightarrow>
               (case upd agent_owner app_owner policy w of
                  None \<Rightarrow> None
                | Some (error, w') \<Rightarrow>
                    (if error \<noteq> 0 then Some (error, st, w')
                     else update_agents_loop upd rest
                            (set_agent_policy_json r (policy_json policy) st) w'))
           | _ \<Rightarrow> None))"

definition update_agent_policies ::
  "'w agent_updater \<Rightarrow> policy_state \<Rightarrow> 'w \<Rightarrow> (int \<times> policy_state \<times> 'w) option"
where
  "update_agent_policies upd st w = update_agents_loop upd (update_apps st) st w"

text \<open>
  \<open>update_policies_cb\<close>: the result is the error the caller's callback receives, and the
  disk, the store and the world afterwards. The result of \<open>update_agent_policies\<close> is
  dropped, as in the code.
\<close>

definition update_policies_cb ::
  "jansson \<Rightarrow> 'w agent_updater \<Rightarrow> string \<Rightarrow> string option \<Rightarrow> disk \<Rightarrow> policy_state \<Rightarrow> 'w
     \<Rightarrow> (int \<times> disk \<times> policy_state \<times> 'w) option"
where
  "update_policies_cb J upd dir policies_json d st w =
     (case policies_json of
        None \<Rightarrow> Some (- EINVAL, d, st, w)
      | Some text \<Rightarrow>
          (case delete_all_policies dir d of
             None \<Rightarrow> None
           | Some (error, d1) \<Rightarrow>
               if error \<noteq> 0 then Some (error, d1, st, w)
               else let (error, d2) = save_policies J text d1 in
               if error \<noteq> 0 then Some (error, d2, st, w)
               else (case load_policies J dir d2 st of
                       None \<Rightarrow> None
                     | Some (error, st3) \<Rightarrow>
                         if error \<noteq> 0 then Some (error, d2, st3, w)
                         else (case mark_update_apps st3 of
                                 None \<Rightarrow> None
                               | Some st4 \<Rightarrow>
                                   (case update_agent_policies upd st4 w of
                                      None \<Rightarrow> None
                                    | Some (_, st5, w5) \<Rightarrow> Some (0, d2, st5, w5))))))"

section \<open>Initialisation\<close>

definition hashtables_init :: "policy_state \<Rightarrow> policy_state" where
  "hashtables_init st =
     st\<lparr>id_to_policy := gh_empty, id_to_apps := gh_empty,
        app_id_to_app := gh_empty, update_apps := []\<rparr>"

text \<open>Destroying \<open>app_id_to_app\<close> frees every application it holds.\<close>

definition hashtables_final :: "policy_state \<Rightarrow> policy_state" where
  "hashtables_final st =
     (fold (\<lambda>(key, r). free_app r) (app_id_to_app st) st)
       \<lparr>id_to_policy := gh_empty, id_to_apps := gh_empty,
        app_id_to_app := gh_empty, update_apps := []\<rparr>"

definition policy_start :: policy_state where
  "policy_start =
     \<lparr>default_policy = None, own_policy = None, default_dangling = False, own_dangling = False,
      id_to_policy = gh_empty, id_to_apps = gh_empty,
      app_id_to_app = gh_empty, update_apps = [], app_heap = (\<lambda>_. None), next_app = 0,
      disc_watches = []\<rparr>"

definition init_default_policy :: "jansson \<Rightarrow> disk \<Rightarrow> policy_state \<Rightarrow> int \<times> policy_state" where
  "init_default_policy J d st =
     (case load_policy J (default_file d) of
        None \<Rightarrow> (- ENOENT, st\<lparr>default_policy := None, default_dangling := False\<rparr>)
      | Some p \<Rightarrow> (0, st\<lparr>default_policy := Some p, default_dangling := False\<rparr>))"

definition init_own_policy :: "jansson \<Rightarrow> disk \<Rightarrow> policy_state \<Rightarrow> int \<times> policy_state" where
  "init_own_policy J d st =
     (case load_policy J (own_file d) of
        None \<Rightarrow> (- ENOENT, st\<lparr>own_policy := None, own_dangling := False\<rparr>)
      | Some p \<Rightarrow> (0, st\<lparr>own_policy := Some p, own_dangling := False\<rparr>))"

text \<open>\<open>free_policy\<close> of the two static pointers, which are not reset.\<close>

definition free_default_policy :: "policy_state \<Rightarrow> policy_state" where
  "free_default_policy st = st\<lparr>default_policy := None, default_dangling := True\<rparr>"

definition free_own_policy :: "policy_state \<Rightarrow> policy_state" where
  "free_own_policy st = st\<lparr>own_policy := None, own_dangling := True\<rparr>"

definition pold_policy_init ::
  "jansson \<Rightarrow> string \<Rightarrow> disk \<Rightarrow> policy_state \<Rightarrow> (int \<times> policy_state) option"
where
  "pold_policy_init J dir d st =
     (let (error, st1) = init_default_policy J d (hashtables_init st) in
      if error \<noteq> 0 then Some (error, hashtables_final st1)
      else let (error, st2) = init_own_policy J d st1 in
      if error \<noteq> 0 then Some (error, hashtables_final (free_default_policy st2))
      else (case load_policies J dir d st2 of
              None \<Rightarrow> None
            | Some (error, st3) \<Rightarrow>
                if error \<noteq> 0
                then Some (error, hashtables_final (free_default_policy (free_own_policy st3)))
                else Some (0, st3)))"

text \<open>A pointer to an object that was freed before is not NULL, so it is freed again.\<close>

definition pold_policy_final :: "policy_state \<Rightarrow> policy_state option" where
  "pold_policy_final st =
     (if own_dangling st \<or> default_dangling st then None
      else let st1 = (if own_policy st \<noteq> None then free_own_policy st else st);
               st2 = (if default_policy st1 \<noteq> None then free_default_policy st1 else st1)
           in Some (hashtables_final st2))"

end
