(* ===== verification/Policy_Active.thy ===== *)
theory Policy_Active
  imports Policy
begin

text \<open>
  The selection of the active policy: which ids the pattern of \<open>valid_policy_ids_init\<close>
  accepts, what \<open>get_active_policy\<close> returns, and which applications
  \<open>mark_update_apps\<close> marks.
\<close>

section \<open>Valid ids\<close>

definition valid_policy_lang :: "string set" where
  "valid_policy_lang =
     {t @ w | t w. t \<in> set policy_types \<and> w \<noteq> [] \<and> (\<forall>c\<in>set w. ascii_letter c)}"

lemma pattern_here_iff:
  "pattern_here s \<longleftrightarrow> (\<exists>t c w. t \<in> set policy_types \<and> ascii_letter c \<and> s = t @ c # w)"
proof
  assume "pattern_here s"
  then obtain t where t: "t \<in> set policy_types" and p: "g_str_has_prefix s t"
    and c: "case drop (length t) s of [] \<Rightarrow> False | c # _ \<Rightarrow> ascii_letter c"
    by (auto simp: pattern_here_def list_ex_iff)
  from c obtain c w where "drop (length t) s = c # w" and "ascii_letter c"
    by (auto split: list.splits)
  with p have "s = t @ c # w"
    by (metis append_take_drop_id g_str_has_prefix_def)
  with t \<open>ascii_letter c\<close> show "\<exists>t c w. t \<in> set policy_types \<and> ascii_letter c \<and> s = t @ c # w"
    by blast
next
  assume "\<exists>t c w. t \<in> set policy_types \<and> ascii_letter c \<and> s = t @ c # w"
  then obtain t c w where t: "t \<in> set policy_types" and c: "ascii_letter c"
    and s: "s = t @ c # w" by blast
  from c s have "g_str_has_prefix s t \<and>
      (case drop (length t) s of [] \<Rightarrow> False | c # _ \<Rightarrow> ascii_letter c)"
    by (simp add: g_str_has_prefix_def)
  with t show "pattern_here s" unfolding pattern_here_def list_ex_iff by blast
qed

lemma pattern_here_lang:
  "pattern_here s \<longleftrightarrow> (\<exists>m post. s = m @ post \<and> m \<in> valid_policy_lang)"
proof
  assume "pattern_here s"
  then obtain t c w where "t \<in> set policy_types" "ascii_letter c" "s = t @ c # w"
    by (auto simp: pattern_here_iff)
  moreover from calculation have "t @ [c] \<in> valid_policy_lang"
    unfolding valid_policy_lang_def by (intro CollectI exI[of _ t] exI[of _ "[c]"]) simp
  ultimately have "s = (t @ [c]) @ w \<and> t @ [c] \<in> valid_policy_lang" by simp
  then show "\<exists>m post. s = m @ post \<and> m \<in> valid_policy_lang" by blast
next
  assume "\<exists>m post. s = m @ post \<and> m \<in> valid_policy_lang"
  then obtain t w post where "t \<in> set policy_types" "w \<noteq> []" "\<forall>c\<in>set w. ascii_letter c"
    "s = (t @ w) @ post"
    by (auto simp: valid_policy_lang_def)
  then show "pattern_here s"
    unfolding pattern_here_iff by (cases w) (simp_all, blast)
qed

lemma valid_policy_ids_match_iff:
  "valid_policy_ids_match s \<longleftrightarrow> (\<exists>pre rest. s = pre @ rest \<and> pattern_here rest)"
proof (induction s)
  case Nil
  then show ?case by simp
next
  case (Cons c cs)
  then show ?case
    by (auto simp: Cons_eq_append_conv)
qed

text \<open>
  \<open>is_valid_policy_id\<close> is the search of \<open>g_regex_match\<close>: an id is accepted exactly
  when some part of it matches \<open>(selinux|user|group):[a-zA-Z]+\<close>. The pattern is not
  anchored, so text before and after the match is accepted too.
\<close>

lemma is_valid_policy_id_search:
  "is_valid_policy_id (Some s) \<longleftrightarrow>
     (\<exists>pre m post. s = pre @ m @ post \<and> m \<in> valid_policy_lang)"
  unfolding is_valid_policy_id_def option.case valid_policy_ids_match_iff pattern_here_lang
  by blast

section \<open>The active policy\<close>

abbreviation prio :: "string \<Rightarrow> int" where "prio pid \<equiv> get_policy_priority (Some pid)"

lemma prio_range: "prio pid \<in> {-1, 0, 1, 2}"
  by (simp add: get_policy_priority_def)

text \<open>The declarative choice: the first loaded id of the highest priority in the list.\<close>

definition chosen_policy :: "(string, pold_policy) ghash \<Rightarrow> int \<Rightarrow> string list \<Rightarrow> string \<Rightarrow> bool" where
  "chosen_policy t m ids pid \<longleftrightarrow>
     (\<exists>pre post. ids = pre @ pid # post \<and> gh_contains t pid \<and> m < prio pid
        \<and> (\<forall>x\<in>set pre. gh_contains t x \<longrightarrow> prio x < prio pid)
        \<and> (\<forall>x\<in>set post. gh_contains t x \<longrightarrow> prio x \<le> prio pid))"

definition no_policy :: "(string, pold_policy) ghash \<Rightarrow> int \<Rightarrow> string list \<Rightarrow> bool" where
  "no_policy t m ids \<longleftrightarrow> (\<forall>x\<in>set ids. gh_contains t x \<longrightarrow> prio x \<le> m)"

lemma active_policy_loop_none: "no_policy t m ids \<Longrightarrow> active_policy_loop t ids p m = p"
  by (induction ids) (fastforce simp: no_policy_def Let_def)+

lemma active_policy_loop_chosen:
  "chosen_policy t m ids pid \<Longrightarrow> active_policy_loop t ids p m = Some (TablePolicy pid)"
proof -
  have "active_policy_loop t (pre @ pid # post) p m = Some (TablePolicy pid)"
    if "gh_contains t pid" "m < prio pid"
      "\<forall>x\<in>set pre. gh_contains t x \<longrightarrow> prio x < prio pid"
      "\<forall>x\<in>set post. gh_contains t x \<longrightarrow> prio x \<le> prio pid" for pre post
    using that
  proof (induction pre arbitrary: p m)
    case Nil
    then show ?case
      by (simp add: Let_def active_policy_loop_none no_policy_def del: gh_contains_iff)
  next
    case (Cons x pre)
    then show ?case by (simp add: Let_def del: gh_contains_iff)
  qed
  then show "chosen_policy t m ids pid \<Longrightarrow> ?thesis"
    by (auto simp: chosen_policy_def simp del: gh_contains_iff)
qed

lemma chosen_policy_Cons_max:
  assumes "gh_contains t x" and "m < prio x" and "no_policy t (prio x) ids"
  shows "chosen_policy t m (x # ids) x"
  unfolding chosen_policy_def
  by (rule exI[of _ "[]"], rule exI[of _ ids])
    (use assms in \<open>auto simp: no_policy_def simp del: gh_contains_iff\<close>)

lemma chosen_policy_Cons:
  assumes "chosen_policy t m ids pid" and "gh_contains t x \<longrightarrow> prio x < prio pid"
  shows "chosen_policy t m (x # ids) pid"
proof -
  from assms(1) obtain pre post where "ids = pre @ pid # post" and "gh_contains t pid"
    and "m < prio pid" and "\<forall>y\<in>set pre. gh_contains t y \<longrightarrow> prio y < prio pid"
    and "\<forall>y\<in>set post. gh_contains t y \<longrightarrow> prio y \<le> prio pid"
    by (auto simp: chosen_policy_def simp del: gh_contains_iff)
  with assms(2) show ?thesis
    unfolding chosen_policy_def
    by (intro exI[of _ "x # pre"] exI[of _ post]) (simp del: gh_contains_iff)
qed

lemma chosen_policy_mono: "chosen_policy t k ids pid \<Longrightarrow> m \<le> k \<Longrightarrow> chosen_policy t m ids pid"
  by (fastforce simp: chosen_policy_def simp del: gh_contains_iff)

lemma chosen_policy_exists: "no_policy t m ids \<or> (\<exists>pid. chosen_policy t m ids pid)"
proof (induction ids arbitrary: m)
  case Nil
  then show ?case by (simp add: no_policy_def)
next
  case (Cons x ids)
  show ?case
  proof (cases "gh_contains t x \<and> m < prio x")
    case True
    from Cons.IH[of "prio x"] show ?thesis
    proof
      assume "no_policy t (prio x) ids"
      with True show ?thesis by (blast intro: chosen_policy_Cons_max)
    next
      assume "\<exists>pid. chosen_policy t (prio x) ids pid"
      then obtain pid where c: "chosen_policy t (prio x) ids pid" ..
      then have "prio x < prio pid" by (auto simp: chosen_policy_def)
      moreover from c True have "chosen_policy t m ids pid"
        by (blast intro: chosen_policy_mono less_imp_le)
      ultimately show ?thesis by (blast intro: chosen_policy_Cons)
    qed
  next
    case False
    from Cons.IH[of m] show ?thesis
    proof
      assume "no_policy t m ids"
      with False have "no_policy t m (x # ids)"
        by (auto simp: no_policy_def simp del: gh_contains_iff)
      then show ?thesis ..
    next
      assume "\<exists>pid. chosen_policy t m ids pid"
      then obtain pid where c: "chosen_policy t m ids pid" ..
      then have "m < prio pid" by (auto simp: chosen_policy_def)
      with False have "gh_contains t x \<longrightarrow> prio x < prio pid" by linarith
      with c show ?thesis by (blast intro: chosen_policy_Cons)
    qed
  qed
qed

lemma no_policy_not_chosen: "no_policy t m ids \<Longrightarrow> \<not> chosen_policy t m ids pid"
  by (auto simp: no_policy_def chosen_policy_def simp del: gh_contains_iff)

lemma get_active_policy_cases:
  "(get_active_policy st app = Some (TablePolicy pid) \<longleftrightarrow>
      chosen_policy (id_to_policy st) (-1) (policy_ids app) pid)
   \<and> (get_active_policy st app = Some DefaultPolicy \<longleftrightarrow>
      default_policy st \<noteq> None \<and> no_policy (id_to_policy st) (-1) (policy_ids app))"
proof -
  note chosen_policy_exists[of "id_to_policy st" "-1" "policy_ids app"]
  moreover have "get_active_policy st app = Some (TablePolicy p)"
    if "chosen_policy (id_to_policy st) (-1) (policy_ids app) p" for p
    using that by (simp add: get_active_policy_def active_policy_loop_chosen)
  moreover have "get_active_policy st app =
      (if default_policy st = None then None else Some DefaultPolicy)"
    if "no_policy (id_to_policy st) (-1) (policy_ids app)"
    using that by (simp add: get_active_policy_def active_policy_loop_none)
  ultimately show ?thesis
    using no_policy_not_chosen[of "id_to_policy st" "-1" "policy_ids app"]
    by (fastforce split: if_splits)
qed

text \<open>
  C8. \<open>get_active_policy\<close> returns the policy of the first id of highest priority
  (selinux before user before group) among the ids of the application that have a loaded
  policy, and the default policy exactly when no id with a known type has one.
\<close>

theorem get_active_policy_spec:
  "(get_active_policy st app = Some (TablePolicy pid) \<longleftrightarrow>
      chosen_policy (id_to_policy st) (-1) (policy_ids app) pid)
   \<and> (get_active_policy st app = Some DefaultPolicy \<longleftrightarrow>
      default_policy st \<noteq> None \<and> no_policy (id_to_policy st) (-1) (policy_ids app))"
  by (rule get_active_policy_cases)

lemma active_policy_Some:
  "default_policy st \<noteq> None \<Longrightarrow> \<exists>p. active_policy st app = Some p"
  using chosen_policy_exists[of "id_to_policy st" "-1" "policy_ids app"]
  by (auto simp: active_policy_def get_active_policy_def active_policy_loop_none
      active_policy_loop_chosen)
    (auto simp: chosen_policy_def)

lemma active_policy_cong:
  "id_to_policy s = id_to_policy t \<Longrightarrow> default_policy s = default_policy t
   \<Longrightarrow> policy_ids a = policy_ids b \<Longrightarrow> active_policy s a = active_policy t b"
  by (auto simp: active_policy_def get_active_policy_def split: option.splits)
    (metis policy_at.elims policy_at.simps)+

lemma unknown_type_never_active:
  "prio pid = -1 \<Longrightarrow> get_active_policy st app \<noteq> Some (TablePolicy pid)"
  by (auto simp: get_active_policy_cases chosen_policy_def)

text \<open>
  A well-formed id is not a usable one: \<open>superuser:root\<close> passes
  \<open>is_valid_policy_id\<close>, so an application is filed under it, but its priority is that of
  an unknown type and a policy loaded for it never becomes active.
\<close>

lemma unanchored_id_never_active:
  "is_valid_policy_id (Some ''superuser:root'') \<and>
   get_active_policy st \<lparr>app_id = a, policy_ids = [''superuser:root''], agent_policy_json = j\<rparr>
     \<noteq> Some (TablePolicy ''superuser:root'')"
  by (rule conjI, code_simp, rule unknown_type_never_active, code_simp)

section \<open>Marking applications\<close>

definition stale_app :: "policy_state \<Rightarrow> app_ref \<Rightarrow> bool" where
  "stale_app st r \<longleftrightarrow>
     (\<exists>app p. app_heap st r = Some app \<and> active_policy st app = Some p
        \<and> agent_policy_json app \<noteq> policy_json p)"

lemma mark_update_loop_step:
  assumes "mark_update_loop st ((key, r) # rest) marked = Some marked'"
  shows "mark_update_loop st rest (if stale_app st r then gh_add r marked else marked)
           = Some marked'"
  using assms by (auto simp: stale_app_def split: option.splits)

lemma mark_update_loop_set:
  "mark_update_loop st es marked = Some marked' \<Longrightarrow>
     set marked' = set marked \<union> {r \<in> snd ` set es. stale_app st r}"
proof (induction es arbitrary: marked)
  case (Cons e es)
  obtain key r where e: "e = (key, r)" by force
  from Cons.IH[OF mark_update_loop_step[OF Cons.prems[unfolded e]]] show ?case
    by (cases "stale_app st r") (auto simp: e)
qed simp

lemma mark_update_loop_distinct:
  "mark_update_loop st es marked = Some marked' \<Longrightarrow> distinct marked \<Longrightarrow> distinct marked'"
  by (induction st es marked rule: mark_update_loop.induct)
    (auto split: option.splits if_splits)

lemma mark_update_loop_Some:
  "default_policy st \<noteq> None \<Longrightarrow> \<forall>(k, r)\<in>set es. app_heap st r \<noteq> None \<Longrightarrow>
     \<exists>m. mark_update_loop st es marked = Some m"
proof (induction es arbitrary: marked)
  case (Cons e es)
  obtain key r where e: "e = (key, r)" by force
  with Cons.prems obtain app where app: "app_heap st r = Some app" by auto
  obtain p where "active_policy st app = Some p"
    using active_policy_Some[OF Cons.prems(1)] by blast
  with Cons app e show ?case by auto
qed simp

lemma mark_update_apps_lemma:
  assumes "mark_update_apps st = Some st'"
  shows "set (update_apps st') = {r \<in> snd ` set (app_id_to_app st). stale_app st r}
     \<and> distinct (update_apps st') \<and> st' = st\<lparr>update_apps := update_apps st'\<rparr>"
proof -
  from assms obtain m where "mark_update_loop st (app_id_to_app st) [] = Some m"
    and "st' = st\<lparr>update_apps := m\<rparr>"
    by (auto simp: mark_update_apps_def split: option.splits)
  with mark_update_loop_set[OF this(1)] mark_update_loop_distinct[OF this(1)] show ?thesis
    by simp
qed

text \<open>
  \<open>mark_update_apps\<close> marks exactly the watched applications whose active policy
  differs from the one their agent was last told, each once, and changes nothing else.
\<close>

lemma mark_update_apps_exact:
  assumes "mark_update_apps st = Some st'"
  shows "set (update_apps st') = {r \<in> snd ` set (app_id_to_app st). stale_app st r}
     \<and> distinct (update_apps st') \<and> st' = st\<lparr>update_apps := update_apps st'\<rparr>"
  by (rule mark_update_apps_lemma[OF assms])

end
