(* ===== verification/Policy_Apps.thy ===== *)
theory Policy_Apps
  imports Policy_Active
begin

text \<open>
  The bookkeeping of watched applications: the invariant that ties \<open>id_to_apps\<close>,
  \<open>app_id_to_app\<close> and the heap together, its preservation by watching, by the disconnect
  callback and by the removal of an agent's applications, and what each of them does.
\<close>

section \<open>The invariant\<close>

definition app_count :: "policy_state \<Rightarrow> string \<Rightarrow> app_ref \<Rightarrow> nat" where
  "app_count st pid r =
     (case gh_lookup (id_to_apps st) pid of None \<Rightarrow> 0 | Some l \<Rightarrow> count_list l (Some r))"

text \<open>Every list of applications starts with the NULL sentinel and has no other NULL.\<close>

definition sentinels :: "policy_state \<Rightarrow> bool" where
  "sentinels st \<longleftrightarrow>
     (\<forall>pid l. gh_lookup (id_to_apps st) pid = Some l \<longrightarrow> (\<exists>rs. l = None # map Some rs))"

definition id_count :: "policy_state \<Rightarrow> string \<Rightarrow> app_ref \<Rightarrow> nat" where
  "id_count st pid r =
     (case app_heap st r of None \<Rightarrow> 0 | Some app \<Rightarrow> count_list (policy_ids app) pid)"

definition apps_indexed :: "policy_state \<Rightarrow> bool" where
  "apps_indexed st \<longleftrightarrow>
     (\<forall>key r. gh_lookup (app_id_to_app st) key = Some r
        \<longleftrightarrow> (\<exists>app. app_heap st r = Some app \<and> app_id app = key))"

definition policy_wf :: "policy_state \<Rightarrow> bool" where
  "policy_wf st \<longleftrightarrow>
     gh_wf (id_to_apps st) \<and> gh_wf (app_id_to_app st) \<and> sentinels st \<and> apps_indexed st
     \<and> (\<forall>pid r. app_count st pid r = id_count st pid r)
     \<and> (\<forall>r. app_heap st r \<noteq> None \<longrightarrow> r < next_app st)
     \<and> (\<forall>r app. app_heap st r = Some app \<longrightarrow> CHR ''/'' \<in> set (app_id app))"

lemma policy_wfD:
  assumes "policy_wf st"
  shows "gh_wf (id_to_apps st)" "gh_wf (app_id_to_app st)" "sentinels st" "apps_indexed st"
    "app_count st pid r = id_count st pid r" "app_heap st r \<noteq> None \<Longrightarrow> r < next_app st"
    "app_heap st r = Some app \<Longrightarrow> CHR ''/'' \<in> set (app_id app)"
  using assms by (auto simp: policy_wf_def)

text \<open>Fields none of these operations look at may be changed freely.\<close>

lemma policy_wf_frame [wf_intros]:
  assumes "policy_wf st"
  shows "policy_wf (st\<lparr>update_apps := us\<rparr>)" "policy_wf (st\<lparr>id_to_policy := t\<rparr>)"
    "policy_wf (st\<lparr>default_policy := d\<rparr>)" "policy_wf (st\<lparr>own_policy := d\<rparr>)"
    "policy_wf (st\<lparr>disc_watches := ws\<rparr>)"
  using assms
  by (simp_all add: policy_wf_def sentinels_def apps_indexed_def app_count_def id_count_def)

lemma policy_wf_start: "policy_wf policy_start"
  by (simp add: policy_wf_def sentinels_def apps_indexed_def app_count_def id_count_def
      policy_start_def)

section \<open>Watching an application\<close>

lemma add_app_count:
  "app_count (add_app pid r st) p q = app_count st p q + (if p = pid \<and> q = r then 1 else 0)"
  by (auto simp: app_count_def add_app_def Let_def split: option.splits)

lemma sentinel_append:
  assumes "\<exists>rs. l = None # map Some rs"
  shows "\<exists>rs. l @ [Some r] = None # map Some rs"
proof -
  from assms obtain rs where "l = None # map Some rs" ..
  then have "l @ [Some r] = None # map Some (rs @ [r])" by simp
  then show ?thesis by blast
qed

lemma add_app_sentinels: "sentinels st \<Longrightarrow> sentinels (add_app pid r st)"
  by (auto simp: sentinels_def add_app_def Let_def intro: sentinel_append exI[of _ "[r]"]
      split: option.splits)

lemma add_app_frame [simp]:
  "app_heap (add_app pid r st) = app_heap st"
  "app_id_to_app (add_app pid r st) = app_id_to_app st"
  "id_to_policy (add_app pid r st) = id_to_policy st"
  "default_policy (add_app pid r st) = default_policy st"
  "disc_watches (add_app pid r st) = disc_watches st"
  "next_app (add_app pid r st) = next_app st"
  "gh_wf (id_to_apps st) \<Longrightarrow> gh_wf (id_to_apps (add_app pid r st))"
  by (simp_all add: add_app_def Let_def)

lemma append_policy_id_frame [simp]:
  "id_to_apps (append_policy_id pid r st) = id_to_apps st"
  "app_id_to_app (append_policy_id pid r st) = app_id_to_app st"
  "id_to_policy (append_policy_id pid r st) = id_to_policy st"
  "default_policy (append_policy_id pid r st) = default_policy st"
  "disc_watches (append_policy_id pid r st) = disc_watches st"
  "next_app (append_policy_id pid r st) = next_app st"
  "app_count (append_policy_id pid r st) p q = app_count st p q"
  "sentinels (append_policy_id pid r st) = sentinels st"
  by (simp_all add: append_policy_id_def app_count_def sentinels_def)

lemma append_policy_id_heap:
  "app_heap (append_policy_id pid r st) =
     (app_heap st)(r := map_option (\<lambda>app. app\<lparr>policy_ids := policy_ids app @ [pid]\<rparr>) (app_heap st r))"
  by (simp add: append_policy_id_def)

abbreviation valid_ids :: "string list \<Rightarrow> string list" where
  "valid_ids ids \<equiv> filter (\<lambda>pid. is_valid_policy_id (Some pid)) ids"

lemma watch_app_ids_frame [simp]:
  "app_id_to_app (watch_app_ids ids r st) = app_id_to_app st"
  "id_to_policy (watch_app_ids ids r st) = id_to_policy st"
  "default_policy (watch_app_ids ids r st) = default_policy st"
  "disc_watches (watch_app_ids ids r st) = disc_watches st"
  "next_app (watch_app_ids ids r st) = next_app st"
  "gh_wf (id_to_apps st) \<Longrightarrow> gh_wf (id_to_apps (watch_app_ids ids r st))"
  "sentinels st \<Longrightarrow> sentinels (watch_app_ids ids r st)"
  by (induction ids r st rule: watch_app_ids.induct) (simp_all add: add_app_sentinels)

lemma watch_app_ids_count:
  "app_count (watch_app_ids ids r st) p q =
     app_count st p q + (if q = r then count_list (valid_ids ids) p else 0)"
  by (induction ids r st rule: watch_app_ids.induct) (auto simp: add_app_count)

lemma watch_app_ids_heap:
  "app_heap (watch_app_ids ids r st) =
     (app_heap st)(r := map_option
        (\<lambda>app. app\<lparr>policy_ids := policy_ids app @ valid_ids ids\<rparr>) (app_heap st r))"
  by (induction ids r st rule: watch_app_ids.induct)
    (auto simp: append_policy_id_heap fun_eq_iff option.map_comp comp_def option.map_ident)

text \<open>The application object the code creates, before its agent's policy is recorded.\<close>

definition new_app :: "string \<Rightarrow> string list \<Rightarrow> pold_agent_app" where
  "new_app key ids = \<lparr>app_id = key, policy_ids = valid_ids ids, agent_policy_json = None\<rparr>"

definition watched :: "policy_state \<Rightarrow> string \<Rightarrow> pold_agent_app option" where
  "watched st key = Option.bind (gh_lookup (app_id_to_app st) key) (app_heap st)"

lemma watch_app_known:
  "gh_contains (app_id_to_app st) (app_id_of ag ap) \<Longrightarrow>
     pold_policy_watch_app ag ap ids st = Some st"
  by (simp add: pold_policy_watch_app_def Let_def)

definition fresh_app_state :: "string \<Rightarrow> string list \<Rightarrow> policy_state \<Rightarrow> policy_state" where
  "fresh_app_state key ids st =
     watch_app_ids ids (next_app st)
       (st\<lparr>next_app := Suc (next_app st),
           app_heap := (app_heap st)(next_app st := Some
             \<lparr>app_id = key, policy_ids = [], agent_policy_json = None\<rparr>)\<rparr>)"

lemma fresh_app_heap:
  "app_heap (fresh_app_state key ids st) = (app_heap st)(next_app st := Some (new_app key ids))"
  by (simp add: fresh_app_state_def watch_app_ids_heap new_app_def fun_eq_iff)

lemma app_count_frame [simp]:
  "app_count (st\<lparr>app_heap := h\<rparr>) p q = app_count st p q"
  "app_count (st\<lparr>next_app := n\<rparr>) p q = app_count st p q"
  "app_count (st\<lparr>app_id_to_app := t\<rparr>) p q = app_count st p q"
  "app_count (st\<lparr>disc_watches := w\<rparr>) p q = app_count st p q"
  by (simp_all add: app_count_def)

lemma fresh_app_count:
  "app_count (fresh_app_state key ids st) p q =
     app_count st p q + (if q = next_app st then count_list (valid_ids ids) p else 0)"
  by (simp add: fresh_app_state_def watch_app_ids_count)

lemma watch_app_new:
  assumes "\<not> gh_contains (app_id_to_app st) (app_id_of ag ap)"
    and "active_policy st (new_app (app_id_of ag ap) ids) = Some p"
  shows "pold_policy_watch_app ag ap ids st =
    Some (let key = app_id_of ag ap; r = next_app st; st2 = fresh_app_state key ids st in
      st2\<lparr>app_heap := (app_heap st2)(r := Some (new_app key ids\<lparr>agent_policy_json := policy_json p\<rparr>)),
          app_id_to_app := gh_replace key r (app_id_to_app st2),
          disc_watches := disc_watches st2 @ [(ap, r)]\<rparr>)"
proof -
  have "active_policy (fresh_app_state (app_id_of ag ap) ids st) (new_app (app_id_of ag ap) ids)
          = Some p"
    by (rule trans[OF active_policy_cong assms(2)]) (simp_all add: fresh_app_state_def)
  with assms(1) fresh_app_heap[of "app_id_of ag ap" ids st] show ?thesis
    by (simp add: pold_policy_watch_app_def Let_def fresh_app_state_def del: gh_contains_iff)
qed

lemma fresh_app_frame [simp]:
  "app_id_to_app (fresh_app_state key ids st) = app_id_to_app st"
  "disc_watches (fresh_app_state key ids st) = disc_watches st"
  "id_to_policy (fresh_app_state key ids st) = id_to_policy st"
  "default_policy (fresh_app_state key ids st) = default_policy st"
  "next_app (fresh_app_state key ids st) = Suc (next_app st)"
  "gh_wf (id_to_apps st) \<Longrightarrow> gh_wf (id_to_apps (fresh_app_state key ids st))"
  by (simp_all add: fresh_app_state_def)

lemma fresh_app_sentinels: "sentinels st \<Longrightarrow> sentinels (fresh_app_state key ids st)"
  unfolding fresh_app_state_def by (rule watch_app_ids_frame(7)) (simp add: sentinels_def)

lemma app_id_of_slash [simp]: "CHR ''/'' \<in> set (app_id_of ag ap)"
  by (simp add: app_id_of_def)

lemma fresh_app_wf:
  assumes wf: "policy_wf st" and new: "gh_lookup (app_id_to_app st) key = None"
    and slash: "CHR ''/'' \<in> set key"
  shows "policy_wf ((fresh_app_state key ids st)
    \<lparr>app_heap := (app_heap (fresh_app_state key ids st))
        (next_app st := Some (new_app key ids\<lparr>agent_policy_json := j\<rparr>)),
     app_id_to_app := gh_replace key (next_app st) (app_id_to_app (fresh_app_state key ids st))\<rparr>)"
    (is "policy_wf ?s")
proof -
  have free: "app_heap st (next_app st) = None"
    using policy_wfD(6)[OF wf, of "next_app st"] by blast
  have cnt: "app_count st p (next_app st) = 0" for p
    using policy_wfD(5)[OF wf] free by (simp add: id_count_def)
  have "app_count ?s p q = id_count ?s p q" for p q
    using policy_wfD(5)[OF wf, of p q] cnt[of p]
    by (cases "q = next_app st") (simp_all add: fresh_app_count fresh_app_heap id_count_def new_app_def)
  moreover have "sentinels ?s"
    using fresh_app_sentinels[OF policy_wfD(3)[OF wf]] by (simp add: sentinels_def)
  moreover have "apps_indexed ?s"
    unfolding apps_indexed_def
  proof (intro allI)
    fix k q
    have ix: "gh_lookup (app_id_to_app st) k = Some q
        \<longleftrightarrow> (\<exists>app. app_heap st q = Some app \<and> app_id app = k)"
      using policy_wfD(4)[OF wf] by (simp add: apps_indexed_def)
    with free new show "gh_lookup (app_id_to_app ?s) k = Some q
        \<longleftrightarrow> (\<exists>app. app_heap ?s q = Some app \<and> app_id app = k)"
      by (cases "q = next_app st"; cases "k = key") (auto simp: fresh_app_heap new_app_def)
  qed
  ultimately show ?thesis
    using policy_wfD(1,2,6,7)[OF wf] slash
    by (auto simp: policy_wf_def fresh_app_heap less_Suc_eq new_app_def)
qed

lemma watch_app_lemma:
  assumes wf: "policy_wf st" and def: "default_policy st \<noteq> None"
  shows "\<exists>st'. pold_policy_watch_app ag ap ids st = Some st' \<and> policy_wf st'
     \<and> (gh_contains (app_id_to_app st) (app_id_of ag ap) \<longrightarrow> st' = st)
     \<and> (\<not> gh_contains (app_id_to_app st) (app_id_of ag ap) \<longrightarrow>
          (\<exists>p. active_policy st (new_app (app_id_of ag ap) ids) = Some p
             \<and> watched st' (app_id_of ag ap) =
                 Some (new_app (app_id_of ag ap) ids\<lparr>agent_policy_json := policy_json p\<rparr>))
          \<and> disc_watches st' = disc_watches st @ [(ap, next_app st)])"
proof (cases "gh_contains (app_id_to_app st) (app_id_of ag ap)")
  case True
  with wf show ?thesis by (intro exI[of _ st]) (simp add: watch_app_known)
next
  case False
  obtain p where p: "active_policy st (new_app (app_id_of ag ap) ids) = Some p"
    using active_policy_Some[OF def] by blast
  from False have none: "gh_lookup (app_id_to_app st) (app_id_of ag ap) = None" by simp
  show ?thesis
    using policy_wf_frame(5)[OF fresh_app_wf[OF wf none app_id_of_slash, of ids "policy_json p"],
        of "disc_watches st @ [(ap, next_app st)]"]
      watch_app_new[OF False p] p False
    by (simp add: Let_def fresh_app_heap watched_def)
qed

text \<open>
  C9. Watching an application of a well-formed store succeeds and keeps the store
  well-formed. A known application is left alone; a new one is filed under the ids the
  pattern accepts, remembers its active policy, and gets one disconnect watch for its owner.
\<close>

theorem watch_app_correct:
  assumes wf: "policy_wf st" and def: "default_policy st \<noteq> None"
  shows "\<exists>st'. pold_policy_watch_app ag ap ids st = Some st' \<and> policy_wf st'
     \<and> (gh_contains (app_id_to_app st) (app_id_of ag ap) \<longrightarrow> st' = st)
     \<and> (\<not> gh_contains (app_id_to_app st) (app_id_of ag ap) \<longrightarrow>
          (\<exists>p. active_policy st (new_app (app_id_of ag ap) ids) = Some p
             \<and> watched st' (app_id_of ag ap) =
                 Some (new_app (app_id_of ag ap) ids\<lparr>agent_policy_json := policy_json p\<rparr>))
          \<and> disc_watches st' = disc_watches st @ [(ap, next_app st)])"
  by (rule watch_app_lemma[OF wf def])

theorem watch_app_correct_witness:
  "policy_wf (policy_start\<lparr>default_policy := Some \<lparr>policy_id = ''d'', policy_json = Some ''{}''\<rparr>\<rparr>)
   \<and> (\<exists>st'. pold_policy_watch_app '':1'' '':2'' [''user:foo'', ''bad'']
        (policy_start\<lparr>default_policy := Some \<lparr>policy_id = ''d'', policy_json = Some ''{}''\<rparr>\<rparr>)
      = Some st' \<and> policy_wf st')"
proof -
  let ?st = "policy_start\<lparr>default_policy := Some \<lparr>policy_id = ''d'', policy_json = Some ''{}''\<rparr>\<rparr>"
  have wf: "policy_wf ?st" by (rule policy_wf_frame[OF policy_wf_start])
  have d: "default_policy ?st \<noteq> None" by simp
  show ?thesis using wf watch_app_correct[OF wf d] by metis
qed

lemma watched_Some_iff:
  "policy_wf st \<Longrightarrow> watched st key = Some app \<longleftrightarrow> (\<exists>r. app_heap st r = Some app \<and> app_id app = key)"
  using policy_wfD(4)[of st] unfolding watched_def apps_indexed_def bind_eq_Some_conv
  by (metis option.inject)

lemma live_app_unique:
  "policy_wf st \<Longrightarrow> app_heap st r = Some a \<Longrightarrow> app_heap st q = Some b \<Longrightarrow>
     app_id a = app_id b \<Longrightarrow> q = r"
  using policy_wfD(4)[of st] unfolding apps_indexed_def by (metis option.inject)

lemma watched_None_iff:
  "policy_wf st \<Longrightarrow> watched st key = None \<longleftrightarrow> (\<forall>r app. app_heap st r = Some app \<longrightarrow> app_id app \<noteq> key)"
  using watched_Some_iff[of st key] by (metis not_None_eq)

section \<open>The disconnect callback\<close>

lemma unlink_app_correct:
  "sentinels st \<Longrightarrow> gh_wf (id_to_apps st) \<Longrightarrow>
     \<exists>t. unlink_app pids r st = Some (st\<lparr>id_to_apps := t\<rparr>) \<and> gh_wf t
       \<and> sentinels (st\<lparr>id_to_apps := t\<rparr>)
       \<and> (\<forall>p q. app_count (st\<lparr>id_to_apps := t\<rparr>) p q =
            (if q = r then app_count st p q - count_list pids p else app_count st p q))"
proof (induction pids arbitrary: st)
  case Nil
  then show ?case by (intro exI[of _ "id_to_apps st"]) (simp add: app_count_def)
next
  case (Cons pid pids)
  show ?case
  proof (cases "gh_lookup (id_to_apps st) pid")
    case None
    then have "app_count st pid r = 0" by (simp add: app_count_def)
    with None Cons.IH[OF Cons.prems] show ?thesis by (auto simp: app_count_def)
  next
    case (Some l)
    with Cons.prems(1) obtain rs where l: "l = None # map Some rs"
      by (auto simp: sentinels_def)
    define st1 where "st1 = st\<lparr>id_to_apps :=
      gh_replace pid (None # remove1 (Some r) (map Some rs)) (id_to_apps st)\<rparr>"
    have m: "remove1 (Some r) (map Some rs) = map Some (remove1 r rs)"
      by (induction rs) auto
    have "sentinels st1"
      using Cons.prems(1) by (auto simp: sentinels_def st1_def m)
    moreover have "gh_wf (id_to_apps st1)" using Cons.prems(2) by (simp add: st1_def)
    ultimately obtain t where t: "unlink_app pids r st1 = Some (st1\<lparr>id_to_apps := t\<rparr>)"
      "gh_wf t" "sentinels (st1\<lparr>id_to_apps := t\<rparr>)"
      "\<forall>p q. app_count (st1\<lparr>id_to_apps := t\<rparr>) p q =
            (if q = r then app_count st1 p q - count_list pids p else app_count st1 p q)"
      using Cons.IH by blast
    have c: "app_count st1 p q = (if p = pid \<and> q = r then app_count st p q - 1 else app_count st p q)"
      for p q
      using Some l by (auto simp: app_count_def st1_def count_list_remove1)
    have [simp]: "st1\<lparr>id_to_apps := t\<rparr> = st\<lparr>id_to_apps := t\<rparr>" by (simp add: st1_def)
    from Some l t show ?thesis
      by (intro exI[of _ t]) (auto simp: c st1_def[symmetric])
  qed
qed

lemma stop_watching_app_correct:
  assumes wf: "policy_wf st" and r: "app_heap st r = Some app"
  shows "\<exists>t. stop_watching_app r st =
      Some (st\<lparr>id_to_apps := t, app_id_to_app := gh_remove (app_id app) (app_id_to_app st),
               app_heap := (app_heap st)(r := None)\<rparr>)
    \<and> policy_wf (st\<lparr>id_to_apps := t, app_id_to_app := gh_remove (app_id app) (app_id_to_app st),
               app_heap := (app_heap st)(r := None)\<rparr>)"
proof -
  obtain t where t: "unlink_app (policy_ids app) r st = Some (st\<lparr>id_to_apps := t\<rparr>)" "gh_wf t"
    "sentinels (st\<lparr>id_to_apps := t\<rparr>)"
    and cnt: "\<And>p q. app_count (st\<lparr>id_to_apps := t\<rparr>) p q =
      (if q = r then app_count st p q - count_list (policy_ids app) p else app_count st p q)"
    using unlink_app_correct[OF policy_wfD(3)[OF wf] policy_wfD(1)[OF wf], of "policy_ids app" r] by blast
  let ?s = "st\<lparr>id_to_apps := t, app_id_to_app := gh_remove (app_id app) (app_id_to_app st),
               app_heap := (app_heap st)(r := None)\<rparr>"
  have key: "gh_lookup (app_id_to_app st) (app_id app) = Some r"
    using policy_wfD(4)[OF wf] r by (auto simp: apps_indexed_def)
  have "app_count ?s p q = app_count (st\<lparr>id_to_apps := t\<rparr>) p q" for p q
    by (simp add: app_count_def)
  then have "app_count ?s p q = id_count ?s p q" for p q
    using policy_wfD(5)[OF wf, of p q] r by (cases "q = r") (simp_all add: cnt id_count_def)
  moreover have "sentinels ?s" using t(3) by (simp add: sentinels_def)
  moreover have "apps_indexed ?s"
    unfolding apps_indexed_def
  proof (intro allI)
    fix k q
    have ix: "gh_lookup (app_id_to_app st) k = Some q
        \<longleftrightarrow> (\<exists>app. app_heap st q = Some app \<and> app_id app = k)"
      using policy_wfD(4)[OF wf] by (simp add: apps_indexed_def)
    with r key show "gh_lookup (app_id_to_app ?s) k = Some q
        \<longleftrightarrow> (\<exists>app. app_heap ?s q = Some app \<and> app_id app = k)"
      by (cases "q = r"; cases "k = app_id app") auto
  qed
  ultimately have "policy_wf ?s"
    using policy_wfD(2,6,7)[OF wf] t(2) by (auto simp: policy_wf_def)
  with t(1) r key show ?thesis
    by (intro exI[of _ t]) (simp add: stop_watching_app_def remove_app_entry_def free_app_def)
qed

section \<open>Removing the applications of an agent\<close>

lemma fill_from_list_correct:
  "\<forall>r\<in>set rs. app_heap st r \<noteq> None \<Longrightarrow>
     \<exists>acc'. fill_from_list st ag (map Some rs) acc = Some acc'
       \<and> set acc' = set acc \<union>
           {r \<in> set rs. \<exists>app. app_heap st r = Some app \<and> g_str_has_prefix (app_id app) ag}
       \<and> (distinct acc \<longrightarrow> distinct acc')"
proof (induction rs arbitrary: acc)
  case (Cons r rs)
  then obtain app where app: "app_heap st r = Some app" by auto
  from Cons.prems have "\<forall>r\<in>set rs. app_heap st r \<noteq> None" by simp
  from Cons.IH[OF this, of "if g_str_has_prefix (app_id app) ag then gh_add r acc else acc"] app
  show ?case by (auto split: if_splits)
qed simp

lemma fill_apps_correct:
  assumes "\<forall>(pid, l)\<in>set es. \<exists>rs. l = None # map Some rs \<and> (\<forall>r\<in>set rs. app_heap st r \<noteq> None)"
  shows "\<exists>acc'. fill_apps_to_remove st ag es acc = Some acc'
       \<and> set acc' = set acc \<union>
           {r. \<exists>pid l app. (pid, l) \<in> set es \<and> Some r \<in> set l \<and> app_heap st r = Some app
              \<and> g_str_has_prefix (app_id app) ag}
       \<and> (distinct acc \<longrightarrow> distinct acc')"
  using assms
proof (induction es arbitrary: acc)
  case (Cons e es)
  obtain pid l where e: "e = (pid, l)" by force
  with Cons.prems obtain rs where l: "l = None # map Some rs"
    and live: "\<forall>r\<in>set rs. app_heap st r \<noteq> None" by auto
  from fill_from_list_correct[OF live, of ag acc] obtain a1 where
    a1: "fill_from_list st ag (map Some rs) acc = Some a1"
      "set a1 = set acc \<union>
         {r \<in> set rs. \<exists>app. app_heap st r = Some app \<and> g_str_has_prefix (app_id app) ag}"
      "distinct acc \<longrightarrow> distinct a1" by blast
  from Cons.prems have "\<forall>(pid, l)\<in>set es. \<exists>rs. l = None # map Some rs
      \<and> (\<forall>r\<in>set rs. app_heap st r \<noteq> None)" by simp
  from Cons.IH[OF this, of a1] obtain a2 where
    a2: "fill_apps_to_remove st ag es a1 = Some a2"
      "set a2 = set a1 \<union>
           {r. \<exists>pid l app. (pid, l) \<in> set es \<and> Some r \<in> set l \<and> app_heap st r = Some app
              \<and> g_str_has_prefix (app_id app) ag}"
      "distinct a1 \<longrightarrow> distinct a2" by blast
  have "{r. \<exists>pid' l' app. (pid', l') \<in> set (e # es) \<and> Some r \<in> set l' \<and> app_heap st r = Some app
              \<and> g_str_has_prefix (app_id app) ag} =
      {r \<in> set rs. \<exists>app. app_heap st r = Some app \<and> g_str_has_prefix (app_id app) ag} \<union>
      {r. \<exists>pid l app. (pid, l) \<in> set es \<and> Some r \<in> set l \<and> app_heap st r = Some app
              \<and> g_str_has_prefix (app_id app) ag}"
    by (force simp: e l)
  with a1 a2 show ?case by (simp add: e l Un_assoc)
qed simp

lemma app_count_pos:
  "app_count st pid r \<noteq> 0 \<longleftrightarrow> (\<exists>l. gh_lookup (id_to_apps st) pid = Some l \<and> Some r \<in> set l)"
  by (cases "gh_lookup (id_to_apps st) pid") (auto simp: app_count_def count_list_0_iff)

lemma wf_list_member:
  assumes wf: "policy_wf st"
  shows "(\<exists>pid l. (pid, l) \<in> set (id_to_apps st) \<and> Some r \<in> set l)
    \<longleftrightarrow> (\<exists>app. app_heap st r = Some app \<and> policy_ids app \<noteq> [])"
proof -
  have "(\<exists>pid l. (pid, l) \<in> set (id_to_apps st) \<and> Some r \<in> set l) \<longleftrightarrow> (\<exists>pid. app_count st pid r \<noteq> 0)"
    unfolding app_count_pos by (simp add: gh_mem_lookup[OF policy_wfD(1)[OF wf]])
  also have "\<dots> \<longleftrightarrow> (\<exists>app. app_heap st r = Some app \<and> policy_ids app \<noteq> [])"
    by (cases "app_heap st r")
      (auto simp: policy_wfD(5)[OF wf] id_count_def count_list_0_iff intro: last_in_set)
  finally show ?thesis .
qed

lemma wf_lists_live:
  assumes wf: "policy_wf st"
  shows "\<forall>(pid, l)\<in>set (id_to_apps st).
    \<exists>rs. l = None # map Some rs \<and> (\<forall>r\<in>set rs. app_heap st r \<noteq> None)"
proof clarify
  fix pid l
  assume m: "(pid, l) \<in> set (id_to_apps st)"
  with policy_wfD(1,3)[OF wf] obtain rs where l: "l = None # map Some rs"
    by (auto simp: gh_mem_lookup sentinels_def)
  have "app_heap st r \<noteq> None" if "r \<in> set rs" for r
    using wf_list_member[OF wf, of r] m that l by fastforce
  with l show "\<exists>rs. l = None # map Some rs \<and> (\<forall>r\<in>set rs. app_heap st r \<noteq> None)" by blast
qed

lemma stop_watching_apps_correct:
  "policy_wf st \<Longrightarrow> distinct rs \<Longrightarrow> \<forall>r\<in>set rs. app_heap st r \<noteq> None \<Longrightarrow>
     \<exists>st'. stop_watching_apps rs st = Some st' \<and> policy_wf st'
       \<and> app_heap st' = (\<lambda>r. if r \<in> set rs then None else app_heap st r)
       \<and> disc_watches st' = disc_watches st"
proof (induction rs arbitrary: st)
  case Nil
  then show ?case by simp
next
  case (Cons r rs)
  then obtain app where app: "app_heap st r = Some app" by auto
  from stop_watching_app_correct[OF Cons.prems(1) app] obtain st1 where
    st1: "stop_watching_app r st = Some st1" "policy_wf st1"
      "app_heap st1 = (app_heap st)(r := None)" "disc_watches st1 = disc_watches st" by auto
  have "\<forall>q\<in>set rs. app_heap st1 q \<noteq> None" using Cons.prems(2,3) st1(3) by auto
  from Cons.IH[OF st1(2) _ this] Cons.prems(2) obtain st2 where
    "stop_watching_apps rs st1 = Some st2" "policy_wf st2"
    "app_heap st2 = (\<lambda>q. if q \<in> set rs then None else app_heap st1 q)"
    "disc_watches st2 = disc_watches st1" by auto
  with st1 show ?case by (intro exI[of _ st2]) (auto simp: fun_eq_iff)
qed

lemma remove_agent_lemma:
  assumes wf: "policy_wf st"
  shows "\<exists>st'. pold_remove_agent_apps ag st = Some st' \<and> policy_wf st'
    \<and> app_heap st' = (\<lambda>r. case app_heap st r of
         None \<Rightarrow> None
       | Some app \<Rightarrow> if policy_ids app \<noteq> [] \<and> prefix ag (app_id app) then None else Some app)
    \<and> disc_watches st' = disc_watches st"
proof -
  let ?R = "{r. \<exists>app. app_heap st r = Some app \<and> policy_ids app \<noteq> [] \<and> prefix ag (app_id app)}"
  have eq: "{r. \<exists>pid l app. (pid, l) \<in> set (id_to_apps st) \<and> Some r \<in> set l
      \<and> app_heap st r = Some app \<and> g_str_has_prefix (app_id app) ag} = ?R"
    unfolding g_str_has_prefix_iff
  proof (rule Collect_cong)
    fix r
    show "(\<exists>pid l app. (pid, l) \<in> set (id_to_apps st) \<and> Some r \<in> set l
        \<and> app_heap st r = Some app \<and> prefix ag (app_id app)) \<longleftrightarrow>
      (\<exists>app. app_heap st r = Some app \<and> policy_ids app \<noteq> [] \<and> prefix ag (app_id app))"
      using wf_list_member[OF wf, of r] by (metis option.inject)
  qed
  from fill_apps_correct[OF wf_lists_live[OF wf], of ag "[]"] obtain rs where
    rs: "fill_apps_to_remove st ag (id_to_apps st) [] = Some rs" "set rs = ?R" "distinct rs"
    unfolding eq by auto
  from rs(2) have "\<forall>r\<in>set rs. app_heap st r \<noteq> None" by auto
  from stop_watching_apps_correct[OF wf rs(3) this] obtain st' where
    "stop_watching_apps rs st = Some st'" "policy_wf st'"
    "app_heap st' = (\<lambda>r. if r \<in> set rs then None else app_heap st r)"
    "disc_watches st' = disc_watches st" by blast
  with rs(1,2) show ?thesis
    by (intro exI[of _ st']) (auto simp: pold_remove_agent_apps_def fun_eq_iff split: option.splits)
qed

text \<open>
  C10. What \<open>pold_remove_agent_apps\<close> does, exactly: it never touches freed memory and keeps
  the store well-formed; it frees the applications that have at least one policy id and
  whose id starts with the agent's bus name, and no others. No disconnect watch is removed.
  The comment of the function promises the applications that correspond to the agent: those
  without a valid policy id stay (\<open>remove_agent_keeps_unfiled\<close>), and those of an agent with a
  longer name go too (\<open>remove_agent_drops_longer_names\<close>).
\<close>

theorem remove_agent_apps_exact:
  assumes wf: "policy_wf st"
  shows "\<exists>st'. pold_remove_agent_apps ag st = Some st' \<and> policy_wf st'
    \<and> app_heap st' = (\<lambda>r. case app_heap st r of
         None \<Rightarrow> None
       | Some app \<Rightarrow> if policy_ids app \<noteq> [] \<and> prefix ag (app_id app) then None else Some app)
    \<and> disc_watches st' = disc_watches st"
  by (rule remove_agent_lemma[OF wf])

text \<open>A store with one default policy, for the concrete runs of the witnesses.\<close>

definition demo_store :: policy_state where
  "demo_store = policy_start\<lparr>default_policy := Some \<lparr>policy_id = ''d'', policy_json = Some ''{}''\<rparr>\<rparr>"

lemma demo_store_wf: "policy_wf demo_store" "default_policy demo_store \<noteq> None"
  by (simp_all add: demo_store_def policy_wf_frame[OF policy_wf_start])

text \<open>The store after watching one application \<open>app\<close> of the agent \<open>ag\<close>, a user \<open>foo\<close>.\<close>

definition demo_watch :: "string \<Rightarrow> string \<Rightarrow> policy_state \<Rightarrow> policy_state" where
  "demo_watch ag ap st = the (pold_policy_watch_app ag ap [''user:foo''] st)"

lemma demo_watch_eq:
  assumes "policy_wf st" and "default_policy st \<noteq> None"
  shows "pold_policy_watch_app ag ap [''user:foo''] st = Some (demo_watch ag ap st)"
    and "policy_wf (demo_watch ag ap st)"
  using watch_app_lemma[OF assms, of ag ap "[''user:foo'']"] by (auto simp: demo_watch_def)

lemma demo_valid: "is_valid_policy_id (Some ''user:foo'')"
  by code_simp

lemma demo_watch_heap:
  assumes wf: "policy_wf st" and def: "default_policy st \<noteq> None"
    and new: "gh_lookup (app_id_to_app st) (app_id_of ag ap) = None"
  shows "\<exists>j. app_heap (demo_watch ag ap st) =
      (app_heap st)(next_app st := Some \<lparr>app_id = app_id_of ag ap, policy_ids = [''user:foo''],
         agent_policy_json = j\<rparr>)"
    "default_policy (demo_watch ag ap st) \<noteq> None"
    "next_app (demo_watch ag ap st) = Suc (next_app st)"
    "app_id_to_app (demo_watch ag ap st) =
       gh_replace (app_id_of ag ap) (next_app st) (app_id_to_app st)"
    "disc_watches (demo_watch ag ap st) = disc_watches st @ [(ap, next_app st)]"
proof -
  obtain p where p: "active_policy st (new_app (app_id_of ag ap) [''user:foo'']) = Some p"
    using active_policy_Some[OF def] by blast
  from new have "\<not> gh_contains (app_id_to_app st) (app_id_of ag ap)" by simp
  note eq = watch_app_new[OF this p]
  show "\<exists>j. app_heap (demo_watch ag ap st) =
      (app_heap st)(next_app st := Some \<lparr>app_id = app_id_of ag ap, policy_ids = [''user:foo''],
         agent_policy_json = j\<rparr>)"
    by (rule exI[of _ "policy_json p"])
      (simp add: demo_watch_def eq Let_def fresh_app_heap, simp add: new_app_def demo_valid)
  show "default_policy (demo_watch ag ap st) \<noteq> None"
    "next_app (demo_watch ag ap st) = Suc (next_app st)"
    "app_id_to_app (demo_watch ag ap st) =
       gh_replace (app_id_of ag ap) (next_app st) (app_id_to_app st)"
    "disc_watches (demo_watch ag ap st) = disc_watches st @ [(ap, next_app st)]"
    using def by (simp_all add: demo_watch_def eq Let_def)
qed

text \<open>A store with applications of two agents, \<open>:1.1\<close> and \<open>:1.2\<close>.\<close>

lemma demo_new: "gh_lookup (app_id_to_app demo_store) key = None"
  by (simp add: demo_store_def policy_start_def)

definition two_agents :: policy_state where
  "two_agents = demo_watch '':1.2'' '':6'' (demo_watch '':1.1'' '':5'' demo_store)"

lemma two_agents_facts:
  "policy_wf two_agents"
  "\<exists>j. app_heap two_agents 0 =
     Some \<lparr>app_id = app_id_of '':1.1'' '':5'', policy_ids = [''user:foo''], agent_policy_json = j\<rparr>"
  "\<exists>j. app_heap two_agents 1 =
     Some \<lparr>app_id = app_id_of '':1.2'' '':6'', policy_ids = [''user:foo''], agent_policy_json = j\<rparr>"
proof -
  note h = demo_watch_heap[OF demo_store_wf demo_new[of "app_id_of '':1.1'' '':5''"]]
  note wf = demo_watch_eq(2)[OF demo_store_wf, of "'':1.1''" "'':5''"]
  have n: "next_app demo_store = 0" "app_id_to_app demo_store = []"
    by (simp_all add: demo_store_def policy_start_def)
  have "gh_lookup (app_id_to_app (demo_watch '':1.1'' '':5'' demo_store)) (app_id_of '':1.2'' '':6'') = None"
    by (simp add: h(4) n(2) app_id_of_def)
  note k = demo_watch_heap[OF wf h(2) this]
  from demo_watch_eq(2)[OF wf h(2)] show "policy_wf two_agents" by (simp add: two_agents_def)
  from k(1) h(1,3) n show
    "\<exists>j. app_heap two_agents 0 =
       Some \<lparr>app_id = app_id_of '':1.1'' '':5'', policy_ids = [''user:foo''], agent_policy_json = j\<rparr>"
    "\<exists>j. app_heap two_agents 1 =
       Some \<lparr>app_id = app_id_of '':1.2'' '':6'', policy_ids = [''user:foo''], agent_policy_json = j\<rparr>"
    by (auto simp: two_agents_def)
qed

theorem remove_agent_apps_exact_witness:
  "\<exists>st' app. pold_remove_agent_apps '':1.1'' two_agents = Some st'
     \<and> app_heap two_agents 0 \<noteq> None \<and> app_heap st' 0 = None
     \<and> app_heap st' 1 = Some app \<and> app_id app = '':1.2/:6''"
proof -
  from remove_agent_apps_exact[OF two_agents_facts(1), of "'':1.1''"] obtain st' where
    st': "pold_remove_agent_apps '':1.1'' two_agents = Some st'"
      "app_heap st' = (\<lambda>r. case app_heap two_agents r of None \<Rightarrow> None
         | Some app \<Rightarrow> if policy_ids app \<noteq> [] \<and> prefix '':1.1'' (app_id app) then None else Some app)"
    by blast
  from two_agents_facts(2,3) show ?thesis
    by (auto simp: st' app_id_of_def)
qed

text \<open>
  Agents are told apart by a prefix of the application id that does not include the
  separating slash. When the agent \<open>ag\<close> goes, every application of an agent whose bus
  name merely starts with \<open>ag\<close> (as \<open>:1.10\<close> starts with \<open>:1.1\<close>) is dropped too.
\<close>

lemma remove_agent_drops_longer_names:
  assumes "policy_wf st" and "watched st (app_id_of (ag @ ext) ap) = Some app"
    and "policy_ids app \<noteq> []"
  shows "\<exists>st'. pold_remove_agent_apps ag st = Some st'
    \<and> watched st' (app_id_of (ag @ ext) ap) = None"
  using remove_agent_lemma[OF assms(1), of ag] assms
  by (auto simp: watched_None_iff watched_Some_iff app_id_of_def split: option.splits if_splits)
    (metis live_app_unique option.inject)

text \<open>
  An application none of whose ids is valid is in no list of \<open>id_to_apps\<close>, so it outlives its
  agent.
\<close>

lemma remove_agent_keeps_unfiled:
  assumes "policy_wf st" and "app_heap st r = Some app" and "policy_ids app = []"
  shows "\<exists>st'. pold_remove_agent_apps ag st = Some st' \<and> app_heap st' r = Some app"
  using remove_agent_lemma[OF assms(1), of ag] assms(2,3) by auto

lemma demo_watched:
  "\<exists>j. watched (demo_watch ag ap demo_store) (app_id_of ag ap) =
     Some \<lparr>app_id = app_id_of ag ap, policy_ids = [''user:foo''], agent_policy_json = j\<rparr>"
  using demo_watch_heap[OF demo_store_wf demo_new[of "app_id_of ag ap"]]
  by (auto simp: watched_def)

text \<open>
  C40. The disconnect watch of an application outlives it: after its agent unregistered, the
  watch is still installed and its callback argument points to freed memory, so the
  disconnect of the application makes \<open>stop_watching_app\<close> read a freed object.
\<close>

theorem unregister_then_disconnect_use_after_free:
  assumes "policy_wf st" and "app_heap st r = Some app" and "(owner, r) \<in> set (disc_watches st)"
    and "policy_ids app \<noteq> []" and "prefix ag (app_id app)"
  shows "\<exists>st'. pold_remove_agent_apps ag st = Some st'
    \<and> (owner, r) \<in> set (disc_watches st') \<and> stop_watching_app r st' = None"
  using remove_agent_lemma[OF assms(1), of ag] assms(2-5)
  by (auto simp: stop_watching_app_def split: option.split)

theorem unregister_then_disconnect_use_after_free_witness:
  "\<exists>st'. pold_remove_agent_apps '':1.1'' (demo_watch '':1.1'' '':5'' demo_store) = Some st'
     \<and> ('':5'', 0) \<in> set (disc_watches st') \<and> stop_watching_app 0 st' = None"
proof -
  note h = demo_watch_heap[OF demo_store_wf demo_new[of "app_id_of '':1.1'' '':5''"]]
  have n: "next_app demo_store = 0" by (simp add: demo_store_def policy_start_def)
  from h(1) obtain j where "app_heap (demo_watch '':1.1'' '':5'' demo_store) 0 =
      Some \<lparr>app_id = app_id_of '':1.1'' '':5'', policy_ids = [''user:foo''], agent_policy_json = j\<rparr>"
    by (auto simp: n)
  from unregister_then_disconnect_use_after_free[OF demo_watch_eq(2)[OF demo_store_wf] this,
      of "'':5''" "'':1.1''"] h(5) n
  show ?thesis by (simp add: app_id_of_def)
qed

end
