(* ===== verification/Policy_Files.thy ===== *)
theory Policy_Files
  imports Policy_Apps "HOL-Library.Multiset"
begin

text \<open>
  The policy files: what deleting, saving and loading the policy directory does, and the
  update from the server that chains them (\<open>update_policies_cb\<close>).
\<close>

section \<open>File names\<close>

abbreviation policy_file :: "string \<Rightarrow> bool" where
  "policy_file name \<equiv> suffix ''.policy'' name"

lemma valid_filename_iff: "is_valid_policy_filename (full_path dir name) \<longleftrightarrow> policy_file name"
proof -
  have "''.policy'' \<noteq> xs @ CHR ''/'' # ys" for xs ys
  proof
    assume "''.policy'' = xs @ CHR ''/'' # ys"
    then have "CHR ''/'' \<in> set ''.policy''" by (simp only:) simp
    then show False by simp
  qed
  then show ?thesis
    by (auto simp: is_valid_policy_filename_def g_str_has_suffix_iff full_path_def
        suffix_append suffix_Cons)
qed

lemma policy_file_name_policy [simp]: "policy_file (policy_file_name i)"
  by (simp add: policy_file_name_def suffix_def)

lemma policy_file_name_inj: "policy_file_name i = policy_file_name j \<longleftrightarrow> i = j"
  by (auto simp: policy_file_name_def dest: show_nat_inj)

section \<open>Deleting\<close>

lemma delete_policies_loop_ok:
  "\<forall>(name, c)\<in>set es. policy_file name \<longrightarrow> \<not> unlink_fails d name \<Longrightarrow>
     delete_policies_loop dir es d =
       (0, d\<lparr>policy_dir := filter (\<lambda>(n, c). \<not> (policy_file n \<and> n \<in> fst ` set es)) (policy_dir d)\<rparr>)"
proof (induction es arbitrary: d)
  case Nil
  then show ?case by (simp add: case_prod_beta)
next
  case (Cons e es)
  obtain name c where e: "e = (name, c)" by force
  show ?case
  proof (cases "policy_file name")
    case True
    let ?d = "d\<lparr>policy_dir := AList.delete name (policy_dir d)\<rparr>"
    have "\<forall>(n, c)\<in>set es. policy_file n \<longrightarrow> \<not> unlink_fails ?d n"
      using Cons.prems by auto
    note IH = Cons.IH[OF this]
    have "filter (\<lambda>(n, c). \<not> (policy_file n \<and> n \<in> fst ` set es)) (AList.delete name (policy_dir d))
      = filter (\<lambda>(n, c). \<not> (policy_file n \<and> n \<in> fst ` set (e # es))) (policy_dir d)"
      unfolding AList.delete_eq filter_filter by (rule filter_cong) (use True in \<open>auto simp: e\<close>)
    with IH True Cons.prems show ?thesis by (simp add: e valid_filename_iff)
  next
    case False
    then have "filter (\<lambda>(n, c). \<not> (policy_file n \<and> n \<in> fst ` set es)) (policy_dir d) =
      filter (\<lambda>(n, c). \<not> (policy_file n \<and> n \<in> fst ` set (e # es))) (policy_dir d)"
      by (intro filter_cong) (auto simp: e)
    with False Cons show ?thesis by (simp add: e valid_filename_iff)
  qed
qed

text \<open>
  What is asked of the disk: the directory can be opened, reading it returns each of its
  files once, in whatever order, and its files can be removed.
\<close>

definition lists_all :: "disk \<Rightarrow> bool" where
  "lists_all d \<longleftrightarrow> (\<forall>es. mset (listing d es) = mset es)"

definition unlink_ok :: "disk \<Rightarrow> bool" where
  "unlink_ok d \<longleftrightarrow> \<not> open_fails d \<and> lists_all d
     \<and> (\<forall>n\<in>fst ` set (policy_dir d). \<not> unlink_fails d n)"

lemma lists_all_entries: "lists_all d \<Longrightarrow> mset (dir_entries d) = mset (policy_dir d)"
  by (simp add: lists_all_def dir_entries_def)

lemma lists_all_set: "lists_all d \<Longrightarrow> set (dir_entries d) = set (policy_dir d)"
  by (drule lists_all_entries) (rule mset_eq_setD)

lemma delete_all_policies_lemma:
  assumes "unlink_ok d"
  shows "delete_all_policies dir d =
    Some (0, d\<lparr>policy_dir := filter (\<lambda>(n, c). \<not> policy_file n) (policy_dir d)\<rparr>)"
proof -
  have s: "set (dir_entries d) = set (policy_dir d)" "\<not> open_fails d"
    using assms lists_all_set by (simp_all add: unlink_ok_def)
  have "filter (\<lambda>(n, c). \<not> (policy_file n \<and> n \<in> fst ` set (dir_entries d))) (policy_dir d) =
      filter (\<lambda>(n, c). \<not> policy_file n) (policy_dir d)"
    by (intro filter_cong) (auto simp: image_iff s(1))
  moreover have "\<forall>(n, c)\<in>set (dir_entries d). policy_file n \<longrightarrow> \<not> unlink_fails d n"
    using assms s(1) by (auto simp: unlink_ok_def)
  ultimately show ?thesis
    unfolding delete_all_policies_def using s(2) delete_policies_loop_ok by simp
qed

section \<open>Saving\<close>

lemma AList_update_new: "k \<notin> fst ` set al \<Longrightarrow> AList.update k v al = al @ [(k, v)]"
  by (induction al) auto

definition saved_files :: "jansson \<Rightarrow> nat \<Rightarrow> json list \<Rightarrow> (string \<times> string) list" where
  "saved_files J i ps = map (\<lambda>(k, p). (policy_file_name k, the (json_dumps J p))) (enumerate i ps)"

lemma saved_files_simps [simp]:
  "saved_files J i [] = []"
  "saved_files J i (p # ps) = (policy_file_name i, the (json_dumps J p)) # saved_files J (Suc i) ps"
  by (simp_all add: saved_files_def)

lemma save_policies_loop_ok:
  assumes "\<forall>p\<in>set ps. json_is_object p \<and> json_dumps J p \<noteq> None"
    and "\<forall>k\<ge>i. policy_file_name k \<notin> fst ` set (policy_dir d) \<and> \<not> write_fails d (policy_file_name k)"
  shows "save_policies_loop J i ps d = (0, d\<lparr>policy_dir := policy_dir d @ saved_files J i ps\<rparr>)"
  using assms
proof (induction ps arbitrary: i d)
  case (Cons p ps)
  from Cons.prems obtain body where t: "json_dumps J p = Some body" by auto
  let ?d = "d\<lparr>policy_dir := policy_dir d @ [(policy_file_name i, body)]\<rparr>"
  have s: "save_policy i (json_dumps J p) d = (0, ?d)"
    using Cons.prems(2) t by (simp add: save_policy_def AList_update_new)
  have "\<forall>p\<in>set ps. json_is_object p \<and> json_dumps J p \<noteq> None" using Cons.prems(1) by simp
  moreover have "\<forall>k\<ge>Suc i. policy_file_name k \<notin> fst ` set (policy_dir ?d)
      \<and> \<not> write_fails ?d (policy_file_name k)"
    using Cons.prems(2) by (auto simp: policy_file_name_inj)
  ultimately have "save_policies_loop J (Suc i) ps ?d =
      (0, ?d\<lparr>policy_dir := policy_dir ?d @ saved_files J (Suc i) ps\<rparr>)"
    by (rule Cons.IH)
  with s t Cons.prems(1) show ?case by simp
qed simp

section \<open>Loading\<close>

definition json_id :: "json \<Rightarrow> string" where
  "json_id p = (case json_object_get p ''Id'' of Some (JString s) \<Rightarrow> s | _ \<Rightarrow> [])"

definition json_policy :: "jansson \<Rightarrow> json \<Rightarrow> pold_policy" where
  "json_policy J p = \<lparr>policy_id = json_id p, policy_json = json_dumps J p\<rparr>"

text \<open>
  A JSON value that is a policy and that Jansson prints and reads back unchanged (what its
  documentation promises of \<open>json_dumps\<close> and \<open>json_loads\<close> for an object).
\<close>

definition policy_roundtrips :: "jansson \<Rightarrow> json \<Rightarrow> bool" where
  "policy_roundtrips J p \<longleftrightarrow>
     json_is_object p \<and> (\<exists>s. json_object_get p ''Id'' = Some (JString s))
     \<and> (\<exists>body. json_dumps J p = Some body \<and> json_loads J body = Some p)"

lemma load_policy_roundtrip:
  "policy_roundtrips J p \<Longrightarrow> load_policy J (json_dumps J p) = Some (json_policy J p)"
  by (auto simp: policy_roundtrips_def load_policy_def json_policy_def json_id_def)

text \<open>The keys and policies of the directory entries that are policy files.\<close>

definition loaded_policies :: "jansson \<Rightarrow> (string \<times> string) list \<Rightarrow> (string \<times> pold_policy) list" where
  "loaded_policies J es =
     map (\<lambda>(n, c). let p = the (load_policy J (Some c)) in (policy_id p, p))
       (filter (\<lambda>(n, c). policy_file n) es)"

lemma load_policies_loop_ok:
  "\<forall>(n, c)\<in>set es. policy_file n \<longrightarrow> load_policy J (Some c) \<noteq> None \<Longrightarrow>
     load_policies_loop J dir es t =
       (0, fold (\<lambda>(k, p). gh_replace k p) (loaded_policies J es) t)"
proof (induction es arbitrary: t)
  case Nil
  then show ?case by (simp add: loaded_policies_def)
next
  case (Cons e es)
  obtain n c where e: "e = (n, c)" by force
  from Cons.prems have "\<forall>(n, c)\<in>set es. policy_file n \<longrightarrow> load_policy J (Some c) \<noteq> None"
    by simp
  note IH = Cons.IH[OF this]
  show ?case
  proof (cases "policy_file n")
    case True
    with Cons.prems e obtain p where "load_policy J (Some c) = Some p" by auto
    with True IH show ?thesis by (simp add: e valid_filename_iff loaded_policies_def)
  next
    case False
    with IH show ?thesis by (simp add: e valid_filename_iff loaded_policies_def)
  qed
qed

text \<open>The first policy file that cannot be loaded ends the loop with -ENOENT.\<close>

lemma load_policies_loop_fail:
  assumes "\<forall>(n, c)\<in>set pre. policy_file n \<longrightarrow> load_policy J (Some c) \<noteq> None"
    and "policy_file n" and "load_policy J (Some c) = None"
  shows "load_policies_loop J dir (pre @ (n, c) # post) t =
    (- ENOENT, fold (\<lambda>(k, p). gh_replace k p) (loaded_policies J pre) t)"
  using assms
proof (induction pre arbitrary: t)
  case Nil
  then show ?case by (simp add: loaded_policies_def valid_filename_iff)
next
  case (Cons e pre)
  obtain m b where e: "e = (m, b)" by force
  from Cons.prems(1) have "\<forall>(n, c)\<in>set pre. policy_file n \<longrightarrow> load_policy J (Some c) \<noteq> None"
    by simp
  note IH = Cons.IH[OF this Cons.prems(2,3)]
  show ?case
  proof (cases "policy_file m")
    case True
    with Cons.prems e obtain p where "load_policy J (Some b) = Some p" by auto
    with True IH show ?thesis by (simp add: e valid_filename_iff loaded_policies_def)
  next
    case False
    with IH show ?thesis by (simp add: e valid_filename_iff loaded_policies_def)
  qed
qed

lemma loaded_policies_saved:
  assumes "\<forall>p\<in>set ps. policy_roundtrips J p"
  shows "loaded_policies J (saved_files J i ps) = map (\<lambda>p. (json_id p, json_policy J p)) ps"
  using assms
proof (induction ps arbitrary: i)
  case Nil
  then show ?case by (simp add: loaded_policies_def)
next
  case (Cons p ps)
  then obtain body where "json_dumps J p = Some body" by (auto simp: policy_roundtrips_def)
  with Cons load_policy_roundtrip[of J p] show ?case
    by (simp add: loaded_policies_def Let_def) (simp add: json_policy_def)
qed

lemma loaded_policies_append:
  "loaded_policies J (xs @ ys) = loaded_policies J xs @ loaded_policies J ys"
  by (simp add: loaded_policies_def)

lemma loaded_policies_mset: "mset es = mset es' \<Longrightarrow> mset (loaded_policies J es) = mset (loaded_policies J es')"
  by (simp add: loaded_policies_def mset_map mset_filter)

text \<open>With distinct ids the order of the files does not matter.\<close>

lemma map_of_rev_mset:
  assumes "mset kvs = mset kvs'" and "distinct (map fst kvs')"
  shows "map_of (rev kvs) = map_of kvs'"
proof -
  from assms(1) have "mset (map fst kvs) = mset (map fst kvs')" by (simp add: mset_map)
  with assms(2) have "distinct (map fst kvs)" by (metis mset_eq_imp_distinct_iff)
  then have "map_of (rev kvs) = map_of kvs"
    by (intro map_of_eqI) (auto simp: distinct_rev rev_map[symmetric])
  also have "\<dots> = map_of kvs'"
    using assms \<open>distinct (map fst kvs)\<close> by (intro map_of_inject_set[THEN iffD2]) (auto dest: mset_eq_setD)
  finally show ?thesis .
qed

lemma loaded_policies_other: "\<forall>(n, c)\<in>set es. \<not> policy_file n \<Longrightarrow> loaded_policies J es = []"
  by (auto simp: loaded_policies_def filter_empty_conv)

end
