(* ===== verification/Policy_Update.thy ===== *)
theory Policy_Update
  imports Policy_Files
begin

text \<open>
  Telling the agents. The store relies on the manager for one operation, sending an update
  to an agent; two locales are that interface: \<open>agent_updates\<close> (an update is announced
  exactly when the operation returns 0) and \<open>total_updates\<close> (for which agents and policies
  the operation is defined). Theories \<open>Manager_Props\<close> and \<open>Manager_Agents\<close> interpret them with
  \<open>pold_manager_update_agent\<close>. Then the whole update from the server.
\<close>

section \<open>The update loop, for any updater\<close>

lemma set_agent_policy_json_frame [simp]:
  "id_to_apps (set_agent_policy_json r j st) = id_to_apps st"
  "app_id_to_app (set_agent_policy_json r j st) = app_id_to_app st"
  "id_to_policy (set_agent_policy_json r j st) = id_to_policy st"
  "default_policy (set_agent_policy_json r j st) = default_policy st"
  "own_policy (set_agent_policy_json r j st) = own_policy st"
  "default_dangling (set_agent_policy_json r j st) = default_dangling st"
  "own_dangling (set_agent_policy_json r j st) = own_dangling st"
  "next_app (set_agent_policy_json r j st) = next_app st"
  "disc_watches (set_agent_policy_json r j st) = disc_watches st"
  by (simp_all add: set_agent_policy_json_def)

lemma set_agent_policy_json_heap:
  "app_heap (set_agent_policy_json r j st) q =
     (if q = r then map_option (\<lambda>app. app\<lparr>agent_policy_json := j\<rparr>) (app_heap st r)
      else app_heap st q)"
  by (simp add: set_agent_policy_json_def)

lemma set_agent_policy_json_wf [wf_intros]:
  assumes "policy_wf st"
  shows "policy_wf (set_agent_policy_json r j st)"
proof -
  have "app_count (set_agent_policy_json r j st) p q = id_count (set_agent_policy_json r j st) p q"
    for p q
    using policy_wfD(5)[OF assms, of p q]
    by (cases "app_heap st q"; cases "q = r")
      (simp_all add: app_count_def id_count_def set_agent_policy_json_heap)
  moreover have "apps_indexed (set_agent_policy_json r j st)"
    using policy_wfD(4)[OF assms]
    by (auto simp: apps_indexed_def set_agent_policy_json_heap)
  moreover have "sentinels (set_agent_policy_json r j st)"
    using policy_wfD(3)[OF assms] by (simp add: sentinels_def)
  ultimately show ?thesis
    using policy_wfD(1,2,6,7)[OF assms]
    by (auto simp: policy_wf_def set_agent_policy_json_heap split: if_splits)
qed

lemma split_app_id:
  assumes "CHR ''/'' \<in> set key"
  shows "\<exists>a b. g_strsplit2 key (CHR ''/'') = [a, b]"
proof -
  from split_list_first[OF assms] obtain xs ys where "key = xs @ CHR ''/'' # ys"
    and "CHR ''/'' \<notin> set xs" by blast
  then show ?thesis by (auto simp: g_strsplit2_append)
qed

text \<open>
  \<open>g_strsplit (app->id, "/", 2)\<close> gives back the two owners: bus names have no slash.
\<close>

lemma split_app_id_of:
  "CHR ''/'' \<notin> set ag \<Longrightarrow> g_strsplit2 (app_id_of ag ap) (CHR ''/'') = [ag, ap]"
  by (simp add: app_id_of_def g_strsplit2_append)

text \<open>The message the agent of an application gets, and the store after the first updates.\<close>

definition told_of :: "policy_state \<Rightarrow> app_ref \<Rightarrow> string list \<times> string option" where
  "told_of st r =
     (case app_heap st r of
        None \<Rightarrow> ([], None)
      | Some app \<Rightarrow> (g_strsplit2 (app_id app) (CHR ''/''),
                     Option.bind (active_policy st app) policy_json))"

definition synced_heap :: "policy_state \<Rightarrow> app_ref set \<Rightarrow> app_ref \<Rightarrow> pold_agent_app option" where
  "synced_heap st R r =
     (if r \<in> R
      then map_option (\<lambda>app. app\<lparr>agent_policy_json :=
             Option.bind (active_policy st app) policy_json\<rparr>) (app_heap st r)
      else app_heap st r)"

lemma synced_heap_None [simp]: "synced_heap st R r = None \<longleftrightarrow> app_heap st r = None"
  by (simp add: synced_heap_def)

lemma active_policy_synced:
  "id_to_policy s = id_to_policy t \<Longrightarrow> default_policy s = default_policy t \<Longrightarrow>
     active_policy s (app\<lparr>agent_policy_json := j\<rparr>) = active_policy t app"
  by (rule active_policy_cong) simp_all

text \<open>The loop changes what the applications know, and nothing else.\<close>

lemma update_agents_loop_frame:
  "update_agents_loop upd rs st w = Some (e, st', w') \<Longrightarrow>
     (policy_wf st \<longrightarrow> policy_wf st') \<and> id_to_policy st' = id_to_policy st
     \<and> default_policy st' = default_policy st \<and> own_policy st' = own_policy st
     \<and> default_dangling st' = default_dangling st \<and> own_dangling st' = own_dangling st
     \<and> app_id_to_app st' = app_id_to_app st"
proof (induction rs arbitrary: st w)
  case (Cons r rs)
  from Cons.prems obtain app p a b f w1 where app: "app_heap st r = Some app"
    and p: "active_policy st app = Some p" and ab: "g_strsplit2 (app_id app) (CHR ''/'') = [a, b]"
    and u: "upd a b p w = Some (f, w1)"
    by (auto split: option.splits list.splits)
  show ?case
  proof (cases "f = 0")
    case True
    let ?st = "set_agent_policy_json r (policy_json p) st"
    from Cons.prems True app p ab u have "update_agents_loop upd rs ?st w1 = Some (e, st', w')" by simp
    from Cons.IH[OF this] set_agent_policy_json_wf[of st r "policy_json p"] show ?thesis by auto
  qed (use Cons.prems app p ab u in simp)
qed simp

definition agent_of :: "pold_agent_app \<Rightarrow> string" where
  "agent_of app = hd (g_strsplit2 (app_id app) (CHR ''/''))"

text \<open>What every single update keeps, the loop and the whole callback keep.\<close>

lemma update_agents_loop_inv:
  "update_agents_loop upd rs st w = Some (e, st', w') \<Longrightarrow>
     (\<And>a b p w f w1. upd a b p w = Some (f, w1) \<Longrightarrow> P w \<Longrightarrow> P w1) \<Longrightarrow> P w \<Longrightarrow> P w'"
proof (induction rs arbitrary: st w)
  case (Cons r rs)
  from Cons.prems(1) obtain app p a b f w1 where app: "app_heap st r = Some app"
    and p: "active_policy st app = Some p" and ab: "g_strsplit2 (app_id app) (CHR ''/'') = [a, b]"
    and u: "upd a b p w = Some (f, w1)"
    by (auto split: option.splits list.splits)
  have w1: "P w1" by (rule Cons.prems(2)[OF u Cons.prems(3)])
  show ?case
  proof (cases "f = 0")
    case True
    with Cons.prems(1) app p ab u have
      "update_agents_loop upd rs (set_agent_policy_json r (policy_json p) st) w1 = Some (e, st', w')"
      by simp
    from Cons.IH[OF this Cons.prems(2) w1] show ?thesis .
  qed (use Cons.prems app p ab u w1 in simp)
qed simp

lemma update_policies_cb_inv:
  assumes "update_policies_cb J upd dir body d st w = Some (e, d', st', w')"
    and "\<And>a b p w f w1. upd a b p w = Some (f, w1) \<Longrightarrow> P w \<Longrightarrow> P w1" and "P w"
  shows "P w'"
  using assms(1,3) update_agents_loop_inv[of upd _ _ w _ _ w' P, OF _ assms(2)]
  by (auto simp: update_policies_cb_def update_agent_policies_def case_prod_beta Let_def
      split: option.splits if_splits prod.splits)

section \<open>The interface to the manager\<close>

locale agent_updates =
  fixes upd :: "string \<Rightarrow> string \<Rightarrow> pold_policy \<Rightarrow> 'w \<Rightarrow> (int \<times> 'w) option"
    and told :: "'w \<Rightarrow> 'm list"
    and announce :: "string list \<times> string option \<Rightarrow> 'm"
  assumes upd_ok: "upd a b p w = Some (0, w') \<Longrightarrow> told w' = told w @ [announce ([a, b], policy_json p)]"
    and upd_fails: "upd a b p w = Some (e, w') \<Longrightarrow> e \<noteq> 0 \<Longrightarrow> told w' = told w"
begin

text \<open>
  The loop serves a prefix of its list, all of it when it returns 0; each served
  application's agent is told once, in order, and the store remembers what it was told.
\<close>

lemma update_agents_loop_told:
  "update_agents_loop upd rs st w = Some (e, st', w') \<Longrightarrow> distinct rs \<Longrightarrow>
     \<exists>n\<le>length rs. told w' = told w @ map (announce \<circ> told_of st) (take n rs)
       \<and> app_heap st' = synced_heap st (set (take n rs))
       \<and> (e = 0 \<longrightarrow> n = length rs)"
proof (induction rs arbitrary: st w)
  case Nil
  then show ?case by (auto simp: synced_heap_def fun_eq_iff)
next
  case (Cons r rs)
  from Cons.prems(1) obtain app p a b f w1 where app: "app_heap st r = Some app"
    and p: "active_policy st app = Some p" and ab: "g_strsplit2 (app_id app) (CHR ''/'') = [a, b]"
    and u: "upd a b p w = Some (f, w1)"
    by (auto split: option.splits list.splits)
  show ?case
  proof (cases "f = 0")
    case False
    with Cons.prems app p ab u upd_fails[OF u] show ?thesis
      by (intro exI[of _ 0]) (auto simp: synced_heap_def fun_eq_iff)
  next
    case True
    let ?st = "set_agent_policy_json r (policy_json p) st"
    from Cons.prems(1) True app p ab u have "update_agents_loop upd rs ?st w1 = Some (e, st', w')"
      by simp
    moreover have "distinct rs" using Cons.prems(2) by simp
    ultimately obtain n where n: "n \<le> length rs"
      "told w' = told w1 @ map (announce \<circ> told_of ?st) (take n rs)"
      "app_heap st' = synced_heap ?st (set (take n rs))" "e = 0 \<longrightarrow> n = length rs"
      using Cons.IH by blast
    have act: "active_policy ?st x = active_policy st x" for x
      by (rule active_policy_cong) simp_all
    have r: "r \<notin> set (take n rs)" using Cons.prems(2) by (auto dest: in_set_takeD)
    then have "map (announce \<circ> told_of ?st) (take n rs) = map (announce \<circ> told_of st) (take n rs)"
      by (intro map_cong)
        (auto simp: told_of_def set_agent_policy_json_heap act split: option.split)
    moreover have "synced_heap ?st (set (take n rs)) = synced_heap st (set (take (Suc n) (r # rs)))"
      using r app p by (auto simp: synced_heap_def set_agent_policy_json_heap act fun_eq_iff)
    moreover have "told w1 = told w @ [announce (told_of st r)]"
      using upd_ok[OF u[unfolded True]] app p ab by (simp add: told_of_def)
    ultimately show ?thesis using n by (intro exI[of _ "Suc n"]) simp
  qed
qed

text \<open>When the agents of all marked applications could be told, no application is stale.\<close>

lemma update_agents_synced:
  assumes mark: "mark_update_apps st = Some st1"
    and upd: "update_agent_policies upd st1 w = Some (0, st2, w2)"
    and frame: "id_to_policy st2 = id_to_policy st1" "default_policy st2 = default_policy st1"
    and r: "r \<in> snd ` set (app_id_to_app st)"
  shows "\<not> stale_app st2 r"
proof
  note m = mark_update_apps_lemma[OF mark]
  from update_agents_loop_told[OF upd[unfolded update_agent_policies_def]] m
  have h: "app_heap st2 = synced_heap st1 (set (update_apps st1))" by auto
  from m obtain us where us: "st1 = st\<lparr>update_apps := us\<rparr>" by blast
  have s1: "app_heap st1 = app_heap st" "id_to_policy st1 = id_to_policy st"
    "default_policy st1 = default_policy st"
    by (simp_all add: us)
  assume "stale_app st2 r"
  then obtain app p where a: "app_heap st2 r = Some app" and p: "active_policy st2 app = Some p"
    and j: "agent_policy_json app \<noteq> policy_json p" by (auto simp: stale_app_def)
  have act: "active_policy st2 x = active_policy st1 x" "active_policy st1 x = active_policy st x" for x
    by (rule active_policy_cong; simp add: frame s1)+
  show False
  proof (cases "r \<in> set (update_apps st1)")
    case True
    with a h obtain app0 where "app = app0\<lparr>agent_policy_json :=
        Option.bind (active_policy st1 app0) policy_json\<rparr>"
      by (auto simp: synced_heap_def)
    with p j show False
      using active_policy_synced[OF frame, where app = app0] by auto
  next
    case False
    with a h s1 have "app_heap st r = Some app" by (simp add: synced_heap_def)
    with p j act r have "r \<in> set (update_apps st1)" using m by (auto simp: stale_app_def)
    with False show False ..
  qed
qed

end

lemma wf_index_live:
  assumes "policy_wf st"
  shows "\<forall>(k, r)\<in>set (app_id_to_app st). app_heap st r \<noteq> None"
  using policy_wfD(2,4)[OF assms] by (auto simp: apps_indexed_def gh_mem_lookup)

lemma mark_update_apps_Some:
  assumes "policy_wf st" and "default_policy st \<noteq> None"
  shows "\<exists>us. mark_update_apps st = Some (st\<lparr>update_apps := us\<rparr>)
    \<and> (\<forall>r\<in>set us. app_heap st r \<noteq> None)"
proof -
  from mark_update_loop_Some[OF assms(2) wf_index_live[OF assms(1)]] obtain us where
    "mark_update_loop st (app_id_to_app st) [] = Some us" by blast
  moreover from mark_update_loop_set[OF this] have "\<forall>r\<in>set us. app_heap st r \<noteq> None"
    by (auto simp: stale_app_def)
  ultimately show ?thesis by (auto simp: mark_update_apps_def)
qed

lemma mark_update_frame:
  assumes "mark_update_apps st = Some st1" and "update_agent_policies upd st1 w = Some (e, st2, w2)"
  shows "(policy_wf st \<longrightarrow> policy_wf st2) \<and> id_to_policy st2 = id_to_policy st
    \<and> default_policy st2 = default_policy st \<and> own_policy st2 = own_policy st
    \<and> default_dangling st2 = default_dangling st \<and> own_dangling st2 = own_dangling st"
proof -
  from assms(1) obtain us where st1: "st1 = st\<lparr>update_apps := us\<rparr>"
    by (auto simp: mark_update_apps_def split: option.splits)
  from update_agents_loop_frame[OF assms(2)[unfolded update_agent_policies_def]]
  show ?thesis by (auto simp: st1 policy_wf_frame)
qed

text \<open>Whatever the answer of the server, a store with its policies stays one.\<close>

lemma update_policies_cb_frame:
  assumes "update_policies_cb J upd dir body d st w = Some (e, d', st', w')"
  shows "(policy_wf st \<longrightarrow> policy_wf st') \<and> default_policy st' = default_policy st
    \<and> own_policy st' = own_policy st
    \<and> default_dangling st' = default_dangling st \<and> own_dangling st' = own_dangling st"
proof -
  have mark: "(policy_wf t \<longrightarrow> policy_wf t2) \<and> default_policy t2 = default_policy t \<and> own_policy t2 = own_policy t
      \<and> default_dangling t2 = default_dangling t \<and> own_dangling t2 = own_dangling t"
    if "mark_update_apps t = Some t1" "update_agent_policies upd t1 w = Some (f, t2, w2)" for t t1 f t2 w2
    using mark_update_frame[OF that] by simp
  have load: "(policy_wf st \<longrightarrow> policy_wf st3) \<and> default_policy st3 = default_policy st \<and> own_policy st3 = own_policy st
      \<and> default_dangling st3 = default_dangling st \<and> own_dangling st3 = own_dangling st"
    if "load_policies J dir d2 st = Some (f, st3)" for d2 f st3
    using that by (auto simp: load_policies_def case_prod_beta policy_wf_frame split: if_splits)
  from assms show ?thesis
    by (auto simp: update_policies_cb_def Let_def split: option.splits if_splits prod.splits
        dest!: mark load)
qed

section \<open>When an update is defined\<close>

text \<open>
  What the store needs to get through an update: telling an agent of a policy is defined for
  the agents and policies that are \<open>able\<close>, and leaves a world in which it still is.
\<close>

locale total_updates =
  fixes upd :: "string \<Rightarrow> string \<Rightarrow> pold_policy \<Rightarrow> 'w \<Rightarrow> (int \<times> 'w) option"
    and fine :: "'w \<Rightarrow> bool"
    and able :: "string \<Rightarrow> pold_policy \<Rightarrow> bool"
  assumes upd_total: "fine w \<Longrightarrow> able a p \<Longrightarrow> \<exists>e w'. upd a b p w = Some (e, w') \<and> fine w'"
begin

lemma update_agents_total:
  "policy_wf st \<Longrightarrow> default_policy st \<noteq> None \<Longrightarrow> fine w \<Longrightarrow>
     \<forall>r\<in>set rs. \<exists>app. app_heap st r = Some app
       \<and> (\<forall>p. active_policy st app = Some p \<longrightarrow> able (agent_of app) p) \<Longrightarrow>
     \<exists>e st' w'. update_agents_loop upd rs st w = Some (e, st', w') \<and> fine w'"
proof (induction rs arbitrary: st w)
  case (Cons r rs)
  then obtain app where app: "app_heap st r = Some app"
    and able: "\<forall>p. active_policy st app = Some p \<longrightarrow> able (agent_of app) p" by auto
  obtain p where p: "active_policy st app = Some p"
    using active_policy_Some[OF Cons.prems(2)] by blast
  obtain a b where ab: "g_strsplit2 (app_id app) (CHR ''/'') = [a, b]"
    using split_app_id[OF policy_wfD(7)[OF Cons.prems(1) app]] by blast
  from able p ab have "able a p" by (simp add: agent_of_def)
  from upd_total[OF Cons.prems(3) this] obtain e w1 where u: "upd a b p w = Some (e, w1)" "fine w1" by blast
  show ?case
  proof (cases "e = 0")
    case False
    with app p ab u show ?thesis by simp
  next
    case True
    let ?st = "set_agent_policy_json r (policy_json p) st"
    have act: "active_policy ?st (x\<lparr>agent_policy_json := j\<rparr>) = active_policy st x" "active_policy ?st x = active_policy st x"
      "active_policy st (x\<lparr>agent_policy_json := j\<rparr>) = active_policy st x" for x j
      by (rule active_policy_cong; simp)+
    have "\<exists>app. app_heap ?st q = Some app \<and> (\<forall>p. active_policy ?st app = Some p \<longrightarrow> able (agent_of app) p)"
      if q: "q \<in> set rs" for q
    proof -
      from Cons.prems(4) q obtain x where "app_heap st q = Some x"
        "\<forall>p. active_policy st x = Some p \<longrightarrow> able (agent_of x) p" by auto
      then show ?thesis by (cases "q = r") (simp_all add: set_agent_policy_json_heap act agent_of_def)
    qed
    with Cons.IH[OF set_agent_policy_json_wf[OF Cons.prems(1)] _ u(2), of r "policy_json p"] Cons.prems(2)
    show ?thesis using True app p ab u(1) by simp
  qed
qed simp

lemma mark_and_update_total:
  assumes wf: "policy_wf st" and def: "default_policy st \<noteq> None" and fine: "fine w"
    and able: "\<And>r app p. r \<in> snd ` set (app_id_to_app st) \<Longrightarrow> app_heap st r = Some app \<Longrightarrow>
      active_policy st app = Some p \<Longrightarrow> able (agent_of app) p"
  obtains st1 e st2 w2 where "mark_update_apps st = Some st1"
    "update_agent_policies upd st1 w = Some (e, st2, w2)" "fine w2"
proof -
  from mark_update_apps_Some[OF wf def] obtain us where
    us: "mark_update_apps st = Some (st\<lparr>update_apps := us\<rparr>)" and live: "\<forall>r\<in>set us. app_heap st r \<noteq> None"
    by blast
  let ?st = "st\<lparr>update_apps := us\<rparr>"
  have act: "active_policy ?st x = active_policy st x" for x by (rule active_policy_cong) simp_all
  have "set us \<subseteq> snd ` set (app_id_to_app st)"
    using mark_update_apps_lemma[OF us] by auto
  with live able have "\<forall>r\<in>set us. \<exists>app. app_heap ?st r = Some app
      \<and> (\<forall>p. active_policy ?st app = Some p \<longrightarrow> able (agent_of app) p)"
    by (fastforce simp: act)
  from update_agents_total[OF policy_wf_frame(1)[OF wf] _ fine this] def obtain e st2 w2 where
    "update_agents_loop upd us ?st w = Some (e, st2, w2)" "fine w2" by auto
  then show ?thesis by (intro that[OF us]) (simp_all add: update_agent_policies_def)
qed

end

section \<open>The update from the server\<close>

definition writes_ok :: "disk \<Rightarrow> bool" where
  "writes_ok d \<longleftrightarrow> (\<forall>k. \<not> write_fails d (policy_file_name k))"

lemma save_after_delete:
  assumes "json_loads J body = Some (JArray ps)" and "\<forall>p\<in>set ps. policy_roundtrips J p"
    and "writes_ok d" and "policy_dir d = filter (\<lambda>(n, c). \<not> policy_file n) es"
  shows "save_policies J body d = (0, d\<lparr>policy_dir := policy_dir d @ saved_files J 0 ps\<rparr>)"
  unfolding save_policies_def assms(1) option.case json.case
  by (rule save_policies_loop_ok) (use assms in \<open>auto simp: policy_roundtrips_def writes_ok_def\<close>)

lemma loadable_saved:
  assumes "\<forall>p\<in>set ps. policy_roundtrips J p"
  shows "\<forall>(n, c)\<in>set (saved_files J i ps). load_policy J (Some c) \<noteq> None"
proof -
  have "load_policy J (Some (the (json_dumps J p))) \<noteq> None" if "p \<in> set ps" for p
    using load_policy_roundtrip[of J p] assms that by (auto simp: policy_roundtrips_def)
  then show ?thesis
    by (auto simp: saved_files_def in_set_enumerate_eq)
qed

text \<open>Reading the saved files back, in whatever order the directory lists them.\<close>

abbreviation policies_by_id :: "jansson \<Rightarrow> json list \<Rightarrow> (string \<times> pold_policy) list" where
  "policies_by_id J ps \<equiv> map (\<lambda>p. (json_id p, json_policy J p)) ps"

lemma load_saved:
  assumes disk: "unlink_ok d" and ps: "\<forall>p\<in>set ps. policy_roundtrips J p" "distinct (map json_id ps)"
    and es: "es = filter (\<lambda>(n, c). \<not> policy_file n) (policy_dir d) @ saved_files J 0 ps"
  obtains t where "load_policies J dir (d\<lparr>policy_dir := es\<rparr>) st = Some (0, st\<lparr>id_to_policy := t\<rparr>)"
    "gh_lookup t = map_of (policies_by_id J ps)"
proof -
  let ?d = "d\<lparr>policy_dir := es\<rparr>"
  have all: "mset (dir_entries ?d) = mset es" "set (dir_entries ?d) = set es" "\<not> open_fails d"
    using disk lists_all_entries[of ?d] lists_all_set[of ?d] by (simp_all add: unlink_ok_def lists_all_def)
  have "\<forall>(n, c)\<in>set es. policy_file n \<longrightarrow> load_policy J (Some c) \<noteq> None"
    using loadable_saved[OF ps(1), of 0] unfolding es by fastforce
  then have ok: "\<forall>(n, c)\<in>set (dir_entries ?d). policy_file n \<longrightarrow> load_policy J (Some c) \<noteq> None"
    by (simp add: all(2))
  let ?t = "fold (\<lambda>(k, p). gh_replace k p) (loaded_policies J (dir_entries ?d)) gh_empty"
  have kvs: "loaded_policies J es = policies_by_id J ps"
    unfolding es loaded_policies_append loaded_policies_saved[OF ps(1)]
    using loaded_policies_other[of "filter (\<lambda>(n, c). \<not> policy_file n) (policy_dir d)" J]
    by (simp add: case_prod_beta)
  have "mset (loaded_policies J (dir_entries ?d)) = mset (policies_by_id J ps)"
    using loaded_policies_mset[OF all(1), of J] kvs by simp
  moreover have "distinct (map fst (policies_by_id J ps))" using ps(2) by (simp add: o_def)
  ultimately have rev: "map_of (rev (loaded_policies J (dir_entries ?d))) = map_of (policies_by_id J ps)"
    by (rule map_of_rev_mset)
  have "gh_lookup ?t = map_of (policies_by_id J ps)"
    by (rule ext) (simp only: gh.lookup_fold_replace rev, simp split: option.split)
  then show ?thesis
    using load_policies_loop_ok[OF ok, of dir gh_empty] all(3)
    by (intro that[of ?t]) (simp_all add: load_policies_def)
qed

lemma active_policy_source:
  assumes "active_policy st app = Some p"
  shows "default_policy st = Some p \<or> (\<exists>pid. gh_lookup (id_to_policy st) pid = Some p)"
proof -
  from assms obtain ptr where "policy_at st ptr = Some p"
    by (auto simp: active_policy_def bind_eq_Some_conv)
  then show ?thesis by (cases ptr) auto
qed

lemma disk_frame:
  "open_fails (snd (delete_policies_loop dir es d)) = open_fails d"
  "open_fails (snd (save_policies J text d)) = open_fails d"
proof -
  have "open_fails (snd (save_policies_loop J i ps d)) = open_fails d" for i ps
  proof (induction ps arbitrary: i d)
    case (Cons p ps)
    show ?case
      by (cases "save_policy i (json_dumps J p) d")
        (use Cons in \<open>auto simp: save_policy_def split: option.splits if_splits\<close>)
  qed simp
  then show "open_fails (snd (save_policies J text d)) = open_fails d"
    by (simp add: save_policies_def split: option.split json.split)
  show "open_fails (snd (delete_policies_loop dir es d)) = open_fails d"
    by (induction dir es d rule: delete_policies_loop.induct) simp_all
qed

lemma update_policies_cb_disk:
  assumes "update_policies_cb J upd dir body d st w = Some (e, d', st', w')"
  shows "open_fails d' = open_fails d"
proof (cases body)
  case (Some answer)
  obtain e1 d1 where d1: "delete_policies_loop dir (dir_entries d) d = (e1, d1)" by force
  obtain e2 d2 where d2: "save_policies J answer d1 = (e2, d2)" by force
  have "open_fails d1 = open_fails d" "open_fails d2 = open_fails d"
    using disk_frame(1)[of dir "dir_entries d" d] disk_frame(2)[of J answer d1] d1 d2 by simp_all
  moreover have "d' = d1 \<or> d' = d2"
    using assms Some d1 d2
    by (auto simp: update_policies_cb_def delete_all_policies_def split: option.splits if_splits)
  ultimately show ?thesis by blast
qed (use assms in \<open>simp add: update_policies_cb_def\<close>)

context total_updates
begin

text \<open>An update is defined whatever the server answers, if all agents can be told.\<close>

lemma update_policies_cb_total:
  assumes wf: "policy_wf st" and def: "default_policy st \<noteq> None" and fine: "fine w"
    and opens: "\<not> open_fails d"
    and able: "\<And>r app p. r \<in> snd ` set (app_id_to_app st) \<Longrightarrow> app_heap st r = Some app \<Longrightarrow>
      able (agent_of app) p"
  shows "update_policies_cb J upd dir body d st w \<noteq> None"
proof (cases body)
  case (Some answer)
  obtain e1 d1 where d1: "delete_policies_loop dir (dir_entries d) d = (e1, d1)" by force
  obtain e2 d2 where d2: "save_policies J answer d1 = (e2, d2)" by force
  have "\<not> open_fails d2"
    using opens disk_frame(1)[of dir "dir_entries d" d] disk_frame(2)[of J answer d1] d1 d2 by simp
  then obtain e3 t where st3: "load_policies J dir d2 st = Some (e3, st\<lparr>id_to_policy := t\<rparr>)"
    by (auto simp: load_policies_def case_prod_beta)
  have able': "able (agent_of app) p"
    if "r \<in> snd ` set (app_id_to_app (st\<lparr>id_to_policy := t\<rparr>))" "app_heap (st\<lparr>id_to_policy := t\<rparr>) r = Some app"
      "active_policy (st\<lparr>id_to_policy := t\<rparr>) app = Some p" for r app p
    using able that(1,2) by simp
  have def': "default_policy (st\<lparr>id_to_policy := t\<rparr>) \<noteq> None" using def by simp
  from mark_and_update_total[OF policy_wf_frame(2)[OF wf] def' fine able'] obtain st4 e st5 w5 where
    "mark_update_apps (st\<lparr>id_to_policy := t\<rparr>) = Some st4"
    "update_agent_policies upd st4 w = Some (e, st5, w5)" .
  with Some opens d1 d2 st3 show ?thesis
    by (simp add: update_policies_cb_def delete_all_policies_def)
qed (simp add: update_policies_cb_def)

lemma update_from_server_total:
  assumes wf: "policy_wf st" and def: "default_policy st \<noteq> None" and fine: "fine w"
    and disk: "unlink_ok d" "writes_ok d"
    and answer: "json_loads J body = Some (JArray ps)" "\<forall>p\<in>set ps. policy_roundtrips J p"
      "distinct (map json_id ps)"
    and able: "\<And>r app p. r \<in> snd ` set (app_id_to_app st) \<Longrightarrow> app_heap st r = Some app \<Longrightarrow>
      default_policy st = Some p \<or> p \<in> json_policy J ` set ps \<Longrightarrow> able (agent_of app) p"
  obtains d' st' w' where "update_policies_cb J upd dir (Some body) d st w = Some (0, d', st', w')"
    "set (policy_dir d') = {(n, c) \<in> set (policy_dir d). \<not> policy_file n} \<union> set (saved_files J 0 ps)"
    "policy_wf st'" "gh_lookup (id_to_policy st') = map_of (policies_by_id J ps)" "fine w'"
proof -
  let ?d1 = "d\<lparr>policy_dir := filter (\<lambda>(n, c). \<not> policy_file n) (policy_dir d)\<rparr>"
  let ?es = "filter (\<lambda>(n, c). \<not> policy_file n) (policy_dir d) @ saved_files J 0 ps"
  have save: "save_policies J body ?d1 = (0, d\<lparr>policy_dir := ?es\<rparr>)"
    using save_after_delete[OF answer(1,2), of ?d1 "policy_dir d"] disk(2)
    by (simp add: writes_ok_def)
  from load_saved[OF disk(1) answer(2,3) refl] obtain t where
    load: "load_policies J dir (d\<lparr>policy_dir := ?es\<rparr>) st = Some (0, st\<lparr>id_to_policy := t\<rparr>)"
    and t: "gh_lookup t = map_of (policies_by_id J ps)" .
  have act: "default_policy st = Some p \<or> p \<in> json_policy J ` set ps"
    if "active_policy (st\<lparr>id_to_policy := t\<rparr>) app = Some p" for app p
  proof -
    have "p \<in> json_policy J ` set ps" if "map_of (policies_by_id J ps) pid = Some p" for pid
      using map_of_SomeD[OF that] by auto
    with active_policy_source[OF that] show ?thesis by (auto simp: t)
  qed
  have able': "able (agent_of app) p"
    if "r \<in> snd ` set (app_id_to_app (st\<lparr>id_to_policy := t\<rparr>))" "app_heap (st\<lparr>id_to_policy := t\<rparr>) r = Some app"
      "active_policy (st\<lparr>id_to_policy := t\<rparr>) app = Some p" for r app p
    using able[of r app p] act[OF that(3)] that(1,2) by simp
  have def': "default_policy (st\<lparr>id_to_policy := t\<rparr>) \<noteq> None" using def by simp
  from mark_and_update_total[OF policy_wf_frame(2)[OF wf] def' fine able'] obtain st4 e st5 w5 where
    mu: "mark_update_apps (st\<lparr>id_to_policy := t\<rparr>) = Some st4"
      "update_agent_policies upd st4 w = Some (e, st5, w5)" "fine w5" .
  have cb: "update_policies_cb J upd dir (Some body) d st w = Some (0, d\<lparr>policy_dir := ?es\<rparr>, st5, w5)"
    by (simp add: update_policies_cb_def delete_all_policies_lemma[OF disk(1)] save load mu)
  from mark_update_frame[OF mu(1,2)] policy_wf_frame(2)[OF wf, of t] t
  have "policy_wf st5" "gh_lookup (id_to_policy st5) = map_of (policies_by_id J ps)" by simp_all
  then show ?thesis using mu(3) by (intro that[OF cb]) auto
qed

end

text \<open>
  An answer that is no JSON array costs the daemon its policy files: they are deleted
  before the answer is parsed, and only then -EINVAL is reported. The loaded policies stay.
\<close>

lemma invalid_answer_deletes_files:
  assumes "unlink_ok d" and "\<forall>ps. json_loads J body \<noteq> Some (JArray ps)"
  shows "update_policies_cb J upd dir (Some body) d st w =
    Some (- EINVAL, d\<lparr>policy_dir := filter (\<lambda>(n, c). \<not> policy_file n) (policy_dir d)\<rparr>, st, w)"
  using assms(2)
  by (auto simp: update_policies_cb_def delete_all_policies_lemma[OF assms(1)] save_policies_def
      split: option.split json.split)

text \<open>
  Loading stops at the first policy file that is no policy, with -ENOENT, and leaves
  the store with the policies of the files read before it only: the old ones are gone.
\<close>

lemma load_policies_stops_at_bad_file:
  assumes "\<not> open_fails d" and "dir_entries d = pre @ (n, c) # post"
    and "\<forall>(m, b)\<in>set pre. policy_file m \<longrightarrow> load_policy J (Some b) \<noteq> None"
    and "policy_file n" and "load_policy J (Some c) = None"
  shows "\<exists>st'. load_policies J dir d st = Some (- ENOENT, st')
    \<and> (\<forall>pid. pold_policy_get st' pid = map_of (rev (loaded_policies J pre)) pid)"
  using assms(1,2) load_policies_loop_fail[OF assms(3-5), of dir post gh_empty]
  by (simp add: load_policies_def pold_policy_get_def gh.lookup_fold_replace split: option.split)

text \<open>
  A policy directory that cannot be opened is undefined behaviour for everything that reads
  it: \<open>g_error\<close> is not initialised.
\<close>

lemma unreadable_directory_undefined:
  assumes "open_fails d"
  shows "load_policies J dir d st = None" "delete_all_policies dir d = None"
    "update_policies_cb J upd dir (Some body) d st w = None"
  using assms by (simp_all add: load_policies_def delete_all_policies_def update_policies_cb_def)

text \<open>A printer and parser for one policy and one answer, and a disk, for the witnesses.\<close>

definition demo_policy :: json where
  "demo_policy = JObject [(''Id'', JString ''user:foo'')]"

definition demo_jansson :: jansson where
  "demo_jansson =
     \<lparr>json_loads = (\<lambda>s. if s = ''P'' then Some demo_policy
        else if s = ''A'' then Some (JArray [demo_policy]) else None),
      json_dumps = (\<lambda>v. if v = demo_policy then Some ''P'' else None)\<rparr>"

definition demo_disk :: disk where
  "demo_disk =
     \<lparr>policy_dir = [(''old.policy'', ''X''), (''README'', ''r'')], listing = rev, open_fails = False,
      default_file = Some ''P'', own_file = Some ''P'',
      unlink_fails = (\<lambda>_. False), write_fails = (\<lambda>_. False)\<rparr>"

lemma demo_disk_ok: "unlink_ok demo_disk" "writes_ok demo_disk"
  by (simp_all add: demo_disk_def unlink_ok_def writes_ok_def lists_all_def)

lemma demo_answer:
  "json_loads demo_jansson ''A'' = Some (JArray [demo_policy])"
  "\<forall>p\<in>set [demo_policy]. policy_roundtrips demo_jansson p"
  by (simp_all add: demo_jansson_def policy_roundtrips_def) (simp add: demo_policy_def)

section \<open>Initialisation\<close>

lemma policy_wf_empty:
  "id_to_apps st = [] \<Longrightarrow> app_id_to_app st = [] \<Longrightarrow> app_heap st = (\<lambda>_. None) \<Longrightarrow> policy_wf st"
  by (simp add: policy_wf_def sentinels_def apps_indexed_def app_count_def id_count_def)

lemma fold_free_app [simp]:
  "default_policy (fold (\<lambda>(key, r). free_app r) xs st) = default_policy st"
  "own_policy (fold (\<lambda>(key, r). free_app r) xs st) = own_policy st"
  "default_dangling (fold (\<lambda>(key, r). free_app r) xs st) = default_dangling st"
  "own_dangling (fold (\<lambda>(key, r). free_app r) xs st) = own_dangling st"
  by (induction xs arbitrary: st) (auto simp: free_app_def)

definition holds_nothing :: "policy_state \<Rightarrow> bool" where
  "holds_nothing st \<longleftrightarrow> default_policy st = None \<and> own_policy st = None
     \<and> id_to_policy st = [] \<and> app_id_to_app st = []"

lemma init_outcome:
  "case pold_policy_init J dir d policy_start of
     None \<Rightarrow> open_fails d \<and> load_policy J (default_file d) \<noteq> None \<and> load_policy J (own_file d) \<noteq> None
   | Some (error, st) \<Rightarrow>
       if error = 0
       then policy_wf st \<and> app_id_to_app st = []
         \<and> default_policy st \<noteq> None \<and> default_policy st = load_policy J (default_file d)
         \<and> own_policy st \<noteq> None \<and> own_policy st = load_policy J (own_file d)
         \<and> \<not> default_dangling st \<and> \<not> own_dangling st
         \<and> load_policies_loop J dir (dir_entries d) [] = (0, id_to_policy st)
       else error = - ENOENT \<and> holds_nothing st
         \<and> (default_dangling st \<longleftrightarrow> load_policy J (default_file d) \<noteq> None)
         \<and> (own_dangling st \<longleftrightarrow> load_policy J (default_file d) \<noteq> None \<and> load_policy J (own_file d) \<noteq> None)"
proof -
  have neg: "fst (load_policies_loop J dir fs t) \<in> {0, - ENOENT}" for fs t
    by (induction J dir fs t rule: load_policies_loop.induct) (auto split: option.split)
  obtain e t where l: "load_policies_loop J dir (dir_entries d) [] = (e, t)" by force
  with neg[of "dir_entries d" "[]"] have e: "e = 0 \<or> e = - ENOENT" by simp
  show ?thesis
  proof (cases "load_policy J (default_file d)")
    case None
    then show ?thesis
      by (simp add: pold_policy_init_def init_default_policy_def hashtables_init_def hashtables_final_def
          policy_start_def holds_nothing_def)
  next
    case def: (Some p)
    show ?thesis
    proof (cases "load_policy J (own_file d)")
      case None
      with def show ?thesis
        by (simp add: pold_policy_init_def init_default_policy_def init_own_policy_def hashtables_init_def
            hashtables_final_def policy_start_def holds_nothing_def free_default_policy_def)
    next
      case (Some q)
      with def l e show ?thesis
        by (auto simp: pold_policy_init_def init_default_policy_def init_own_policy_def hashtables_init_def
            hashtables_final_def policy_start_def holds_nothing_def free_default_policy_def
            free_own_policy_def load_policies_def intro!: policy_wf_empty)
    qed
  qed
qed


text \<open>
  After a failed start the pointers dangle, so \<open>pold_policy_final\<close> would free the policies a
  second time; \<open>main\<close> does not call it then. After a successful one it leaves nothing.
\<close>

lemma final_after_failed_init:
  assumes "pold_policy_init J dir d policy_start = Some (error, st)"
    and "error \<noteq> 0" and "load_policy J (default_file d) \<noteq> None"
  shows "pold_policy_final st = None"
  using init_outcome[where J = J and dir = dir and d = d] assms by (simp add: pold_policy_final_def)

lemma pold_policy_final_Some:
  assumes "\<not> default_dangling st" "\<not> own_dangling st"
  shows "\<exists>st'. pold_policy_final st = Some st' \<and> holds_nothing st'"
  using assms
  by (auto simp: pold_policy_final_def holds_nothing_def hashtables_final_def free_own_policy_def
      free_default_policy_def Let_def)

end
