(* ===== verification/Dbus_Data.thy ===== *)
theory Dbus_Data
  imports Jansson
begin

text \<open>
  D-Bus messages as values. The code writes a message through nested
  \<open>DBusMessageIter\<close>s; what it appends to one iterator is a list of \<open>ditem\<close>s, and a
  pair of \<open>dbus_message_iter_open_container\<close> and \<open>close_container\<close> is a container
  item with the signature passed to \<open>open_container\<close> and the items appended to the
  inner iterator. \<open>wt_item\<close> is the typing rule of the D-Bus specification: libdbus
  requires a caller to respect it.
\<close>

datatype dbasic =
    DBoolean bool
  | DByte "8 word"
  | DInt16 "16 word"
  | DUint16 "16 word"
  | DInt32 "32 word"
  | DUint32 "32 word"
  | DInt64 "64 word"
  | DUint64 "64 word"
  | DDouble "64 word"
  | DString string
  | DObjectPath string
  | DSignature string

fun type_code :: "dbasic \<Rightarrow> char" where
  "type_code (DBoolean _) = CHR ''b''"
| "type_code (DByte _) = CHR ''y''"
| "type_code (DInt16 _) = CHR ''n''"
| "type_code (DUint16 _) = CHR ''q''"
| "type_code (DInt32 _) = CHR ''i''"
| "type_code (DUint32 _) = CHR ''u''"
| "type_code (DInt64 _) = CHR ''x''"
| "type_code (DUint64 _) = CHR ''t''"
| "type_code (DDouble _) = CHR ''d''"
| "type_code (DString _) = CHR ''s''"
| "type_code (DObjectPath _) = CHR ''o''"
| "type_code (DSignature _) = CHR ''g''"

text \<open>\<open>dbus_type_is_fixed\<close> on the codes of basic types.\<close>

definition type_is_fixed :: "char \<Rightarrow> bool" where
  "type_is_fixed c \<longleftrightarrow> c \<in> set ''ybnqiuxtd''"

datatype ditem =
    Basic dbasic
  | DArray string "ditem list"
  | DVariant string "ditem list"
  | DDictEntry "ditem list"
  | DStruct "ditem list"

fun item_sig :: "ditem \<Rightarrow> string" where
  "item_sig (Basic b) = [type_code b]"
| "item_sig (DArray s _) = CHR ''a'' # s"
| "item_sig (DVariant _ _) = ''v''"
| "item_sig (DDictEntry items) = ''{'' @ concat (map item_sig items) @ ''}''"
| "item_sig (DStruct items) = ''('' @ concat (map item_sig items) @ '')''"

abbreviation items_sig :: "ditem list \<Rightarrow> string" where
  "items_sig items \<equiv> concat (map item_sig items)"

fun is_dict_entry :: "ditem \<Rightarrow> bool" where
  "is_dict_entry (DDictEntry _) = True"
| "is_dict_entry _ = False"

fun wt_item :: "ditem \<Rightarrow> bool" where
  "wt_item (Basic b) = True"
| "wt_item (DArray s items) = list_all (\<lambda>i. wt_item i \<and> item_sig i = s) items"
| "wt_item (DVariant s items) =
     (case items of
        [i] \<Rightarrow> wt_item i \<and> \<not> is_dict_entry i \<and> item_sig i = s
      | _ \<Rightarrow> False)"
| "wt_item (DDictEntry items) =
     (case items of
        [k, v] \<Rightarrow> (\<exists>b. k = Basic b) \<and> wt_item v \<and> \<not> is_dict_entry v
      | _ \<Rightarrow> False)"
| "wt_item (DStruct items) = (items \<noteq> [] \<and> list_all (\<lambda>i. wt_item i \<and> \<not> is_dict_entry i) items)"

text \<open>The body of a message: complete types only, so no dict entry outside an array.\<close>

definition wt_body :: "ditem list \<Rightarrow> bool" where
  "wt_body items \<longleftrightarrow> (\<forall>i\<in>set items. wt_item i \<and> \<not> is_dict_entry i)"

text \<open>A received message: whether it is an error reply, and its body.\<close>

record dmessage =
  msg_error :: bool
  msg_body :: "ditem list"

definition has_signature :: "dmessage \<Rightarrow> string \<Rightarrow> bool" where
  "has_signature m s = (items_sig (msg_body m) = s)"

text \<open>Reading: the type under an iterator (0 at the end), \<open>recurse\<close> and \<open>get_basic\<close>.\<close>

definition iter_arg_type :: "ditem list \<Rightarrow> char option" where
  "iter_arg_type it =
     (case it of
        [] \<Rightarrow> None
      | Basic b # _ \<Rightarrow> Some (type_code b)
      | DArray _ _ # _ \<Rightarrow> Some (CHR ''a'')
      | DVariant _ _ # _ \<Rightarrow> Some (CHR ''v'')
      | DDictEntry _ # _ \<Rightarrow> Some (CHR ''e'')
      | DStruct _ # _ \<Rightarrow> Some (CHR ''r''))"

fun iter_recurse :: "ditem list \<Rightarrow> ditem list" where
  "iter_recurse (DArray _ items # _) = items"
| "iter_recurse (DVariant _ items # _) = items"
| "iter_recurse (DDictEntry items # _) = items"
| "iter_recurse (DStruct items # _) = items"
| "iter_recurse _ = []"

abbreviation iter_next :: "ditem list \<Rightarrow> ditem list" where
  "iter_next it \<equiv> tl it"

fun iter_get_string :: "ditem list \<Rightarrow> string option" where
  "iter_get_string (Basic (DString s) # _) = Some s"
| "iter_get_string (Basic (DObjectPath s) # _) = Some s"
| "iter_get_string _ = None"

lemma type_code_no_container [simp]: "type_code b \<noteq> CHR ''e''" "type_code b \<noteq> CHR ''r''"
  "type_code b \<noteq> CHR ''a''" "type_code b \<noteq> CHR ''v''"
  by (cases b; simp)+

lemma iter_arg_type_dict_entry:
  "iter_arg_type it = Some (CHR ''e'') \<Longrightarrow> \<exists>items rest. it = DDictEntry items # rest"
  by (auto simp: iter_arg_type_def split: list.splits ditem.splits)

end
