(* ===== verification/Dbus_Json.thy ===== *)
theory Dbus_Json
  imports Dbus_Data
begin

text \<open>
  \<open>src/dbus-json.c\<close>: a JSON value is appended to a D-Bus message. A failed
  \<open>assert\<close> ends the daemon; functions that contain one return \<open>None\<close> there. An
  \<open>int\<close> has 4 bytes, so integers go out as \<open>i\<close> and are cut to 32 bits.
\<close>

section \<open>Type signatures\<close>

fun array_type_loop :: "json_type \<Rightarrow> json_type option \<Rightarrow> json list \<Rightarrow> json_type option" where
  "array_type_loop previous_type type [] = type"
| "array_type_loop previous_type type (entry # rest) =
     (let t = json_typeof entry in
      if t \<noteq> previous_type then None else array_type_loop t (Some t) rest)"

definition get_array_type :: "json list \<Rightarrow> json_type option" where
  \<comment> \<open>\<open>None\<close> is the -1 of the code\<close>
  "get_array_type vs =
     (case vs of [] \<Rightarrow> None | entry # rest \<Rightarrow> array_type_loop (json_typeof entry) None rest)"

fun json_value_to_dbus_type_signature :: "json \<Rightarrow> string option"
  and json_array_to_dbus_type_signature :: "json list \<Rightarrow> string option"
where
  "json_value_to_dbus_type_signature JTrue = Some ''b''"
| "json_value_to_dbus_type_signature JFalse = Some ''b''"
| "json_value_to_dbus_type_signature (JInteger _) = Some ''i''"
| "json_value_to_dbus_type_signature (JReal _) = Some ''d''"
| "json_value_to_dbus_type_signature (JString _) = Some ''s''"
| "json_value_to_dbus_type_signature (JArray vs) = json_array_to_dbus_type_signature vs"
| "json_value_to_dbus_type_signature (JObject _) = Some ''a{sv}''"
| "json_value_to_dbus_type_signature JNull = None"
| "json_array_to_dbus_type_signature [] = Some ''av''"
| "json_array_to_dbus_type_signature (v # vs) =
     (case get_array_type (v # vs) of
        Some t \<Rightarrow>
          (if t \<in> {JSON_STRING, JSON_INTEGER, JSON_REAL, JSON_TRUE, JSON_FALSE, JSON_NULL}
           then map_option (\<lambda>inner_type. CHR ''a'' # take 1 inner_type)
                  (json_value_to_dbus_type_signature v)
           else Some ''av'')
      | None \<Rightarrow> Some ''av'')"

section \<open>Appending\<close>

definition append_boolean :: "json \<Rightarrow> ditem" where
  "append_boolean v = Basic (DBoolean (v = JTrue))"

definition append_integer :: "64 word \<Rightarrow> ditem" where
  "append_integer n = Basic (DInt32 (ucast n))"

definition append_real :: "64 word \<Rightarrow> ditem" where
  "append_real r = Basic (DDouble r)"

definition append_string :: "string \<Rightarrow> ditem" where
  "append_string s = Basic (DString s)"

fun append_json_value :: "json \<Rightarrow> string option \<Rightarrow> ditem list option"
  and append_array_entries :: "string \<Rightarrow> json list \<Rightarrow> ditem list option"
  and append_object_entries :: "(string \<times> json) list \<Rightarrow> ditem list option"
where
  "append_json_value value sig =
     (case (case sig of Some s \<Rightarrow> Some s | None \<Rightarrow> json_value_to_dbus_type_signature value) of
        None \<Rightarrow> None
      | Some type_signature \<Rightarrow>
          (case value of
             JTrue \<Rightarrow> Some [append_boolean value]
           | JFalse \<Rightarrow> Some [append_boolean value]
           | JInteger n \<Rightarrow> Some [append_integer n]
           | JReal r \<Rightarrow> Some [append_real r]
           | JString s \<Rightarrow> Some [append_string s]
           | JArray vs \<Rightarrow>
               map_option (\<lambda>items. [DArray (drop 1 type_signature) items])
                 (append_array_entries (drop 1 type_signature) vs)
           | JObject kvs \<Rightarrow>
               map_option (\<lambda>items. [DArray ''{sv}'' items]) (append_object_entries kvs)
           | JNull \<Rightarrow> None))"
| "append_array_entries inner [] = Some []"
| "append_array_entries inner (entry # rest) =
     (case (if take 1 inner = ''v''
            then (case json_value_to_dbus_type_signature entry of
                    None \<Rightarrow> None
                  | Some s \<Rightarrow>
                      map_option (\<lambda>items. [DVariant s items]) (append_json_value entry (Some s)))
            else append_json_value entry None) of
        None \<Rightarrow> None
      | Some items \<Rightarrow> map_option (\<lambda>more. items @ more) (append_array_entries inner rest))"
| "append_object_entries [] = Some []"
| "append_object_entries ((key, v) # rest) =
     (case json_value_to_dbus_type_signature v of
        None \<Rightarrow> None
      | Some s \<Rightarrow>
          (case append_json_value v (Some s) of
             None \<Rightarrow> None
           | Some items \<Rightarrow>
               map_option (\<lambda>more. DDictEntry [Basic (DString key), DVariant s items] # more)
                 (append_object_entries rest)))"

definition pold_dbus_json_append_object :: "json \<Rightarrow> ditem list option" where
  "pold_dbus_json_append_object root = append_json_value root None"

text \<open>A text that does not parse appends nothing.\<close>

definition pold_dbus_json_append_string :: "jansson \<Rightarrow> string \<Rightarrow> ditem list option" where
  "pold_dbus_json_append_string J body =
     (case json_loads J body of
        None \<Rightarrow> Some []
      | Some root \<Rightarrow> append_json_value root None)"

end
