(* ===== verification/Fdo_Dbus.thy ===== *)
theory Fdo_Dbus
  imports Dbus_Data Pold_Prelude
begin

text \<open>
  \<open>src/fdo-dbus.c\<close>: the two questions pold asks the bus daemon about the owner of a bus
  name. Each is an asynchronous call: the function that makes it returns an error number
  or registers a notification, and the notification function turns the reply into the
  arguments of the callback.
\<close>

section \<open>Sending\<close>

text \<open>How sending a method call goes; libdbus decides.\<close>

datatype send_outcome =
    NoMessage         \<comment> \<open>the message could not be allocated\<close>
  | SendFailed        \<comment> \<open>\<open>dbus_connection_send_with_reply\<close> returns FALSE\<close>
  | NoPendingCall     \<comment> \<open>the connection is closed: the pending call is NULL\<close>
  | SentCall

record fdo_call =
  fdo_member :: string
  fdo_argument :: string

text \<open>
  The result: the return value and the call whose reply will be notified. Where the message
  could not be allocated the error path calls \<open>dbus_message_unref\<close> with NULL, which libdbus
  does not allow (a failed check ends the process): that case is undefined.
\<close>

definition send_fdo_call :: "send_outcome \<Rightarrow> string \<Rightarrow> string \<Rightarrow> (int \<times> fdo_call option) option" where
  "send_fdo_call outcome member argument =
     (case outcome of
        NoMessage \<Rightarrow> None
      | SendFailed \<Rightarrow> Some (- EINVAL, None)
      | NoPendingCall \<Rightarrow> Some (- EINVAL, None)
      | SentCall \<Rightarrow> Some (0, Some \<lparr>fdo_member = member, fdo_argument = argument\<rparr>))"

definition pold_fdo_dbus_get_connection_selinux_context ::
  "bool \<Rightarrow> send_outcome \<Rightarrow> string \<Rightarrow> (int \<times> fdo_call option) option"
where
  "pold_fdo_dbus_get_connection_selinux_context has_callback outcome service =
     (if \<not> has_callback then Some (- EINVAL, None)
      else send_fdo_call outcome ''GetConnectionSELinuxSecurityContext'' service)"

definition pold_fdo_dbus_get_connection_unix_user ::
  "send_outcome \<Rightarrow> string \<Rightarrow> (int \<times> fdo_call option) option"
where
  "pold_fdo_dbus_get_connection_unix_user outcome owner =
     send_fdo_call outcome ''GetConnectionUnixUser'' owner"

section \<open>Replies\<close>

text \<open>
  \<open>parse_context\<close> walks the first container of the message twice: once to count the
  bytes, once to copy that many into a zeroed buffer. The result is the buffer without its
  final 0, or NULL for no bytes.
\<close>

fun count_bytes :: "ditem list \<Rightarrow> nat" where
  "count_bytes (Basic (DByte b) # it) = Suc (count_bytes it)"
| "count_bytes _ = 0"

fun copy_bytes :: "ditem list \<Rightarrow> 8 word list \<Rightarrow> nat \<Rightarrow> 8 word list option" where
  \<comment> \<open>a write at or behind the end of the buffer is \<open>None\<close>\<close>
  "copy_bytes (Basic (DByte b) # it) ctx p =
     (if p < length ctx then copy_bytes it (ctx[p := b]) (Suc p) else None)"
| "copy_bytes _ ctx p = Some ctx"

definition parse_context :: "dmessage \<Rightarrow> 8 word list option" where
  "parse_context msg =
     (let array = iter_recurse (msg_body msg); size = count_bytes array in
      if size = 0 then None
      else copy_bytes array (replicate (size + 1) 0) 0)"

text \<open>The arguments the callback is called with: the buffer as it is, final 0 included.\<close>

definition get_connection_selinux_context_reply :: "dmessage \<Rightarrow> 8 word list option \<times> int" where
  "get_connection_selinux_context_reply reply =
     (if msg_error reply then (None, - EIO)
      else if \<not> has_signature reply ''ay'' then (None, - EINVAL)
      else (parse_context reply, 0))"

fun get_uint32 :: "ditem list \<Rightarrow> 32 word" where
  "get_uint32 (Basic (DUint32 n) # _) = n"
| "get_uint32 _ = 0"

definition get_connection_unix_user_reply :: "dmessage \<Rightarrow> 32 word \<times> int" where
  "get_connection_unix_user_reply reply =
     (if msg_error reply then (0, - EIO)
      else if \<not> has_signature reply ''u'' then (0, - EINVAL)
      else (get_uint32 (msg_body reply), 0))"

section \<open>Properties\<close>

abbreviation bytes :: "8 word list \<Rightarrow> ditem list" where
  "bytes bs \<equiv> map (\<lambda>b. Basic (DByte b)) bs"

lemma count_bytes_bytes [simp]: "count_bytes (bytes bs) = length bs"
  by (induction bs) auto

lemma drop_zeroed: "drop n (x # replicate n x) = [x]"
  by (metis Suc_diff_le diff_self_eq_0 drop_replicate le_refl replicate_Suc replicate_0)

text \<open>The two walks agree, so the second stays inside the buffer the first one sized.\<close>

lemma copy_bytes_fills:
  "p + count_bytes it < length ctx \<Longrightarrow>
     \<exists>ctx'. copy_bytes it ctx p = Some ctx' \<and> length ctx' = length ctx
       \<and> take p ctx' = take p ctx
       \<and> drop (p + count_bytes it) ctx' = drop (p + count_bytes it) ctx"
proof (induction it ctx p rule: copy_bytes.induct)
  case (1 b it ctx p)
  then have p: "p < length ctx" by simp
  with 1 obtain ctx' where c: "copy_bytes it (ctx[p := b]) (Suc p) = Some ctx'"
    "length ctx' = length ctx" "take (Suc p) ctx' = take (Suc p) (ctx[p := b])"
    "drop (Suc p + count_bytes it) ctx' = drop (Suc p + count_bytes it) (ctx[p := b])"
    by auto
  from c(3) have "take p ctx' = take p ctx"
    by (metis lessI take_take take_update_cancel min.strict_order_iff order_refl min.absorb1
        less_imp_le)
  with c p show ?case by (auto simp: drop_update_cancel)
qed auto

lemma copy_bytes_bytes:
  "p + length bs < length ctx \<Longrightarrow>
     copy_bytes (bytes bs) ctx p = Some (take p ctx @ bs @ drop (p + length bs) ctx)"
proof (induction bs arbitrary: ctx p)
  case (Cons b bs)
  then have "copy_bytes (bytes bs) (ctx[p := b]) (Suc p)
      = Some (take (Suc p) (ctx[p := b]) @ bs @ drop (Suc p + length bs) (ctx[p := b]))"
    by simp
  with Cons.prems show ?case
    by (simp add: take_Suc_conv_app_nth drop_update_cancel)
qed simp

text \<open>
  C39. \<open>parse_context\<close> never writes behind the buffer it allocated, whatever the message
  holds, and the last byte of the buffer stays 0, so the context it hands out is a
  terminated C string.
\<close>

theorem parse_context_in_bounds:
  "case parse_context msg of
     None \<Rightarrow> count_bytes (iter_recurse (msg_body msg)) = 0
   | Some ctx \<Rightarrow> last ctx = 0 \<and> length ctx = count_bytes (iter_recurse (msg_body msg)) + 1"
proof (cases "count_bytes (iter_recurse (msg_body msg))")
  case (Suc n)
  let ?it = "iter_recurse (msg_body msg)" and ?buf = "replicate (Suc (Suc n)) (0 :: 8 word)"
  from copy_bytes_fills[of 0 ?it ?buf] Suc obtain ctx where
    c: "copy_bytes ?it ?buf 0 = Some ctx" "length ctx = Suc (Suc n)"
      "drop (Suc n) ctx = drop (Suc n) ?buf" by auto
  from c(2) have "last ctx = last (drop (Suc n) ctx)" by simp
  also have "\<dots> = 0" using c(3) drop_zeroed[of "Suc n" "0 :: 8 word"] by simp
  finally show ?thesis using c Suc by (simp add: parse_context_def)
qed (simp add: parse_context_def)

text \<open>
  A successful answer of the bus daemon reaches the SELinux callback as exactly its
  bytes, terminated, with error 0; an empty answer as NULL with error 0; an error answer
  as NULL with \<open>-EIO\<close>, and one of any other type as NULL with \<open>-EINVAL\<close>.
\<close>

lemma selinux_reply_cases:
  "get_connection_selinux_context_reply \<lparr>msg_error = False, msg_body = [DArray ''y'' (bytes bs)]\<rparr>
     = (if bs = [] then None else Some (bs @ [0]), 0)
   \<and> get_connection_selinux_context_reply \<lparr>msg_error = True, msg_body = body\<rparr> = (None, - EIO)
   \<and> (items_sig body \<noteq> ''ay'' \<longrightarrow>
        get_connection_selinux_context_reply \<lparr>msg_error = False, msg_body = body\<rparr> = (None, - EINVAL))"
  by (auto simp: get_connection_selinux_context_reply_def has_signature_def parse_context_def
      copy_bytes_bytes drop_zeroed Let_def)

end
