(* ===== verification/Bus.thy ===== *)
theory Bus
  imports Dbus_Data Pold_Prelude
begin

text \<open>
  The bus as the manager uses it: what pold has sent, and whether the next allocation or
  the next send of libdbus fails (\<open>clock\<close> counts both). Messages are sent and method
  handlers are run through the wrapper functions of \<open>gdbus/object.c\<close> modelled here.
  pold exports no properties and no object manager, so \<open>g_dbus_flush\<close> sends nothing. A reply is
  identified by the serial of its request alone; libdbus takes its destination from the request.
\<close>

datatype out_msg =
    MethodReturn nat "ditem list"          \<comment> \<open>serial of the request, body\<close>
  | ErrorReply nat string string           \<comment> \<open>serial of the request, error name, text\<close>
  | AgentUpdate string string "ditem list" \<comment> \<open>destination, object path, body\<close>

record bus =
  object_paths :: "(string, string) ghash"
  sent :: "out_msg list"
  clock :: nat
  alloc_fails :: "nat \<Rightarrow> bool"
  send_fails :: "nat \<Rightarrow> bool"
  aborted :: bool

definition new_message :: "bus \<Rightarrow> bool \<times> bus" where
  "new_message b = (\<not> alloc_fails b (clock b), b\<lparr>clock := Suc (clock b)\<rparr>)"

definition g_dbus_send_message :: "out_msg \<Rightarrow> bus \<Rightarrow> bool \<times> bus" where
  "g_dbus_send_message msg b =
     (let b' = b\<lparr>clock := Suc (clock b)\<rparr> in
      if send_fails b (clock b) then (False, b') else (True, b'\<lparr>sent := sent b @ [msg]\<rparr>))"

text \<open>\<open>vsnprintf\<close> into a buffer of 1024 bytes cuts the text of an error.\<close>

definition g_dbus_create_error :: "nat \<Rightarrow> string \<Rightarrow> string \<Rightarrow> bus \<Rightarrow> out_msg option \<times> bus" where
  "g_dbus_create_error serial name str b =
     (let (ok, b') = new_message b in
      (if ok then Some (ErrorReply serial name (take 1023 str)) else None, b'))"

definition g_dbus_create_reply :: "nat \<Rightarrow> ditem list \<Rightarrow> bus \<Rightarrow> out_msg option \<times> bus" where
  "g_dbus_create_reply serial body b =
     (let (ok, b') = new_message b in (if ok then Some (MethodReturn serial body) else None, b'))"

datatype handler_result = Handled | NotYetHandled | NeedMemory

text \<open>\<open>process_message\<close>, from the reply of the method function on.\<close>

definition process_message ::
  "bool \<Rightarrow> bool \<Rightarrow> out_msg option \<Rightarrow> bus \<Rightarrow> handler_result \<times> bus"
where
  "process_message noreply async reply b =
     (if noreply then (Handled, b)
      else if async \<and> reply = None then (Handled, b)
      else (case reply of
              None \<Rightarrow> (NeedMemory, b)
            | Some msg \<Rightarrow> (Handled, snd (g_dbus_send_message msg b))))"

section \<open>Who was answered\<close>

fun answer_to :: "out_msg \<Rightarrow> nat option" where
  "answer_to (MethodReturn s _) = Some s"
| "answer_to (ErrorReply s _ _) = Some s"
| "answer_to (AgentUpdate _ _ _) = None"

definition answers :: "nat \<Rightarrow> bus \<Rightarrow> nat" where
  "answers s b = length (filter (\<lambda>m. answer_to m = Some s) (sent b))"

definition no_faults :: "bus \<Rightarrow> bool" where
  "no_faults b \<longleftrightarrow> (\<forall>t. \<not> alloc_fails b t \<and> \<not> send_fails b t)"

lemma new_message_no_faults: "no_faults b \<Longrightarrow> new_message b = (True, b\<lparr>clock := Suc (clock b)\<rparr>)"
  by (simp add: new_message_def no_faults_def)

lemma send_no_faults: "no_faults b \<Longrightarrow>
    g_dbus_send_message m b = (True, b\<lparr>clock := Suc (clock b), sent := sent b @ [m]\<rparr>)"
  by (simp add: g_dbus_send_message_def no_faults_def Let_def)

lemma no_faults_frame [simp]:
  "no_faults (b\<lparr>clock := c\<rparr>) = no_faults b" "no_faults (b\<lparr>sent := m\<rparr>) = no_faults b"
  "no_faults (b\<lparr>object_paths := t\<rparr>) = no_faults b" "no_faults (b\<lparr>aborted := a\<rparr>) = no_faults b"
  by (simp_all add: no_faults_def)

lemma answers_frame [simp]:
  "answers s (b\<lparr>clock := c\<rparr>) = answers s b" "answers s (b\<lparr>object_paths := t\<rparr>) = answers s b"
  "answers s (b\<lparr>aborted := a\<rparr>) = answers s b"
  "answers s (b\<lparr>sent := sent b @ [m]\<rparr>) = answers s b + (if answer_to m = Some s then 1 else 0)"
  by (simp_all add: answers_def)

lemma new_message_frame [simp]:
  "object_paths (snd (new_message b)) = object_paths b" "sent (snd (new_message b)) = sent b"
  "aborted (snd (new_message b)) = aborted b" "answers s (snd (new_message b)) = answers s b"
  "no_faults (snd (new_message b)) = no_faults b"
  by (simp_all add: new_message_def answers_def)

lemma send_frame [simp]:
  "object_paths (snd (g_dbus_send_message m b)) = object_paths b"
  "aborted (snd (g_dbus_send_message m b)) = aborted b"
  "no_faults (snd (g_dbus_send_message m b)) = no_faults b"
  by (simp_all add: g_dbus_send_message_def no_faults_def Let_def)

lemma send_answers:
  "answers s (snd (g_dbus_send_message m b)) =
     answers s b + (if fst (g_dbus_send_message m b) \<and> answer_to m = Some s then 1 else 0)"
  by (simp add: g_dbus_send_message_def answers_def Let_def)

end
