(* ===== verification/Manager.thy ===== *)
theory Manager
  imports Policy_Update Dbus_Json Fdo_Dbus Bus
begin

text \<open>
  \<open>src/pold-manager.c\<close>: the D-Bus interface of the daemon. A request for a policy is
  answered asynchronously: a \<open>config_data\<close> travels through up to three callbacks (policy
  server, SELinux context, user id), and \<open>waiting\<close> holds the callbacks registered but
  not yet called. A handler that dereferences NULL or freed memory, hands libdbus a NULL
  message or overflows an \<open>int\<close>, returns \<open>None\<close>; a failed assertion sets \<open>aborted\<close>.

  A request is named by its serial and its sender; the message itself is freed by libdbus
  when its last reference is dropped. An entry of \<open>agent_watches\<close> is a disconnect watch of a
  bus name with its user data, a pointer to the sender inside a registration message:
  \<open>None\<close> once that message is freed.
\<close>

section \<open>State\<close>

record request =
  req_serial :: nat
  req_sender :: string

record config_data =
  pending :: request
  agent_owner :: string
  app_owner :: string
  cfg_selinux :: "string option"

datatype stage = WaitServer | WaitSelinux | WaitUser

record manager =
  store :: policy_state
  bus :: bus
  mdisk :: disk
  unique_name :: "string option"
  waiting :: "(stage \<times> config_data) list"
  agent_watches :: "(string \<times> request option) list"

text \<open>What the operating system and the libraries answer: the user and group databases.\<close>

record env =
  env_json :: jansson
  env_passwd :: "32 word \<Rightarrow> (string \<times> 32 word) option"
  env_group :: "32 word \<Rightarrow> string option"
  env_dir :: string

section \<open>Identification of the application\<close>

definition get_user :: "env \<Rightarrow> 32 word \<Rightarrow> string option" where
  "get_user E uid = map_option fst (env_passwd E uid)"

definition get_group :: "env \<Rightarrow> 32 word \<Rightarrow> string option" where
  "get_group E gid = env_group E gid"

definition get_groupid :: "env \<Rightarrow> 32 word \<Rightarrow> 32 word" where
  "get_groupid E uid = (case env_passwd E uid of None \<Rightarrow> - 1 | Some (name, gid) \<Rightarrow> gid)"

text \<open>A context as a C string; \<open>None\<close> is NULL, which \<open>g_strsplit\<close> turns into no token.\<close>

definition context_string :: "8 word list option \<Rightarrow> string option" where
  "context_string ctx =
     map_option (\<lambda>bs. map (\<lambda>b. char_of (unat b)) (takeWhile (\<lambda>b. b \<noteq> 0) bs)) ctx"

definition parse_selinux_type :: "string option \<Rightarrow> string option" where
  "parse_selinux_type context =
     (let tokens = (case context of None \<Rightarrow> [] | Some s \<Rightarrow> g_strsplit s (CHR '':'')) in
      if length tokens < 2 then None
      else if length tokens = 2 then None \<comment> \<open>\<open>tokens[2]\<close> is the NULL that ends the vector\<close>
      else Some (tokens ! 2))"

text \<open>\<open>%s\<close> of a NULL pointer in \<open>g_strdup_printf\<close>.\<close>

definition fmt_s :: "string option \<Rightarrow> string" where
  "fmt_s s = (case s of None \<Rightarrow> ''(null)'' | Some t \<Rightarrow> t)"

definition show_int :: "int \<Rightarrow> string" where
  "show_int i = (if i < 0 then ''-'' @ show_nat (nat (- i)) else show_nat (nat i))"

text \<open>
  \<open>replace_id_if_empty\<close> wraps the text of the policy into a JSON string instead of
  parsing it, so \<open>json_object_set\<close> fails and the string itself is printed.
\<close>

definition replace_id_if_empty :: "jansson \<Rightarrow> string \<Rightarrow> pold_policy \<Rightarrow> pold_policy" where
  "replace_id_if_empty J new_id policy =
     (if length (policy_id policy) = 0
      then (let json = map_option JString (policy_json policy);
                json' = (case json of
                           None \<Rightarrow> None
                         | Some j \<Rightarrow> (case json_object_set j ''id'' (JString new_id) of
                                       None \<Rightarrow> Some j | Some j' \<Rightarrow> Some j'))
            in policy\<lparr>policy_id := new_id, policy_json := Option.bind json' (json_dumps J)\<rparr>)
      else policy)"

definition put_policy :: "policy_ptr \<Rightarrow> pold_policy \<Rightarrow> policy_state \<Rightarrow> policy_state" where
  \<comment> \<open>the object a policy pointer points to, overwritten\<close>
  "put_policy ptr p st =
     (case ptr of
        DefaultPolicy \<Rightarrow> st\<lparr>default_policy := Some p\<rparr>
      | TablePolicy pid \<Rightarrow> st\<lparr>id_to_policy := gh_replace pid p (id_to_policy st)\<rparr>)"

text \<open>\<open>pold_policy_append_to_message\<close>: the JSON of a policy behind the body so far.\<close>

definition policy_items :: "jansson \<Rightarrow> string option \<Rightarrow> ditem list option" where
  "policy_items J json =
     (case json of None \<Rightarrow> Some [] | Some s \<Rightarrow> pold_dbus_json_append_string J s)"

definition pold_policy_append_to_message ::
  "jansson \<Rightarrow> pold_policy \<Rightarrow> ditem list \<Rightarrow> ditem list option"
where
  "pold_policy_append_to_message J policy body =
     map_option (\<lambda>items. body @ items) (policy_items J (policy_json policy))"

definition abort_daemon :: "manager \<Rightarrow> manager" where
  "abort_daemon m = m\<lparr>bus := (bus m)\<lparr>aborted := True\<rparr>\<rparr>"

section \<open>The chain of callbacks\<close>

definition send_reply :: "out_msg option \<Rightarrow> manager \<Rightarrow> manager" where
  "send_reply reply m =
     (case reply of
        None \<Rightarrow> m
      | Some msg \<Rightarrow> m\<lparr>bus := snd (g_dbus_send_message msg (bus m))\<rparr>)"

definition error_reply :: "config_data \<Rightarrow> string \<Rightarrow> manager \<Rightarrow> manager" where
  "error_reply data str m =
     (let (reply, b) = g_dbus_create_error (req_serial (pending data))
            ''org.freedesktop.DBus.Error.Failed'' str (bus m)
      in send_reply reply (m\<lparr>bus := b\<rparr>))"

definition policy_ids_of :: "env \<Rightarrow> config_data \<Rightarrow> 32 word \<Rightarrow> string list" where
  "policy_ids_of E data uid =
     (case cfg_selinux data of None \<Rightarrow> [] | Some s \<Rightarrow> [''selinux:'' @ s])
     @ [''user:'' @ fmt_s (get_user E uid), ''group:'' @ fmt_s (get_group E (get_groupid E uid))]"

definition reply_with_policy :: "env \<Rightarrow> config_data \<Rightarrow> pold_policy \<Rightarrow> manager \<Rightarrow> manager option" where
  "reply_with_policy E data policy m =
     (let (ok, b) = new_message (bus m) in
      if \<not> ok then None
      else (case pold_policy_append_to_message (env_json E) policy [] of
              None \<Rightarrow> Some (abort_daemon m)
            | Some body \<Rightarrow>
                Some (send_reply (Some (MethodReturn (req_serial (pending data)) body))
                        (m\<lparr>bus := b\<rparr>))))"

definition user_cb ::
  "env \<Rightarrow> 32 word \<Rightarrow> config_data \<Rightarrow> int \<Rightarrow> manager \<Rightarrow> manager option"
where
  "user_cb E uid data err m =
     (if err < 0
      then Some (error_reply data (''Retrieving user id failed with error '' @ show_int err) m)
      else
        (case pold_policy_watch_app (agent_owner data) (app_owner data)
                (policy_ids_of E data uid) (store m) of
           None \<Rightarrow> None
         | Some st \<Rightarrow>
             (case pold_policy_get_active_policy st
                     (app_id_of (agent_owner data) (app_owner data)) of
                None \<Rightarrow> None
              | Some ptr \<Rightarrow>
                  (case policy_at st ptr of
                     None \<Rightarrow> None
                   | Some p \<Rightarrow>
                       (let policy = replace_id_if_empty (env_json E)
                              (''user:'' @ fmt_s (get_user E uid)) p
                        in reply_with_policy E data policy
                             (m\<lparr>store := put_policy ptr policy st\<rparr>))))))"

definition wait_for ::
  "stage \<Rightarrow> config_data \<Rightarrow> (int \<times> fdo_call option) option \<Rightarrow> manager \<Rightarrow> manager option"
where
  \<comment> \<open>the notification of a call that was sent; the error code is dropped by the callers\<close>
  "wait_for s data result m =
     (case result of
        None \<Rightarrow> None
      | Some (error, None) \<Rightarrow> Some m
      | Some (error, Some call) \<Rightarrow> Some (m\<lparr>waiting := waiting m @ [(s, data)]\<rparr>))"

definition selinux_cb ::
  "send_outcome \<Rightarrow> 8 word list option \<Rightarrow> config_data \<Rightarrow> int \<Rightarrow> manager \<Rightarrow> manager option"
where
  "selinux_cb outcome selinux data err m =
     (let data' = (if err < 0 then data
                   else data\<lparr>cfg_selinux := parse_selinux_type (context_string selinux)\<rparr>)
      in wait_for WaitUser data'
           (pold_fdo_dbus_get_connection_unix_user outcome (app_owner data')) m)"

text \<open>
  \<open>need_http_policy_update\<close>: the times are cut to \<open>int\<close>; an overflow of their
  difference is undefined. The first argument is the modification time of the policy
  directory, \<open>None\<close> where \<open>g_stat\<close> fails.
\<close>

definition to_int :: "int \<Rightarrow> int" where
  "to_int t = sint (word_of_int t :: 32 word)"

definition need_http_policy_update :: "int option \<Rightarrow> int \<Rightarrow> bool option" where
  "need_http_policy_update mtime now =
     (case mtime of
        None \<Rightarrow> Some False
      | Some t \<Rightarrow>
          (let delta_time = to_int now - to_int t in
           if delta_time < - (2 ^ 31) \<or> 2 ^ 31 \<le> delta_time then None
           else Some (delta_time > 10)))"

definition update_from_server_cb ::
  "send_outcome \<Rightarrow> int \<Rightarrow> config_data \<Rightarrow> manager \<Rightarrow> manager option"
where
  "update_from_server_cb outcome error data m =
     (if error \<noteq> 0 then Some (error_reply data ''Policy update from server failed'' m)
      else wait_for WaitSelinux data
             (pold_fdo_dbus_get_connection_selinux_context True outcome (app_owner data)) m)"

definition pold_policy_update_from_server :: "config_data \<Rightarrow> manager \<Rightarrow> manager" where
  "pold_policy_update_from_server data m = m\<lparr>waiting := waiting m @ [(WaitServer, data)]\<rparr>"

definition pold_manager_get_policy_config ::
  "env \<Rightarrow> request \<Rightarrow> string \<Rightarrow> int option \<Rightarrow> int \<Rightarrow> send_outcome \<Rightarrow> manager \<Rightarrow> manager option"
where
  "pold_manager_get_policy_config E req app mtime now outcome m =
     (let data = \<lparr>pending = req, agent_owner = req_sender req, app_owner = app,
                  cfg_selinux = None\<rparr> in
      if Some app = unique_name m
      then
        (let (ok, b) = new_message (bus m) in
         if \<not> ok then Some (m\<lparr>bus := b\<rparr>)
         else (case pold_policy_get_own_policy (store m) of
                 None \<Rightarrow> None
               | Some own \<Rightarrow>
                   (case pold_policy_append_to_message (env_json E) own [] of
                      None \<Rightarrow> Some (abort_daemon m)
                    | Some body \<Rightarrow>
                        Some (send_reply (Some (MethodReturn (req_serial req) body))
                                (m\<lparr>bus := b\<rparr>)))))
      else
        (case need_http_policy_update mtime now of
           None \<Rightarrow> None
         | Some True \<Rightarrow> Some (pold_policy_update_from_server data m)
         | Some False \<Rightarrow>
             wait_for WaitSelinux data
               (pold_fdo_dbus_get_connection_selinux_context True outcome app) m))"

section \<open>Agents\<close>

text \<open>
  The user data of the disconnect watch points to the sender inside the registration
  message. \<open>pold\<close> takes no reference to the message, so it is gone when libdbus has
  dispatched it (\<open>message_freed\<close>), and reading through the pointer is undefined.
\<close>

definition owner_disconnect :: "request option \<Rightarrow> manager \<Rightarrow> manager option" where
  "owner_disconnect user_data m =
     (case user_data of
        None \<Rightarrow> None
      | Some message \<Rightarrow>
          (let owner = req_sender message;
               b = (bus m)\<lparr>object_paths := gh_remove owner (object_paths (bus m))\<rparr>
           in case pold_remove_agent_apps owner (store m) of
                None \<Rightarrow> None
              | Some st \<Rightarrow> Some (m\<lparr>bus := b, store := st\<rparr>)))"

definition message_freed :: "request \<Rightarrow> manager \<Rightarrow> manager" where
  "message_freed message m =
     m\<lparr>agent_watches := map (\<lambda>(owner, user_data).
         (owner, if user_data = Some message then None else user_data)) (agent_watches m)\<rparr>"

text \<open>
  \<open>dbus_message_get_args\<close> of the two handlers below is called without the final
  \<open>DBUS_TYPE_INVALID\<close>: libdbus goes on to read arguments that are not there. The object path
  has been stored by then, and it is what the model uses.
\<close>

definition pold_manager_register_agent ::
  "request \<Rightarrow> string \<Rightarrow> manager \<Rightarrow> out_msg option \<times> manager"
where
  "pold_manager_register_agent req object_path m =
     (let (reply, b) = g_dbus_create_reply (req_serial req) [] (bus m) in
      if reply = None then (None, m\<lparr>bus := b\<rparr>)
      else if gh_lookup (object_paths b) (req_sender req) \<noteq> None then (None, m\<lparr>bus := b\<rparr>)
      else (reply, m\<lparr>bus := b\<lparr>object_paths := gh_replace (req_sender req) object_path (object_paths b)\<rparr>,
                     agent_watches := agent_watches m @ [(req_sender req, Some req)]\<rparr>))"

definition pold_manager_unregister_agent ::
  "request \<Rightarrow> string \<Rightarrow> manager \<Rightarrow> (out_msg option \<times> manager) option"
where
  "pold_manager_unregister_agent req given_object_path m =
     (if gh_lookup (object_paths (bus m)) (req_sender req) \<noteq> Some given_object_path
      then (let (reply, b) = g_dbus_create_error (req_serial req)
                   ''org.freedesktop.DBus.Error.Failed'' ''Agent could not be unregistered'' (bus m)
            in Some (reply, m\<lparr>bus := b\<rparr>))
      else (case pold_remove_agent_apps (req_sender req) (store m) of
              None \<Rightarrow> None
            | Some st \<Rightarrow>
                (let b1 = (bus m)\<lparr>object_paths := gh_remove (req_sender req) (object_paths (bus m))\<rparr>;
                     (reply, b) = g_dbus_create_reply (req_serial req) [] b1
                 in Some (reply, m\<lparr>bus := b, store := st\<rparr>))))"

text \<open>
  libdbus makes no method call without an object path: the message is NULL then, as where
  there is no memory, and \<open>error_nomem\<close> hands that NULL to \<open>dbus_message_unref\<close>. A message
  that cannot be sent has been unreferenced by \<open>g_dbus_send_message\<close> already, and
  \<open>error_nomem\<close> does it again. So no error is ever returned; all these cases are undefined.
\<close>

definition pold_manager_update_agent :: "jansson \<Rightarrow> bus agent_updater" where
  "pold_manager_update_agent J agent app policy b =
     (let path = gh_lookup (object_paths b) agent; (ok, b1) = new_message b in
      case path of
        None \<Rightarrow> None
      | Some object_path \<Rightarrow>
          (if \<not> ok then None
           else (case pold_policy_append_to_message J policy [Basic (DString app)] of
                   None \<Rightarrow> Some (- ENOMEM, b1\<lparr>aborted := True\<rparr>) \<comment> \<open>the daemon is gone\<close>
                 | Some body \<Rightarrow>
                     (let (ok, b2) = g_dbus_send_message (AgentUpdate agent object_path body) b1
                      in if \<not> ok then None else Some (0, b2)))))"

text \<open>The answer of the policy server, through \<open>update_policies_cb\<close>.\<close>

definition server_answer ::
  "env \<Rightarrow> string option \<Rightarrow> send_outcome \<Rightarrow> config_data \<Rightarrow> manager \<Rightarrow> manager option"
where
  "server_answer E policies_json outcome data m =
     (case update_policies_cb (env_json E) (pold_manager_update_agent (env_json E)) (env_dir E)
             policies_json (mdisk m) (store m) (bus m) of
        None \<Rightarrow> None
      | Some (error, d, st, b) \<Rightarrow>
          (let m1 = m\<lparr>mdisk := d, store := st, bus := b\<rparr> in
           if aborted b then Some m1 else update_from_server_cb outcome error data m1))"

text \<open>
  An update that nobody waits for, as SIGUSR2 asks for (\<open>signal_update\<close> of \<open>main.c\<close>): the
  callback is NULL. More such answers than signals do no harm to what is proved.
\<close>

definition silent_answer :: "env \<Rightarrow> string option \<Rightarrow> manager \<Rightarrow> manager option" where
  "silent_answer E policies_json m =
     map_option (\<lambda>(error, d, st, b). m\<lparr>mdisk := d, store := st, bus := b\<rparr>)
       (update_policies_cb (env_json E) (pold_manager_update_agent (env_json E)) (env_dir E)
          policies_json (mdisk m) (store m) (bus m))"

definition pold_manager_init ::
  "string option \<Rightarrow> bool \<Rightarrow> manager \<Rightarrow> bool \<times> manager"
where
  \<comment> \<open>the unique name of the connection, whether the interface can be registered\<close>
  "pold_manager_init name registered m =
     (registered, m\<lparr>unique_name := name, bus := (bus m)\<lparr>object_paths := gh_empty\<rparr>\<rparr>)"

definition pold_manager_final :: "manager \<Rightarrow> manager" where
  "pold_manager_final m = m\<lparr>bus := (bus m)\<lparr>object_paths := gh_empty\<rparr>\<rparr>"

section \<open>The daemon, event by event\<close>

datatype event =
    GetPolicyConfig request string "int option" int send_outcome
  | RegisterAgent request string
  | UnregisterAgent request string
  | ServerAnswer config_data "string option" send_outcome
  | SelinuxAnswer config_data dmessage send_outcome
  | UserAnswer config_data dmessage
  | SilentAnswer "string option"
  | AgentGone string request
  | AppGone string app_ref

definition take_waiting :: "stage \<Rightarrow> config_data \<Rightarrow> manager \<Rightarrow> manager" where
  "take_waiting s data m = m\<lparr>waiting := remove1 (s, data) (waiting m)\<rparr>"

text \<open>
  In \<open>agent_gone\<close> the user data is the message it points to if that still exists. Where it is
  freed, the callback is undefined (\<open>owner_disconnect None\<close>); the rule then lets the run go on
  with whatever sender is found in the freed memory, so that what is proved of all runs also
  holds where the memory stays readable.
\<close>

inductive mstep :: "env \<Rightarrow> manager \<Rightarrow> event \<Rightarrow> manager \<Rightarrow> bool" for E :: env where
  get_config:
    "\<not> aborted (bus m) \<Longrightarrow>
     pold_manager_get_policy_config E req app mtime now outcome m = Some m' \<Longrightarrow>
     mstep E m (GetPolicyConfig req app mtime now outcome) m'"
| register:
    "\<not> aborted (bus m) \<Longrightarrow>
     pold_manager_register_agent req path m = (reply, m') \<Longrightarrow>
     mstep E m (RegisterAgent req path)
       (message_freed req (m'\<lparr>bus := snd (process_message False False reply (bus m'))\<rparr>))"
| unregister:
    "\<not> aborted (bus m) \<Longrightarrow>
     pold_manager_unregister_agent req path m = Some (reply, m') \<Longrightarrow>
     mstep E m (UnregisterAgent req path)
       (m'\<lparr>bus := snd (process_message False False reply (bus m'))\<rparr>)"
| server:
    "\<not> aborted (bus m) \<Longrightarrow> (WaitServer, data) \<in> set (waiting m) \<Longrightarrow>
     server_answer E policies_json outcome data (take_waiting WaitServer data m) = Some m' \<Longrightarrow>
     mstep E m (ServerAnswer data policies_json outcome) m'"
| selinux:
    "\<not> aborted (bus m) \<Longrightarrow> (WaitSelinux, data) \<in> set (waiting m) \<Longrightarrow>
     get_connection_selinux_context_reply reply = (ctx, err) \<Longrightarrow>
     selinux_cb outcome ctx data err (take_waiting WaitSelinux data m) = Some m' \<Longrightarrow>
     mstep E m (SelinuxAnswer data reply outcome) m'"
| user:
    "\<not> aborted (bus m) \<Longrightarrow> (WaitUser, data) \<in> set (waiting m) \<Longrightarrow>
     get_connection_unix_user_reply reply = (uid, err) \<Longrightarrow>
     user_cb E uid data err (take_waiting WaitUser data m) = Some m' \<Longrightarrow>
     mstep E m (UserAnswer data reply) m'"
| silent:
    "\<not> aborted (bus m) \<Longrightarrow> silent_answer E policies_json m = Some m' \<Longrightarrow>
     mstep E m (SilentAnswer policies_json) m'"
| agent_gone:
    "\<not> aborted (bus m) \<Longrightarrow> (owner, user_data) \<in> set (agent_watches m) \<Longrightarrow>
     user_data = None \<or> user_data = Some found \<Longrightarrow>
     owner_disconnect (Some found)
       (m\<lparr>agent_watches := remove1 (owner, user_data) (agent_watches m)\<rparr>) = Some m' \<Longrightarrow>
     mstep E m (AgentGone owner found) m'"
| app_gone:
    "\<not> aborted (bus m) \<Longrightarrow> (owner, r) \<in> set (disc_watches (store m)) \<Longrightarrow>
     stop_watching_app r ((store m)\<lparr>disc_watches := remove1 (owner, r) (disc_watches (store m))\<rparr>)
       = Some st \<Longrightarrow>
     mstep E m (AppGone owner r) (m\<lparr>store := st\<rparr>)"

inductive mrun :: "env \<Rightarrow> manager \<Rightarrow> event list \<Rightarrow> manager \<Rightarrow> bool" for E :: env where
  run_nil: "mrun E m [] m"
| run_cons: "mstep E m e m1 \<Longrightarrow> mrun E m1 es m2 \<Longrightarrow> mrun E m (e # es) m2"

inductive_cases mrun_consE: "mrun E m (e # es) m2"
inductive_cases mrun_nilE: "mrun E m [] m2"

end
