(* ===== verification/Dbus_Json_Props.thy ===== *)
theory Dbus_Json_Props
  imports Dbus_Json
begin

text \<open>
  Correctness of \<open>dbus-json.c\<close>: the signatures it computes, that what it appends respects
  the D-Bus typing rule under exactly that signature, when it aborts, and that the JSON
  value can be read back.
\<close>

section \<open>Array types\<close>

lemma array_type_loop_eq:
  "array_type_loop p t vs =
     (if vs = [] then t else if \<forall>v\<in>set vs. json_typeof v = p then Some p else None)"
  by (induction p t vs rule: array_type_loop.induct) (auto simp: Let_def)

lemma get_array_type_lemma:
  "get_array_type vs = Some t \<longleftrightarrow> 2 \<le> length vs \<and> (\<forall>v\<in>set vs. json_typeof v = t)"
  by (cases vs; cases "tl vs") (auto simp: get_array_type_def array_type_loop_eq)

text \<open>
  \<open>get_array_type\<close> returns the type of the entries exactly for an array of at least
  two entries of one type. Its comment promises the type whenever all entries agree; the
  loop starts at the second entry, so for an array of one entry the result is -1.
\<close>

lemma get_array_type_spec:
  "(get_array_type vs = Some t \<longleftrightarrow> 2 \<le> length vs \<and> (\<forall>v\<in>set vs. json_typeof v = t))
   \<and> get_array_type [v] = None"
  by (simp add: get_array_type_lemma) (simp add: get_array_type_def)

section \<open>Signatures\<close>

fun scalar_code :: "json_type \<Rightarrow> char option" where
  "scalar_code JSON_STRING = Some (CHR ''s'')"
| "scalar_code JSON_INTEGER = Some (CHR ''i'')"
| "scalar_code JSON_REAL = Some (CHR ''d'')"
| "scalar_code JSON_TRUE = Some (CHR ''b'')"
| "scalar_code JSON_FALSE = Some (CHR ''b'')"
| "scalar_code _ = None"

lemma signature_scalar:
  "scalar_code (json_typeof v) = Some c \<Longrightarrow> json_value_to_dbus_type_signature v = Some [c]"
  by (cases v) auto

lemma signature_not_v: "json_value_to_dbus_type_signature v = Some s \<Longrightarrow> take 1 s \<noteq> ''v''"
proof (cases v)
  case (JArray vs)
  moreover assume "json_value_to_dbus_type_signature v = Some s"
  ultimately show ?thesis by (cases vs) (auto split: option.splits if_splits)
qed auto

lemma array_signature_scalar:
  assumes "get_array_type vs = Some t" and "scalar_code t = Some c"
  shows "json_array_to_dbus_type_signature vs = Some [CHR ''a'', c]"
proof -
  from assms(1) obtain v rest where vs: "vs = v # rest" and "json_typeof v = t"
    by (cases vs) (auto simp: get_array_type_lemma)
  with assms show ?thesis
    by (cases t) (auto simp: signature_scalar)
qed

lemma array_signature_variant:
  assumes "\<forall>t. get_array_type vs = Some t \<longrightarrow> scalar_code t = None \<and> t \<noteq> JSON_NULL"
  shows "json_array_to_dbus_type_signature vs = Some ''av''"
proof (cases vs)
  case (Cons v rest)
  show ?thesis
  proof (cases "get_array_type vs")
    case (Some t)
    with assms have "scalar_code t = None" "t \<noteq> JSON_NULL" by auto
    then have "t = JSON_OBJECT \<or> t = JSON_ARRAY" by (cases t) auto
    with Some show ?thesis by (auto simp: Cons)
  qed (simp add: Cons)
qed simp

fun has_null :: "json \<Rightarrow> bool" where
  "has_null JNull = True"
| "has_null (JArray vs) = list_ex has_null vs"
| "has_null (JObject kvs) = list_ex (\<lambda>(k, v). has_null v) kvs"
| "has_null _ = False"

text \<open>The entries of an array without null all have the inner signature, or are variants.\<close>

lemma array_signature_cases:
  assumes "\<not> has_null (JArray vs)"
  shows "\<exists>inner. json_array_to_dbus_type_signature vs = Some (CHR ''a'' # inner)
    \<and> (inner = ''v'' \<or> (\<forall>v\<in>set vs. json_value_to_dbus_type_signature v = Some inner)
         \<and> length inner = 1)"
proof (cases "\<exists>t c. get_array_type vs = Some t \<and> scalar_code t = Some c")
  case True
  then obtain t c where t: "get_array_type vs = Some t" "scalar_code t = Some c" by blast
  then have "\<forall>v\<in>set vs. json_value_to_dbus_type_signature v = Some [c]"
    by (auto simp: get_array_type_lemma intro: signature_scalar)
  with array_signature_scalar[OF t] show ?thesis by auto
next
  case False
  have "t \<noteq> JSON_NULL" if "get_array_type vs = Some t" for t
  proof
    assume "t = JSON_NULL"
    with that obtain v rest where "vs = v # rest" "json_typeof v = JSON_NULL"
      by (cases vs) (auto simp: get_array_type_lemma)
    with assms show False by (cases v) auto
  qed
  with False have "\<forall>t. get_array_type vs = Some t \<longrightarrow> scalar_code t = None \<and> t \<noteq> JSON_NULL"
    by fastforce
  from array_signature_variant[OF this] show ?thesis by auto
qed

lemma signature_exists: "\<not> has_null v \<Longrightarrow> \<exists>s. json_value_to_dbus_type_signature v = Some s"
  using array_signature_cases by (cases v) fastforce+

section \<open>Reading back\<close>

fun json_of_item :: "ditem \<Rightarrow> json"
  and json_of_items :: "ditem list \<Rightarrow> json list"
  and json_of_entries :: "ditem list \<Rightarrow> (string \<times> json) list"
where
  "json_of_item (Basic (DBoolean b)) = (if b then JTrue else JFalse)"
| "json_of_item (Basic (DInt32 n)) = JInteger (scast n)"
| "json_of_item (Basic (DDouble r)) = JReal r"
| "json_of_item (Basic (DString s)) = JString s"
| "json_of_item (DVariant s [i]) = json_of_item i"
| "json_of_item (DArray s items) =
     (if s = ''{sv}'' then JObject (json_of_entries items) else JArray (json_of_items items))"
| "json_of_item _ = JNull"
| "json_of_items [] = []"
| "json_of_items (i # items) = json_of_item i # json_of_items items"
| "json_of_entries (DDictEntry [Basic (DString k), DVariant s [i]] # items) =
     (k, json_of_item i) # json_of_entries items"
| "json_of_entries _ = []"

fun ints_fit :: "json \<Rightarrow> bool" where
  "ints_fit (JInteger n) = (scast (ucast n :: 32 word) = n)"
| "ints_fit (JArray vs) = list_all ints_fit vs"
| "ints_fit (JObject kvs) = list_all (\<lambda>(k, v). ints_fit v) kvs"
| "ints_fit _ = True"

section \<open>What is appended\<close>

definition appended_ok :: "json \<Rightarrow> ditem \<Rightarrow> bool" where
  "appended_ok v i \<longleftrightarrow>
     wt_item i \<and> \<not> is_dict_entry i \<and> json_value_to_dbus_type_signature v = Some (item_sig i)
     \<and> (ints_fit v \<longrightarrow> json_of_item i = v)"

declare append_json_value.simps [simp del]

lemma append_ok:
  "\<not> has_null v \<Longrightarrow> sig = None \<or> sig = json_value_to_dbus_type_signature v \<Longrightarrow>
     \<exists>i. append_json_value v sig = Some [i] \<and> appended_ok v i"
  "list_all (\<lambda>v. \<not> has_null v) vs \<Longrightarrow>
     inner = ''v'' \<or> (\<forall>v\<in>set vs. json_value_to_dbus_type_signature v = Some inner) \<Longrightarrow>
     \<exists>items. append_array_entries inner vs = Some items
       \<and> list_all (\<lambda>i. wt_item i \<and> item_sig i = inner) items
       \<and> (list_all ints_fit vs \<longrightarrow> json_of_items items = vs)"
  "list_all (\<lambda>(k, v). \<not> has_null v) kvs \<Longrightarrow>
     \<exists>items. append_object_entries kvs = Some items
       \<and> list_all (\<lambda>i. wt_item i \<and> item_sig i = ''{sv}'') items
       \<and> (list_all (\<lambda>(k, v). ints_fit v) kvs \<longrightarrow> json_of_entries items = kvs)"
proof (induction v sig and inner vs and kvs
    rule: append_json_value_append_array_entries_append_object_entries.induct)
  case (1 v sig)
  show ?case
  proof (cases v)
    case (JArray vs)
    with 1 have nn: "\<not> has_null (JArray vs)" by simp
    from array_signature_cases[OF nn] obtain inner where
      s: "json_array_to_dbus_type_signature vs = Some (CHR ''a'' # inner)"
      and i: "inner = ''v'' \<or> (\<forall>v\<in>set vs. json_value_to_dbus_type_signature v = Some inner)"
      and l: "inner = ''v'' \<or> length inner = 1" by blast
    have sig: "(case sig of Some s \<Rightarrow> Some s | None \<Rightarrow> json_value_to_dbus_type_signature v)
        = Some (CHR ''a'' # inner)"
      using 1(4) s JArray by auto
    from nn have "list_all (\<lambda>v. \<not> has_null v) vs"
      by (simp add: list_all_iff list_ex_iff)
    with 1(2)[OF sig JArray] i obtain items where
      "append_array_entries inner vs = Some items"
      "list_all (\<lambda>i. wt_item i \<and> item_sig i = inner) items"
      "list_all ints_fit vs \<longrightarrow> json_of_items items = vs" by auto
    with JArray s sig l show ?thesis
      by (subst append_json_value.simps) (auto simp: appended_ok_def)
  next
    case (JObject kvs)
    have sig: "(case sig of Some s \<Rightarrow> Some s | None \<Rightarrow> json_value_to_dbus_type_signature v)
        = Some ''a{sv}''"
      using 1(4) JObject by auto
    from 1(3) JObject have "list_all (\<lambda>(k, v). \<not> has_null v) kvs"
      by (simp add: list_all_iff list_ex_iff case_prod_beta)
    with 1(1)[OF sig JObject] obtain items where
      "append_object_entries kvs = Some items"
      "list_all (\<lambda>i. wt_item i \<and> item_sig i = ''{sv}'') items"
      "list_all (\<lambda>(k, v). ints_fit v) kvs \<longrightarrow> json_of_entries items = kvs" by auto
    with JObject sig show ?thesis
      by (subst append_json_value.simps) (auto simp: appended_ok_def)
  qed (use 1(3,4) in \<open>auto simp: append_json_value.simps appended_ok_def append_boolean_def append_integer_def
      append_real_def append_string_def\<close>)
next
  case (2 inner)
  then show ?case by simp
next
  case (3 inner entry rest)
  let ?head = "if take 1 inner = ''v''
     then (case json_value_to_dbus_type_signature entry of None \<Rightarrow> None
           | Some s \<Rightarrow> map_option (\<lambda>items. [DVariant s items]) (append_json_value entry (Some s)))
     else append_json_value entry None"
  have "\<exists>i. ?head = Some [i] \<and> wt_item i \<and> item_sig i = inner
    \<and> (ints_fit entry \<longrightarrow> json_of_item i = entry)"
  proof (cases "inner = ''v''")
    case True
    obtain s where s: "json_value_to_dbus_type_signature entry = Some s"
      using signature_exists 3(4) by auto
    with 3(1)[OF _ s] True 3(4) obtain i where
      "append_json_value entry (Some s) = Some [i]" "appended_ok entry i" by auto
    with True s show ?thesis by (auto simp: appended_ok_def)
  next
    case False
    with 3(5) have s: "json_value_to_dbus_type_signature entry = Some inner" by simp
    from signature_not_v[OF s] have v: "take 1 inner \<noteq> ''v''" .
    with 3(2) 3(4) obtain i where
      "append_json_value entry None = Some [i]" "appended_ok entry i" by auto
    with v s show ?thesis by (auto simp: appended_ok_def)
  qed
  then obtain i where i: "?head = Some [i]" "wt_item i" "item_sig i = inner"
    "ints_fit entry \<longrightarrow> json_of_item i = entry" by blast
  from 3(3)[OF i(1)] 3(4,5) obtain more where "append_array_entries inner rest = Some more"
    "list_all (\<lambda>i. wt_item i \<and> item_sig i = inner) more"
    "list_all ints_fit rest \<longrightarrow> json_of_items more = rest" by auto
  with i show ?case by simp
next
  case 4
  then show ?case by simp
next
  case (5 key v rest)
  from 5(3) obtain s where s: "json_value_to_dbus_type_signature v = Some s"
    using signature_exists by auto
  from 5(1)[OF s] 5(3) s obtain i where
    i: "append_json_value v (Some s) = Some [i]" "appended_ok v i" by auto
  from 5(2)[OF s i(1)] 5(3) obtain more where "append_object_entries rest = Some more"
    "list_all (\<lambda>i. wt_item i \<and> item_sig i = ''{sv}'') more"
    "list_all (\<lambda>(k, v). ints_fit v) rest \<longrightarrow> json_of_entries more = rest" by auto
  with s i show ?case by (auto simp: appended_ok_def)
qed

lemma append_null:
  "has_null v \<Longrightarrow> append_json_value v sig = None"
  "list_ex has_null vs \<Longrightarrow> append_array_entries inner vs = None"
  "list_ex (\<lambda>(k, v). has_null v) kvs \<Longrightarrow> append_object_entries kvs = None"
proof (induction v sig and inner vs and kvs
    rule: append_json_value_append_array_entries_append_object_entries.induct)
  case (1 v sig)
  then show ?case
    by (cases v) (auto simp: append_json_value.simps split: option.split)
next
  case (3 inner entry rest)
  let ?head = "if take 1 inner = ''v''
     then (case json_value_to_dbus_type_signature entry of None \<Rightarrow> None
           | Some s \<Rightarrow> map_option (\<lambda>items. [DVariant s items]) (append_json_value entry (Some s)))
     else append_json_value entry None"
  show ?case
  proof (cases "has_null entry")
    case True
    then have "?head = None"
      using 3(1,2) by (cases "take 1 inner = ''v''") (auto split: option.split)
    then show ?thesis by simp
  next
    case False
    with 3(4) have "list_ex has_null rest" by simp
    with 3(3) show ?thesis by (cases ?head) auto
  qed
next
  case (5 key v rest)
  then show ?case by (auto split: option.split)
qed auto

text \<open>
  C14. A JSON value without null is appended as one complete D-Bus value that respects the
  typing rule, and its type is the one \<open>json_value_to_dbus_type_signature\<close> computes.
\<close>

theorem append_object_well_typed:
  assumes "\<not> has_null v"
  shows "\<exists>i. pold_dbus_json_append_object v = Some [i] \<and> wt_body [i]
    \<and> json_value_to_dbus_type_signature v = Some (item_sig i)"
  using append_ok(1)[OF assms, of None]
  by (auto simp: pold_dbus_json_append_object_def appended_ok_def wt_body_def)

theorem append_object_well_typed_witness:
  "\<exists>i. pold_dbus_json_append_object
      (JObject [(''a'', JArray [JInteger 1, JInteger 2]), (''b'', JArray [JTrue, JString ''x''])])
      = Some [i] \<and> wt_body [i]"
  using append_object_well_typed[of
      "JObject [(''a'', JArray [JInteger 1, JInteger 2]), (''b'', JArray [JTrue, JString ''x''])]"]
  by auto

text \<open>
  The converter aborts the daemon (a failed assertion) exactly for the values that
  contain a JSON null somewhere.
\<close>

lemma append_object_aborts_iff_null:
  "pold_dbus_json_append_object v = None \<longleftrightarrow> has_null v"
  using append_ok(1)[of v None] append_null(1)[of v None]
  by (cases "has_null v") (auto simp: pold_dbus_json_append_object_def)

text \<open>
  C13. Nothing is lost: a value without null whose integers fit 32 bits can be read back
  from what was appended, through all nested arrays, variants and dictionaries.
\<close>

theorem append_object_roundtrip:
  assumes "\<not> has_null v" and "ints_fit v" and "pold_dbus_json_append_object v = Some items"
  shows "map json_of_item items = [v]"
  using append_ok(1)[OF assms(1), of None] assms(2,3)
  by (auto simp: pold_dbus_json_append_object_def appended_ok_def)

theorem append_object_roundtrip_witness:
  "map json_of_item (the (pold_dbus_json_append_object (JArray [JInteger 7, JString ''x''])))
     = [JArray [JInteger 7, JString ''x'']]"
proof -
  have "\<not> has_null (JArray [JInteger 7, JString ''x''])"
    and "ints_fit (JArray [JInteger 7, JString ''x''])" by simp_all
  moreover from append_ok(1)[OF this(1), of None] obtain items where
    "pold_dbus_json_append_object (JArray [JInteger 7, JString ''x'']) = Some items"
    by (auto simp: pold_dbus_json_append_object_def)
  ultimately show ?thesis using append_object_roundtrip by simp
qed

text \<open>
  Integers keep their value exactly when it is in the range of a 32-bit \<open>int\<close>; all
  others are cut by the assignment to \<open>int\<close> in \<open>append_integer\<close>.
\<close>

lemma append_integer_range:
  "json_of_item (append_integer n) = JInteger n \<longleftrightarrow> - (2 ^ 31) \<le> sint n \<and> sint n < 2 ^ 31"
proof -
  have "sint (ucast n :: 32 word) = signed_take_bit 31 (sint n)"
    by (simp add: signed_ucast_eq uint_sint signed_take_bit_take_bit)
  moreover have "sint (scast (ucast n :: 32 word) :: 64 word) = sint (ucast n :: 32 word)"
    by (rule sint_up_scast) (simp add: is_up)
  ultimately have "scast (ucast n :: 32 word) = n \<longleftrightarrow> signed_take_bit 31 (sint n) = sint n"
    by (metis of_int_sint scast_id)
  also have "\<dots> \<longleftrightarrow> - (2 ^ 31) \<le> sint n \<and> sint n < 2 ^ 31"
    by (simp add: signed_take_bit_int_eq_self_iff)
  finally show ?thesis by (simp add: append_integer_def)
qed

end
