(* ===== verification/Manager_Props.thy ===== *)
theory Manager_Props
  imports Manager Dbus_Json_Props
begin

text \<open>
  Correctness of \<open>pold-manager.c\<close>: how an application is identified, which policy a request
  is answered with, that every request is answered at most once and when exactly once, the
  invariant of the store over all runs of the daemon, and the agents' updates.
\<close>

section \<open>The SELinux type\<close>

lemma split_at_None: "split_at d s = (tok, None) \<Longrightarrow> tok = s \<and> d \<notin> set s"
  by (induction s arbitrary: tok) (auto split: if_splits prod.splits)

lemma split_at_Some: "split_at d s = (tok, Some rest) \<Longrightarrow> s = tok @ d # rest \<and> d \<notin> set tok"
  by (induction s arbitrary: tok) (auto split: if_splits prod.splits)

lemma split_all_join:
  "\<exists>tok rest. split_all d s = tok # rest \<and> d \<notin> set tok
     \<and> (rest = [] \<and> s = tok \<or> (\<exists>s'. s = tok @ d # s' \<and> rest = split_all d s'))"
proof (cases "split_at d s")
  case (Pair tok r)
  show ?thesis
  proof (cases r)
    case None
    with Pair split_at_None[of d s tok] show ?thesis by (subst split_all.simps) simp
  next
    case (Some s')
    with Pair split_at_Some[of d s tok s'] show ?thesis by (subst split_all.simps) simp
  qed
qed

lemma parse_selinux_type_lemma:
  "parse_selinux_type (Some s) = Some t \<longleftrightarrow>
     (\<exists>u r tail. s = u @ CHR '':'' # r @ CHR '':'' # t @ tail
        \<and> CHR '':'' \<notin> set u \<and> CHR '':'' \<notin> set r \<and> CHR '':'' \<notin> set t
        \<and> (tail = [] \<or> hd tail = CHR '':''))"
proof
  assume l: "parse_selinux_type (Some s) = Some t"
  let ?c = "CHR '':''"
  from l have "3 \<le> length (split_all ?c s)" and t: "t = split_all ?c s ! 2"
    by (auto simp: parse_selinux_type_def g_strsplit_def Let_def split: if_splits)
  with split_all_join[of ?c s] obtain u s1 where 1: "s = u @ ?c # s1" "?c \<notin> set u"
    "split_all ?c s = u # split_all ?c s1" by auto
  with \<open>3 \<le> _\<close> split_all_join[of ?c s1] obtain r s2 where 2: "s1 = r @ ?c # s2" "?c \<notin> set r"
    "split_all ?c s1 = r # split_all ?c s2" by auto
  from split_all_join[of ?c s2] obtain t' rest where "split_all ?c s2 = t' # rest" "?c \<notin> set t'"
    "s2 = t' \<or> (\<exists>s'. s2 = t' @ ?c # s')" by blast
  with 1 2 t have "?c \<notin> set t" "\<exists>tail. s2 = t @ tail \<and> (tail = [] \<or> hd tail = ?c)" by auto
  with 1 2 show "\<exists>u r tail. s = u @ ?c # r @ ?c # t @ tail \<and> ?c \<notin> set u \<and> ?c \<notin> set r
    \<and> ?c \<notin> set t \<and> (tail = [] \<or> hd tail = ?c)" by auto
next
  assume "\<exists>u r tail. s = u @ CHR '':'' # r @ CHR '':'' # t @ tail
    \<and> CHR '':'' \<notin> set u \<and> CHR '':'' \<notin> set r \<and> CHR '':'' \<notin> set t
    \<and> (tail = [] \<or> hd tail = CHR '':'')"
  then obtain u r tail where s: "s = u @ CHR '':'' # r @ CHR '':'' # t @ tail"
    and n: "CHR '':'' \<notin> set u" "CHR '':'' \<notin> set r" "CHR '':'' \<notin> set t"
    and tail: "tail = [] \<or> (\<exists>w. tail = CHR '':'' # w)"
    by (metis list.exhaust_sel)
  from tail n(3) have "\<exists>rest. split_all (CHR '':'') (t @ tail) = t # rest"
    by (auto simp: split_all_append split_all_notin)
  with s n show "parse_selinux_type (Some s) = Some t"
    by (auto simp: parse_selinux_type_def g_strsplit_def split_all_append)
qed

text \<open>
  The identification token is exactly the third of the colon-separated components of
  the SELinux context, if there are at least three; a context of two components, where the
  code reads the NULL that ends the token vector, gives none.
\<close>

lemma parse_selinux_type_third:
  "parse_selinux_type (Some s) = Some t \<longleftrightarrow>
     (\<exists>u r tail. s = u @ CHR '':'' # r @ CHR '':'' # t @ tail
        \<and> CHR '':'' \<notin> set u \<and> CHR '':'' \<notin> set r \<and> CHR '':'' \<notin> set t
        \<and> (tail = [] \<or> hd tail = CHR '':''))"
  by (rule parse_selinux_type_lemma)

section \<open>When to ask the server\<close>

lemma to_int_eq: "to_int t = (t + 2 ^ 31) mod 2 ^ 32 - 2 ^ 31"
  by (simp add: to_int_def int_word_sint)

lemma to_int_small: "- (2 ^ 31) \<le> t \<Longrightarrow> t < 2 ^ 31 \<Longrightarrow> to_int t = t"
  by (simp add: to_int_eq)

text \<open>
  Until January 2038 the policies are fetched again exactly when the policy directory
  was last changed more than 10 seconds ago. Afterwards the time no longer fits the \<open>int\<close>
  it is stored in, and the difference to an older directory overflows.
\<close>

lemma need_http_policy_update_spec:
  assumes "0 \<le> t" and "t < 2 ^ 31" and "0 \<le> now"
  shows "(now < 2 ^ 31 \<longrightarrow> need_http_policy_update (Some t) now = Some (now - t > 10))
    \<and> (2 ^ 31 \<le> now \<and> now - t < 2 ^ 31 \<longrightarrow> need_http_policy_update (Some t) now = None)"
proof -
  have "to_int now = now - 2 ^ 32" if "2 ^ 31 \<le> now" "now < 2 ^ 32"
  proof -
    have n: "now + 2 ^ 31 = (now - 2 ^ 31) + 2 ^ 32" by simp
    have "(now + 2 ^ 31) mod 2 ^ 32 = now - 2 ^ 31"
      unfolding n mod_add_self2 by (rule mod_pos_pos_trivial) (use that in simp_all)
    then show ?thesis by (simp add: to_int_eq)
  qed
  with assms show ?thesis
    by (auto simp: need_http_policy_update_def to_int_small Let_def)
qed

section \<open>The answer to a request\<close>

text \<open>
  The ids a request is judged by: those the application was filed under when it was first
  asked about, else the valid ones of this request. The policy of the answer follows.
\<close>

definition request_ids :: "policy_state \<Rightarrow> string \<Rightarrow> string list \<Rightarrow> string list" where
  "request_ids st key ids =
     (case watched st key of Some app \<Rightarrow> policy_ids app | None \<Rightarrow> valid_ids ids)"

definition answer_app :: "policy_state \<Rightarrow> string \<Rightarrow> string list \<Rightarrow> pold_agent_app" where
  "answer_app st key ids =
     \<lparr>app_id = key, policy_ids = request_ids st key ids, agent_policy_json = None\<rparr>"

abbreviation answer_key :: "config_data \<Rightarrow> string" where
  "answer_key data \<equiv> app_id_of (agent_owner data) (app_owner data)"

lemma contains_watched:
  "policy_wf st \<Longrightarrow> gh_contains (app_id_to_app st) key \<longleftrightarrow> (\<exists>app. watched st key = Some app)"
  using policy_wfD(4)[of st] by (fastforce simp: apps_indexed_def watched_def bind_eq_Some_conv)

lemma watch_app_result:
  assumes wf: "policy_wf st" and def: "default_policy st \<noteq> None"
  shows "\<exists>st' app. pold_policy_watch_app ag ap ids st = Some st' \<and> policy_wf st'
    \<and> default_policy st' = default_policy st \<and> id_to_policy st' = id_to_policy st
    \<and> watched st' (app_id_of ag ap) = Some app
    \<and> policy_ids app = request_ids st (app_id_of ag ap) ids"
proof (cases "gh_contains (app_id_to_app st) (app_id_of ag ap)")
  case True
  with contains_watched[OF wf] obtain app where "watched st (app_id_of ag ap) = Some app" by blast
  with True wf show ?thesis
    by (intro exI[of _ st] exI[of _ app]) (simp add: watch_app_known request_ids_def)
next
  case False
  obtain p where p: "active_policy st (new_app (app_id_of ag ap) ids) = Some p"
    using active_policy_Some[OF def] by blast
  from False have "watched st (app_id_of ag ap) = None" by (simp add: watched_def)
  moreover obtain st' where st': "pold_policy_watch_app ag ap ids st = Some st'" "policy_wf st'"
    "watched st' (app_id_of ag ap) = Some (new_app (app_id_of ag ap) ids\<lparr>agent_policy_json := policy_json p\<rparr>)"
    using watch_app_lemma[OF wf def, of ag ap ids] False p by auto
  moreover from st'(1) watch_app_new[OF False p] have
    "default_policy st' = default_policy st" "id_to_policy st' = id_to_policy st"
    by (auto simp: Let_def)
  ultimately show ?thesis
    by (intro exI[of _ st'] exI) (auto simp: request_ids_def new_app_def)
qed

lemma put_policy_frame [simp]:
  "policy_wf st \<Longrightarrow> policy_wf (put_policy ptr p st)"
  "default_policy st \<noteq> None \<Longrightarrow> \<exists>q. default_policy (put_policy ptr p st) = Some q"
  by (cases ptr; auto simp: put_policy_def intro: policy_wf_frame)+

lemma get_active_policy_cong:
  "id_to_policy s = id_to_policy t \<Longrightarrow> default_policy s = default_policy t \<Longrightarrow>
     policy_ids a = policy_ids b \<Longrightarrow> get_active_policy s a = get_active_policy t b"
  by (simp only: get_active_policy_def)

lemma user_cb_lemma:
  assumes wf: "policy_wf (store m)" and def: "default_policy (store m) \<noteq> None"
    and err: "0 \<le> err"
  shows "\<exists>st ptr p. policy_wf st \<and> default_policy st = default_policy (store m)
    \<and> id_to_policy st = id_to_policy (store m)
    \<and> get_active_policy (store m) (answer_app (store m) (answer_key data)
          (policy_ids_of E data uid)) = Some ptr
    \<and> policy_at (store m) ptr = Some p
    \<and> (\<exists>app. watched st (answer_key data) = Some app
         \<and> policy_ids app = request_ids (store m) (answer_key data) (policy_ids_of E data uid))
    \<and> user_cb E uid data err m =
        (let q = replace_id_if_empty (env_json E) (''user:'' @ fmt_s (get_user E uid)) p
         in reply_with_policy E data q (m\<lparr>store := put_policy ptr q st\<rparr>))"
proof -
  let ?a = "answer_app (store m) (answer_key data) (policy_ids_of E data uid)"
  from watch_app_result[OF wf def] obtain st app where
    st: "pold_policy_watch_app (agent_owner data) (app_owner data) (policy_ids_of E data uid)
           (store m) = Some st"
    "policy_wf st" "default_policy st = default_policy (store m)"
    "id_to_policy st = id_to_policy (store m)" "watched st (answer_key data) = Some app"
    "policy_ids app = request_ids (store m) (answer_key data) (policy_ids_of E data uid)" by blast
  obtain p ptr where ptr: "get_active_policy (store m) ?a = Some ptr"
    "policy_at (store m) ptr = Some p"
    using active_policy_Some[OF def, of ?a] by (auto simp: active_policy_def bind_eq_Some_conv)
  moreover from ptr(1) st have "get_active_policy st app = Some ptr"
    by (subst get_active_policy_cong[OF st(4,3)]) (simp_all add: answer_app_def)
  moreover from ptr(2) st have "policy_at st ptr = Some p" by (cases ptr) simp_all
  ultimately show ?thesis using st err
    by (intro exI[of _ st] exI[of _ ptr] exI[of _ p])
      (simp add: user_cb_def pold_policy_get_active_policy_def watched_def)
qed

lemma watched_put_policy [simp]: "watched (put_policy ptr p st) = watched st"
  by (cases ptr) (auto simp: put_policy_def watched_def fun_eq_iff)

lemma reply_with_policy_ok:
  assumes "no_faults (bus m)" and "policy_items (env_json E) (policy_json p) = Some items"
  shows "reply_with_policy E data p m =
    Some (m\<lparr>bus := (bus m)\<lparr>clock := clock (bus m) + 2,
      sent := sent (bus m) @ [MethodReturn (req_serial (pending data)) items]\<rparr>\<rparr>)"
  using assms by (simp add: reply_with_policy_def new_message_no_faults send_no_faults
      pold_policy_append_to_message_def send_reply_def)


text \<open>
  A policy without an id loses its content the first time it is used: the code wraps
  its text into a JSON string, which Jansson does not print, so the reply is empty, and so
  is the default policy of all applications from then on. (It is shipped with an empty id.)
\<close>

lemma empty_id_erases_default_policy:
  assumes "policy_wf (store m)" and "default_policy (store m) = Some p" and "0 \<le> err"
    and "get_active_policy (store m) (answer_app (store m) (answer_key data)
           (policy_ids_of E data uid)) = Some DefaultPolicy"
    and "policy_id p = []" and "\<forall>s. json_dumps (env_json E) (JString s) = None"
    and "no_faults (bus m)"
  shows "\<exists>m' q. user_cb E uid data err m = Some m'
    \<and> sent (bus m') = sent (bus m) @ [MethodReturn (req_serial (pending data)) []]
    \<and> default_policy (store m') = Some q \<and> policy_json q = None"
proof -
  have def: "default_policy (store m) \<noteq> None" using assms(2) by simp
  from user_cb_lemma[OF assms(1) def assms(3), of data E uid] assms(2,4) obtain st where
    u: "user_cb E uid data err m =
        (let q = replace_id_if_empty (env_json E) (''user:'' @ fmt_s (get_user E uid)) p
         in reply_with_policy E data q (m\<lparr>store := put_policy DefaultPolicy q st\<rparr>))" by auto
  have "policy_json (replace_id_if_empty (env_json E) i p) = None" for i
    using assms(5,6) by (cases "policy_json p") (simp_all add: replace_id_if_empty_def Let_def)
  with u assms(7) show ?thesis
    by (simp add: reply_with_policy_ok policy_items_def put_policy_def Let_def)
qed

section \<open>Every request is answered at most once\<close>

text \<open>Answers given to a serial, and answers still to come.\<close>

definition due :: "nat \<Rightarrow> manager \<Rightarrow> nat" where
  "due s m = length (filter (\<lambda>(st, d). req_serial (pending d) = s) (waiting m))"

definition accounted :: "nat \<Rightarrow> manager \<Rightarrow> nat" where
  "accounted s m = answers s (bus m) + due s m"

fun request_serial :: "event \<Rightarrow> nat option" where
  "request_serial (GetPolicyConfig req _ _ _ _) = Some (req_serial req)"
| "request_serial (RegisterAgent req _) = Some (req_serial req)"
| "request_serial (UnregisterAgent req _) = Some (req_serial req)"
| "request_serial _ = None"

definition requests :: "nat \<Rightarrow> event list \<Rightarrow> nat" where
  "requests s es = length (filter (\<lambda>e. request_serial e = Some s) es)"

lemma due_frame [simp]:
  "due s (m\<lparr>bus := b\<rparr>) = due s m" "due s (m\<lparr>store := st\<rparr>) = due s m"
  "due s (m\<lparr>mdisk := d\<rparr>) = due s m" "due s (m\<lparr>agent_watches := w\<rparr>) = due s m"
  "due s (m\<lparr>waiting := waiting m @ [(g, d')]\<rparr>)
     = due s m + (if req_serial (pending d') = s then 1 else 0)"
  by (simp_all add: due_def)

lemma due_take_waiting:
  assumes "(g, d) \<in> set (waiting m)"
  shows "due s (take_waiting g d m) = due s m - (if req_serial (pending d) = s then 1 else 0)"
    and "req_serial (pending d) = s \<Longrightarrow> 0 < due s m"
proof -
  show "due s (take_waiting g d m) = due s m - (if req_serial (pending d) = s then 1 else 0)"
    using assms by (simp add: due_def take_waiting_def filter_remove1 length_remove1)
  show "req_serial (pending d) = s \<Longrightarrow> 0 < due s m"
    using assms by (auto simp: due_def filter_empty_conv)
qed

lemma take_waiting_frame [simp]:
  "bus (take_waiting g d m) = bus m" "store (take_waiting g d m) = store m"
  "mdisk (take_waiting g d m) = mdisk m" "agent_watches (take_waiting g d m) = agent_watches m"
  by (simp_all add: take_waiting_def)

text \<open>What each helper adds: one answer or one expected answer for its own request.\<close>

lemma accounted_frame [simp]:
  "accounted s (m\<lparr>store := st\<rparr>) = accounted s m" "accounted s (m\<lparr>mdisk := d\<rparr>) = accounted s m"
  "accounted s (m\<lparr>agent_watches := w\<rparr>) = accounted s m"
  by (simp_all add: accounted_def)

definition mine :: "nat \<Rightarrow> nat \<Rightarrow> nat" where
  "mine s t = (if t = s then 1 else 0)"

definition reply_to :: "nat \<Rightarrow> out_msg option \<Rightarrow> nat" where
  "reply_to s r = (case r of None \<Rightarrow> 0 | Some msg \<Rightarrow> if answer_to msg = Some s then 1 else 0)"

lemma reply_to_simps [simp]:
  "reply_to s None = 0" "reply_to s (Some (MethodReturn t body)) = mine s t"
  "reply_to s (Some (ErrorReply t n txt)) = mine s t"
  by (simp_all add: reply_to_def mine_def)

lemma send_reply_accounted:
  "accounted s (send_reply r m) \<le> accounted s m + reply_to s r"
  "no_faults (bus m) \<Longrightarrow> accounted s (send_reply r m) = accounted s m + reply_to s r"
  by (cases r; simp add: send_reply_def accounted_def send_answers reply_to_def)
    (cases r; simp add: send_reply_def accounted_def send_no_faults reply_to_def answers_def)

lemma new_message_accounted [simp]:
  "accounted s (m\<lparr>bus := snd (new_message (bus m))\<rparr>) = accounted s m"
  by (simp add: accounted_def)

text \<open>A message of pold, allocated and sent, adds at most (without faults exactly) one answer.\<close>

lemma send_new_accounted:
  "accounted s (send_reply r (m\<lparr>bus := snd (new_message (bus m))\<rparr>)) \<le> accounted s m + reply_to s r"
  "no_faults (bus m) \<Longrightarrow>
     accounted s (send_reply r (m\<lparr>bus := snd (new_message (bus m))\<rparr>)) = accounted s m + reply_to s r"
  using send_reply_accounted(1)[of s r "m\<lparr>bus := snd (new_message (bus m))\<rparr>"]
    send_reply_accounted(2)[of "m\<lparr>bus := snd (new_message (bus m))\<rparr>" s r] by simp_all

lemma error_reply_eq:
  "error_reply d t m = send_reply (if fst (new_message (bus m)) then Some (ErrorReply
       (req_serial (pending d)) ''org.freedesktop.DBus.Error.Failed'' (take 1023 t)) else None)
     (m\<lparr>bus := snd (new_message (bus m))\<rparr>)"
  by (simp add: error_reply_def g_dbus_create_error_def case_prod_beta)

lemma error_reply_accounted:
  "accounted s (error_reply d t m) \<le> accounted s m + mine s (req_serial (pending d))"
  "no_faults (bus m) \<Longrightarrow>
     accounted s (error_reply d t m) = accounted s m + mine s (req_serial (pending d))"
  using send_new_accounted(1)[of s "Some (ErrorReply (req_serial (pending d))
      ''org.freedesktop.DBus.Error.Failed'' (take 1023 t))" m] send_new_accounted(1)[of s None m]
  by (simp_all add: error_reply_eq send_new_accounted(2))
    (simp add: new_message_no_faults)

lemma message_freed_frame [simp]:
  "bus (message_freed req m) = bus m" "store (message_freed req m) = store m"
  "mdisk (message_freed req m) = mdisk m" "waiting (message_freed req m) = waiting m"
  "accounted s (message_freed req m) = accounted s m"
  by (simp_all add: message_freed_def accounted_def due_def)

lemma wait_for_cases:
  assumes "wait_for g d c m = Some m'"
  obtains error where "c = Some (error, None)" "m' = m"
  | error call where "c = Some (error, Some call)" "m' = m\<lparr>waiting := waiting m @ [(g, d)]\<rparr>"
  using assms by (auto simp: wait_for_def split: option.splits)

lemma wait_for_accounted:
  assumes "wait_for g d c m = Some m'"
  shows "accounted s m' \<le> accounted s m + mine s (req_serial (pending d))"
    and "c = Some (0, Some call) \<Longrightarrow> accounted s m' = accounted s m + mine s (req_serial (pending d))"
    and "no_faults (bus m') = no_faults (bus m)" and "store m' = store m" and "mdisk m' = mdisk m"
    and "agent_watches m' = agent_watches m"
  using assms by (auto elim!: wait_for_cases simp: accounted_def mine_def)

lemma question_sent:
  "pold_fdo_dbus_get_connection_selinux_context True SentCall n =
     Some (0, Some \<lparr>fdo_member = ''GetConnectionSELinuxSecurityContext'', fdo_argument = n\<rparr>)"
  "pold_fdo_dbus_get_connection_unix_user SentCall n =
     Some (0, Some \<lparr>fdo_member = ''GetConnectionUnixUser'', fdo_argument = n\<rparr>)"
  by (simp_all add: pold_fdo_dbus_get_connection_selinux_context_def
      pold_fdo_dbus_get_connection_unix_user_def send_fdo_call_def)

lemma abort_accounted [simp]: "accounted s (abort_daemon m) = accounted s m"
  by (simp add: abort_daemon_def accounted_def)

lemma reply_with_policy_cases:
  assumes "reply_with_policy E d p m = Some m'"
  shows "m' = abort_daemon m
    \<or> (\<exists>body. m' = send_reply (Some (MethodReturn (req_serial (pending d)) body))
                    (m\<lparr>bus := snd (new_message (bus m))\<rparr>))"
  using assms by (auto simp: reply_with_policy_def case_prod_beta split: if_splits option.splits)

lemma abort_daemon_aborted [simp]: "aborted (bus (abort_daemon m))"
  by (simp add: abort_daemon_def)

lemma reply_with_policy_accounted:
  assumes "reply_with_policy E d p m = Some m'"
  shows "accounted s m' \<le> accounted s m + mine s (req_serial (pending d))"
    and "no_faults (bus m) \<Longrightarrow> \<not> aborted (bus m') \<Longrightarrow>
      accounted s m' = accounted s m + mine s (req_serial (pending d))"
  using reply_with_policy_cases[OF assms]
    send_new_accounted(1)[of s "Some (MethodReturn (req_serial (pending d)) _)" m]
  by (auto simp: send_new_accounted(2))

text \<open>Updates of agents are no answers.\<close>

lemma update_agent_frame:
  assumes "pold_manager_update_agent J a b p w = Some (f, w1)"
  shows "answers s w1 = answers s w" "no_faults w1 = no_faults w" "object_paths w1 = object_paths w"
  using assms
  by (auto simp: pold_manager_update_agent_def case_prod_beta Let_def send_answers
      split: option.splits if_splits)

lemma update_policies_cb_bus:
  assumes "update_policies_cb J (pold_manager_update_agent J) dir body d st w = Some (e, d', st', w')"
  shows "answers s w' = answers s w" "no_faults w' = no_faults w" "object_paths w' = object_paths w"
proof -
  show "answers s w' = answers s w"
    by (rule update_policies_cb_inv[OF assms, of "\<lambda>v. answers s v = answers s w"]) (simp_all add: update_agent_frame)
  show "no_faults w' = no_faults w"
    by (rule update_policies_cb_inv[OF assms, of "\<lambda>v. no_faults v = no_faults w"]) (simp_all add: update_agent_frame)
  show "object_paths w' = object_paths w"
    by (rule update_policies_cb_inv[OF assms, of "\<lambda>v. object_paths v = object_paths w"]) (simp_all add: update_agent_frame)
qed

lemma take_waiting_accounted:
  "(g, d) \<in> set (waiting m) \<Longrightarrow>
     accounted s (take_waiting g d m) + mine s (req_serial (pending d)) = accounted s m"
  using due_take_waiting[of g d m s] by (auto simp: accounted_def mine_def)

lemma user_cb_cases:
  assumes "user_cb E uid data err m = Some m'"
  shows "(err < 0 \<and> (\<exists>t. m' = error_reply data t m))
    \<or> (\<exists>st p. reply_with_policy E data p (m\<lparr>store := st\<rparr>) = Some m')"
  using assms by (auto simp: user_cb_def Let_def split: if_splits option.splits)

lemma user_cb_accounted:
  assumes "user_cb E uid data err m = Some m'"
  shows "accounted s m' \<le> accounted s m + mine s (req_serial (pending data))"
    and "no_faults (bus m) \<Longrightarrow> \<not> aborted (bus m') \<Longrightarrow>
      accounted s m' = accounted s m + mine s (req_serial (pending data))"
proof -
  have r: "accounted s m' \<le> accounted s m + mine s (req_serial (pending data))"
    "no_faults (bus m) \<Longrightarrow> \<not> aborted (bus m') \<Longrightarrow>
       accounted s m' = accounted s m + mine s (req_serial (pending data))"
    if "reply_with_policy E data p (m\<lparr>store := st\<rparr>) = Some m'" for st p
    using reply_with_policy_accounted[OF that, of s] by simp_all
  from user_cb_cases[OF assms] r(1)
  show "accounted s m' \<le> accounted s m + mine s (req_serial (pending data))"
    using error_reply_accounted(1)[of s data _ m] by blast
  assume "no_faults (bus m)" "\<not> aborted (bus m')"
  with user_cb_cases[OF assms] r(2)
  show "accounted s m' = accounted s m + mine s (req_serial (pending data))"
    using error_reply_accounted(2)[of m s data] by blast
qed

lemma server_answer_cases:
  assumes "server_answer E body outcome data m = Some m'"
  shows "\<exists>error d st b. (\<forall>s. answers s b = answers s (bus m)) \<and> no_faults b = no_faults (bus m)
    \<and> (let m1 = m\<lparr>mdisk := d, store := st, bus := b\<rparr> in
        if aborted b then m' = m1 else update_from_server_cb outcome error data m1 = Some m')"
proof -
  let ?J = "env_json E"
  from assms obtain error d st b where
    u: "update_policies_cb ?J (pold_manager_update_agent ?J) (env_dir E) body (mdisk m) (store m)
          (bus m) = Some (error, d, st, b)"
    and m': "let m1 = m\<lparr>mdisk := d, store := st, bus := b\<rparr> in
        if aborted b then m' = m1 else update_from_server_cb outcome error data m1 = Some m'"
    by (auto simp: server_answer_def Let_def split: option.splits if_splits)
  from update_policies_cb_bus[OF u] m' show ?thesis
    by (intro exI[of _ error] exI[of _ d] exI[of _ st] exI[of _ b]) (simp add: Let_def)
qed

lemma silent_answer_cases:
  assumes "silent_answer E body m = Some m'"
  obtains error d st b where "m' = m\<lparr>mdisk := d, store := st, bus := b\<rparr>"
    "\<And>s. answers s b = answers s (bus m)" "no_faults b = no_faults (bus m)"
    "update_policies_cb (env_json E) (pold_manager_update_agent (env_json E)) (env_dir E) body (mdisk m)
       (store m) (bus m) = Some (error, d, st, b)"
proof -
  from assms obtain error d st b where
    u: "update_policies_cb (env_json E) (pold_manager_update_agent (env_json E)) (env_dir E) body (mdisk m)
          (store m) (bus m) = Some (error, d, st, b)" and m': "m' = m\<lparr>mdisk := d, store := st, bus := b\<rparr>"
    unfolding silent_answer_def by auto
  show ?thesis by (rule that[OF m' _ _ u]) (rule update_policies_cb_bus[OF u])+
qed

lemma silent_answer_accounted:
  assumes "silent_answer E body m = Some m'"
  shows "accounted s m' = accounted s m" and "no_faults (bus m') = no_faults (bus m)"
  using assms by (auto elim!: silent_answer_cases simp: accounted_def)

lemma update_from_server_cb_accounted:
  assumes "update_from_server_cb outcome error data m = Some m'"
  shows "accounted s m' \<le> accounted s m + mine s (req_serial (pending data))"
    and "no_faults (bus m) \<Longrightarrow> outcome = SentCall \<Longrightarrow>
      accounted s m' = accounted s m + mine s (req_serial (pending data))"
  using assms
  by (auto simp: update_from_server_cb_def error_reply_accounted question_sent split: if_splits
      dest: wait_for_accounted(1) intro: wait_for_accounted(2))

lemma get_policy_config_cases:
  assumes "pold_manager_get_policy_config E req app mtime now outcome m = Some m'"
  defines "data \<equiv> \<lparr>pending = req, agent_owner = req_sender req, app_owner = app, cfg_selinux = None\<rparr>"
  shows "m' = m\<lparr>bus := snd (new_message (bus m))\<rparr> \<and> \<not> fst (new_message (bus m))
    \<or> m' = abort_daemon m
    \<or> (\<exists>body. m' = send_reply (Some (MethodReturn (req_serial req) body))
                    (m\<lparr>bus := snd (new_message (bus m))\<rparr>))
    \<or> m' = m\<lparr>waiting := waiting m @ [(WaitServer, data)]\<rparr>
    \<or> wait_for WaitSelinux data
        (pold_fdo_dbus_get_connection_selinux_context True outcome app) m = Some m'"
  using assms(1)
  by (auto simp: pold_manager_get_policy_config_def pold_policy_update_from_server_def data_def
      Let_def case_prod_beta split: if_splits option.splits bool.splits)

lemma get_policy_config_accounted:
  assumes "pold_manager_get_policy_config E req app mtime now outcome m = Some m'"
  shows "accounted s m' \<le> accounted s m + mine s (req_serial req)"
    and "no_faults (bus m) \<Longrightarrow> outcome = SentCall \<Longrightarrow> \<not> aborted (bus m') \<Longrightarrow>
      accounted s m' = accounted s m + mine s (req_serial req)"
proof -
  let ?data = "\<lparr>pending = req, agent_owner = req_sender req, app_owner = app, cfg_selinux = None\<rparr>"
  have w: "accounted s (m\<lparr>waiting := waiting m @ [(WaitServer, ?data)]\<rparr>)
      = accounted s m + mine s (req_serial req)"
    by (simp add: accounted_def mine_def)
  show "accounted s m' \<le> accounted s m + mine s (req_serial req)"
    using get_policy_config_cases[OF assms] w
      send_new_accounted(1)[of s "Some (MethodReturn (req_serial req) _)" m]
    by (auto dest: wait_for_accounted(1)[of _ ?data])
  assume n: "no_faults (bus m)" and o: "outcome = SentCall" and a: "\<not> aborted (bus m')"
  from n have "fst (new_message (bus m))" by (simp add: new_message_no_faults)
  moreover have sel: "accounted s m' = accounted s m + mine s (req_serial req)"
    if "wait_for WaitSelinux ?data (pold_fdo_dbus_get_connection_selinux_context True outcome app) m = Some m'"
    using wait_for_accounted(2)[OF that] question_sent(1) o by simp
  ultimately
  show "accounted s m' = accounted s m + mine s (req_serial req)"
    using get_policy_config_cases[OF assms] a n w by (auto simp: send_new_accounted(2))
qed

lemma process_reply_accounted:
  "accounted s (m\<lparr>bus := snd (process_message False False r (bus m))\<rparr>) \<le> accounted s m + reply_to s r"
  "no_faults (bus m) \<Longrightarrow>
     accounted s (m\<lparr>bus := snd (process_message False False r (bus m))\<rparr>) = accounted s m + reply_to s r"
proof -
  have "m\<lparr>bus := snd (process_message False False r (bus m))\<rparr> = send_reply r m"
    by (cases r) (simp_all add: process_message_def send_reply_def)
  with send_reply_accounted(1)[of s r m] send_reply_accounted(2)[of m s r]
  show "accounted s (m\<lparr>bus := snd (process_message False False r (bus m))\<rparr>) \<le> accounted s m + reply_to s r"
    "no_faults (bus m) \<Longrightarrow>
     accounted s (m\<lparr>bus := snd (process_message False False r (bus m))\<rparr>) = accounted s m + reply_to s r"
    by simp_all
qed

lemma answers_object_paths [simp]:
  "accounted s (m\<lparr>bus := b\<lparr>object_paths := t\<rparr>\<rparr>) = accounted s (m\<lparr>bus := b\<rparr>)"
  by (simp add: accounted_def)

lemma register_agent_cases:
  assumes "pold_manager_register_agent req path m = (reply, m')"
  shows "accounted s m' = accounted s m" "reply_to s reply \<le> mine s (req_serial req)"
    "no_faults (bus m') = no_faults (bus m)" "aborted (bus m') = aborted (bus m)"
    "no_faults (bus m) \<Longrightarrow> gh_lookup (object_paths (bus m)) (req_sender req) = None \<Longrightarrow>
       reply_to s reply = mine s (req_serial req)"
  using assms
  by (auto simp: pold_manager_register_agent_def g_dbus_create_reply_def case_prod_beta
      new_message_no_faults Let_def split: if_splits)

lemma unregister_agent_cases:
  assumes "pold_manager_unregister_agent req path m = Some (reply, m')"
  shows "accounted s m' = accounted s m" "reply_to s reply \<le> mine s (req_serial req)"
    "no_faults (bus m') = no_faults (bus m)" "aborted (bus m') = aborted (bus m)"
    "no_faults (bus m) \<Longrightarrow> reply_to s reply = mine s (req_serial req)"
  using assms
  by (auto simp: pold_manager_unregister_agent_def g_dbus_create_reply_def g_dbus_create_error_def
      case_prod_beta new_message_no_faults Let_def accounted_def answers_def new_message_def due_def
      no_faults_def split: if_splits option.splits)

lemma selinux_cb_wait:
  assumes "selinux_cb outcome ctx data err m = Some m'"
  obtains data' where "pending data' = pending data"
    "wait_for WaitUser data' (pold_fdo_dbus_get_connection_unix_user outcome (app_owner data')) m = Some m'"
proof -
  let ?d = "if err < 0 then data else data\<lparr>cfg_selinux := parse_selinux_type (context_string ctx)\<rparr>"
  show ?thesis by (rule that[of ?d]) (use assms in \<open>simp_all add: selinux_cb_def Let_def\<close>)
qed

lemma selinux_cb_accounted:
  assumes "selinux_cb outcome ctx data err m = Some m'"
  shows "accounted s m' \<le> accounted s m + mine s (req_serial (pending data))"
    and "outcome = SentCall \<Longrightarrow> accounted s m' = accounted s m + mine s (req_serial (pending data))"
    and "no_faults (bus m') = no_faults (bus m)" and "store m' = store m" and "mdisk m' = mdisk m"
    and "agent_watches m' = agent_watches m"
proof -
  obtain data' where d: "pending data' = pending data"
    and w: "wait_for WaitUser data' (pold_fdo_dbus_get_connection_unix_user outcome (app_owner data')) m = Some m'"
    by (rule selinux_cb_wait[OF assms])
  note c = wait_for_accounted[OF w]
  show "accounted s m' \<le> accounted s m + mine s (req_serial (pending data))" using c(1)[of s] d by simp
  show "no_faults (bus m') = no_faults (bus m)" "store m' = store m" "mdisk m' = mdisk m"
    "agent_watches m' = agent_watches m" by (rule c)+
  assume "outcome = SentCall"
  with c(2)[OF question_sent(2)[of "app_owner data'", folded this], of s] d
  show "accounted s m' = accounted s m + mine s (req_serial (pending data))" by simp
qed

lemma mstep_accounted:
  "mstep E m e m' \<Longrightarrow>
     accounted s m' \<le> accounted s m + (if request_serial e = Some s then 1 else 0)"
proof (induction rule: mstep.induct)
  case (get_config m req app mtime now outcome m')
  from get_policy_config_accounted(1)[OF get_config(2), of s] show ?case
    by (auto simp: mine_def split: if_splits)
next
  case (register m req path reply m')
  from process_reply_accounted(1)[of s reply m'] register_agent_cases(1,2)[OF register(2), of s]
  show ?case by (auto simp: mine_def split: if_splits)
next
  case (unregister m req path reply m')
  from process_reply_accounted(1)[of s reply m'] unregister_agent_cases(1,2)[OF unregister(2), of s]
  show ?case by (auto simp: mine_def split: if_splits)
next
  case (server m data policies_json outcome m')
  let ?m = "take_waiting WaitServer data m"
  from server_answer_cases[OF server(3)] obtain error d st b where
    b: "\<forall>s. answers s b = answers s (bus m)"
    and m': "(let m1 = ?m\<lparr>mdisk := d, store := st, bus := b\<rparr> in
        if aborted b then m' = m1 else update_from_server_cb outcome error data m1 = Some m')" by auto
  have "accounted s (?m\<lparr>mdisk := d, store := st, bus := b\<rparr>) = accounted s ?m"
    using b by (simp add: accounted_def)
  with m' take_waiting_accounted[OF server(2), of s]
    update_from_server_cb_accounted(1)[of outcome error data "?m\<lparr>mdisk := d, store := st, bus := b\<rparr>" m' s]
  show ?case by (auto simp: Let_def split: if_splits)
next
  case (selinux m data reply ctx err outcome m')
  from selinux_cb_accounted(1)[OF selinux(4), of s]
    take_waiting_accounted[OF selinux(2), of s] show ?case by simp
next
  case (user m data reply uid err m')
  from user_cb_accounted(1)[OF user(4), of s] take_waiting_accounted[OF user(2), of s]
  show ?case by simp
next
  case (silent m policies_json m')
  with silent_answer_accounted(1) show ?case by simp
next
  case (agent_gone m owner user_data found m')
  then show ?case
    by (auto simp: owner_disconnect_def Let_def accounted_def split: option.splits)
qed simp

lemma mrun_accounted:
  "mrun E m es m' \<Longrightarrow> accounted s m' \<le> accounted s m + requests s es"
proof (induction rule: mrun.induct)
  case (run_cons m e m1 es m2)
  from mstep_accounted[OF run_cons(1), of s] run_cons(3) show ?case
    by (auto simp: requests_def split: if_splits)
qed (simp add: requests_def)

text \<open>
  C1. No request is answered twice. Whatever the interleaving of requests, replies of the
  bus daemon and the policy server, disconnections and failures, the answers sent and the
  callbacks still outstanding for a serial are together at most as many as the requests
  with that serial, and so at most one where no two requests of the run share it (serials are
  unique per sender only; two senders with the same serial count together).
\<close>

theorem answered_at_most_once:
  assumes "mrun E m es m'" and "sent (bus m) = []" and "waiting m = []" and "requests s es \<le> 1"
  shows "answers s (bus m') + due s m' \<le> 1"
  using mrun_accounted[OF assms(1), of s] assms(2-4)
  by (simp add: accounted_def answers_def due_def)

section \<open>When every request is answered\<close>

fun smooth :: "event \<Rightarrow> bool" where
  "smooth (GetPolicyConfig _ _ _ _ outcome) = (outcome = SentCall)"
| "smooth (ServerAnswer _ _ outcome) = (outcome = SentCall)"
| "smooth (SelinuxAnswer _ _ outcome) = (outcome = SentCall)"
| "smooth _ = True"

text \<open>A second registration of an agent gets no reply at all; it is left out.\<close>

inductive smooth_run :: "env \<Rightarrow> manager \<Rightarrow> event list \<Rightarrow> manager \<Rightarrow> bool" for E :: env where
  smooth_nil: "smooth_run E m [] m"
| smooth_cons: "mstep E m e m1 \<Longrightarrow> smooth e \<Longrightarrow>
    (\<forall>req path. e = RegisterAgent req path \<longrightarrow>
       gh_lookup (object_paths (bus m)) (req_sender req) = None) \<Longrightarrow>
    smooth_run E m1 es m2 \<Longrightarrow> smooth_run E m (e # es) m2"

lemma no_faults_steps [simp]:
  "no_faults (bus (send_reply r m)) = no_faults (bus m)"
  "no_faults (bus (error_reply d t m)) = no_faults (bus m)"
  "no_faults (bus (abort_daemon m)) = no_faults (bus m)"
  "no_faults (snd (process_message nr as r b)) = no_faults b"
  by (simp_all add: send_reply_def error_reply_eq abort_daemon_def process_message_def
      split: option.split)

lemma update_from_server_cb_frame:
  assumes "update_from_server_cb outcome error data m = Some m'"
  shows "no_faults (bus m') = no_faults (bus m)" "store m' = store m" "mdisk m' = mdisk m"
    "agent_watches m' = agent_watches m"
proof -
  have e: "store (error_reply data t m) = store m" "mdisk (error_reply data t m) = mdisk m"
    "agent_watches (error_reply data t m) = agent_watches m" for t
    by (simp_all add: error_reply_eq send_reply_def)
  from assms consider t where "m' = error_reply data t m"
    | c where "wait_for WaitSelinux data c m = Some m'"
    by (auto simp: update_from_server_cb_def split: if_splits)
  then have "no_faults (bus m') = no_faults (bus m) \<and> store m' = store m \<and> mdisk m' = mdisk m
    \<and> agent_watches m' = agent_watches m"
    using e by cases (simp_all add: wait_for_accounted(3-6))
  then show "no_faults (bus m') = no_faults (bus m)" "store m' = store m" "mdisk m' = mdisk m"
    "agent_watches m' = agent_watches m" by blast+
qed

lemma server_answer_frame:
  assumes "server_answer E body outcome data m = Some m'"
  shows "no_faults (bus m') = no_faults (bus m)" "agent_watches m' = agent_watches m"
proof -
  from server_answer_cases[OF assms] obtain error d st b where b: "no_faults b = no_faults (bus m)"
    and m': "(let m1 = m\<lparr>mdisk := d, store := st, bus := b\<rparr> in
        if aborted b then m' = m1 else update_from_server_cb outcome error data m1 = Some m')" by blast
  have "no_faults (bus m') = no_faults b \<and> agent_watches m' = agent_watches m"
  proof (cases "aborted b")
    case False
    with m' have u: "update_from_server_cb outcome error data (m\<lparr>mdisk := d, store := st, bus := b\<rparr>) = Some m'"
      by (simp add: Let_def)
    show ?thesis using update_from_server_cb_frame(1,4)[OF u] by simp
  qed (use m' in \<open>simp add: Let_def\<close>)
  with b show "no_faults (bus m') = no_faults (bus m)" "agent_watches m' = agent_watches m" by simp_all
qed

lemma mstep_no_faults:
  "mstep E m e m' \<Longrightarrow> no_faults (bus m') = no_faults (bus m)"
proof (induction rule: mstep.induct)
  case (get_config m req app mtime now outcome m')
  from get_policy_config_cases[OF get_config(2)] show ?case by (auto dest: wait_for_accounted(3))
next
  case (register m req path reply m')
  from register_agent_cases(3)[OF register(2)] show ?case by simp
next
  case (unregister m req path reply m')
  from unregister_agent_cases(3)[OF unregister(2)] show ?case by simp
next
  case (server m data policies_json outcome m')
  from server_answer_frame(1)[OF server(3)] show ?case by simp
next
  case (selinux m data reply ctx err outcome m')
  from selinux_cb_accounted(3)[OF selinux(4)] show ?case by simp
next
  case (user m data reply uid err m')
  from user_cb_cases[OF user(4)] show ?case
    by (auto dest!: reply_with_policy_cases)
next
  case (silent m policies_json m')
  with silent_answer_accounted(2) show ?case by simp
next
  case (agent_gone m owner user_data found m')
  then show ?case
    by (auto simp: owner_disconnect_def Let_def split: option.splits)
qed simp

lemma mstep_smooth:
  "mstep E m e m' \<Longrightarrow> smooth e \<Longrightarrow> no_faults (bus m) \<Longrightarrow> \<not> aborted (bus m') \<Longrightarrow>
     (\<forall>req path. e = RegisterAgent req path \<longrightarrow>
        gh_lookup (object_paths (bus m)) (req_sender req) = None) \<Longrightarrow>
     accounted s m' = accounted s m + (if request_serial e = Some s then 1 else 0)"
proof (induction rule: mstep.induct)
  case (get_config m req app mtime now outcome m')
  from get_policy_config_accounted(2)[OF get_config(2), of s] get_config show ?case
    by (auto simp: mine_def)
next
  case (register m req path reply m')
  note r = register_agent_cases(1,2,5)[OF register(2), of s] register_agent_cases(3)[OF register(2)]
  from process_reply_accounted(2)[of m' s reply] r register show ?case
    by (auto simp: mine_def)
next
  case (unregister m req path reply m')
  note r = unregister_agent_cases(1,2,5)[OF unregister(2), of s] unregister_agent_cases(3)[OF unregister(2)]
  from process_reply_accounted(2)[of m' s reply] r unregister show ?case
    by (auto simp: mine_def)
next
  case (server m data policies_json outcome m')
  let ?m = "take_waiting WaitServer data m"
  from server_answer_cases[OF server(3)] obtain error d st b where
    b: "\<forall>s. answers s b = answers s (bus m)" "no_faults b = no_faults (bus m)"
    and m': "(let m1 = ?m\<lparr>mdisk := d, store := st, bus := b\<rparr> in
        if aborted b then m' = m1 else update_from_server_cb outcome error data m1 = Some m')" by auto
  have "accounted s (?m\<lparr>mdisk := d, store := st, bus := b\<rparr>) = accounted s ?m"
    using b by (simp add: accounted_def)
  with m' b server take_waiting_accounted[OF server(2), of s]
    update_from_server_cb_accounted(2)[of outcome error data "?m\<lparr>mdisk := d, store := st, bus := b\<rparr>" m' s]
  show ?case by (auto simp: Let_def split: if_splits)
next
  case (selinux m data reply ctx err outcome m')
  from selinux_cb_accounted(2)[OF selinux(4), of s]
    take_waiting_accounted[OF selinux(2), of s] selinux show ?case by simp
next
  case (user m data reply uid err m')
  from user_cb_accounted(2)[OF user(4), of s] take_waiting_accounted[OF user(2), of s] user
  show ?case by simp
next
  case (silent m policies_json m')
  with silent_answer_accounted(1) show ?case by simp
next
  case (agent_gone m owner user_data found m')
  then show ?case
    by (auto simp: owner_disconnect_def Let_def accounted_def split: option.splits)
qed simp

lemma smooth_run_not_aborted:
  "smooth_run E m es m' \<Longrightarrow> \<not> aborted (bus m') \<Longrightarrow> \<not> aborted (bus m)"
  by (induction rule: smooth_run.induct) (auto elim: mstep.cases)

lemma smooth_run_accounted:
  "smooth_run E m es m' \<Longrightarrow> no_faults (bus m) \<Longrightarrow> \<not> aborted (bus m') \<Longrightarrow>
     accounted s m' = accounted s m + requests s es"
proof (induction rule: smooth_run.induct)
  case (smooth_cons m e m1 es m2)
  from smooth_run_not_aborted[OF smooth_cons(4)] smooth_cons(7) have "\<not> aborted (bus m1)" .
  from mstep_smooth[OF smooth_cons(1,2,6) this smooth_cons(3), of s]
    mstep_no_faults[OF smooth_cons(1)] smooth_cons(5-7) show ?case
    by (auto simp: requests_def)
qed (simp add: requests_def)

text \<open>
  C2. No request is lost in a run without failures: libdbus has memory, every message can be
  sent, and the daemon does not abort on a JSON null. In such a run, if no agent registers that
  is registered already, each request received is at any moment either answered, exactly once,
  or a callback for it is outstanding. The exclusion is needed: a second registration of a
  sender gets no reply at all (\<open>second_registration_unanswered\<close>).
\<close>

theorem no_request_lost:
  assumes "smooth_run E m es m'" and "no_faults (bus m)" and "\<not> aborted (bus m')"
    and "sent (bus m) = []" and "waiting m = []"
  shows "answers s (bus m') + due s m' = requests s es"
  using smooth_run_accounted[OF assms(1-3), of s] assms(4,5)
  by (simp add: accounted_def answers_def due_def)

text \<open>
  A call to the bus daemon that cannot be made loses the request: the return value of
  \<open>pold_fdo_dbus_get_connection_unix_user\<close> is not looked at, so nothing is sent, nothing
  is outstanding for the request, and its caller waits until its own timeout.
\<close>

lemma failed_send_loses_request:
  assumes "mstep E m (SelinuxAnswer data reply outcome) m'" and "outcome \<noteq> SentCall"
    and "answers s (bus m) = 0" and "due s m = 1" and "req_serial (pending data) = s"
  shows "answers s (bus m') + due s m' = 0"
  using assms(1)
proof (cases rule: mstep.cases)
  case (selinux ctx err)
  obtain data' where "wait_for WaitUser data' (pold_fdo_dbus_get_connection_unix_user outcome (app_owner data'))
      (take_waiting WaitSelinux data m) = Some m'"
    by (rule selinux_cb_wait[OF selinux(4)])
  then have "m' = take_waiting WaitSelinux data m"
    using assms(2) by (cases outcome)
      (auto simp: wait_for_def pold_fdo_dbus_get_connection_unix_user_def send_fdo_call_def)
  with take_waiting_accounted[OF selinux(2), of s] assms(3-5) show ?thesis
    by (simp add: accounted_def mine_def)
qed

section \<open>The store over all runs\<close>

definition store_ok :: "policy_state \<Rightarrow> bool" where
  "store_ok st \<longleftrightarrow> policy_wf st \<and> default_policy st \<noteq> None \<and> own_policy st \<noteq> None
     \<and> \<not> default_dangling st \<and> \<not> own_dangling st"

text \<open>The static policies and their pointers, which operations on applications leave alone.\<close>

definition same_policies :: "policy_state \<Rightarrow> policy_state \<Rightarrow> bool" where
  "same_policies st st' \<longleftrightarrow> default_policy st' = default_policy st \<and> own_policy st' = own_policy st
     \<and> default_dangling st' = default_dangling st \<and> own_dangling st' = own_dangling st"

lemma same_policies_refl [simp]: "same_policies st st"
  by (simp add: same_policies_def)

lemma same_policies_trans: "same_policies a b \<Longrightarrow> same_policies b c \<Longrightarrow> same_policies a c"
  by (simp add: same_policies_def)

lemma store_ok_same: "store_ok st \<Longrightarrow> same_policies st st' \<Longrightarrow> policy_wf st' \<Longrightarrow> store_ok st'"
  by (simp add: store_ok_def same_policies_def)

lemma unlink_app_policies:
  "unlink_app ids r st = Some st' \<Longrightarrow> same_policies st st'"
  by (induction ids r st rule: unlink_app.induct)
    (auto simp: same_policies_def split: option.splits list.splits if_splits)

lemma stop_watching_app_policies: "stop_watching_app r st = Some st' \<Longrightarrow> same_policies st st'"
  by (auto simp: stop_watching_app_def remove_app_entry_def free_app_def same_policies_def
      split: option.splits dest!: unlink_app_policies)

lemma stop_watching_apps_policies: "stop_watching_apps rs st = Some st' \<Longrightarrow> same_policies st st'"
  by (induction rs arbitrary: st)
    (auto split: option.splits dest: stop_watching_app_policies intro: same_policies_trans)

lemma remove_agent_store_ok:
  assumes "store_ok st"
  shows "\<exists>st'. pold_remove_agent_apps ag st = Some st' \<and> store_ok st'"
proof -
  from remove_agent_lemma[of st ag] assms obtain st' where
    st': "pold_remove_agent_apps ag st = Some st'" "policy_wf st'" by (auto simp: store_ok_def)
  from st'(1) have "same_policies st st'"
    by (auto simp: pold_remove_agent_apps_def split: option.splits dest: stop_watching_apps_policies)
  with st' assms store_ok_same show ?thesis by blast
qed

lemma update_policies_store_ok:
  assumes "store_ok st" and "update_policies_cb J upd dir body d st w = Some (e, d', st', w')"
  shows "store_ok st'"
  using update_policies_cb_frame[OF assms(2)] assms(1) by (simp add: store_ok_def)

lemma put_policy_store_ok: "store_ok st \<Longrightarrow> store_ok (put_policy ptr p st)"
  by (cases ptr) (auto simp: store_ok_def put_policy_def intro: policy_wf_frame)

lemma watch_app_policies:
  assumes "pold_policy_watch_app ag ap ids st = Some st'" and "default_policy st \<noteq> None"
  shows "same_policies st st'"
proof (cases "gh_contains (app_id_to_app st) (app_id_of ag ap)")
  case True
  with assms(1) show ?thesis by (simp add: watch_app_known)
next
  case False
  obtain p where "active_policy st (new_app (app_id_of ag ap) ids) = Some p"
    using active_policy_Some[OF assms(2)] by blast
  moreover have "same_policies t (watch_app_ids is r t)" for "is" r t
    by (induction "is" r t rule: watch_app_ids.induct)
      (auto simp: add_app_def append_policy_id_def Let_def same_policies_def)
  ultimately show ?thesis using assms(1) watch_app_new[OF False]
    by (auto simp: Let_def fresh_app_state_def same_policies_def)
qed

lemma user_cb_store_ok:
  assumes "store_ok (store m)" and "user_cb E uid data err m = Some m'"
  shows "store_ok (store m')"
proof (cases "err < 0")
  case True
  with assms show ?thesis
    by (auto simp: user_cb_def error_reply_eq send_reply_def split: option.split)
next
  case False
  have reply: "store (the (reply_with_policy E data q n)) = store n" if "reply_with_policy E data q n \<noteq> None"
    for q n using that
    by (auto simp: reply_with_policy_def send_reply_def abort_daemon_def case_prod_beta split: option.splits)
  from False assms(2) obtain st ptr p q where
    w: "pold_policy_watch_app (agent_owner data) (app_owner data) (policy_ids_of E data uid)
          (store m) = Some st"
    and m': "reply_with_policy E data q (m\<lparr>store := put_policy ptr q st\<rparr>) = Some m'"
    by (auto simp: user_cb_def Let_def split: option.splits)
  from assms(1) watch_app_result[of "store m" "agent_owner data" "app_owner data" "policy_ids_of E data uid"]
    watch_app_policies[OF w] w have "store_ok st" by (auto simp: store_ok_def same_policies_def)
  from put_policy_store_ok[OF this] reply[of q "m\<lparr>store := put_policy ptr q st\<rparr>"] m'
  show ?thesis by simp
qed

lemma store_steps [simp]:
  "store (send_reply r m) = store m" "store (error_reply d t m) = store m"
  "store (abort_daemon m) = store m"
  by (simp_all add: send_reply_def error_reply_eq abort_daemon_def split: option.split)

lemma mstep_store_ok:
  "mstep E m e m' \<Longrightarrow> store_ok (store m) \<Longrightarrow> store_ok (store m')"
proof (induction rule: mstep.induct)
  case (get_config m req app mtime now outcome m')
  from get_policy_config_cases[OF get_config(2)] get_config show ?case
    by (auto simp: wait_for_accounted(4))
next
  case (register m req path reply m')
  then show ?case
    by (auto simp: pold_manager_register_agent_def case_prod_beta Let_def split: if_splits)
next
  case (unregister m req path reply m')
  with remove_agent_store_ok[of "store m" "req_sender req"] show ?case
    by (auto simp: pold_manager_unregister_agent_def case_prod_beta Let_def
        split: if_splits option.splits)
next
  case (server m data policies_json outcome m')
  let ?J = "env_json E" and ?m = "take_waiting WaitServer data m"
  from server(3) obtain error d st b where
    u: "update_policies_cb ?J (pold_manager_update_agent ?J) (env_dir E) policies_json (mdisk m) (store m)
          (bus m) = Some (error, d, st, b)"
    and m': "m' = ?m\<lparr>mdisk := d, store := st, bus := b\<rparr>
      \<or> update_from_server_cb outcome error data (?m\<lparr>mdisk := d, store := st, bus := b\<rparr>) = Some m'"
    by (auto simp: server_answer_def Let_def split: option.splits if_splits)
  from m' have "store m' = st" by (auto dest: update_from_server_cb_frame(2))
  with update_policies_store_ok[OF server(4) u] show ?case by simp
next
  case (silent m policies_json m')
  from silent(2) obtain error d st b where "m' = m\<lparr>mdisk := d, store := st, bus := b\<rparr>"
    and u: "update_policies_cb (env_json E) (pold_manager_update_agent (env_json E)) (env_dir E) policies_json
      (mdisk m) (store m) (bus m) = Some (error, d, st, b)" by (rule silent_answer_cases)
  with update_policies_store_ok[OF silent(3) u] show ?case by simp
next
  case (selinux m data reply ctx err outcome m')
  with selinux_cb_accounted(4)[OF selinux(4)] show ?case by simp
next
  case (user m data reply uid err m')
  from user_cb_store_ok[OF _ user(4)] user show ?case by simp
next
  case (agent_gone m owner user_data found m')
  with remove_agent_store_ok[of "store m" "req_sender found"] show ?case
    by (auto simp: owner_disconnect_def Let_def split: option.splits)
next
  case (app_gone m owner r st)
  let ?st = "(store m)\<lparr>disc_watches := remove1 (owner, r) (disc_watches (store m))\<rparr>"
  from app_gone(4) have wf: "policy_wf ?st" by (simp add: store_ok_def policy_wf_frame)
  from app_gone(3) obtain app where "app_heap ?st r = Some app"
    by (auto simp: stop_watching_app_def split: option.splits)
  from stop_watching_app_correct[OF wf this] app_gone(3) have "policy_wf st" by auto
  with stop_watching_app_policies[OF app_gone(3)] app_gone(4) show ?case
    by (simp add: store_ok_def same_policies_def)
qed

lemma mrun_store_ok: "mrun E m es m' \<Longrightarrow> store_ok (store m) \<Longrightarrow> store_ok (store m')"
  by (induction rule: mrun.induct) (auto dest: mstep_store_ok)

text \<open>
  C3. The store stays well-formed in every run of the daemon that starts as
  \<open>pold_policy_init\<close> leaves it: whatever requests, answers, updates and disconnections
  follow in whatever order, the indexes of applications agree with one another, there are a
  default and an own policy, and no live application is lost from the tables.
\<close>

theorem daemon_keeps_store:
  assumes "pold_policy_init J dir d policy_start = Some (0, store m)" and "mrun E m es m'"
  shows "policy_wf (store m') \<and> default_policy (store m') \<noteq> None \<and> own_policy (store m') \<noteq> None"
proof -
  have "store_ok (store m)"
    using init_outcome[where J = J and dir = dir and d = d]
    unfolding assms(1) store_ok_def option.case prod.case if_P[OF refl] by blast
  from mrun_store_ok[OF assms(2) this] show ?thesis by (simp add: store_ok_def)
qed

section \<open>What can crash the daemon\<close>

text \<open>
  The manager tells agents of policies: this is defined for a registered agent while libdbus
  has memory and can send.
\<close>

definition faultless :: "(string, string) ghash \<Rightarrow> bus \<Rightarrow> bool" where
  "faultless t b \<longleftrightarrow> no_faults b \<and> object_paths b = t"

definition registered :: "(string, string) ghash \<Rightarrow> string \<Rightarrow> bool" where
  "registered t a \<longleftrightarrow> gh_lookup t a \<noteq> None"

lemma update_agent_total:
  assumes "faultless t b" and "registered t a"
  shows "\<exists>e b'. pold_manager_update_agent J a ap p b = Some (e, b') \<and> faultless t b'"
  using assms
  by (auto simp: faultless_def registered_def pold_manager_update_agent_def new_message_no_faults
      send_no_faults Let_def split: option.split)

interpretation mt: total_updates "pold_manager_update_agent J" "faultless t" "\<lambda>a p. registered t a" for J t
  by unfold_locales (rule update_agent_total)

text \<open>The agents of all watched applications are registered.\<close>

definition agents_registered :: "manager \<Rightarrow> bool" where
  "agents_registered m \<longleftrightarrow> (\<forall>r\<in>snd ` set (app_id_to_app (store m)). \<forall>app. app_heap (store m) r = Some app \<longrightarrow>
     registered (object_paths (bus m)) (agent_of app))"

lemma server_answer_defined:
  assumes "store_ok (store m)" "no_faults (bus m)" "\<not> open_fails (mdisk m)" "agents_registered m"
    and "outcome \<noteq> NoMessage"
  shows "server_answer E body outcome data m \<noteq> None"
proof -
  have w: "wait_for g d (pold_fdo_dbus_get_connection_selinux_context True outcome n) m1 \<noteq> None" for g d n m1
    using assms(5) by (cases outcome)
      (simp_all add: wait_for_def pold_fdo_dbus_get_connection_selinux_context_def send_fdo_call_def)
  have "update_policies_cb (env_json E) (pold_manager_update_agent (env_json E)) (env_dir E) body (mdisk m)
      (store m) (bus m) \<noteq> None"
    by (rule mt.update_policies_cb_total[where t = "object_paths (bus m)"])
      (use assms in \<open>auto simp: store_ok_def faultless_def agents_registered_def\<close>)
  with w show ?thesis
    by (auto simp: server_answer_def update_from_server_cb_def Let_def)
qed

lemma user_cb_defined:
  assumes "store_ok (store m)" "no_faults (bus m)"
  shows "user_cb E uid data err m \<noteq> None"
proof (cases "err < 0")
  case False
  have reply: "reply_with_policy E data q n \<noteq> None" if "no_faults (bus n)" for q n
    using that by (simp add: reply_with_policy_def new_message_no_faults split: option.split)
  have "policy_wf (store m)" "default_policy (store m) \<noteq> None" "0 \<le> err"
    using assms(1) False by (simp_all add: store_ok_def)
  from user_cb_lemma[OF this, of data E uid] reply assms(2) show ?thesis by (fastforce simp: Let_def)
qed (simp add: user_cb_def)

text \<open>Every registration message is freed by the time the agent it belongs to disconnects.\<close>

lemma mstep_agent_watches:
  assumes "mstep E m e m'" and "\<forall>(owner, user_data)\<in>set (agent_watches m). user_data = None"
  shows "\<forall>(owner, user_data)\<in>set (agent_watches m'). user_data = None"
proof -
  have same: "agent_watches (send_reply r n) = agent_watches n" "agent_watches (abort_daemon n) = agent_watches n"
    "agent_watches (error_reply d t n) = agent_watches n" "agent_watches (take_waiting g d n) = agent_watches n" for r n d t g
    by (simp_all add: send_reply_def abort_daemon_def error_reply_eq take_waiting_def split: option.split)
  have reply: "agent_watches n' = agent_watches n" if "reply_with_policy E d q n = Some n'" for d q n n'
    using reply_with_policy_cases[OF that] by (auto simp: same)
  from assms show ?thesis
  proof (induction rule: mstep.induct)
    case (get_config m req app mtime now outcome m')
    from get_policy_config_cases[OF get_config(2)] get_config(3) show ?case
      by (auto simp: same wait_for_accounted(6))
  next
    case (register m req path reply m')
    from register(2) have "agent_watches m' = agent_watches m
        \<or> agent_watches m' = agent_watches m @ [(req_sender req, Some req)]"
      by (auto simp: pold_manager_register_agent_def case_prod_beta Let_def split: if_splits)
    with register(3) show ?case by (auto simp: message_freed_def)
  next
    case (unregister m req path reply m')
    then show ?case
      by (auto simp: pold_manager_unregister_agent_def case_prod_beta Let_def split: if_splits option.splits)
  next
    case (server m data policies_json outcome m')
    from server_answer_frame(2)[OF server(3)] server(4) show ?case by (simp add: same)
  next
    case (silent m policies_json m')
    from silent(2,3) show ?case by (auto elim!: silent_answer_cases)
  next
    case (selinux m data reply ctx err outcome m')
    with selinux_cb_accounted(6)[OF selinux(4)] show ?case by (simp add: same)
  next
    case (user m data reply uid err m')
    from user_cb_cases[OF user(4)] user(5) show ?case by (auto simp: same dest!: reply)
  next
    case (agent_gone m owner user_data found m')
    from agent_gone(4) have "agent_watches m' = remove1 (owner, user_data) (agent_watches m)"
      by (auto simp: owner_disconnect_def Let_def split: option.splits)
    with agent_gone(5) show ?case by (auto dest: notin_set_remove1)
  qed simp
qed

lemma mrun_agent_watches:
  "mrun E m es m' \<Longrightarrow> \<forall>(owner, user_data)\<in>set (agent_watches m). user_data = None \<Longrightarrow>
     \<forall>(owner, user_data)\<in>set (agent_watches m'). user_data = None"
  by (induction rule: mrun.induct) (use mstep_agent_watches in blast)+

lemma mstep_disk: "mstep E m e m' \<Longrightarrow> open_fails (mdisk m') = open_fails (mdisk m)"
proof (induction rule: mstep.induct)
  case (get_config m req app mtime now outcome m')
  have same: "mdisk (send_reply r n) = mdisk n" "mdisk (abort_daemon n) = mdisk n" for r n
    by (simp_all add: send_reply_def abort_daemon_def split: option.split)
  from get_policy_config_cases[OF get_config(2)] show ?case
    by (auto simp: same wait_for_accounted(5))
next
  case (register m req path reply m')
  then show ?case
    by (auto simp: pold_manager_register_agent_def case_prod_beta Let_def split: if_splits)
next
  case (unregister m req path reply m')
  then show ?case
    by (auto simp: pold_manager_unregister_agent_def case_prod_beta Let_def split: if_splits option.splits)
next
  case (server m data policies_json outcome m')
  let ?J = "env_json E" and ?m = "take_waiting WaitServer data m"
  from server(3) obtain error d st b where
    u: "update_policies_cb ?J (pold_manager_update_agent ?J) (env_dir E) policies_json (mdisk m) (store m)
          (bus m) = Some (error, d, st, b)"
    and m': "m' = ?m\<lparr>mdisk := d, store := st, bus := b\<rparr>
      \<or> update_from_server_cb outcome error data (?m\<lparr>mdisk := d, store := st, bus := b\<rparr>) = Some m'"
    by (auto simp: server_answer_def Let_def split: option.splits if_splits)
  from m' have "mdisk m' = d" by (auto dest: update_from_server_cb_frame(3))
  with update_policies_cb_disk[OF u] show ?case by simp
next
  case (silent m policies_json m')
  from silent(2) obtain error d st b where "m' = m\<lparr>mdisk := d, store := st, bus := b\<rparr>"
    and u: "update_policies_cb (env_json E) (pold_manager_update_agent (env_json E)) (env_dir E) policies_json
      (mdisk m) (store m) (bus m) = Some (error, d, st, b)" by (rule silent_answer_cases)
  with update_policies_cb_disk[OF u] show ?case by simp
next
  case (selinux m data reply ctx err outcome m')
  with selinux_cb_accounted(5)[OF selinux(4)] show ?case by simp
next
  case (user m data reply uid err m')
  have same: "mdisk (send_reply r n) = mdisk n" "mdisk (abort_daemon n) = mdisk n"
    "mdisk (error_reply d t n) = mdisk n" for r n d t
    by (simp_all add: send_reply_def abort_daemon_def error_reply_eq split: option.split)
  from user_cb_cases[OF user(4)] show ?case by (auto simp: same dest!: reply_with_policy_cases)
next
  case (agent_gone m owner user_data found m')
  then show ?case by (auto simp: owner_disconnect_def Let_def split: option.splits)
qed simp_all

lemma mrun_keeps:
  assumes "mrun E m es m'"
  shows "no_faults (bus m') = no_faults (bus m)" "open_fails (mdisk m') = open_fails (mdisk m)"
  using assms by (induction rule: mrun.induct) (simp_all add: mstep_no_faults mstep_disk)

text \<open>
  C16. What can crash a daemon that starts with its policies and without agents, in any state it
  can reach, as long as libdbus has memory and can send and the policy directory can be opened:
  the answer of the bus daemon about a user, an agent that unregisters and, if the agents of
  all watched applications are registered and the next question can be put into a message, the
  answer of the policy server never do. The disconnection of an agent always does: the user data
  of its watch points into the registration message, which is freed.
\<close>

theorem handlers_defined:
  assumes run: "mrun E m es m'" and start: "agent_watches m = []"
    and store: "store_ok (store m)"
    and bus: "no_faults (bus m)" "\<not> open_fails (mdisk m)"
  shows "user_cb E uid data err m' \<noteq> None \<and> pold_manager_unregister_agent req path m' \<noteq> None
    \<and> (agents_registered m' \<and> outcome \<noteq> NoMessage \<longrightarrow> server_answer E body outcome data m' \<noteq> None)
    \<and> (\<forall>(owner, user_data)\<in>set (agent_watches m'). owner_disconnect user_data m' = None)"
proof -
  from mrun_store_ok[OF run store] have ok: "store_ok (store m')" .
  have fine: "no_faults (bus m')" "\<not> open_fails (mdisk m')" using mrun_keeps[OF run] bus by simp_all
  from mrun_agent_watches[OF run] start have "\<forall>(owner, user_data)\<in>set (agent_watches m'). user_data = None" by simp
  then have gone: "\<forall>(owner, user_data)\<in>set (agent_watches m'). owner_disconnect user_data m' = None"
    by (auto simp: owner_disconnect_def)
  from remove_agent_store_ok[OF ok] obtain f where
    "\<And>ag. pold_remove_agent_apps ag (store m') = Some (f ag)" by metis
  then have "pold_manager_unregister_agent req path m' \<noteq> None"
    by (simp add: pold_manager_unregister_agent_def case_prod_beta Let_def)
  with user_cb_defined[OF ok fine(1)] server_answer_defined[OF ok fine] gone show ?thesis by simp
qed

section \<open>A concrete daemon\<close>

definition demo_env :: env where
  "demo_env =
     \<lparr>env_json = demo_jansson, env_passwd = (\<lambda>u. if u = 1000 then Some (''foo'', 100) else None),
      env_group = (\<lambda>g. if g = 100 then Some ''users'' else None), env_dir = ''/p''\<rparr>"

definition demo_bus :: bus where
  "demo_bus = \<lparr>object_paths = [], sent = [], clock = 0, alloc_fails = (\<lambda>_. False),
     send_fails = (\<lambda>_. False), aborted = False\<rparr>"

definition demo_manager :: manager where
  "demo_manager =
     \<lparr>store = demo_store\<lparr>own_policy := Some \<lparr>policy_id = ''own'', policy_json = Some ''P''\<rparr>,
        id_to_policy := [(''user:foo'', \<lparr>policy_id = ''user:foo'', policy_json = Some ''P''\<rparr>)]\<rparr>,
      bus = demo_bus, mdisk = demo_disk\<lparr>policy_dir := []\<rparr>, unique_name = Some '':1.0'',
      waiting = [], agent_watches = []\<rparr>"

definition demo_request :: request where
  "demo_request = \<lparr>req_serial = 7, req_sender = '':1.5''\<rparr>"

definition demo_data :: config_data where
  "demo_data = \<lparr>pending = demo_request, agent_owner = '':1.5'', app_owner = '':1.9'', cfg_selinux = None\<rparr>"

lemma demo_manager_ok:
  "policy_wf (store demo_manager)" "default_policy (store demo_manager) \<noteq> None"
  "own_policy (store demo_manager) \<noteq> None" "no_faults (bus demo_manager)"
  "\<not> aborted (bus demo_manager)" "sent (bus demo_manager) = []" "waiting demo_manager = []"
  "unique_name demo_manager = Some '':1.0''"
  using demo_store_wf
  by (simp_all add: demo_manager_def demo_bus_def no_faults_def policy_wf_frame)



lemma demo_items:
  "policy_items (env_json demo_env) (Some ''P'') = Some [DArray ''{sv}''
     [DDictEntry [Basic (DString ''Id''), DVariant ''s'' [Basic (DString ''user:foo'')]]]]"
  by (simp add: policy_items_def pold_dbus_json_append_string_def demo_env_def demo_jansson_def
      demo_policy_def append_json_value.simps append_string_def)


text \<open>One request, up to the question for its SELinux context.\<close>

abbreviation demo_event :: event where
  "demo_event \<equiv> GetPolicyConfig demo_request '':1.9'' (Some 0) 5 SentCall"

lemma demo_step:
  assumes "unique_name m = Some '':1.0''" and "\<not> aborted (bus m)"
  shows "mstep E m demo_event (m\<lparr>waiting := waiting m @ [(WaitSelinux, demo_data)]\<rparr>)"
  using assms
  by (intro mstep.get_config)
    (simp_all add: pold_manager_get_policy_config_def need_http_policy_update_def to_int_small
      wait_for_def question_sent
      demo_data_def demo_request_def Let_def)

abbreviation demo_waiting :: manager where
  "demo_waiting \<equiv> demo_manager\<lparr>waiting := [(WaitSelinux, demo_data)]\<rparr>"

lemma demo_run: "mrun E demo_manager [demo_event] demo_waiting"
  "smooth_run E demo_manager [demo_event] demo_waiting"
  using demo_step[of demo_manager E] demo_manager_ok
  by (auto intro!: mrun.intros smooth_run.intros)

theorem answered_at_most_once_witness:
  "answers 7 (bus demo_waiting) + due 7 demo_waiting \<le> 1"
  using answered_at_most_once[OF demo_run(1) demo_manager_ok(6,7), of 7]
  by (simp add: requests_def)

theorem no_request_lost_witness: "answers 7 (bus demo_waiting) + due 7 demo_waiting = 1"
proof -
  have "\<not> aborted (bus demo_waiting)" using demo_manager_ok by simp
  from no_request_lost[OF demo_run(2) demo_manager_ok(4) this demo_manager_ok(6,7), of 7]
  show ?thesis by (simp add: requests_def demo_request_def)
qed

theorem daemon_keeps_store_witness:
  "\<exists>st. pold_policy_init demo_jansson ''/p'' (demo_disk\<lparr>policy_dir := []\<rparr>) policy_start = Some (0, st)
    \<and> mrun demo_env (demo_manager\<lparr>store := st\<rparr>) [demo_event]
        (demo_manager\<lparr>store := st, waiting := [(WaitSelinux, demo_data)]\<rparr>) \<and> policy_wf st"
proof -
  let ?d = "demo_disk\<lparr>policy_dir := []\<rparr>"
  obtain st where init: "pold_policy_init demo_jansson ''/p'' ?d policy_start = Some (0, st)"
    by (simp add: pold_policy_init_def init_default_policy_def init_own_policy_def load_policy_def
        load_policies_def demo_disk_def demo_jansson_def demo_policy_def dir_entries_def Let_def)
  let ?m = "demo_manager\<lparr>store := st\<rparr>"
  have run: "mrun demo_env ?m [demo_event] (?m\<lparr>waiting := [(WaitSelinux, demo_data)]\<rparr>)"
    using demo_step[of ?m demo_env] demo_manager_ok by (auto intro!: mrun.intros)
  have init': "pold_policy_init demo_jansson ''/p'' ?d policy_start = Some (0, store ?m)" using init by simp
  from daemon_keeps_store[OF init' run] init run show ?thesis by auto
qed

text \<open>An agent registers; its watch is left with a pointer into a freed message.\<close>

lemma demo_registered:
  "\<exists>m'. mrun demo_env demo_manager [RegisterAgent demo_request ''/agent''] m'
     \<and> agent_watches m' = [('':1.5'', None)]"
proof -
  obtain reply m1 where r: "pold_manager_register_agent demo_request ''/agent'' demo_manager = (reply, m1)"
    by force
  then have "agent_watches m1 = [('':1.5'', Some demo_request)]"
    using demo_manager_ok(4) unfolding demo_request_def
    by (auto simp: pold_manager_register_agent_def g_dbus_create_reply_def new_message_no_faults Let_def
        demo_manager_def demo_bus_def)
  moreover from r demo_manager_ok(5) have "mstep demo_env demo_manager (RegisterAgent demo_request ''/agent'')
      (message_freed demo_request (m1\<lparr>bus := snd (process_message False False reply (bus m1))\<rparr>))"
    by (rule mstep.register[rotated])
  ultimately have w: "agent_watches m1 = [('':1.5'', Some demo_request)]"
    "mstep demo_env demo_manager (RegisterAgent demo_request ''/agent'')
      (message_freed demo_request (m1\<lparr>bus := snd (process_message False False reply (bus m1))\<rparr>))" by blast+
  have "mrun demo_env demo_manager [RegisterAgent demo_request ''/agent'']
      (message_freed demo_request (m1\<lparr>bus := snd (process_message False False reply (bus m1))\<rparr>))"
    by (rule mrun.run_cons[OF w(2) mrun.run_nil])
  moreover have "agent_watches (message_freed demo_request
      (m1\<lparr>bus := snd (process_message False False reply (bus m1))\<rparr>)) = [('':1.5'', None)]"
    by (simp add: message_freed_def w(1))
  ultimately show ?thesis by blast
qed

theorem handlers_defined_witness:
  "\<exists>m'. mrun demo_env demo_manager [RegisterAgent demo_request ''/agent''] m'
    \<and> user_cb demo_env 1000 demo_data 0 m' \<noteq> None
    \<and> ('':1.5'', None) \<in> set (agent_watches m') \<and> owner_disconnect None m' = None"
proof -
  from demo_registered obtain m' where
    run: "mrun demo_env demo_manager [RegisterAgent demo_request ''/agent''] m'"
    and w: "agent_watches m' = [('':1.5'', None)]" by blast
  have "agent_watches demo_manager = []" "\<not> open_fails (mdisk demo_manager)"
    by (simp_all add: demo_manager_def demo_disk_def)
  moreover have "default_dangling demo_store = False" "own_dangling demo_store = False"
    by (simp_all add: demo_store_def policy_start_def)
  then have "store_ok (store demo_manager)"
    using demo_manager_ok(1-3) unfolding store_ok_def by (simp add: demo_manager_def)
  ultimately show ?thesis using handlers_defined[OF run _ _ demo_manager_ok(4)] run w by auto
qed

end
