(* ===== verification/Manager_Agents.thy ===== *)
theory Manager_Agents
  imports Manager_Props
begin

text \<open>
  The agents: the manager's \<open>pold_manager_update_agent\<close> provides the interface
  \<open>agent_updates\<close> the policy store relies on, and the properties of registration and of
  the updates follow.
\<close>

section \<open>The manager provides the interface of the store\<close>

fun agent_message :: "out_msg \<Rightarrow> (string \<times> ditem list) option" where
  "agent_message (AgentUpdate dest path body) = Some (dest, body)"
| "agent_message _ = None"

definition told_agents :: "bus \<Rightarrow> (string \<times> ditem list) list" where
  "told_agents b = List.map_filter agent_message (sent b)"

text \<open>The update message of an agent and an application: the application, then the policy.\<close>

definition announcement :: "jansson \<Rightarrow> string list \<times> string option \<Rightarrow> string \<times> ditem list" where
  "announcement J m =
     (case m of (owners, json) \<Rightarrow>
        (owners ! 0, Basic (DString (owners ! 1)) # the (policy_items J json)))"

lemma told_agents_frame [simp]:
  "told_agents (b\<lparr>clock := c\<rparr>) = told_agents b" "told_agents (b\<lparr>aborted := a\<rparr>) = told_agents b"
  "told_agents (snd (new_message b)) = told_agents b"
  by (simp_all add: told_agents_def new_message_def)

lemma send_told:
  "told_agents (snd (g_dbus_send_message m b)) = told_agents b
     @ (if fst (g_dbus_send_message m b)
        then (case agent_message m of None \<Rightarrow> [] | Some x \<Rightarrow> [x]) else [])"
  by (simp add: g_dbus_send_message_def told_agents_def List.map_filter_def Let_def split: option.split)

lemma update_agent_told:
  assumes "pold_manager_update_agent J a b p w = Some (e, w')"
  shows "told_agents w' = told_agents w
    @ (if e = 0 then [announcement J ([a, b], policy_json p)] else [])"
  using assms
  by (auto simp: pold_manager_update_agent_def case_prod_beta Let_def announcement_def send_told
      pold_policy_append_to_message_def split: option.splits if_splits)

interpretation mu: agent_updates "pold_manager_update_agent J" told_agents "announcement J" for J
  by unfold_locales (simp_all add: update_agent_told)

section \<open>After an update from the server\<close>

text \<open>
  C7. When the update loop ends without error, every marked agent was told, once and in
  order, the policy now active for its application, and no application anywhere in the
  store is left with an outdated policy.
\<close>

theorem agents_synced:
  assumes wf: "policy_wf st" and def: "default_policy st \<noteq> None"
    and mark: "mark_update_apps st = Some st1"
    and upd: "update_agent_policies (pold_manager_update_agent J) st1 b = Some (0, st2, b2)"
  shows "told_agents b2 = told_agents b @ map (announcement J \<circ> told_of st1) (update_apps st1)
    \<and> (\<forall>r\<in>snd ` set (app_id_to_app st). \<not> stale_app st2 r)"
proof -
  note m = mark_update_apps_lemma[OF mark]
  then obtain us where st1: "st1 = st\<lparr>update_apps := us\<rparr>" by blast
  from update_agents_loop_frame[OF upd[unfolded update_agent_policies_def]]
  have frame: "id_to_policy st2 = id_to_policy st1" "default_policy st2 = default_policy st1" by simp_all
  from mu.update_agents_loop_told[OF upd[unfolded update_agent_policies_def]] m
  have "told_agents b2 = told_agents b @ map (announcement J \<circ> told_of st1) (update_apps st1)" by auto
  with mu.update_agents_synced[OF mark upd frame] show ?thesis by blast
qed

text \<open>
  Any client of the bus can ask for a policy, and its application is watched, whether the client
  has registered as an agent or not. If it has not, the next update that concerns the application
  is undefined: there is no object path to send it to, so no message, and libdbus is handed NULL.
\<close>

lemma unregistered_agent_crashes_update:
  assumes "update_apps st = r # rest" and "app_heap st r = Some app"
    and "app_id app = app_id_of ag ap" and "CHR ''/'' \<notin> set ag"
    and "default_policy st \<noteq> None" and "gh_lookup (object_paths b) ag = None"
  shows "update_agent_policies (pold_manager_update_agent J) st b = None"
proof -
  obtain p where "active_policy st app = Some p" using active_policy_Some[OF assms(5)] by blast
  with assms show ?thesis
    by (simp add: update_agent_policies_def split_app_id_of pold_manager_update_agent_def
        case_prod_beta Let_def)
qed

text \<open>
  The update loop drops what is left of its list when it stops early, and its result is not
  looked at.
\<close>

lemma update_error_dropped:
  assumes "delete_all_policies dir d = Some (0, d1)" and "save_policies J body d1 = (0, d2)"
    and "load_policies J dir d2 st = Some (0, st3)" and "mark_update_apps st3 = Some st4"
    and "update_agent_policies upd st4 w = Some (e, st5, w5)"
  shows "update_policies_cb J upd dir (Some body) d st w = Some (0, d2, st5, w5)"
  using assms by (simp add: update_policies_cb_def)

section \<open>The update from the server\<close>

text \<open>
  While libdbus has memory and can send, telling a registered agent of a policy that converts to
  D-Bus is defined and does not end the daemon.
\<close>

definition unharmed :: "(string, string) ghash \<Rightarrow> bool \<Rightarrow> bus \<Rightarrow> bool" where
  "unharmed t ab b \<longleftrightarrow> faultless t b \<and> aborted b = ab"

definition tellable :: "jansson \<Rightarrow> (string, string) ghash \<Rightarrow> string \<Rightarrow> pold_policy \<Rightarrow> bool" where
  "tellable J t a p \<longleftrightarrow> registered t a \<and> policy_items J (policy_json p) \<noteq> None"

lemma update_agent_unharmed:
  assumes "unharmed t ab b" and "tellable J t a p"
  shows "\<exists>e b'. pold_manager_update_agent J a ap p b = Some (e, b') \<and> unharmed t ab b'"
  using assms
  by (auto simp: unharmed_def tellable_def faultless_def registered_def pold_manager_update_agent_def
      new_message_no_faults send_no_faults pold_policy_append_to_message_def Let_def)

interpretation mh: total_updates "pold_manager_update_agent J" "unharmed t ab" "tellable J t" for J t ab
  by unfold_locales (rule update_agent_unharmed)

text \<open>
  C11. A successful update from the server. The answer is a JSON array of policies with
  different ids; the policy directory can be opened, its files be listed (in whatever order),
  removed and written; libdbus has memory and can send; the agents of all watched applications
  are registered, and the policies, as well as the default policy, convert to D-Bus. Then the
  callback reports 0 and the daemon goes on; beside the files that are no policy files the
  directory holds exactly one file per policy of the answer; and afterwards exactly the policies
  of the answer are loaded, each under its id. The store stays well-formed.
\<close>

theorem update_from_server_installs:
  assumes store: "policy_wf (store m)" "default_policy (store m) = Some dp"
    and disk: "unlink_ok (mdisk m)" "writes_ok (mdisk m)"
    and answer: "json_loads J body = Some (JArray ps)" "\<forall>p\<in>set ps. policy_roundtrips J p"
      "distinct (map json_id ps)"
    and bus: "no_faults (bus m)" "agents_registered m"
    and items: "\<forall>p\<in>insert dp (json_policy J ` set ps). policy_items J (policy_json p) \<noteq> None"
  shows "\<exists>d' st' b'. update_policies_cb J (pold_manager_update_agent J) dir (Some body) (mdisk m) (store m) (bus m)
        = Some (0, d', st', b')
    \<and> aborted b' = aborted (bus m)
    \<and> set (policy_dir d') = {(n, c) \<in> set (policy_dir (mdisk m)). \<not> policy_file n} \<union> set (saved_files J 0 ps)
    \<and> policy_wf st'
    \<and> (\<forall>pid. pold_policy_get st' pid = map_of (policies_by_id J ps) pid)"
proof -
  let ?t = "object_paths (bus m)"
  have def: "default_policy (store m) \<noteq> None" using store(2) by simp
  have fine: "unharmed ?t (aborted (bus m)) (bus m)" using bus(1) by (simp add: unharmed_def faultless_def)
  have able: "tellable J ?t (agent_of app) p"
    if "r \<in> snd ` set (app_id_to_app (store m))" "app_heap (store m) r = Some app"
      "default_policy (store m) = Some p \<or> p \<in> json_policy J ` set ps" for r app p
    using that bus(2) items store(2) by (auto simp: agents_registered_def tellable_def)
  obtain d' st' b' where u: "update_policies_cb J (pold_manager_update_agent J) dir (Some body) (mdisk m)
      (store m) (bus m) = Some (0, d', st', b')"
    "set (policy_dir d') = {(n, c) \<in> set (policy_dir (mdisk m)). \<not> policy_file n} \<union> set (saved_files J 0 ps)"
    "policy_wf st'" "gh_lookup (id_to_policy st') = map_of (policies_by_id J ps)"
    "unharmed ?t (aborted (bus m)) b'"
    by (rule mh.update_from_server_total[OF store(1) def fine disk answer able])
  then show ?thesis by (simp add: unharmed_def pold_policy_get_def)
qed

section \<open>Registration\<close>

text \<open>
  A registered agent is reachable: after a successful registration an update for the
  agent goes to the object path it gave, and carries the application and its policy; the
  paths of all other agents are as before.
\<close>

lemma registered_agent_is_told:
  assumes "pold_manager_register_agent req path m = (Some reply, m')"
    and "no_faults (bus m)" and "policy_items J (policy_json p) = Some items"
  shows "(\<exists>b. pold_manager_update_agent J (req_sender req) app p (bus m') = Some (0, b)
      \<and> sent b = sent (bus m') @ [AgentUpdate (req_sender req) path (Basic (DString app) # items)])
    \<and> (\<forall>ag. ag \<noteq> req_sender req \<longrightarrow>
         gh_lookup (object_paths (bus m')) ag = gh_lookup (object_paths (bus m)) ag)"
proof -
  from assms(1,2) have "no_faults (bus m')"
    "object_paths (bus m') = gh_replace (req_sender req) path (object_paths (bus m))"
    by (auto simp: pold_manager_register_agent_def g_dbus_create_reply_def case_prod_beta Let_def
        split: if_splits)
  with assms(3) show ?thesis
    by (simp add: pold_manager_update_agent_def new_message_no_faults send_no_faults
        pold_policy_append_to_message_def)
qed

text \<open>
  Only one registration per bus connection succeeds. The second one leaves everything
  as it was, and its caller gets no answer: the method is not asynchronous, so the missing
  reply is reported to libdbus as lack of memory.
\<close>

lemma second_registration_unanswered:
  assumes "gh_lookup (object_paths (bus m)) (req_sender req) = Some old"
  shows "\<exists>m'. pold_manager_register_agent req path m = (None, m')
    \<and> object_paths (bus m') = object_paths (bus m) \<and> agent_watches m' = agent_watches m
    \<and> fst (process_message False False None (bus m')) = NeedMemory
    \<and> sent (snd (process_message False False None (bus m'))) = sent (bus m)"
  using assms
  by (simp add: pold_manager_register_agent_def g_dbus_create_reply_def case_prod_beta
      process_message_def Let_def)

text \<open>
  C17. Registering and unregistering with the same path restores the table of agents, both
  with a reply; unregistering with another path is refused and changes nothing.
\<close>

theorem register_unregister_roundtrip:
  assumes "policy_wf (store m)" and "no_faults (bus m)"
    and "gh_lookup (object_paths (bus m)) (req_sender req) = None"
    and "pold_manager_register_agent req path m = (r, m1)"
  shows "(\<exists>r' m2. pold_manager_unregister_agent req path m1 = Some (r', m2)
      \<and> r = Some (MethodReturn (req_serial req) []) \<and> r' = r
      \<and> gh_lookup (object_paths (bus m2)) = gh_lookup (object_paths (bus m)))
    \<and> (\<forall>other. other \<noteq> path \<longrightarrow> (\<exists>txt' m2. pold_manager_unregister_agent req other m1
          = Some (Some (ErrorReply (req_serial req) ''org.freedesktop.DBus.Error.Failed'' txt'), m2)
        \<and> object_paths (bus m2) = object_paths (bus m1) \<and> store m2 = store m1))"
proof -
  let ?b = "(bus m)\<lparr>clock := Suc (clock (bus m)),
    object_paths := gh_replace (req_sender req) path (object_paths (bus m))\<rparr>"
  from assms(2-4) have r: "r = Some (MethodReturn (req_serial req) [])"
    and m1: "store m1 = store m" "bus m1 = ?b"
    by (auto simp: pold_manager_register_agent_def g_dbus_create_reply_def new_message_no_faults
        Let_def)
  from assms(2) have "no_faults ?b" by simp
  moreover obtain st where "pold_remove_agent_apps (req_sender req) (store m) = Some st"
    using remove_agent_lemma[OF assms(1)] by blast
  moreover have "gh_lookup (gh_remove (req_sender req) (gh_replace (req_sender req) path
      (object_paths (bus m)))) = gh_lookup (object_paths (bus m))"
    using assms(3) by (auto simp: fun_eq_iff)
  ultimately show ?thesis using r m1
    by (simp add: pold_manager_unregister_agent_def g_dbus_create_reply_def g_dbus_create_error_def
        new_message_no_faults Let_def fun_eq_iff)
qed

section \<open>Witnesses\<close>

text \<open>A store with one application whose agent knows an old policy only.\<close>

abbreviation demo_app :: "string option \<Rightarrow> pold_agent_app" where
  "demo_app j \<equiv> \<lparr>app_id = app_id_of '':1.5'' '':1.9'', policy_ids = [''user:foo''],
     agent_policy_json = j\<rparr>"

definition stale_store :: policy_state where
  "stale_store = (set_agent_policy_json 0 (Some ''old'') (demo_watch '':1.5'' '':1.9'' demo_store))
     \<lparr>id_to_policy := [(''user:foo'', \<lparr>policy_id = ''user:foo'', policy_json = Some ''P''\<rparr>)]\<rparr>"

definition agent_bus :: bus where
  "agent_bus = demo_bus\<lparr>object_paths := [('':1.5'', ''/agent'')]\<rparr>"

lemma stale_store_facts:
  "policy_wf stale_store" "default_policy stale_store \<noteq> None"
  "app_heap stale_store 0 = Some (demo_app (Some ''old''))"
  "app_id_to_app stale_store = [(app_id_of '':1.5'' '':1.9'', 0)]"
  "id_to_policy stale_store = [(''user:foo'', \<lparr>policy_id = ''user:foo'', policy_json = Some ''P''\<rparr>)]"
proof -
  note w = demo_watch_heap[OF demo_store_wf demo_new]
  have n: "next_app demo_store = 0" "app_id_to_app demo_store = []"
    by (simp_all add: demo_store_def policy_start_def)
  show "policy_wf stale_store"
    unfolding stale_store_def
    by (intro policy_wf_frame(2) set_agent_policy_json_wf demo_watch_eq(2) demo_store_wf)
  show "default_policy stale_store \<noteq> None" using w(2) by (simp add: stale_store_def)
  show "app_heap stale_store 0 = Some (demo_app (Some ''old''))"
    using w(1)[of "'':1.5''" "'':1.9''"] n by (auto simp: stale_store_def set_agent_policy_json_heap)
  show "app_id_to_app stale_store = [(app_id_of '':1.5'' '':1.9'', 0)]"
    using w(4)[of "'':1.5''" "'':1.9''"] n by (simp add: stale_store_def gh_replace_def)
qed (simp add: stale_store_def)

lemma stale_active: "active_policy (stale_store\<lparr>update_apps := us\<rparr>) (demo_app j)
    = Some \<lparr>policy_id = ''user:foo'', policy_json = Some ''P''\<rparr>"
proof -
  have "prio ''user:foo'' = 1" by code_simp
  then show ?thesis
    by (simp add: active_policy_def get_active_policy_def Let_def stale_store_facts(5))
qed

lemma stale_marked: "mark_update_apps stale_store = Some (stale_store\<lparr>update_apps := [0]\<rparr>)"
proof -
  have "active_policy stale_store (demo_app j)
      = Some \<lparr>policy_id = ''user:foo'', policy_json = Some ''P''\<rparr>" for j
    using stale_active[of "update_apps stale_store"] by simp
  then show ?thesis
    by (simp add: mark_update_apps_def stale_store_facts gh_add_def)
qed

theorem agents_synced_witness:
  "\<exists>st2 b2. update_agent_policies (pold_manager_update_agent demo_jansson)
        (stale_store\<lparr>update_apps := [0]\<rparr>) agent_bus = Some (0, st2, b2) \<and> \<not> stale_app st2 0"
proof -
  let ?st = "stale_store\<lparr>update_apps := [0]\<rparr>"
  have "no_faults agent_bus" by (simp add: agent_bus_def demo_bus_def no_faults_def)
  moreover have "g_strsplit2 (app_id_of '':1.5'' '':1.9'') (CHR ''/'') = ['':1.5'', '':1.9'']"
    by (rule split_app_id_of) simp
  moreover have "gh_lookup (object_paths agent_bus) '':1.5'' = Some ''/agent''"
    by (simp add: agent_bus_def)
  ultimately obtain st2 b2 where u: "update_agent_policies
      (pold_manager_update_agent demo_jansson) ?st agent_bus = Some (0, st2, b2)"
    using demo_items stale_active[of "[0]"]
    by (auto simp: update_agent_policies_def stale_store_facts pold_manager_update_agent_def
        new_message_no_faults send_no_faults pold_policy_append_to_message_def demo_env_def)
  from agents_synced[OF stale_store_facts(1,2) stale_marked u] u show ?thesis
    by (auto simp: stale_store_facts)
qed

text \<open>A daemon with one registered agent and one application, and an answer with one policy.\<close>

definition demo_synced :: manager where
  "demo_synced = demo_manager\<lparr>store := (demo_watch '':1.5'' '':1.9'' demo_store), bus := agent_bus,
     mdisk := demo_disk\<rparr>"

theorem update_from_server_installs_witness:
  "\<exists>d' st' b'. update_policies_cb demo_jansson (pold_manager_update_agent demo_jansson) ''/p'' (Some ''A'')
        (mdisk demo_synced) (store demo_synced) (bus demo_synced) = Some (0, d', st', b')
    \<and> set (policy_dir d') = {(''README'', ''r''), (''0.policy'', ''P'')}
    \<and> pold_policy_get st' ''user:foo'' = Some \<lparr>policy_id = ''user:foo'', policy_json = Some ''P''\<rparr>"
proof -
  let ?m = demo_synced
  note w = demo_watch_heap[OF demo_store_wf demo_new[of "app_id_of '':1.5'' '':1.9''"]]
  have n: "next_app demo_store = 0" "app_id_to_app demo_store = []"
    by (simp_all add: demo_store_def policy_start_def)
  have wf: "policy_wf (store ?m)" using demo_watch_eq(2)[OF demo_store_wf] by (simp add: demo_synced_def)
  from w(2) obtain dp where dp: "default_policy (store ?m) = Some dp" by (auto simp: demo_synced_def)
  have "default_policy (demo_watch '':1.5'' '':1.9'' demo_store) = default_policy demo_store"
    using watch_app_result[OF demo_store_wf, of "'':1.5''" "'':1.9''" "[''user:foo'']"]
      demo_watch_eq(1)[OF demo_store_wf, of "'':1.5''" "'':1.9''"] by auto
  then have dpd: "dp = \<lparr>policy_id = ''d'', policy_json = Some ''{}''\<rparr>"
    using dp by (simp add: demo_synced_def demo_store_def)
  have disk: "unlink_ok (mdisk ?m)" "writes_ok (mdisk ?m)"
    using demo_disk_ok by (simp_all add: demo_synced_def)
  have dist: "distinct (map json_id [demo_policy])" by simp
  have nf: "no_faults (bus ?m)" by (simp add: demo_synced_def agent_bus_def demo_bus_def no_faults_def)
  have split: "g_strsplit2 (app_id_of '':1.5'' '':1.9'') (CHR ''/'') = ['':1.5'', '':1.9'']"
    by (rule split_app_id_of) simp
  have reg: "agents_registered ?m"
    using w(1) n w(4) split
    by (auto simp: agents_registered_def demo_synced_def gh_replace_def agent_of_def registered_def agent_bus_def)
  have "policy_items demo_jansson (Some ''P'') \<noteq> None" using demo_items by (simp add: demo_env_def)
  moreover have "policy_items demo_jansson (Some ''{}'') \<noteq> None"
    by (simp add: policy_items_def pold_dbus_json_append_string_def demo_jansson_def)
  ultimately have it: "\<forall>p\<in>insert dp (json_policy demo_jansson ` set [demo_policy]).
      policy_items demo_jansson (policy_json p) \<noteq> None"
    by (simp add: dpd json_policy_def) (simp add: demo_jansson_def)
  have res: "json_id demo_policy = ''user:foo''" "json_dumps demo_jansson demo_policy = Some ''P''"
    "policy_dir (mdisk ?m) = [(''old.policy'', ''X''), (''README'', ''r'')]"
    "policy_file ''old.policy''" "\<not> policy_file ''README''"
    by (simp_all add: json_id_def demo_policy_def demo_jansson_def demo_synced_def demo_disk_def suffix_def)
  have name: "policy_file_name 0 = ''0.policy''" by code_simp
  from update_from_server_installs[OF wf dp disk demo_answer dist nf reg it, of "''/p''"] show ?thesis
    by (auto simp: res name json_policy_def)
qed

lemma demo_register:
  "\<exists>m'. pold_manager_register_agent demo_request ''/agent'' demo_manager
     = (Some (MethodReturn 7 []), m')"
  using demo_manager_ok(4)
  by (simp add: pold_manager_register_agent_def g_dbus_create_reply_def new_message_no_faults
      demo_request_def Let_def) (simp add: demo_manager_def demo_bus_def)

theorem register_unregister_roundtrip_witness:
  "\<exists>m1 r' m2. pold_manager_register_agent demo_request ''/agent'' demo_manager
       = (Some (MethodReturn 7 []), m1)
     \<and> pold_manager_unregister_agent demo_request ''/agent'' m1 = Some (r', m2)"
proof -
  have new: "gh_lookup (object_paths (bus demo_manager)) (req_sender demo_request) = None"
    by (simp add: demo_manager_def demo_bus_def)
  from demo_register obtain m1 where
    r: "pold_manager_register_agent demo_request ''/agent'' demo_manager
       = (Some (MethodReturn 7 []), m1)" by blast
  from register_unregister_roundtrip[OF demo_manager_ok(1,4) new r] r show ?thesis by blast
qed

end
