(* ===== verification/Dbus_Common.thy ===== *)
theory Dbus_Common
  imports Dbus_Data
begin

text \<open>
  \<open>src/dbus-common.c\<close>: dictionary entries of type \<open>{sv}\<close>. The C functions take a type
  code and a pointer to a value of that type; the model takes both too, and the value a
  \<open>const char *\<close> points to may be NULL. libdbus takes a value whose type is not the code
  it was given for undefined behaviour, which is \<open>None\<close>.
\<close>

section \<open>Operations\<close>

definition append_basic :: "char \<Rightarrow> dbasic option \<Rightarrow> ditem option" where
  \<comment> \<open>\<open>dbus_message_iter_append_basic\<close>\<close>
  "append_basic type val =
     (case val of
        None \<Rightarrow> None
      | Some b \<Rightarrow> if type_code b = type then Some (Basic b) else None)"

definition append_variant :: "char \<Rightarrow> dbasic option \<Rightarrow> ditem option" where
  "append_variant type val = map_option (\<lambda>i. DVariant [type] [i]) (append_basic type val)"

fun append_basics :: "char \<Rightarrow> dbasic option list \<Rightarrow> ditem list option" where
  "append_basics type [] = Some []"
| "append_basics type (v # vs) =
     (case append_basic type v of
        None \<Rightarrow> None
      | Some i \<Rightarrow> map_option (\<lambda>items. i # items) (append_basics type vs))"

text \<open>
  The \<open>n_elements\<close> values of the array are the list: a fixed type is copied as one block,
  strings and object paths one by one; for any other type nothing is appended.
\<close>

definition append_variant_array :: "char \<Rightarrow> dbasic option list \<Rightarrow> ditem option" where
  "append_variant_array type vals =
     map_option (\<lambda>items. DVariant [CHR ''a'', type] [DArray [type] items])
       (if type_is_fixed type then append_basics type vals
        else if type = CHR ''s'' \<or> type = CHR ''o'' then append_basics type vals
        else Some [])"

definition append_variant_list :: "char \<Rightarrow> dbasic option list \<Rightarrow> ditem option" where
  "append_variant_list type vals =
     map_option (\<lambda>items. DVariant [CHR ''a'', type] [DArray [type] items])
       (append_basics type vals)"

text \<open>The operations on the dictionary under construction, a list of entries.\<close>

definition dict_append_entry ::
  "ditem list \<Rightarrow> string \<Rightarrow> char \<Rightarrow> dbasic option \<Rightarrow> ditem list option"
where
  "dict_append_entry dict key type val =
     (if type = CHR ''s'' \<and> val = None then Some dict
      else map_option (\<lambda>v. dict @ [DDictEntry [Basic (DString key), v]]) (append_variant type val))"

definition dict_append_array ::
  "ditem list \<Rightarrow> string \<Rightarrow> char \<Rightarrow> dbasic option list \<Rightarrow> ditem list option"
where
  "dict_append_array dict key type vals =
     map_option (\<lambda>v. dict @ [DDictEntry [Basic (DString key), v]]) (append_variant_array type vals)"

text \<open>\<open>dict_append_list\<close> does not use its type argument: the list is one of strings.\<close>

definition dict_append_list ::
  "ditem list \<Rightarrow> string \<Rightarrow> char \<Rightarrow> dbasic option list \<Rightarrow> ditem list option"
where
  "dict_append_list dict key type vals =
     map_option (\<lambda>v. dict @ [DDictEntry [Basic (DString key), v]])
       (append_variant_list (CHR ''s'') vals)"

section \<open>Properties\<close>

lemma append_basics_Some:
  "append_basics t vs = Some items \<longleftrightarrow>
     (\<exists>bs. vs = map Some bs \<and> (\<forall>b\<in>set bs. type_code b = t) \<and> items = map Basic bs)"
proof (induction vs arbitrary: items)
  case (Cons v vs)
  show ?case
  proof
    assume "append_basics t (v # vs) = Some items"
    then obtain b items' where "v = Some b" "type_code b = t"
      "append_basics t vs = Some items'" "items = Basic b # items'"
      by (auto simp: append_basic_def split: option.splits if_splits)
    with Cons.IH[of items'] show "\<exists>bs. v # vs = map Some bs \<and> (\<forall>b\<in>set bs. type_code b = t)
        \<and> items = map Basic bs"
      by (metis (no_types, lifting) list.simps(9) set_ConsD)
  next
    assume "\<exists>bs. v # vs = map Some bs \<and> (\<forall>b\<in>set bs. type_code b = t) \<and> items = map Basic bs"
    then obtain b bs where "v = Some b" "vs = map Some bs" "type_code b = t"
      "\<forall>b\<in>set bs. type_code b = t" "items = Basic b # map Basic bs"
      by (auto simp: Cons_eq_map_conv)
    moreover from this have "append_basics t vs = Some (map Basic bs)"
      using Cons.IH by blast
    ultimately show "append_basics t (v # vs) = Some items"
      by (simp add: append_basic_def)
  qed
qed auto

definition sv_dict :: "ditem list \<Rightarrow> bool" where
  "sv_dict dict \<longleftrightarrow> wt_item (DArray ''{sv}'' dict)"

lemma wt_basics: "\<forall>b\<in>set bs. type_code b = t \<Longrightarrow>
    wt_item (DVariant [CHR ''a'', t] [DArray [t] (map Basic bs)])"
  by (auto simp: list_all_iff)

lemma append_variant_wt: "append_variant t v = Some i \<Longrightarrow> wt_item i \<and> item_sig i = ''v'' \<and> \<not> is_dict_entry i"
  by (auto simp: append_variant_def append_basic_def split: option.splits if_splits)

lemma append_variant_array_wt:
  "append_variant_array t vs = Some i \<Longrightarrow> wt_item i \<and> item_sig i = ''v'' \<and> \<not> is_dict_entry i"
  by (auto simp: append_variant_array_def append_basics_Some wt_basics list_all_iff split: if_splits)

lemma append_variant_list_wt:
  "append_variant_list t vs = Some i \<Longrightarrow> wt_item i \<and> item_sig i = ''v'' \<and> \<not> is_dict_entry i"
  by (auto simp: append_variant_list_def append_basics_Some list_all_iff)

lemma sv_dict_snoc:
  "sv_dict dict \<Longrightarrow> wt_item v \<and> item_sig v = ''v'' \<and> \<not> is_dict_entry v \<Longrightarrow>
     sv_dict (dict @ [DDictEntry [Basic (DString key), v]])"
  by (simp add: sv_dict_def)

text \<open>
  Whatever sequence of the three operations builds a dictionary, it stays a
  well-typed body of an \<open>a{sv}\<close> container.
\<close>

lemma dict_append_keeps_sv:
  assumes "sv_dict dict"
    and "dict_append_entry dict key t val = Some dict' \<or> dict_append_array dict key t vals = Some dict'
      \<or> dict_append_list dict key t vals = Some dict'"
  shows "sv_dict dict'"
  using assms(2) sv_dict_snoc[OF assms(1)] append_variant_wt append_variant_array_wt
    append_variant_list_wt assms(1)
  by (auto simp: dict_append_entry_def dict_append_array_def dict_append_list_def
      simp del: wt_item.simps split: if_splits)

text \<open>
  An array reaches the dictionary with all its values for every type but \<open>g\<close>: values
  of a type that is neither fixed nor a string or an object path are dropped silently.
\<close>

lemma dict_append_array_values:
  assumes "\<forall>b\<in>set bs. type_code b = t" and "bs \<noteq> []"
  shows "dict_append_array dict key t (map Some bs) =
      Some (dict @ [DDictEntry [Basic (DString key),
        DVariant [CHR ''a'', t] [DArray [t] (map Basic bs)]]]) \<longleftrightarrow> t \<noteq> CHR ''g''"
proof -
  have "type_code b = CHR ''g'' \<longleftrightarrow>
      \<not> (type_is_fixed (type_code b) \<or> type_code b = CHR ''s'' \<or> type_code b = CHR ''o'')" for b
    by (cases b) (simp_all add: type_is_fixed_def)
  moreover from assms obtain b where "type_code b = t" by (cases bs) auto
  ultimately have "t = CHR ''g'' \<longleftrightarrow> \<not> (type_is_fixed t \<or> t = CHR ''s'' \<or> t = CHR ''o'')" by metis
  moreover have "append_basics t (map Some bs) = Some (map Basic bs)"
    using assms(1) by (auto simp: append_basics_Some)
  ultimately show ?thesis
    using assms(2) by (auto simp: dict_append_array_def append_variant_array_def)
qed

text \<open>
  A list reaches the dictionary exactly when it is one of strings, whatever type the
  caller names: the argument is ignored.
\<close>

lemma dict_append_list_strings:
  "dict_append_list dict key t (map Some bs) \<noteq> None \<longleftrightarrow> (\<forall>b\<in>set bs. type_code b = CHR ''s'')"
  by (auto simp: dict_append_list_def append_variant_list_def append_basics_Some)

end
