(* ===== verification/Http_Client.thy ===== *)
theory Http_Client
  imports Pold_Prelude "HOL-Library.Word"
begin

text \<open>
  \<open>src/http-client.c\<close>: the policy server is asked with one GET request, and the chunks of
  the response body are joined to one C string. Buffers are lists of characters of their
  allocated size; a write behind the end of one, a write through NULL and an allocation of a
  negative size give \<open>None\<close>. \<open>soup_message_body_get_chunk\<close> belongs to libsoup and is
  the parameter \<open>get_chunk\<close>, a function of the offset.
\<close>

section \<open>C strings in buffers\<close>

abbreviation NUL :: char where "NUL \<equiv> CHR 0x00"

definition c_string :: "string \<Rightarrow> string" where
  "c_string buf = takeWhile (\<lambda>c. c \<noteq> NUL) buf"

definition g_stpcpy :: "string \<Rightarrow> nat \<Rightarrow> string \<Rightarrow> (string \<times> nat) option" where
  \<comment> \<open>copies a C string with its terminator to position \<open>pos\<close>\<close>
  "g_stpcpy dest pos src =
     (let s = c_string src in
      if pos + length s < length dest
      then Some (take pos dest @ s @ NUL # drop (pos + length s + 1) dest, pos + length s)
      else None)"

section \<open>State and start\<close>

record http_client =
  http_user :: string
  http_pwd :: string
  soup_session :: bool
  authenticate_connected :: bool
  credentials_freed :: bool
  http_queue :: "(string \<times> string \<times> nat) list" \<comment> \<open>method, URL, callback data\<close>

definition pold_http_client_init ::
  "bool \<Rightarrow> nat \<Rightarrow> string \<Rightarrow> string \<Rightarrow> bool \<times> http_client"
where
  \<comment> \<open>whether a session is created, the id of the signal handler, the credentials\<close>
  "pold_http_client_init session handler username password =
     (let h = \<lparr>http_user = username, http_pwd = password, soup_session = session,
               authenticate_connected = False, credentials_freed = False, http_queue = []\<rparr> in
      if \<not> session then (False, h)
      else if handler < 1 then (False, h)
      else (True, h\<lparr>authenticate_connected := True\<rparr>))"

text \<open>What \<open>authenticate_callback\<close> hands to \<open>soup_auth_authenticate\<close>.\<close>

definition authenticate_callback :: "http_client \<Rightarrow> (string \<times> string) option" where
  "authenticate_callback h =
     (if credentials_freed h then None else Some (http_user h, http_pwd h))"

text \<open>The end: the pointers to the credentials stay, so a second call frees them again.\<close>

definition pold_http_client_final :: "http_client \<Rightarrow> http_client option" where
  "pold_http_client_final h =
     (if credentials_freed h then None else Some (h\<lparr>credentials_freed := True\<rparr>))"

text \<open>A request is queued with its callback data; libsoup needs the session.\<close>

definition pold_http_client_update_policies :: "nat \<Rightarrow> http_client \<Rightarrow> http_client option" where
  "pold_http_client_update_policies data h =
     (if \<not> soup_session h then None
      else Some (h\<lparr>http_queue := http_queue h @
             [(''GET'', ''http://127.0.0.1:9000/update_policies'', data)]\<rparr>))"

section \<open>Joining chunks\<close>

fun add_lengths :: "32 word \<Rightarrow> string list \<Rightarrow> 32 word" where
  \<comment> \<open>the \<open>int\<close> \<open>size\<close>: each sum is cut to 32 bits\<close>
  "add_lengths sz [] = sz"
| "add_lengths sz (s # rest) = add_lengths (sz + of_nat (length (c_string s))) rest"

fun copy_all :: "string \<Rightarrow> nat \<Rightarrow> string list \<Rightarrow> string option" where
  "copy_all ret buf [] = Some ret"
| "copy_all ret buf (s # rest) =
     (case g_stpcpy ret buf s of None \<Rightarrow> None | Some (ret', buf') \<Rightarrow> copy_all ret' buf' rest)"

text \<open>
  The outer option is undefined behaviour, the inner one the pointer. \<open>junk\<close> is what the
  memory holds that \<open>g_new\<close> returns.
\<close>

definition join_list :: "(nat \<Rightarrow> char) \<Rightarrow> string list \<Rightarrow> string option option" where
  "join_list junk string_list =
     (if string_list = [] then Some None
      else
        let sz = add_lengths 1 string_list in
        if sint sz \<le> 0 then None
        else map_option Some (copy_all (map junk [0..<nat (sint sz)]) 0 string_list))"

definition soup_buffer_to_string :: "string \<Rightarrow> string" where
  "soup_buffer_to_string data = data @ [NUL]"

section \<open>The response\<close>

partial_function (option) chunk_loop ::
  "(int \<Rightarrow> string option) \<Rightarrow> 32 word \<Rightarrow> string list \<Rightarrow> string list option"
where
  "chunk_loop get_chunk offset chunks =
     (case get_chunk (sint offset) of
        None \<Rightarrow> Some chunks
      | Some buf \<Rightarrow>
          chunk_loop get_chunk (offset + of_nat (length buf))
            (g_slist_append chunks (soup_buffer_to_string buf)))"

text \<open>
  The argument of the one call of \<open>cb_data->cb\<close>; \<open>None\<close> if the callback does not reach
  that call.
\<close>

definition soup_session_queue_message_cb ::
  "(nat \<Rightarrow> char) \<Rightarrow> nat \<Rightarrow> (int \<Rightarrow> string option) \<Rightarrow> string option option"
where
  "soup_session_queue_message_cb junk status get_chunk =
     (if status = 200
      then (case chunk_loop get_chunk 0 [] of
              None \<Rightarrow> None
            | Some chunks \<Rightarrow> map_option (map_option c_string) (join_list junk chunks))
      else Some None)"

section \<open>Properties of joining\<close>

lemma c_string_no_nul: "NUL \<notin> set s \<Longrightarrow> c_string s = s"
  by (auto simp: c_string_def takeWhile_eq_all_conv)

lemma c_string_append: "NUL \<notin> set s \<Longrightarrow> c_string (s @ NUL # t) = s"
  by (induction s) (auto simp: c_string_def)

lemma nul_c_string: "NUL \<notin> set (c_string s)"
  by (auto simp: c_string_def dest: set_takeWhileD)

abbreviation joined :: "string list \<Rightarrow> string" where
  "joined ss \<equiv> concat (map c_string ss)"

lemma add_lengths_eq: "add_lengths sz ss = sz + of_nat (length (joined ss))"
  by (induction sz ss rule: add_lengths.induct) (auto simp: add.assoc)

lemma copy_all_fits:
  "pos + length (joined ss) < length ret \<Longrightarrow> ss \<noteq> [] \<Longrightarrow>
     \<exists>more. copy_all ret pos ss = Some (take pos ret @ joined ss @ NUL # more)"
proof (induction ss arbitrary: ret pos)
  case (Cons s ss)
  let ?s = "c_string s"
  let ?ret = "take pos ret @ ?s @ NUL # drop (pos + length ?s + 1) ret"
  have step: "copy_all ret pos (s # ss) = copy_all ?ret (pos + length ?s) ss"
    using Cons.prems by (simp add: g_stpcpy_def Let_def)
  show ?case
  proof (cases ss)
    case Nil
    with step show ?thesis by auto
  next
    case (Cons t ts)
    have "pos + length ?s + length (joined ss) < length ?ret" using Cons.prems by simp
    from Cons.IH[OF this] Cons obtain more where
      "copy_all ?ret (pos + length ?s) ss
         = Some (take (pos + length ?s) ?ret @ joined ss @ NUL # more)" by auto
    with step Cons.prems show ?thesis by simp
  qed
qed simp

lemma copy_all_length: "copy_all ret pos ss = Some ret' \<Longrightarrow> pos < length ret \<Longrightarrow>
    pos + length (joined ss) < length ret"
proof (induction ss arbitrary: ret pos)
  case (Cons s ss)
  then show ?case
    by (auto simp: g_stpcpy_def Let_def split: if_splits) fastforce
qed simp

text \<open>
  \<open>join_list\<close> concatenates the C strings of the list within the memory it allocates
  exactly when their total length is below the largest \<open>int\<close>; beyond, its \<open>int\<close> size
  has wrapped and it allocates a negative size or writes behind the buffer.
\<close>

lemma join_list_lemma:
  assumes "ss \<noteq> []"
  shows "(\<exists>ret. join_list junk ss = Some (Some ret) \<and> c_string ret = joined ss)
     \<longleftrightarrow> length (joined ss) < 2 ^ 31 - 1"
proof -
  let ?n = "length (joined ss)"
  let ?size = "1 + of_nat ?n :: 32 word"
  show ?thesis
  proof (cases "?n < 2 ^ 31 - 1")
    case True
    then have "unat ?size = Suc ?n" by (simp add: unat_word_ariths unat_of_nat)
    with True have size: "sint ?size = int (Suc ?n)"
      by (simp add: sint_uint uint_nat signed_take_bit_int_eq_self)
    let ?buf = "map junk [0..<nat (sint ?size)]"
    have "0 + ?n < length ?buf" by (simp add: size)
    from copy_all_fits[OF this assms] obtain more where
      "copy_all ?buf 0 ss = Some (joined ss @ NUL # more)" by auto
    with assms size True show ?thesis
      by (auto simp: join_list_def add_lengths_eq Let_def nul_c_string intro!: c_string_append)
  next
    case False
    have "sint ?size < 2 ^ 31" using sint_lt[of ?size] by simp
    with False have "\<not> ?n < nat (sint ?size)" by auto
    then have "join_list junk ss = None"
      using assms copy_all_length[of "map junk [0..<nat (sint ?size)]" 0 ss]
      by (cases "copy_all (map junk [0..<nat (sint ?size)]) 0 ss")
        (auto simp: join_list_def add_lengths_eq Let_def not_le)
    with False show ?thesis by simp
  qed
qed

section \<open>Properties of the response\<close>

text \<open>
  What libsoup documents of \<open>soup_message_body_get_chunk\<close> for a body that was received
  but not marked complete: behind the end NULL, before it a non-empty piece of the body
  that starts at the offset.
\<close>

definition serves_body :: "(int \<Rightarrow> string option) \<Rightarrow> string \<Rightarrow> bool" where
  "serves_body get_chunk body \<longleftrightarrow>
     (\<forall>off. (int (length body) \<le> off \<longrightarrow> get_chunk off = None) \<and>
        (0 \<le> off \<and> off < int (length body) \<longrightarrow>
           (\<exists>buf rest. get_chunk off = Some buf \<and> buf \<noteq> []
              \<and> drop (nat off) body = buf @ rest)))"

lemma sint_of_nat_small: "n < 2 ^ 31 \<Longrightarrow> sint (of_nat n :: 32 word) = int n"
  by (simp add: sint_uint uint_nat unat_of_nat signed_take_bit_int_eq_self)

lemma chunk_loop_serves:
  assumes "serves_body g body" and "length body < 2 ^ 31"
    and "off \<le> length body" and "NUL \<notin> set body"
  shows "\<exists>ss. chunk_loop g (of_nat off) chunks = Some (chunks @ ss)
    \<and> joined ss = drop off body \<and> (ss = [] \<longleftrightarrow> off = length body)"
  using assms(3)
proof (induction "length body - off" arbitrary: off chunks rule: less_induct)
  case less
  from less.prems assms(2) have s: "sint (of_nat off :: 32 word) = int off"
    by (simp add: sint_of_nat_small)
  show ?case
  proof (cases "off = length body")
    case True
    with assms(1) s have "g (sint (of_nat off :: 32 word)) = None" by (simp add: serves_body_def)
    with True show ?thesis by (simp add: chunk_loop.simps)
  next
    case False
    with less.prems have "int off < int (length body)" by simp
    with assms(1) obtain buf rest where
      b: "g (int off) = Some buf" "buf \<noteq> []" "drop off body = buf @ rest"
      unfolding serves_body_def by (metis nat_int of_nat_0_le_iff)
    from b(3) have "length body - off = length buf + length rest" by (metis length_append length_drop)
    with b(2) less.prems False have l: "off + length buf \<le> length body"
      "length body - (off + length buf) < length body - off"
      by (cases buf; auto)+
    from less.hyps[OF l(2) l(1)] obtain ss where
      ss: "chunk_loop g (of_nat (off + length buf)) (chunks @ [soup_buffer_to_string buf])
        = Some ((chunks @ [soup_buffer_to_string buf]) @ ss)"
        "joined ss = drop (off + length buf) body" by blast
    from b(3) assms(4) have "NUL \<notin> set buf" by (metis Un_iff in_set_dropD set_append)
    then have "c_string (soup_buffer_to_string buf) = buf"
      by (simp add: soup_buffer_to_string_def c_string_append)
    moreover from b(3) have "drop (off + length buf) body = rest"
      by (metis add.commute append_eq_conv_conj drop_drop)
    ultimately show ?thesis
      using ss b s False by (subst chunk_loop.simps) simp
  qed
qed

text \<open>
  C38. If the server answers 200 with a body of text below 2 GiB, the callback is called
  with exactly that body, however libsoup cuts it into chunks; an empty body arrives as
  NULL. Any other status calls it with NULL.
\<close>

theorem response_reaches_callback:
  assumes "serves_body get_chunk body" and "length body < 2 ^ 31 - 1" and "NUL \<notin> set body"
  shows "soup_session_queue_message_cb junk status get_chunk =
     Some (if status = 200 \<and> body \<noteq> [] then Some body else None)"
proof (cases "status = 200")
  case True
  from chunk_loop_serves[OF assms(1) _ _ assms(3), of 0 "[]"] assms(2) obtain ss where
    ss: "chunk_loop get_chunk 0 [] = Some ss" "joined ss = body" "ss = [] \<longleftrightarrow> body = []"
    by auto
  show ?thesis
  proof (cases "ss = []")
    case False
    with ss assms(2) obtain ret where "join_list junk ss = Some (Some ret)" "c_string ret = body"
      using join_list_lemma[OF False, of junk] by auto
    with ss False True show ?thesis by (simp add: soup_session_queue_message_cb_def)
  qed (use ss True in \<open>simp add: soup_session_queue_message_cb_def join_list_def\<close>)
qed (simp add: soup_session_queue_message_cb_def)

theorem response_reaches_callback_witness:
  "soup_session_queue_message_cb (\<lambda>_. NUL) 200
     (\<lambda>off. if off < 2 then Some (drop (nat off) ''[]'') else None) = Some (Some ''[]'')"
proof -
  have "serves_body (\<lambda>off. if off < 2 then Some (drop (nat off) ''[]'') else None) ''[]''"
    by (auto simp: serves_body_def)
  from response_reaches_callback[OF this, of "\<lambda>_. NUL" 200] show ?thesis by simp
qed

lemma chunk_loop_needs_null:
  assumes "chunk_loop g off chunks = Some r"
  shows "\<exists>o'. g o' = None"
  by (rule chunk_loop.raw_induct[where P = "\<lambda>g off chunks r. \<exists>o'. g o' = None", OF _ assms])
    (auto split: option.splits)

text \<open>
  The loop leaves only through a NULL chunk. libsoup also ends a body with an empty
  chunk, if the body was marked complete; the offset then stops growing and the daemon
  collects empty chunks for ever.
\<close>

lemma empty_last_chunk_never_returns:
  assumes "\<forall>off. get_chunk off = Some (drop (nat off) body)"
  shows "soup_session_queue_message_cb junk 200 get_chunk = None"
  using chunk_loop_needs_null[of get_chunk 0 "[]"] assms
  by (cases "chunk_loop get_chunk 0 []") (auto simp: soup_session_queue_message_cb_def)

end
