(* ===== verification/Gdbus_Watch.thy ===== *)
theory Gdbus_Watch
  imports Pold_Prelude "HOL-Library.Word"
begin

text \<open>
  \<open>gdbus/watch.c\<close>: clients watch signals and the owners of bus names. The list
  \<open>listeners\<close> holds one \<open>filter_data\<close> per match rule, each with the callbacks of the
  watches that share it. A \<open>filter_data\<close> and a \<open>service_data\<close> are named by a reference,
  a callback by its id. A read of freed memory, a write behind a buffer and a string
  comparison with NULL give \<open>None\<close>. The functions of the clients are not modelled, only
  the calls to them, in order; they are taken not to call back into this file, which those
  of pold do not.
\<close>

section \<open>State\<close>

type_synonym client_fn = nat

record filter_callback =
  conn_func :: "client_fn option"
  disc_func :: "client_fn option"
  signal_func :: "client_fn option"
  destroy_func :: "client_fn option"
  cb_data :: "nat option"
  cb_user_data :: nat
  cb_id :: "32 word"

datatype filter_handler = ServiceFilter | SignalFilter

record filter_data =
  fd_ref :: nat
  fd_connection :: nat
  handle_func :: "filter_handler option"
  fd_name :: "string option"
  fd_owner :: "string option"
  fd_path :: "string option"
  fd_interface :: "string option"
  fd_member :: "string option"
  fd_argument :: "string option"
  callbacks :: "filter_callback list"
  processed :: "filter_callback list"
  name_watch :: "32 word"
  lock :: bool
  registered :: bool

text \<open>
  The owner of a \<open>service_data\<close> points into the reply of the bus daemon, or to the
  \<open>owner\<close> of a listener, by its reference.
\<close>

datatype owner_ptr = NoOwner | ReplyOwner string | ListenerOwner nat

record service_data =
  sd_conn :: nat
  sd_name :: string
  sd_owner :: owner_ptr
  sd_call :: bool
  sd_idle :: bool
  sd_callback :: "32 word"

datatype client_call =
    ConnCalled client_fn nat
  | DiscCalled client_fn nat
  | SignalCalled client_fn nat
  | DestroyCalled client_fn nat

record watch_state =
  listener_id :: "32 word"
  listeners :: "filter_data list"
  next_ref :: nat
  services :: "nat \<Rightarrow> service_data option"
  next_service :: nat
  match_rules :: "(nat \<times> string) list"
  filters :: "nat list"
  calls :: "client_call list"

text \<open>What libdbus and the clients' signal functions answer.\<close>

record watch_env =
  add_filter_fails :: bool
  add_match_fails :: "string \<Rightarrow> bool"
  remove_match_fails :: "string \<Rightarrow> bool"
  signal_keeps :: "client_fn \<Rightarrow> bool"
  owner_call_fails :: bool

section \<open>Finding filters\<close>

definition filter_data_find_match ::
  "watch_state \<Rightarrow> nat \<Rightarrow> string option \<Rightarrow> string option \<Rightarrow> string option \<Rightarrow> string option
     \<Rightarrow> string option \<Rightarrow> string option \<Rightarrow> filter_data option"
where
  "filter_data_find_match st conn name owner path interface member argument =
     find (\<lambda>d. fd_connection d = conn \<and> fd_name d = name \<and> fd_owner d = owner \<and> fd_path d = path
             \<and> fd_interface d = interface \<and> fd_member d = member \<and> fd_argument d = argument)
       (listeners st)"

definition filter_data_find :: "watch_state \<Rightarrow> nat \<Rightarrow> filter_data option" where
  "filter_data_find st conn = find (\<lambda>d. fd_connection d = conn) (listeners st)"

definition find_listener :: "nat \<Rightarrow> watch_state \<Rightarrow> filter_data option" where
  \<comment> \<open>reading the object a pointer names\<close>
  "find_listener r st = find (\<lambda>d. fd_ref d = r) (listeners st)"

definition set_listener :: "filter_data \<Rightarrow> watch_state \<Rightarrow> watch_state" where
  "set_listener d st =
     st\<lparr>listeners := map (\<lambda>e. if fd_ref e = fd_ref d then d else e) (listeners st)\<rparr>"

definition drop_listener :: "nat \<Rightarrow> watch_state \<Rightarrow> watch_state" where
  "drop_listener r st = st\<lparr>listeners := filter (\<lambda>d. fd_ref d \<noteq> r) (listeners st)\<rparr>"

section \<open>Match rules\<close>

text \<open>
  \<open>format_rule\<close>: each \<open>snprintf\<close> writes at most to the end of the buffer of
  \<open>size\<close> bytes but returns the full length, so \<open>offset\<close> may pass the end; the next one
  would then write outside.
\<close>

definition rule_part :: "string \<Rightarrow> string option \<Rightarrow> string list" where
  "rule_part key v =
     (case v of None \<Rightarrow> [] | Some s \<Rightarrow> ['','' @ key @ ''='' @ [CHR 0x27] @ s @ [CHR 0x27]])"

definition rule_parts :: "filter_data \<Rightarrow> string list" where
  "rule_parts d =
     rule_part ''sender'' (case fd_name d of Some s \<Rightarrow> Some s | None \<Rightarrow> fd_owner d)
     @ rule_part ''path'' (fd_path d) @ rule_part ''interface'' (fd_interface d)
     @ rule_part ''member'' (fd_member d) @ rule_part ''arg0'' (fd_argument d)"

definition rule_head :: string where
  "rule_head = ''type='' @ [CHR 0x27] @ ''signal'' @ [CHR 0x27]"

fun format_parts :: "nat \<Rightarrow> nat \<Rightarrow> string \<Rightarrow> string list \<Rightarrow> string option" where
  "format_parts sz offset rule [] = Some rule"
| "format_parts sz offset rule (p # ps) =
     (if sz < offset then None
      else format_parts sz (offset + length p) (rule @ take (sz - offset - 1) p) ps)"

definition format_rule :: "filter_data \<Rightarrow> nat \<Rightarrow> string option" where
  "format_rule d sz = format_parts sz 0 [] (rule_head # rule_parts d)"

abbreviation (input) match_rule_length :: nat where "match_rule_length \<equiv> 1024"

definition add_match ::
  "watch_env \<Rightarrow> filter_data \<Rightarrow> filter_handler \<Rightarrow> watch_state \<Rightarrow> (filter_data option \<times> watch_state) option"
where
  \<comment> \<open>the data as it is afterwards, \<open>None\<close> inside for the FALSE of the code\<close>
  "add_match E d h st =
     (case format_rule d match_rule_length of
        None \<Rightarrow> None
      | Some rule \<Rightarrow>
          (if add_match_fails E rule then Some (None, st)
           else Some (Some (d\<lparr>handle_func := Some h, registered := True\<rparr>),
                      st\<lparr>match_rules := match_rules st @ [(fd_connection d, rule)]\<rparr>)))"

definition remove_match :: "watch_env \<Rightarrow> filter_data \<Rightarrow> watch_state \<Rightarrow> (bool \<times> watch_state) option" where
  "remove_match E d st =
     (case format_rule d match_rule_length of
        None \<Rightarrow> None
      | Some rule \<Rightarrow>
          (if remove_match_fails E rule then Some (False, st)
           else Some (True, st\<lparr>match_rules := remove1 (fd_connection d, rule) (match_rules st)\<rparr>)))"

section \<open>Filters and callbacks\<close>

definition filter_data_get ::
  "watch_env \<Rightarrow> nat \<Rightarrow> filter_handler \<Rightarrow> string option \<Rightarrow> string option \<Rightarrow> string option
     \<Rightarrow> string option \<Rightarrow> string option \<Rightarrow> watch_state \<Rightarrow> (nat option \<times> watch_state) option"
where
  "filter_data_get E conn h sender path interface member argument st =
     (let first = (filter_data_find st conn = None) in
      if first \<and> add_filter_fails E then Some (None, st)
      else
        let st1 = (if first then st\<lparr>filters := filters st @ [conn]\<rparr> else st);
            unique = (case sender of Some (c # _) \<Rightarrow> c = CHR '':'' | _ \<Rightarrow> False);
            name = (if unique then None else sender);
            owner = (if unique then sender else None)
        in (case filter_data_find_match st1 conn name owner path interface member argument of
              Some d \<Rightarrow> Some (Some (fd_ref d), st1)
            | None \<Rightarrow>
                (let d = \<lparr>fd_ref = next_ref st1, fd_connection = conn, handle_func = None,
                          fd_name = name, fd_owner = owner, fd_path = path,
                          fd_interface = interface, fd_member = member, fd_argument = argument,
                          callbacks = [], processed = [], name_watch = 0, lock = False,
                          registered = False\<rparr>
                 in (case add_match E d h st1 of
                       None \<Rightarrow> None
                     | Some (None, st2) \<Rightarrow> Some (None, st2)
                     | Some (Some d', st2) \<Rightarrow>
                         Some (Some (fd_ref d'),
                           st2\<lparr>listeners := listeners st2 @ [d'], next_ref := Suc (next_ref st2)\<rparr>)))))"

definition filter_data_find_callback :: "filter_data \<Rightarrow> 32 word \<Rightarrow> filter_callback option" where
  "filter_data_find_callback d wid =
     (case find (\<lambda>cb. cb_id cb = wid) (callbacks d) of
        Some cb \<Rightarrow> Some cb
      | None \<Rightarrow> find (\<lambda>cb. cb_id cb = wid) (processed d))"

definition filter_data_add_callback ::
  "nat \<Rightarrow> client_fn option \<Rightarrow> client_fn option \<Rightarrow> client_fn option \<Rightarrow> client_fn option \<Rightarrow> nat
     \<Rightarrow> watch_state \<Rightarrow> (32 word \<times> watch_state) option"
where
  "filter_data_add_callback r connect disconnect signal destroy user_data st =
     (case find_listener r st of
        None \<Rightarrow> None
      | Some d \<Rightarrow>
          (let wid = listener_id st + 1;
               cb = \<lparr>conn_func = connect, disc_func = disconnect, signal_func = signal,
                     destroy_func = destroy, cb_data = None, cb_user_data = user_data, cb_id = wid\<rparr>;
               d' = (if lock d then d\<lparr>processed := g_slist_append (processed d) cb\<rparr>
                     else d\<lparr>callbacks := g_slist_append (callbacks d) cb\<rparr>)
           in Some (wid, set_listener d' (st\<lparr>listener_id := wid\<rparr>))))"

definition call_client :: "client_fn option \<Rightarrow> (client_fn \<Rightarrow> nat \<Rightarrow> client_call) \<Rightarrow> nat \<Rightarrow> watch_state \<Rightarrow> watch_state" where
  "call_client f how u st = (case f of None \<Rightarrow> st | Some g \<Rightarrow> st\<lparr>calls := calls st @ [how g u]\<rparr>)"

definition cancel_service :: "filter_callback \<Rightarrow> watch_state \<Rightarrow> watch_state option" where
  \<comment> \<open>the pending operation of a callback; its data is read, cancelled and freed\<close>
  "cancel_service cb st =
     (case cb_data cb of
        None \<Rightarrow> Some st
      | Some s \<Rightarrow>
          (case services st s of
             None \<Rightarrow> None
           | Some sd \<Rightarrow> Some (st\<lparr>services := (services st)(s := None)\<rparr>)))"

lemma find_SomeD: "find P xs = Some x \<Longrightarrow> P x \<and> x \<in> set xs"
  by (induction xs) (auto split: if_splits)

lemma set_listener_length [simp]: "length (listeners (set_listener d st)) = length (listeners st)"
  by (simp add: set_listener_def)

lemma cancel_service_listeners [simp]:
  "cancel_service cb st = Some st' \<Longrightarrow> listeners st' = listeners st"
  by (auto simp: cancel_service_def split: option.splits)

lemma call_client_listeners [simp]: "listeners (call_client f h u st) = listeners st"
  by (simp add: call_client_def split: option.split)

lemma remove_match_listeners:
  "remove_match E d st = Some (b, st') \<Longrightarrow> listeners st' = listeners st"
  by (auto simp: remove_match_def split: option.splits if_splits)

text \<open>The part of \<open>filter_data_remove_callback\<close> that always happens: unlink, cancel, destroy.\<close>

definition detach_callback ::
  "filter_data \<Rightarrow> filter_callback \<Rightarrow> watch_state \<Rightarrow> (filter_data \<times> watch_state) option"
where
  "detach_callback d cb st =
     (let d' = d\<lparr>callbacks := g_slist_remove (callbacks d) cb,
                 processed := g_slist_remove (processed d) cb\<rparr> in
      case cancel_service cb (set_listener d' st) of
        None \<Rightarrow> None
      | Some st' \<Rightarrow> Some (d', call_client (destroy_func cb) DestroyCalled (cb_user_data cb) st'))"

text \<open>
  Whether the listener is to be removed too; then its match rule is removed first. The
  result says FALSE where that fails.
\<close>

definition release_match ::
  "watch_env \<Rightarrow> filter_data \<Rightarrow> watch_state \<Rightarrow> (bool \<times> watch_state) option"
where
  "release_match E d st = (if registered d then remove_match E d st else Some (True, st))"

definition remove_filter_if_last :: "nat \<Rightarrow> watch_state \<Rightarrow> watch_state" where
  "remove_filter_if_last conn st =
     (if filter_data_find st conn = None then st\<lparr>filters := g_slist_remove (filters st) conn\<rparr> else st)"

lemma detach_callback_length:
  "detach_callback d cb st = Some (d', st') \<Longrightarrow>
     length (listeners st') = length (listeners st) \<and> fd_ref d' = fd_ref d
     \<and> map fd_ref (listeners st') = map fd_ref (listeners st)"
  by (auto simp: detach_callback_def Let_def set_listener_def split: option.splits)

lemma release_match_listeners:
  "release_match E d st = Some (b, st') \<Longrightarrow> listeners st' = listeners st"
  by (auto simp: release_match_def dest: remove_match_listeners split: if_splits)

lemma remove_filter_listeners [simp]: "listeners (remove_filter_if_last c st) = listeners st"
  by (simp add: remove_filter_if_last_def)

lemma drop_listener_shrinks:
  assumes "find_listener r st = Some d" and "map fd_ref (listeners st') = map fd_ref (listeners st)"
  shows "length (listeners (drop_listener r st')) < length (listeners st)"
proof -
  from find_SomeD[OF assms(1)[unfolded find_listener_def]] have "r \<in> set (map fd_ref (listeners st))"
    by auto
  then have "r \<in> set (map fd_ref (listeners st'))" using assms(2) by simp
  then obtain e where "e \<in> set (listeners st')" "fd_ref e = r" by auto
  then have "length (filter (\<lambda>e. fd_ref e \<noteq> r) (listeners st')) < length (listeners st')"
    by (intro length_filter_less) auto
  moreover have "length (listeners st') = length (listeners st)"
    using assms(2) by (metis length_map)
  ultimately show ?thesis by (simp add: drop_listener_def)
qed

text \<open>
  The three functions call each other: freeing a listener removes the watch of its name.
  Each round removes a listener, so they end.
\<close>

function (sequential) filter_data_remove_callback ::
    "watch_env \<Rightarrow> nat \<Rightarrow> 32 word \<Rightarrow> watch_state \<Rightarrow> (bool \<times> watch_state) option"
  and filter_data_free :: "watch_env \<Rightarrow> filter_data \<Rightarrow> watch_state \<Rightarrow> watch_state option"
  and g_dbus_remove_watch :: "watch_env \<Rightarrow> 32 word \<Rightarrow> watch_state \<Rightarrow> (bool \<times> watch_state) option"
where
  "filter_data_remove_callback E r wid st =
     (case find_listener r st of
        None \<Rightarrow> None
      | Some d \<Rightarrow>
          (case filter_data_find_callback d wid of
             None \<Rightarrow> None
           | Some cb \<Rightarrow>
               (case detach_callback d cb st of
                  None \<Rightarrow> None
                | Some (d1, st1) \<Rightarrow>
                    (if callbacks d1 \<noteq> [] \<or> lock d1 then Some (True, st1)
                     else (case release_match E d1 st1 of
                             None \<Rightarrow> None
                           | Some (False, st2) \<Rightarrow> Some (False, st2)
                           | Some (True, st2) \<Rightarrow>
                               map_option (\<lambda>st3. (True, st3))
                                 (filter_data_free E d1 (drop_listener r st2)))))))"
| "filter_data_free E d st =
     map_option snd (g_dbus_remove_watch E (name_watch d)
       (remove_filter_if_last (fd_connection d) st))"
| "g_dbus_remove_watch E wid st =
     (if wid = 0 then Some (False, st)
      else (case find (\<lambda>d. filter_data_find_callback d wid \<noteq> None) (listeners st) of
              None \<Rightarrow> Some (False, st)
            | Some d \<Rightarrow> map_option (\<lambda>(_, st'). (True, st'))
                (filter_data_remove_callback E (fd_ref d) wid st)))"
  by pat_completeness auto
termination
proof (relation "measure (\<lambda>x. case x of
    Inl (E, r, wid, st) \<Rightarrow> 3 * length (listeners st)
  | Inr (Inl (E, d, st)) \<Rightarrow> 3 * length (listeners st) + 2
  | Inr (Inr (E, wid, st)) \<Rightarrow> 3 * length (listeners st) + 1)", goal_cases)
  case (2 E r wid st d cb p d1 st1 q b st2)
  then have "map fd_ref (listeners st2) = map fd_ref (listeners st)"
    using detach_callback_length[of d cb st d1 st1] release_match_listeners[of E d1 st1 b st2] by simp
  from drop_listener_shrinks[OF 2(1) this] show ?case by simp
qed simp_all

declare filter_data_remove_callback.simps [simp del] filter_data_free.simps [simp del]
  g_dbus_remove_watch.simps [simp del]

text \<open>\<open>g_dbus_remove_all_watches\<close>: every listener of the connection, with its disconnect calls.\<close>

fun call_and_destroy :: "filter_callback list \<Rightarrow> watch_state \<Rightarrow> watch_state" where
  "call_and_destroy [] st = st"
| "call_and_destroy (cb # rest) st =
     call_and_destroy rest
       (call_client (destroy_func cb) DestroyCalled (cb_user_data cb)
         (call_client (disc_func cb) DiscCalled (cb_user_data cb) st))"

text \<open>
  The callbacks are freed twice: \<open>filter_data_call_and_free\<close> frees each of them, and then
  \<open>filter_data_free\<close> walks the same list and frees them again.
\<close>

definition filter_data_call_and_free ::
  "watch_env \<Rightarrow> filter_data \<Rightarrow> watch_state \<Rightarrow> watch_state option"
where
  "filter_data_call_and_free E d st =
     (let st1 = call_and_destroy (callbacks d) st in
      if callbacks d = [] then filter_data_free E d st1 else None)"

partial_function (option) g_dbus_remove_all_watches ::
  "watch_env \<Rightarrow> nat \<Rightarrow> watch_state \<Rightarrow> watch_state option"
where
  "g_dbus_remove_all_watches E conn st =
     (case filter_data_find st conn of
        None \<Rightarrow> Some st
      | Some d \<Rightarrow>
          (case filter_data_call_and_free E d (drop_listener (fd_ref d) st) of
             None \<Rightarrow> None
           | Some st' \<Rightarrow> g_dbus_remove_all_watches E conn st'))"

section \<open>Handling a signal\<close>

record signal_msg =
  sig_sender :: "string option"
  sig_path :: "string option"
  sig_interface :: "string option"
  sig_member :: "string option"
  sig_args :: "string option list" \<comment> \<open>each argument, \<open>None\<close> where it is no string\<close>

definition set_callbacks :: "filter_callback list \<Rightarrow> filter_callback list \<Rightarrow> nat \<Rightarrow> watch_state \<Rightarrow> watch_state option" where
  "set_callbacks cbs procs r st =
     (case find_listener r st of
        None \<Rightarrow> None
      | Some d \<Rightarrow> Some (set_listener (d\<lparr>callbacks := cbs, processed := procs\<rparr>) st))"

definition move_to_processed :: "nat \<Rightarrow> filter_callback \<Rightarrow> watch_state \<Rightarrow> watch_state option" where
  "move_to_processed r cb st =
     (case find_listener r st of
        None \<Rightarrow> None
      | Some d \<Rightarrow> set_callbacks (g_slist_remove (callbacks d) cb)
                   (g_slist_append (processed d) cb) r st)"

text \<open>
  The loops of \<open>signal_filter\<close> and \<open>service_filter\<close> take the head off \<open>callbacks\<close> in
  each round; the argument is the list of callbacks at the start.
\<close>

fun signal_loop :: "watch_env \<Rightarrow> nat \<Rightarrow> filter_callback list \<Rightarrow> watch_state \<Rightarrow> watch_state option" where
  "signal_loop E r [] st = Some st"
| "signal_loop E r (cb # rest) st =
     (let st1 = call_client (signal_func cb) SignalCalled (cb_user_data cb) st;
          drops = (case signal_func cb of None \<Rightarrow> False | Some f \<Rightarrow> \<not> signal_keeps E f)
      in (case (if drops then map_option snd (filter_data_remove_callback E r (cb_id cb) st1)
                else move_to_processed r cb st1) of
            None \<Rightarrow> None
          | Some st2 \<Rightarrow> signal_loop E r rest st2))"

definition signal_filter :: "watch_env \<Rightarrow> nat \<Rightarrow> watch_state \<Rightarrow> watch_state option" where
  "signal_filter E r st =
     (case find_listener r st of None \<Rightarrow> None | Some d \<Rightarrow> signal_loop E r (callbacks d) st)"

definition update_name_cache :: "string \<Rightarrow> string \<Rightarrow> watch_state \<Rightarrow> watch_state" where
  "update_name_cache name owner st =
     st\<lparr>listeners := map (\<lambda>d. if fd_name d = Some name then d\<lparr>fd_owner := Some owner\<rparr> else d)
          (listeners st)\<rparr>"

definition check_name_cache :: "string \<Rightarrow> watch_state \<Rightarrow> filter_data option" where
  \<comment> \<open>the listener whose \<open>owner\<close> is returned\<close>
  "check_name_cache name st = find (\<lambda>d. fd_name d = Some name) (listeners st)"

fun service_loop ::
  "watch_env \<Rightarrow> nat \<Rightarrow> string \<Rightarrow> string \<Rightarrow> filter_callback list \<Rightarrow> watch_state \<Rightarrow> watch_state option"
where
  "service_loop E r argument new [] st = Some st"
| "service_loop E r argument new (cb # rest) st =
     (let st1 = (if new = [] then call_client (disc_func cb) DiscCalled (cb_user_data cb) st
                 else call_client (conn_func cb) ConnCalled (cb_user_data cb) st)
      in (case (if take 1 argument = '':'' \<and> (conn_func cb = None \<or> disc_func cb = None)
                then map_option snd (filter_data_remove_callback E r (cb_id cb) st1)
                else move_to_processed r cb st1) of
            None \<Rightarrow> None
          | Some st2 \<Rightarrow> service_loop E r argument new rest st2))"

text \<open>
  \<open>service_filter\<close>: a message without three strings is left alone. A listener of this
  handler always has an argument.
\<close>

definition service_filter :: "watch_env \<Rightarrow> signal_msg \<Rightarrow> nat \<Rightarrow> watch_state \<Rightarrow> watch_state option" where
  "service_filter E msg r st =
     (case sig_args msg of
        Some name # Some old # Some new # _ \<Rightarrow>
          (let st1 = update_name_cache name new st in
           case find_listener r st1 of
             None \<Rightarrow> None
           | Some d \<Rightarrow>
               (case fd_argument d of
                  None \<Rightarrow> if callbacks d = [] then Some st1 else None
                | Some argument \<Rightarrow> service_loop E r argument new (callbacks d) st1))
      | _ \<Rightarrow> Some st)"

text \<open>
  The comparisons of \<open>message_filter\<close>: a field of the listener that is set must equal that
  of the message; \<open>g_str_equal\<close> dereferences both, so NULL in the message is undefined.
\<close>

definition field_matches :: "string option \<Rightarrow> string option \<Rightarrow> bool option" where
  "field_matches given field =
     (case field of
        None \<Rightarrow> Some True
      | Some f \<Rightarrow> (case given of None \<Rightarrow> None | Some g \<Rightarrow> Some (g = f)))"

fun and_then :: "bool option list \<Rightarrow> bool option" where
  "and_then [] = Some True"
| "and_then (t # ts) =
     (case t of None \<Rightarrow> None | Some False \<Rightarrow> Some False | Some True \<Rightarrow> and_then ts)"

definition first_string :: "signal_msg \<Rightarrow> string option" where
  "first_string msg = (case sig_args msg of [] \<Rightarrow> None | a # _ \<Rightarrow> a)"

definition matches :: "nat \<Rightarrow> signal_msg \<Rightarrow> filter_data \<Rightarrow> bool option" where
  "matches conn msg d =
     and_then [Some (fd_connection d = conn), field_matches (sig_sender msg) (fd_owner d),
       field_matches (sig_path msg) (fd_path d), field_matches (sig_interface msg) (fd_interface d),
       field_matches (sig_member msg) (fd_member d), field_matches (first_string msg) (fd_argument d)]"

definition set_lock :: "bool \<Rightarrow> filter_data \<Rightarrow> filter_data" where
  "set_lock b d = d\<lparr>lock := b\<rparr>"

definition run_handler :: "watch_env \<Rightarrow> signal_msg \<Rightarrow> filter_data \<Rightarrow> watch_state \<Rightarrow> watch_state option" where
  "run_handler E msg d st =
     (case handle_func d of
        None \<Rightarrow> Some st
      | Some h \<Rightarrow>
          (let st1 = set_listener (set_lock True d) st in
           case (case h of ServiceFilter \<Rightarrow> service_filter E msg (fd_ref d) st1
                         | SignalFilter \<Rightarrow> signal_filter E (fd_ref d) st1) of
             None \<Rightarrow> None
           | Some st2 \<Rightarrow>
               (case find_listener (fd_ref d) st2 of
                  None \<Rightarrow> None
                | Some d2 \<Rightarrow>
                    Some (set_listener (d2\<lparr>callbacks := processed d2, processed := [], lock := False\<rparr>) st2))))"

text \<open>The loop over the listeners; \<open>dl\<close> is \<open>delete_listener\<close>, newest first.\<close>

fun filter_loop ::
  "watch_env \<Rightarrow> nat \<Rightarrow> signal_msg \<Rightarrow> nat list \<Rightarrow> nat list \<Rightarrow> watch_state
     \<Rightarrow> (nat list \<times> watch_state) option"
where
  "filter_loop E conn msg [] dl st = Some (dl, st)"
| "filter_loop E conn msg (r # rs) dl st =
     (case find_listener r st of
        None \<Rightarrow> None
      | Some d \<Rightarrow>
          (case matches conn msg d of
             None \<Rightarrow> None
           | Some False \<Rightarrow> filter_loop E conn msg rs dl st
           | Some True \<Rightarrow>
               (case run_handler E msg d st of
                  None \<Rightarrow> None
                | Some st1 \<Rightarrow>
                    (case find_listener r st1 of
                       None \<Rightarrow> None
                     | Some d1 \<Rightarrow>
                         filter_loop E conn msg rs (if callbacks d1 = [] then r # dl else dl) st1))))"

text \<open>One round of the deletion loop.\<close>

definition delete_listener :: "watch_env \<Rightarrow> nat \<Rightarrow> watch_state \<Rightarrow> watch_state option" where
  "delete_listener E r st =
     (case find_listener r st of
        None \<Rightarrow> None
      | Some d \<Rightarrow>
          (if callbacks d \<noteq> [] then Some st
           else (case remove_match E d st of
                   None \<Rightarrow> None
                 | Some (_, st1) \<Rightarrow> filter_data_free E d (drop_listener r st1))))"

text \<open>
  The loop continues with \<open>delete_listener->next\<close>, not \<open>current->next\<close>: from the second
  listener on it takes the second again in every round.
\<close>

partial_function (option) delete_again :: "watch_env \<Rightarrow> nat \<Rightarrow> watch_state \<Rightarrow> watch_state option" where
  "delete_again E q st =
     (case delete_listener E q st of None \<Rightarrow> None | Some st' \<Rightarrow> delete_again E q st')"

definition delete_loop :: "watch_env \<Rightarrow> nat list \<Rightarrow> watch_state \<Rightarrow> watch_state option" where
  "delete_loop E dl st =
     (case dl of
        [] \<Rightarrow> Some st
      | [r] \<Rightarrow> delete_listener E r st
      | r # q # _ \<Rightarrow> Option.bind (delete_listener E r st) (delete_again E q))"

definition message_filter ::
  "watch_env \<Rightarrow> nat \<Rightarrow> bool \<Rightarrow> signal_msg \<Rightarrow> watch_state \<Rightarrow> watch_state option"
where
  "message_filter E conn is_signal msg st =
     (if \<not> is_signal then Some st
      else if sig_sender msg = None then Some st
      else (case filter_loop E conn msg (map fd_ref (listeners st)) [] st of
              None \<Rightarrow> None
            | Some (dl, st1) \<Rightarrow> delete_loop E dl st1))"

section \<open>The owner of a name\<close>

text \<open>\<open>service_data_free\<close> also clears the pointer its callback has to it.\<close>

definition clear_cb_data :: "32 word \<Rightarrow> filter_callback \<Rightarrow> filter_callback" where
  "clear_cb_data wid cb = (if cb_id cb = wid then cb\<lparr>cb_data := None\<rparr> else cb)"

definition set_cb_data :: "32 word \<Rightarrow> nat \<Rightarrow> filter_callback \<Rightarrow> filter_callback" where
  "set_cb_data wid s cb = (if cb_id cb = wid then cb\<lparr>cb_data := Some s\<rparr> else cb)"

definition on_callbacks :: "(filter_callback \<Rightarrow> filter_callback) \<Rightarrow> watch_state \<Rightarrow> watch_state" where
  "on_callbacks f st =
     st\<lparr>listeners := map (\<lambda>d. d\<lparr>callbacks := map f (callbacks d), processed := map f (processed d)\<rparr>)
          (listeners st)\<rparr>"

definition service_data_free :: "nat \<Rightarrow> watch_state \<Rightarrow> watch_state option" where
  "service_data_free s st =
     (case services st s of
        None \<Rightarrow> None
      | Some sd \<Rightarrow>
          Some (on_callbacks (clear_cb_data (sd_callback sd))
                 (st\<lparr>services := (services st)(s := None)\<rparr>)))"

definition find_cb :: "32 word \<Rightarrow> watch_state \<Rightarrow> filter_callback option" where
  "find_cb wid st =
     find (\<lambda>cb. cb_id cb = wid) (concat (map (\<lambda>d. callbacks d @ processed d) (listeners st)))"

text \<open>
  \<open>update_service\<close> first puts the owner it was given into the cache. Where that owner is a
  cached string, the first listener of the name is the one it belongs to, whose string is
  freed before the owner is copied, or else it belonged to a listener freed meanwhile: either
  way the copy reads freed memory, unless no listener has the name any more.
\<close>

definition update_service :: "nat \<Rightarrow> watch_state \<Rightarrow> watch_state option" where
  "update_service s st =
     (case services st s of
        None \<Rightarrow> None
      | Some sd \<Rightarrow>
          (let st1 = (case sd_owner sd of
                        NoOwner \<Rightarrow> None
                      | ReplyOwner owner \<Rightarrow> Some (update_name_cache (sd_name sd) owner st)
                      | ListenerOwner r \<Rightarrow>
                          (if check_name_cache (sd_name sd) st = None then Some st else None))
           in (case (Option.bind st1 (service_data_free s), find_cb (sd_callback sd) st) of
                 (Some st2, Some cb) \<Rightarrow>
                   Some (call_client (conn_func cb) ConnCalled (cb_user_data cb) st2)
               | _ \<Rightarrow> None)))"

text \<open>The reply to \<open>GetNameOwner\<close>: an owner, or an error or a reply of another type.\<close>

definition service_reply :: "string option \<Rightarrow> nat \<Rightarrow> watch_state \<Rightarrow> watch_state option" where
  "service_reply reply s st =
     (case reply of
        None \<Rightarrow> service_data_free s st
      | Some owner \<Rightarrow>
          (case services st s of
             None \<Rightarrow> None
           | Some sd \<Rightarrow>
               update_service s (st\<lparr>services := (services st)(s := Some (sd\<lparr>sd_owner := ReplyOwner owner\<rparr>))\<rparr>)))"

text \<open>
  \<open>check_service\<close>. Where the call fails, the data is freed but the callback keeps its
  pointer to it.
\<close>

definition check_service :: "watch_env \<Rightarrow> nat \<Rightarrow> string \<Rightarrow> 32 word \<Rightarrow> watch_state \<Rightarrow> watch_state" where
  "check_service E conn name wid st =
     (let s = next_service st;
          owner = (case check_name_cache name st of
                     None \<Rightarrow> NoOwner
                   | Some d \<Rightarrow> (if fd_owner d = None then NoOwner else ListenerOwner (fd_ref d)));
          sd = \<lparr>sd_conn = conn, sd_name = name, sd_owner = owner, sd_call = False,
                sd_idle = False, sd_callback = wid\<rparr>;
          st1 = on_callbacks (set_cb_data wid s) (st\<lparr>next_service := Suc s\<rparr>)
      in if owner \<noteq> NoOwner
         then st1\<lparr>services := (services st1)(s := Some (sd\<lparr>sd_idle := True\<rparr>))\<rparr>
         else if owner_call_fails E then st1
         else st1\<lparr>services := (services st1)(s := Some (sd\<lparr>sd_call := True\<rparr>))\<rparr>)"

section \<open>Adding watches\<close>

abbreviation (input) dbus_interface :: string where "dbus_interface \<equiv> ''org.freedesktop.DBus''"

definition g_dbus_add_service_watch ::
  "watch_env \<Rightarrow> nat \<Rightarrow> string option \<Rightarrow> client_fn option \<Rightarrow> client_fn option \<Rightarrow> nat
     \<Rightarrow> client_fn option \<Rightarrow> watch_state \<Rightarrow> (32 word \<times> watch_state) option"
where
  "g_dbus_add_service_watch E conn name connect disconnect user_data destroy st =
     (case name of
        None \<Rightarrow> Some (0, st)
      | Some n \<Rightarrow>
          (case filter_data_get E conn ServiceFilter None None (Some dbus_interface)
                  (Some ''NameOwnerChanged'') (Some n) st of
             None \<Rightarrow> None
           | Some (None, st1) \<Rightarrow> Some (0, st1)
           | Some (Some r, st1) \<Rightarrow>
               (case filter_data_add_callback r connect disconnect None destroy user_data st1 of
                  None \<Rightarrow> None
                | Some (wid, st2) \<Rightarrow>
                    Some (wid, if connect = None then st2 else check_service E conn n wid st2))))"

definition g_dbus_add_disconnect_watch ::
  "watch_env \<Rightarrow> nat \<Rightarrow> string option \<Rightarrow> client_fn option \<Rightarrow> nat \<Rightarrow> client_fn option
     \<Rightarrow> watch_state \<Rightarrow> (32 word \<times> watch_state) option"
where
  "g_dbus_add_disconnect_watch E conn name f user_data destroy st =
     g_dbus_add_service_watch E conn name None f user_data destroy st"

text \<open>The common end of the signal and the properties watch: the owner of a name is watched.\<close>

definition watch_name :: "watch_env \<Rightarrow> nat \<Rightarrow> nat \<Rightarrow> watch_state \<Rightarrow> watch_state option" where
  "watch_name E conn r st =
     (case find_listener r st of
        None \<Rightarrow> None
      | Some d \<Rightarrow>
          (if fd_name d \<noteq> None \<and> name_watch d = 0
           then (case g_dbus_add_service_watch E conn (fd_name d) None None 0 None st of
                   None \<Rightarrow> None
                 | Some (w, st1) \<Rightarrow>
                     (case find_listener r st1 of
                        None \<Rightarrow> None
                      | Some d1 \<Rightarrow> Some (set_listener (d1\<lparr>name_watch := w\<rparr>) st1)))
           else Some st))"

definition g_dbus_add_signal_watch ::
  "watch_env \<Rightarrow> nat \<Rightarrow> string option \<Rightarrow> string option \<Rightarrow> string option \<Rightarrow> string option
     \<Rightarrow> client_fn option \<Rightarrow> nat \<Rightarrow> client_fn option \<Rightarrow> watch_state \<Rightarrow> (32 word \<times> watch_state) option"
where
  "g_dbus_add_signal_watch E conn sender path interface member f user_data destroy st =
     (case filter_data_get E conn SignalFilter sender path interface member None st of
        None \<Rightarrow> None
      | Some (None, st1) \<Rightarrow> Some (0, st1)
      | Some (Some r, st1) \<Rightarrow>
          (case filter_data_add_callback r None None f destroy user_data st1 of
             None \<Rightarrow> None
           | Some (wid, st2) \<Rightarrow> map_option (\<lambda>st3. (wid, st3)) (watch_name E conn r st2)))"

definition g_dbus_add_properties_watch ::
  "watch_env \<Rightarrow> nat \<Rightarrow> string option \<Rightarrow> string option \<Rightarrow> string option
     \<Rightarrow> client_fn option \<Rightarrow> nat \<Rightarrow> client_fn option \<Rightarrow> watch_state \<Rightarrow> (32 word \<times> watch_state) option"
where
  "g_dbus_add_properties_watch E conn sender path interface f user_data destroy st =
     (case filter_data_get E conn SignalFilter sender path
             (Some ''org.freedesktop.DBus.Properties'') (Some ''PropertiesChanged'') interface st of
        None \<Rightarrow> None
      | Some (None, st1) \<Rightarrow> Some (0, st1)
      | Some (Some r, st1) \<Rightarrow>
          (case filter_data_add_callback r None None f destroy user_data st1 of
             None \<Rightarrow> None
           | Some (wid, st2) \<Rightarrow> map_option (\<lambda>st3. (wid, st3)) (watch_name E conn r st2)))"

definition watch_start :: watch_state where
  "watch_start =
     \<lparr>listener_id = 0, listeners = [], next_ref = 0, services = (\<lambda>_. None), next_service = 0,
      match_rules = [], filters = [], calls = []\<rparr>"

end
