(* ===== verification/Gdbus_Watch_Props.thy ===== *)
theory Gdbus_Watch_Props
  imports Gdbus_Watch "HOL-Library.Multiset"
begin

text \<open>
  Correctness of \<open>gdbus/watch.c\<close>: the match rules and their buffer, adding and removing
  watches, what a change of a name's owner calls, and the paths on which freed memory is
  used.
\<close>

section \<open>Match rules\<close>

lemma format_parts_fits:
  "length rule = off \<Longrightarrow> off + length (concat ps) < sz \<Longrightarrow>
     format_parts sz off rule ps = Some (rule @ concat ps)"
  by (induction sz off rule ps rule: format_parts.induct) auto

lemma format_parts_None:
  "format_parts sz off rule ps = None \<longleftrightarrow> ps \<noteq> [] \<and> sz < off + length (concat (butlast ps))"
proof (induction sz off rule ps rule: format_parts.induct)
  case (2 sz off rule p ps)
  show ?case
  proof (cases ps)
    case (Cons q qs)
    with 2 show ?thesis by (cases "sz < off") auto
  qed simp
qed simp

definition full_rule :: "filter_data \<Rightarrow> string" where
  "full_rule d = rule_head @ concat (rule_parts d)"

lemma format_rule_fits: "length (full_rule d) < sz \<Longrightarrow> format_rule d sz = Some (full_rule d)"
  unfolding format_rule_def full_rule_def by (subst format_parts_fits) auto

text \<open>
  C30. A match rule shorter than the 1024 bytes of the buffer is written in full. The code
  writes behind the buffer exactly when all parts but the last together are longer than it.
\<close>

theorem format_rule_bounds:
  "(length (full_rule d) < 1024 \<longrightarrow> format_rule d 1024 = Some (full_rule d))
   \<and> (format_rule d 1024 = None \<longleftrightarrow>
        1024 < length (concat (butlast (rule_head # rule_parts d))))"
  using format_rule_fits[of d 1024] format_parts_None[of 1024 0 "[]" "rule_head # rule_parts d"]
  by (simp add: format_rule_def)

theorem format_rule_bounds_witness:
  "format_rule \<lparr>fd_ref = 0, fd_connection = 0, handle_func = None, fd_name = None, fd_owner = None,
     fd_path = None, fd_interface = Some ''a.b'', fd_member = None, fd_argument = None, callbacks = [],
     processed = [], name_watch = 0, lock = False, registered = False\<rparr> 1024
   = Some (''type='' @ [CHR 0x27] @ ''signal'' @ [CHR 0x27] @ '',interface='' @ [CHR 0x27] @ ''a.b'' @ [CHR 0x27])"
proof -
  let ?d = "\<lparr>fd_ref = 0, fd_connection = 0, handle_func = None, fd_name = None, fd_owner = None,
     fd_path = None, fd_interface = Some ''a.b'', fd_member = None, fd_argument = None, callbacks = [],
     processed = [], name_watch = 0, lock = False, registered = False\<rparr> :: filter_data"
  have "full_rule ?d = ''type='' @ [CHR 0x27] @ ''signal'' @ [CHR 0x27] @ '',interface='' @ [CHR 0x27]
      @ ''a.b'' @ [CHR 0x27]"
    by (simp add: full_rule_def rule_head_def rule_parts_def rule_part_def)
  then show ?thesis using format_rule_bounds[of ?d] by simp
qed

section \<open>Well-formed listeners\<close>

definition all_callbacks :: "watch_state \<Rightarrow> filter_callback list" where
  "all_callbacks st = concat (map (\<lambda>d. callbacks d @ processed d) (listeners st))"

text \<open>
  Between two messages every listener has its own reference and a match rule, is unlocked
  and has a callback, and no two callbacks share an id.
\<close>

definition watch_wf :: "watch_state \<Rightarrow> bool" where
  "watch_wf st \<longleftrightarrow>
     distinct (map fd_ref (listeners st))
     \<and> (\<forall>d\<in>set (listeners st). fd_ref d < next_ref st \<and> registered d \<and> \<not> lock d
          \<and> callbacks d \<noteq> [] \<and> processed d = [])
     \<and> distinct (map cb_id (all_callbacks st))"

lemma find_listener_in:
  "distinct (map fd_ref (listeners st)) \<Longrightarrow> d \<in> set (listeners st) \<Longrightarrow>
     find_listener (fd_ref d) st = Some d"
proof -
  have "distinct (map fd_ref ds) \<Longrightarrow> d \<in> set ds \<Longrightarrow> find (\<lambda>e. fd_ref e = fd_ref d) ds = Some d"
    for ds :: "filter_data list"
    by (induction ds) (auto simp: image_iff)
  then show "distinct (map fd_ref (listeners st)) \<Longrightarrow> d \<in> set (listeners st) \<Longrightarrow>
     find_listener (fd_ref d) st = Some d"
    by (simp add: find_listener_def)
qed

lemma find_listener_None: "find_listener r st = None \<longleftrightarrow> r \<notin> fd_ref ` set (listeners st)"
  by (auto simp: find_listener_def find_None_iff)

lemma find_listenerD: "find_listener r st = Some d \<Longrightarrow> d \<in> set (listeners st) \<and> fd_ref d = r"
  unfolding find_listener_def by (auto dest: find_SomeD)

lemma set_listener_refs [simp]: "map fd_ref (listeners (set_listener d st)) = map fd_ref (listeners st)"
  by (simp add: set_listener_def)

lemma find_set_listener:
  "find_listener r (set_listener d st) =
     (if r = fd_ref d \<and> r \<in> fd_ref ` set (listeners st) then Some d else find_listener r st)"
proof -
  have "find (\<lambda>e. fd_ref e = r) (map (\<lambda>e. if fd_ref e = fd_ref d then d else e) ds) =
      (if r = fd_ref d \<and> r \<in> fd_ref ` set ds then Some d else find (\<lambda>e. fd_ref e = r) ds)"
    for ds by (induction ds) auto
  from this[of "listeners st"] show ?thesis
    by (cases "r = fd_ref d"; cases "r \<in> fd_ref ` set (listeners st)")
      (simp_all add: find_listener_def set_listener_def)
qed

lemma set_set_listener [simp]:
  "fd_ref d = fd_ref e \<Longrightarrow> set_listener d (set_listener e st) = set_listener d st"
  by (simp add: set_listener_def)

text \<open>Removing only ever drops listeners and callbacks.\<close>

definition shrinks :: "watch_state \<Rightarrow> watch_state \<Rightarrow> bool" where
  "shrinks st st' \<longleftrightarrow>
     (\<forall>d'\<in>set (listeners st'). \<exists>d\<in>set (listeners st).
        fd_ref d = fd_ref d' \<and> set (callbacks d') \<subseteq> set (callbacks d))"

lemma shrinks_listeners: "listeners st' = listeners st \<Longrightarrow> shrinks st st'"
  by (auto simp: shrinks_def)

lemma shrinks_trans: "shrinks s t \<Longrightarrow> shrinks t u \<Longrightarrow> shrinks s u"
  unfolding shrinks_def by (metis subset_trans)

lemma shrinks_drop: "listeners st' = listeners st \<Longrightarrow> shrinks st (drop_listener r st')"
  by (auto simp: shrinks_def drop_listener_def)

lemma detach_callback_shrinks:
  assumes "find_listener r st = Some d" and "detach_callback d cb st = Some (d1, st1)"
  shows "shrinks st st1"
proof -
  from assms(2) have d1: "d1 = d\<lparr>callbacks := remove1 cb (callbacks d), processed := remove1 cb (processed d)\<rparr>"
    and "listeners st1 = listeners (set_listener d1 st)"
    by (auto simp: detach_callback_def Let_def split: option.splits)
  moreover from find_listenerD[OF assms(1)] have "d \<in> set (listeners st)" by simp
  moreover have "set (remove1 cb (callbacks d)) \<subseteq> set (callbacks d)" by (rule set_remove1_subset)
  ultimately have "\<exists>d0\<in>set (listeners st). fd_ref d0 = fd_ref e \<and> set (callbacks e) \<subseteq> set (callbacks d0)"
    if "e \<in> set (listeners st1)" for e
    using that by (cases "fd_ref e = fd_ref d") (auto simp: set_listener_def split: if_splits)
  then show ?thesis by (simp add: shrinks_def)
qed

lemma remove_shrinks:
  "filter_data_remove_callback E r wid st = Some (b, st') \<Longrightarrow> shrinks st st'"
  "filter_data_free E d st = Some st'' \<Longrightarrow> shrinks st st''"
  "g_dbus_remove_watch E wid' st = Some (b', st''') \<Longrightarrow> shrinks st st'''"
proof (induction E r wid st and E d st and E wid' st
    arbitrary: b st' and st'' and b' st'''
    rule: filter_data_remove_callback_filter_data_free_g_dbus_remove_watch.induct)
  case (1 E r wid st)
  from 1(2) obtain d cb d1 st1 where d: "find_listener r st = Some d"
    and cb: "filter_data_find_callback d wid = Some cb" and d1: "detach_callback d cb st = Some (d1, st1)"
    by (subst (asm) filter_data_remove_callback.simps) (auto split: option.splits prod.splits)
  note s = detach_callback_shrinks[OF d d1]
  show ?case
  proof (cases "callbacks d1 \<noteq> [] \<or> lock d1")
    case True
    with 1(2) d cb d1 s show ?thesis by (subst (asm) filter_data_remove_callback.simps) simp
  next
    case False
    with 1(2) d cb d1 obtain q st2 where r: "release_match E d1 st1 = Some (q, st2)"
      by (subst (asm) filter_data_remove_callback.simps) (auto split: option.splits prod.splits)
    note l = release_match_listeners[OF r]
    show ?thesis
    proof (cases q)
      case True
      with False 1(2) d cb d1 r have "filter_data_free E d1 (drop_listener r st2) = Some st'"
        by (subst (asm) filter_data_remove_callback.simps) auto
      with 1(1)[OF d cb d1 refl False r refl] True have "shrinks (drop_listener r st2) st'" by simp
      with s shrinks_drop[OF l, of r] show ?thesis by (blast intro: shrinks_trans)
    next
      case q: False
      with False 1(2) d cb d1 r have "st' = st2"
        by (subst (asm) filter_data_remove_callback.simps) auto
      with s shrinks_listeners[OF l] show ?thesis by (blast intro: shrinks_trans)
    qed
  qed
next
  case (2 E d st)
  from 2(2) obtain b' where
    "g_dbus_remove_watch E (name_watch d) (remove_filter_if_last (fd_connection d) st) = Some (b', st'')"
    by (subst (asm) filter_data_free.simps) auto
  from 2(1)[OF this] show ?case
    by (rule shrinks_trans[rotated]) (simp add: shrinks_listeners)
next
  case (3 E wid st)
  from 3(2) show ?case
    by (subst (asm) g_dbus_remove_watch.simps)
      (auto split: option.splits if_splits intro: 3(1) simp: shrinks_listeners)
qed

lemma shrinks_find_None: "shrinks st st' \<Longrightarrow> find_listener r st = None \<Longrightarrow> find_listener r st' = None"
proof (rule ccontr)
  assume s: "shrinks st st'" and n: "find_listener r st = None" and "find_listener r st' \<noteq> None"
  then obtain d' where "d' \<in> set (listeners st')" "fd_ref d' = r" by (auto dest: find_listenerD)
  with s obtain d where "d \<in> set (listeners st)" "fd_ref d = r" unfolding shrinks_def by blast
  with n show False by (auto simp: find_listener_None)
qed

section \<open>Deleting listeners\<close>

lemma delete_listener_cases:
  assumes "delete_listener E r st = Some st'" and "find_listener r st = Some d" and "callbacks d = []"
  shows "find_listener r st' = None" and "shrinks st st'"
proof -
  from assms obtain b st1 where m: "remove_match E d st = Some (b, st1)"
    and f: "filter_data_free E d (drop_listener r st1) = Some st'"
    by (auto simp: delete_listener_def split: option.splits prod.splits)
  note s = remove_shrinks(2)[OF f]
  have "find_listener r (drop_listener r st1) = None"
    by (auto simp: find_listener_None drop_listener_def)
  with s show "find_listener r st' = None" by (rule shrinks_find_None)
  from shrinks_drop[OF remove_match_listeners[OF m], of r] s show "shrinks st st'"
    by (rule shrinks_trans)
qed

lemma delete_again_never: "delete_again E q st \<noteq> Some st'"
proof
  assume "delete_again E q st = Some st'"
  then show False
    by (rule delete_again.raw_induct[where P = "\<lambda>_ _ _ _. False", rotated])
      (auto split: option.splits)
qed

lemma deleted_again_is_freed:
  assumes "delete_listener E q st = Some st'" and "find_listener q st = Some d" and "callbacks d = []"
  shows "delete_listener E q st' = None"
  using delete_listener_cases(1)[OF assms] by (simp add: delete_listener_def)

text \<open>
  A signal that empties more than one listener breaks \<open>message_filter\<close>: its deletion
  loop advances with \<open>delete_listener->next\<close>, so it takes the second of these listeners
  again after it has freed it, and never returns properly.
\<close>

lemma two_deletions_use_after_free:
  assumes "sig_sender msg \<noteq> None"
    and "filter_loop E conn msg (map fd_ref (listeners st)) [] st = Some (dl, st1)" and "2 \<le> length dl"
  shows "message_filter E conn True msg st = None
    \<and> (\<forall>st2 st3 d. delete_listener E (dl ! 0) st1 = Some st2 \<longrightarrow> find_listener (dl ! 1) st2 = Some d
         \<longrightarrow> callbacks d = [] \<longrightarrow> delete_listener E (dl ! 1) st2 = Some st3
         \<longrightarrow> delete_listener E (dl ! 1) st3 = None)"
proof -
  obtain r q rest where dl: "dl = r # q # rest"
    using assms(3) by (metis Suc_le_length_iff numeral_2_eq_2)
  have "delete_again E q t = None" for t
    using delete_again_never by (metis option.exhaust)
  then have "Option.bind (delete_listener E r st1) (delete_again E q) = None"
    by (cases "delete_listener E r st1") simp_all
  then have "message_filter E conn True msg st = None"
    using assms(1,2) dl by (simp add: message_filter_def delete_loop_def)
  then show ?thesis using deleted_again_is_freed[of E "dl ! 1"] by blast
qed

section \<open>The owner of a name changes\<close>

lemma filter_loop_append:
  "filter_loop E conn msg (xs @ ys) dl st =
     (case filter_loop E conn msg xs dl st of
        None \<Rightarrow> None | Some (dl', st') \<Rightarrow> filter_loop E conn msg ys dl' st')"
  by (induction xs arbitrary: dl st) (auto split: option.split bool.split)

lemma filter_loop_skip:
  "\<forall>r\<in>set rs. \<exists>e. find_listener r st = Some e \<and> matches conn msg e = Some False \<Longrightarrow>
     filter_loop E conn msg rs dl st = Some (dl, st)"
  by (induction rs) auto

lemma frame_calls [simp]:
  "listeners (st\<lparr>calls := cs\<rparr>) = listeners st" "find_listener r (st\<lparr>calls := cs\<rparr>) = find_listener r st"
  "set_listener d (st\<lparr>calls := cs\<rparr>) = (set_listener d st)\<lparr>calls := cs\<rparr>"
  by (simp_all add: find_listener_def set_listener_def)

lemma set_listener_fields [simp]:
  "match_rules (set_listener d st) = match_rules st" "calls (set_listener d st) = calls st"
  "filters (set_listener d st) = filters st" "services (set_listener d st) = services st"
  by (simp_all add: set_listener_def)

lemma drop_set_listener:
  "listeners (drop_listener (fd_ref d) (set_listener d st)) = filter (\<lambda>e. fd_ref e \<noteq> fd_ref d) (listeners st)"
  by (induction "listeners st" arbitrary: st rule: list.induct)
    (auto simp: drop_listener_def set_listener_def filter_map comp_def intro!: map_idI)

text \<open>
  A signal that matches one listener only, whose handler leaves that listener without a
  processed callback: the listener is removed, and nothing else.
\<close>

lemma emptied_listener:
  assumes split: "listeners st = pre @ d # post" and dist: "distinct (map fd_ref (listeners st))"
    and match: "matches conn msg d = Some True"
    and others: "\<forall>e\<in>set (pre @ post). matches conn msg e = Some False"
    and h: "handle_func d = Some ServiceFilter" and sender: "sig_sender msg \<noteq> None"
    and run: "service_filter E msg (fd_ref d) (set_listener (set_lock True d) st)
                = Some ((set_listener d2 st)\<lparr>calls := cs\<rparr>)"
    and d2: "fd_ref d2 = fd_ref d" "processed d2 = []" "name_watch d2 = 0"
    and rule: "format_rule (d2\<lparr>callbacks := [], processed := [], lock := False\<rparr>) 1024 = Some rule"
  shows "\<exists>st'. message_filter E conn True msg st = Some st' \<and> listeners st' = pre @ post \<and> calls st' = cs"
proof -
  let ?r = "fd_ref d" and ?d = "d2\<lparr>callbacks := [], processed := [], lock := False\<rparr>"
  let ?st1 = "(set_listener ?d st)\<lparr>calls := cs\<rparr>"
  have find: "find_listener (fd_ref e) st = Some e" if "e \<in> set (listeners st)" for e
    using find_listener_in[OF dist that] .
  have in_refs: "?r \<in> fd_ref ` set (listeners st)" by (simp add: split)
  have handler: "run_handler E msg d st = Some ?st1"
    using run h d2 in_refs
    by (simp add: run_handler_def find_set_listener Let_def set_lock_def)
  have find1: "find_listener ?r ?st1 = Some ?d" using d2(1) in_refs by (simp add: find_set_listener)
  have skip0: "filter_loop E conn msg (map fd_ref pre) [] st = Some ([], st)"
    by (rule filter_loop_skip) (use others split find in \<open>auto\<close>)
  have "\<exists>e. find_listener r ?st1 = Some e \<and> matches conn msg e = Some False"
    if "r \<in> set (map fd_ref post)" for r
  proof -
    from that obtain e where e: "e \<in> set post" "r = fd_ref e" by auto
    moreover have "r \<noteq> ?r"
    proof -
      have "?r \<notin> set (map fd_ref post)" using dist split by simp
      with that show ?thesis by metis
    qed
    ultimately show ?thesis using find[of e] others d2(1) split by (auto simp: find_set_listener)
  qed
  then have skip1: "filter_loop E conn msg (map fd_ref post) [?r] ?st1 = Some ([?r], ?st1)"
    by (intro filter_loop_skip) blast
  have "filter_loop E conn msg (map fd_ref (listeners st)) [] st = Some ([?r], ?st1)"
    using skip0 skip1 match handler find1 find[of d]
    by (simp add: split filter_loop_append)
  moreover obtain b st2 where m: "remove_match E ?d ?st1 = Some (b, st2)"
    "listeners st2 = listeners ?st1" "calls st2 = cs"
    using rule by (cases "remove_match_fails E rule") (auto simp: remove_match_def)
  moreover have "?r \<notin> set (map fd_ref pre)" "?r \<notin> set (map fd_ref post)"
    using dist split by simp_all
  then have "filter (\<lambda>e. fd_ref e \<noteq> ?r) pre = pre" "filter (\<lambda>e. fd_ref e \<noteq> ?r) post = post"
    by (metis (mono_tags, lifting) filter_True imageI set_map)+
  then have "filter (\<lambda>e. fd_ref e \<noteq> ?r) (pre @ d # post) = pre @ post" by simp
  moreover have "drop_listener ?r st2 = st2\<lparr>listeners := filter (\<lambda>e. fd_ref e \<noteq> ?r) (listeners st)\<rparr>"
    using drop_set_listener[of ?d st] d2(1) m(2) by (simp add: drop_listener_def)
  ultimately show ?thesis
    using sender find1 d2 split
    by (simp add: message_filter_def delete_loop_def delete_listener_def filter_data_free.simps
        g_dbus_remove_watch.simps remove_filter_if_last_def)
qed

text \<open>What one watch of a name that lost its owner does, and the watches of a listener.\<close>

definition gone_calls :: "filter_callback \<Rightarrow> client_call list" where
  "gone_calls cb =
     (case disc_func cb of None \<Rightarrow> [] | Some f \<Rightarrow> [DiscCalled f (cb_user_data cb)])
     @ (case destroy_func cb of None \<Rightarrow> [] | Some f \<Rightarrow> [DestroyCalled f (cb_user_data cb)])"

definition disconnect_watch :: "filter_callback \<Rightarrow> bool" where
  "disconnect_watch cb \<longleftrightarrow> conn_func cb = None \<and> cb_data cb = None"

lemma remove_first_callback:
  assumes "find_listener r st = Some d" and "callbacks d = cb # cbs" and "processed d = []"
    and "lock d" and "cb_data cb = None"
  shows "filter_data_remove_callback E r (cb_id cb) st =
    Some (True, call_client (destroy_func cb) DestroyCalled (cb_user_data cb)
      (set_listener (d\<lparr>callbacks := cbs\<rparr>) st))"
proof -
  have eq: "d\<lparr>callbacks := cbs, processed := []\<rparr> = d\<lparr>callbacks := cbs\<rparr>"
    using assms(3) by (cases d) simp
  show ?thesis using assms
    by (subst filter_data_remove_callback.simps)
      (simp add: filter_data_find_callback_def detach_callback_def cancel_service_def Let_def eq)
qed

lemma call_client_eq:
  "call_client f h u st = st\<lparr>calls := calls st @ (case f of None \<Rightarrow> [] | Some g \<Rightarrow> [h g u])\<rparr>"
  by (simp add: call_client_def split: option.split)

lemma set_listener_id:
  assumes "distinct (map fd_ref (listeners st))" and "find_listener r st = Some d"
  shows "set_listener d st = st"
proof -
  have "e = d" if "e \<in> set (listeners st)" "fd_ref e = fd_ref d" for e
  proof -
    from that(2) find_listenerD[OF assms(2)] have "fd_ref e = r" by metis
    with find_listener_in[OF assms(1) that(1)] assms(2) show ?thesis by simp
  qed
  then have "map (\<lambda>e. if fd_ref e = fd_ref d then d else e) (listeners st) = listeners st"
    by (intro map_idI) auto
  then show ?thesis by (simp add: set_listener_def)
qed

lemma service_loop_gone:
  assumes "\<forall>cb\<in>set cbs. disconnect_watch cb"
  shows "find_listener r st = Some d \<Longrightarrow> callbacks d = cbs \<Longrightarrow> processed d = [] \<Longrightarrow> lock d \<Longrightarrow>
    distinct (map fd_ref (listeners st)) \<Longrightarrow>
    service_loop E r (CHR '':'' # a) [] cbs st =
      Some ((set_listener (d\<lparr>callbacks := []\<rparr>) st)\<lparr>calls := calls st @ concat (map gone_calls cbs)\<rparr>)"
  using assms
proof (induction cbs arbitrary: st d)
  case Nil
  then have "d\<lparr>callbacks := []\<rparr> = d" by (cases d) simp
  with set_listener_id[OF Nil(5,1)] show ?case by simp
next
  case (Cons cb cbs)
  let ?st = "call_client (disc_func cb) DiscCalled (cb_user_data cb) st"
  let ?d = "d\<lparr>callbacks := cbs\<rparr>"
  have find: "find_listener r ?st = Some d" using Cons.prems by (simp add: call_client_eq)
  from Cons.prems have cb: "conn_func cb = None" "cb_data cb = None"
    by (simp_all add: disconnect_watch_def)
  let ?st2 = "call_client (destroy_func cb) DestroyCalled (cb_user_data cb) (set_listener ?d ?st)"
  have r: "r \<in> fd_ref ` set (listeners st)" "fd_ref d = r"
    using find_listenerD[OF Cons.prems(1)] by auto
  then have "find_listener r ?st2 = Some ?d" by (simp add: call_client_eq find_set_listener)
  moreover have "distinct (map fd_ref (listeners ?st2))"
    using Cons.prems(5) by (simp add: call_client_eq)
  ultimately show ?case
    using Cons.IH[of ?st2 ?d] Cons.prems
      remove_first_callback[OF find Cons.prems(2,3,4) cb(2), of E] cb
    by (simp add: call_client_eq gone_calls_def)
qed

text \<open>
  C25. A unique bus name disappears. If all its watches are disconnect watches (the only ones pold
  adds for unique names) and the signal matches no other listener, every watch of it is called
  exactly once, in the order the watches were added, then destroyed; its listener is removed, and
  all other listeners, those of well-known names included, stay as they are. A watch that also
  asks for the name to come back would keep its listener; and with a second listener that matches
  and is emptied by the same signal the loop is undefined (\<open>two_deletions_use_after_free\<close>).
\<close>

theorem unique_name_gone:
  assumes "distinct (map fd_ref (listeners st))" and "listeners st = pre @ d # post"
    and "matches conn msg d = Some True"
    and "\<forall>e\<in>set (pre @ post). matches conn msg e = Some False"
    and "handle_func d = Some ServiceFilter" and "fd_argument d = Some (CHR '':'' # n)"
    and "processed d = []" and "name_watch d = 0" and "\<forall>cb\<in>set (callbacks d). disconnect_watch cb"
    and "length (full_rule d) < 1024"
    and "sig_sender msg \<noteq> None" and "sig_args msg = [Some (CHR '':'' # n), Some old, Some []]"
    and "\<forall>e\<in>set (listeners st). fd_name e \<noteq> Some (CHR '':'' # n)"
  shows "\<exists>st'. message_filter E conn True msg st = Some st' \<and> listeners st' = pre @ post
    \<and> calls st' = calls st @ concat (map gone_calls (callbacks d))"
proof -
  let ?d = "set_lock True d" and ?st = "set_listener (set_lock True d) st"
  have in_refs: "fd_ref d \<in> fd_ref ` set (listeners st)" using assms(2) by simp
  then have find: "find_listener (fd_ref d) ?st = Some ?d"
    by (simp add: find_set_listener set_lock_def)
  have "map (\<lambda>e. if fd_name e = Some (CHR '':'' # n) then e\<lparr>fd_owner := Some y\<rparr> else e) (listeners ?st)
      = listeners ?st" for y
    using assms(2,13) by (intro map_idI) (auto simp: set_listener_def set_lock_def split: if_splits)
  then have cache: "update_name_cache (CHR '':'' # n) y ?st = ?st" for y by (simp add: update_name_cache_def)
  have "service_loop E (fd_ref d) (CHR '':'' # n) [] (callbacks d) ?st =
    Some ((set_listener (?d\<lparr>callbacks := []\<rparr>) ?st)\<lparr>calls := calls ?st @ concat (map gone_calls (callbacks d))\<rparr>)"
    by (rule service_loop_gone) (use assms find in \<open>simp_all add: set_lock_def\<close>)
  with assms find have "service_filter E msg (fd_ref d) ?st =
      Some ((set_listener (?d\<lparr>callbacks := []\<rparr>) st)\<lparr>calls := calls st @ concat (map gone_calls (callbacks d))\<rparr>)"
    by (simp add: service_filter_def cache) (simp add: set_lock_def)
  moreover have "full_rule (?d\<lparr>callbacks := [], processed := [], lock := False\<rparr>) = full_rule d"
    by (simp add: full_rule_def rule_parts_def set_lock_def split: option.split)
  with assms(10) have "format_rule (?d\<lparr>callbacks := [], processed := [], lock := False\<rparr>) 1024
      = Some (full_rule d)"
    using format_rule_fits[of "?d\<lparr>callbacks := [], processed := [], lock := False\<rparr>" 1024] by simp
  ultimately show ?thesis
    using emptied_listener[OF assms(2,1,3,4,5,11), where E = E and ?d2.0 = "?d\<lparr>callbacks := []\<rparr>"
        and cs = "calls st @ concat (map gone_calls (callbacks d))" and rule = "full_rule d"] assms(7,8)
    by (simp add: set_lock_def)
qed

text \<open>
  A \<open>NameOwnerChanged\<close> signal with the name as its only argument silently drops all
  watches of that name: the handler returns before it has moved the callbacks to the
  processed list, and \<open>message_filter\<close> takes that list for the remaining ones. The rule
  does not restrict the sender, so any client of the bus can send such a signal.
\<close>

lemma malformed_signal_drops_watches:
  assumes "distinct (map fd_ref (listeners st))" and "listeners st = pre @ d # post"
    and "matches conn msg d = Some True"
    and "\<forall>e\<in>set (pre @ post). matches conn msg e = Some False"
    and "handle_func d = Some ServiceFilter"
    and "processed d = []" and "name_watch d = 0" and "length (full_rule d) < 1024"
    and "sig_sender msg \<noteq> None" and "sig_args msg = [Some n]"
  shows "\<exists>st'. message_filter E conn True msg st = Some st' \<and> listeners st' = pre @ post
    \<and> calls st' = calls st"
proof -
  let ?d = "set_lock True d"
  have "service_filter E msg (fd_ref d) (set_listener ?d st) = Some ((set_listener ?d st)\<lparr>calls := calls st\<rparr>)"
    using assms(10) by (simp add: service_filter_def set_listener_def)
  moreover have "full_rule (?d\<lparr>callbacks := [], processed := [], lock := False\<rparr>) = full_rule d"
    by (simp add: full_rule_def rule_parts_def set_lock_def split: option.split)
  with assms(8) have "format_rule (?d\<lparr>callbacks := [], processed := [], lock := False\<rparr>) 1024
      = Some (full_rule d)"
    using format_rule_fits[of "?d\<lparr>callbacks := [], processed := [], lock := False\<rparr>" 1024] by simp
  ultimately show ?thesis
    using emptied_listener[OF assms(2,1,3,4,5,9), where E = E and ?d2.0 = ?d
        and cs = "calls st" and rule = "full_rule d"] assms(6,7)
    by (simp add: set_lock_def)
qed

text \<open>A connection with one disconnect watch of \<open>:1.9\<close>, for the witnesses.\<close>

definition demo_listener :: filter_data where
  "demo_listener =
     \<lparr>fd_ref = 0, fd_connection = 1, handle_func = Some ServiceFilter, fd_name = None, fd_owner = None,
      fd_path = None, fd_interface = Some dbus_interface, fd_member = Some ''NameOwnerChanged'',
      fd_argument = Some '':1.9'',
      callbacks = [\<lparr>conn_func = None, disc_func = Some 4, signal_func = None, destroy_func = None,
                    cb_data = None, cb_user_data = 3, cb_id = 1\<rparr>],
      processed = [], name_watch = 0, lock = False, registered = True\<rparr>"

definition demo_watches :: watch_state where
  "demo_watches = watch_start\<lparr>listener_id := 1, listeners := [demo_listener], next_ref := 1\<rparr>"

definition demo_watch_env :: watch_env where
  "demo_watch_env = \<lparr>add_filter_fails = False, add_match_fails = (\<lambda>_. False),
     remove_match_fails = (\<lambda>_. False), signal_keeps = (\<lambda>_. True), owner_call_fails = False\<rparr>"

definition demo_signal :: "string option list \<Rightarrow> signal_msg" where
  "demo_signal args = \<lparr>sig_sender = Some dbus_interface, sig_path = Some ''/'',
     sig_interface = Some dbus_interface, sig_member = Some ''NameOwnerChanged'', sig_args = args\<rparr>"

lemma demo_listener_facts:
  "distinct (map fd_ref (listeners demo_watches))" "listeners demo_watches = [] @ demo_listener # []"
  "handle_func demo_listener = Some ServiceFilter" "fd_argument demo_listener = Some (CHR '':'' # ''1.9'')"
  "processed demo_listener = []" "name_watch demo_listener = 0"
  "\<forall>cb\<in>set (callbacks demo_listener). disconnect_watch cb"
  "\<forall>e\<in>set (listeners demo_watches). fd_name e \<noteq> Some (CHR '':'' # ''1.9'')" "calls demo_watches = []"
  by (simp_all add: demo_watches_def demo_listener_def disconnect_watch_def watch_start_def)

lemma demo_listener_rule: "length (full_rule demo_listener) < 1024" by code_simp

lemma demo_signal_facts:
  "sig_sender (demo_signal args) \<noteq> None" "sig_args (demo_signal args) = args"
  by (simp_all add: demo_signal_def)

lemma demo_matches: "matches 1 (demo_signal (Some '':1.9'' # args)) demo_listener = Some True"
  by (simp add: matches_def demo_listener_def demo_signal_def field_matches_def first_string_def)

theorem unique_name_gone_witness:
  "\<exists>st'. message_filter demo_watch_env 1 True (demo_signal [Some '':1.9'', Some '':1.9'', Some []])
      demo_watches = Some st' \<and> listeners st' = [] \<and> calls st' = [DiscCalled 4 3]"
  using unique_name_gone[OF demo_listener_facts(1,2) demo_matches _ demo_listener_facts(3-7)
      demo_listener_rule demo_signal_facts(1) _ demo_listener_facts(8), of _ "'':1.9''"]
    demo_listener_facts(9)
  by (simp add: demo_signal_facts(2)) (simp add: demo_listener_def gone_calls_def)

definition two_watches :: watch_state where
  "two_watches = watch_start\<lparr>listeners := [demo_listener, demo_listener\<lparr>fd_ref := 1, fd_argument := None,
     handle_func := Some SignalFilter, callbacks := [\<lparr>conn_func = None, disc_func = None,
       signal_func = Some 7, destroy_func = None, cb_data = None, cb_user_data = 3, cb_id = 2\<rparr>]\<rparr>]\<rparr>"

section \<open>Adding and removing\<close>

text \<open>The callback a disconnect watch creates.\<close>

definition new_callback :: "client_fn option \<Rightarrow> client_fn option \<Rightarrow> nat \<Rightarrow> 32 word \<Rightarrow> filter_callback" where
  "new_callback f destroy u w =
     \<lparr>conn_func = None, disc_func = f, signal_func = None, destroy_func = destroy,
      cb_data = None, cb_user_data = u, cb_id = w\<rparr>"

lemma find_only:
  "find P xs = Some x \<Longrightarrow> (\<And>y. y \<in> set xs \<Longrightarrow> Q y \<longleftrightarrow> P y) \<Longrightarrow> find Q xs = Some x"
  by (induction xs) (auto split: if_splits)

lemma find_snoc: "find P xs = None \<Longrightarrow> find P (xs @ [x]) = (if P x then Some x else None)"
  by (induction xs) (auto split: if_splits)

lemma fresh_callback: "w \<notin> cb_id ` set (all_callbacks st) \<Longrightarrow> d \<in> set (listeners st) \<Longrightarrow>
    filter_data_find_callback d w = None"
  by (auto simp: filter_data_find_callback_def all_callbacks_def find_None_iff split: option.split)

text \<open>Removing a callback that was just appended to an unlocked listener that had others.\<close>

lemma remove_appended:
  assumes dist: "distinct (map fd_ref (listeners st))" and d: "d \<in> set (listeners st)"
    and fresh: "w \<notin> cb_id ` set (all_callbacks st)" and w: "w \<noteq> 0"
    and d_ok: "callbacks d \<noteq> []" "processed d = []"
    and cb: "cb_id cb = w" "cb_data cb = None"
  shows "\<exists>st2. g_dbus_remove_watch E w (set_listener (d\<lparr>callbacks := callbacks d @ [cb]\<rparr>) st)
      = Some (True, st2) \<and> listeners st2 = listeners st
      \<and> match_rules st2 = match_rules st \<and> filters st2 = filters st"
proof -
  let ?d = "d\<lparr>callbacks := callbacks d @ [cb]\<rparr>" and ?st = "set_listener (d\<lparr>callbacks := callbacks d @ [cb]\<rparr>) st"
  have ids: "cb_id x \<noteq> w" if "x \<in> set (callbacks d)" for x
    using fresh d that by (auto simp: all_callbacks_def)
  have none: "filter_data_find_callback e w = None" if "e \<in> set (listeners st)" for e
    using fresh_callback[OF fresh that] .
  have found: "filter_data_find_callback ?d w = Some cb"
  proof -
    have "find (\<lambda>cb. cb_id cb = w) (callbacks d) = None" using ids by (auto simp: find_None_iff)
    then have "find (\<lambda>cb. cb_id cb = w) (callbacks d @ [cb]) = Some cb"
      using cb(1) by (simp add: find_snoc)
    then show ?thesis by (simp add: filter_data_find_callback_def)
  qed
  have find: "find_listener (fd_ref d) ?st = Some ?d"
    using d by (simp add: find_set_listener)
  have "find (\<lambda>e. fd_ref e = fd_ref d) (listeners ?st) = Some ?d"
    using find by (simp add: find_listener_def)
  moreover have "filter_data_find_callback e w \<noteq> None \<longleftrightarrow> fd_ref e = fd_ref d"
    if "e \<in> set (listeners ?st)" for e
    using that none found by (auto simp: set_listener_def)
  ultimately have sel: "find (\<lambda>e. filter_data_find_callback e w \<noteq> None) (listeners ?st) = Some ?d"
    by (rule find_only)
  have rem: "remove1 cb (callbacks d @ [cb]) = callbacks d" "remove1 cb (processed d) = []"
    using ids cb(1) d_ok by (auto simp: remove1_append)
  have same: "d\<lparr>callbacks := callbacks d, processed := []\<rparr> = d" using d_ok(2) by (cases d) simp
  have "set_listener d ?st = st"
    using set_listener_id[OF dist find_listener_in[OF dist d]] by simp
  then have "detach_callback ?d cb ?st =
      Some (d, call_client (destroy_func cb) DestroyCalled (cb_user_data cb) st)"
    using rem cb(2) same by (simp add: detach_callback_def cancel_service_def Let_def)
  then show ?thesis
    using w sel find found d_ok(1)
    by (subst g_dbus_remove_watch.simps)
      (simp add: filter_data_remove_callback.simps call_client_eq)
qed

lemma get_existing:
  assumes "filter_data_find_match st conn None None None (Some i) (Some m) (Some n) = Some d"
  shows "filter_data_get E conn h None None (Some i) (Some m) (Some n) st = Some (Some (fd_ref d), st)"
    and "d \<in> set (listeners st)"
proof -
  from assms have d: "d \<in> set (listeners st)" "fd_connection d = conn"
    unfolding filter_data_find_match_def by (auto dest: find_SomeD)
  then have "filter_data_find st conn \<noteq> None" by (auto simp: filter_data_find_def find_None_iff)
  then obtain y where "filter_data_find st conn = Some y" by blast
  with assms show "filter_data_get E conn h None None (Some i) (Some m) (Some n) st
      = Some (Some (fd_ref d), st)"
    by (simp add: filter_data_get_def Let_def)
  show "d \<in> set (listeners st)" by (fact d(1))
qed

text \<open>The listener a first disconnect watch of a name creates, and its rule.\<close>

definition new_listener :: "nat \<Rightarrow> nat \<Rightarrow> string \<Rightarrow> filter_data" where
  "new_listener r conn n =
     \<lparr>fd_ref = r, fd_connection = conn, handle_func = Some ServiceFilter, fd_name = None,
      fd_owner = None, fd_path = None, fd_interface = Some dbus_interface,
      fd_member = Some ''NameOwnerChanged'', fd_argument = Some n, callbacks = [], processed = [],
      name_watch = 0, lock = False, registered = True\<rparr>"

lemma new_listener_fields [simp]:
  "fd_ref (new_listener r conn n) = r" "fd_connection (new_listener r conn n) = conn"
  "callbacks (new_listener r conn n) = []" "processed (new_listener r conn n) = []"
  "\<not> lock (new_listener r conn n)" "registered (new_listener r conn n)"
  "name_watch (new_listener r conn n) = 0"
  by (simp_all add: new_listener_def)

lemma full_rule_cong:
  "fd_name d = fd_name e \<Longrightarrow> fd_owner d = fd_owner e \<Longrightarrow> fd_path d = fd_path e \<Longrightarrow>
     fd_interface d = fd_interface e \<Longrightarrow> fd_member d = fd_member e \<Longrightarrow> fd_argument d = fd_argument e \<Longrightarrow>
     full_rule d = full_rule e"
  by (simp add: full_rule_def rule_parts_def split: option.split)

lemma format_rule_cong:
  "full_rule d = full_rule e \<Longrightarrow> length (full_rule e) < 1024 \<Longrightarrow> format_rule d 1024 = Some (full_rule e)"
  using format_rule_fits[of d 1024] by simp

lemma get_new:
  assumes "filter_data_find_match st conn None None None (Some dbus_interface)
      (Some ''NameOwnerChanged'') (Some n) = None"
    and "\<not> add_filter_fails E" and "\<not> add_match_fails E (full_rule (new_listener r conn n))"
    and "length (full_rule (new_listener r conn n)) < 1024" and r: "r = next_ref st"
  shows "filter_data_get E conn ServiceFilter None None (Some dbus_interface)
      (Some ''NameOwnerChanged'') (Some n) st =
    Some (Some r, st\<lparr>filters := (if filter_data_find st conn = None then filters st @ [conn] else filters st),
       match_rules := match_rules st @ [(conn, full_rule (new_listener r conn n))],
       listeners := listeners st @ [new_listener r conn n], next_ref := Suc r\<rparr>)"
proof -
  let ?d = "(new_listener r conn n)\<lparr>handle_func := None, registered := False\<rparr>"
  have d: "\<lparr>fd_ref = next_ref st, fd_connection = conn, handle_func = None, fd_name = None,
      fd_owner = None, fd_path = None, fd_interface = Some dbus_interface,
      fd_member = Some ''NameOwnerChanged'', fd_argument = Some n, callbacks = [], processed = [],
      name_watch = 0, lock = False, registered = False\<rparr> = ?d"
    by (simp add: new_listener_def r)
  have "format_rule ?d 1024 = Some (full_rule (new_listener r conn n))"
    by (rule format_rule_cong[OF full_rule_cong assms(4)]) simp_all
  moreover have "?d\<lparr>handle_func := Some ServiceFilter, registered := True\<rparr> = new_listener r conn n"
    by (simp add: new_listener_def)
  moreover have "fd_connection ?d = conn" by (simp add: new_listener_def)
  ultimately have am: "add_match E ?d ServiceFilter t = Some (Some (new_listener r conn n),
      t\<lparr>match_rules := match_rules t @ [(conn, full_rule (new_listener r conn n))]\<rparr>)" for t
    using assms(3) by (simp add: add_match_def)
  from assms(1,2) r am d show ?thesis
    by (simp add: filter_data_get_def filter_data_find_match_def filter_data_find_def Let_def)
qed

text \<open>Removing the only callback of the listener that was appended last.\<close>

lemma remove_new:
  assumes ls: "listeners t = ls @ [(new_listener r conn n)\<lparr>callbacks := [cb]\<rparr>]"
    and refs: "\<forall>d\<in>set ls. fd_ref d \<noteq> r \<and> filter_data_find_callback d w = None"
    and cb: "cb_id cb = w" "\<forall>s. cb_data cb = Some s \<longrightarrow> services t s \<noteq> None" and w: "w \<noteq> 0"
    and len: "length (full_rule (new_listener r conn n)) < 1024"
    and ok: "\<forall>rule. \<not> remove_match_fails E rule"
  shows "\<exists>st2. g_dbus_remove_watch E w t = Some (True, st2) \<and> listeners st2 = ls
    \<and> match_rules st2 = remove1 (conn, full_rule (new_listener r conn n)) (match_rules t)
    \<and> filters st2 = (if find (\<lambda>d. fd_connection d = conn) ls = None
                     then remove1 conn (filters t) else filters t)"
proof -
  let ?new = "new_listener r conn n" and ?d = "(new_listener r conn n)\<lparr>callbacks := [cb]\<rparr>"
  have last: "find P (ls @ [x]) = (if P x then Some x else None)" if "\<forall>d\<in>set ls. \<not> P d"
    for P and x :: filter_data
    using that by (intro find_snoc) (simp add: find_None_iff)
  have found: "filter_data_find_callback ?d w = Some cb"
    by (simp add: filter_data_find_callback_def cb)
  have find: "find_listener r t = Some ?d"
    using refs by (simp add: find_listener_def ls last)
  have sel: "find (\<lambda>e. filter_data_find_callback e w \<noteq> None) (listeners t) = Some ?d"
    using refs found by (simp add: ls last)
  have new: "?new\<lparr>callbacks := [], processed := []\<rparr> = ?new" by (simp add: new_listener_def)
  have "map (\<lambda>e. if fd_ref e = r then ?new else e) ls = ls"
    using refs by (intro map_idI) auto
  then have t: "listeners (set_listener ?new t) = ls @ [?new]" "match_rules (set_listener ?new t) = match_rules t"
    "filters (set_listener ?new t) = filters t" "services (set_listener ?new t) = services t"
    by (simp_all add: set_listener_def ls)
  obtain t0 where t0: "cancel_service cb (set_listener ?new t) = Some t0" "listeners t0 = ls @ [?new]"
    "match_rules t0 = match_rules t" "filters t0 = filters t"
  proof (cases "cb_data cb")
    case None
    then show ?thesis using t by (intro that[of "set_listener ?new t"]) (simp_all add: cancel_service_def)
  next
    case (Some i)
    with cb(2) obtain sd where "services t i = Some sd" by blast
    then show ?thesis
      using t Some
      by (intro that[of "(set_listener ?new t)\<lparr>services := (services t)(i := None)\<rparr>"])
        (simp_all add: cancel_service_def)
  qed
  define t1 where "t1 = call_client (destroy_func cb) DestroyCalled (cb_user_data cb) t0"
  have t1: "listeners t1 = ls @ [?new]" "match_rules t1 = match_rules t" "filters t1 = filters t"
    using t0 by (simp_all add: t1_def call_client_eq)
  have detach: "detach_callback ?d cb t = Some (?new, t1)"
    using t0(1) by (simp add: detach_callback_def Let_def new t1_def)
  have fmt: "format_rule ?new 1024 = Some (full_rule ?new)" by (rule format_rule_fits[OF len])
  let ?t2 = "t1\<lparr>match_rules := remove1 (conn, full_rule ?new) (match_rules t)\<rparr>"
  have rel: "release_match E ?new t1 = Some (True, ?t2)"
    using ok t1 fmt by (simp add: release_match_def remove_match_def)
  have "filter (\<lambda>d. fd_ref d \<noteq> r) ls = ls" using refs by (simp add: filter_id_conv)
  then have drop: "listeners (drop_listener r ?t2) = ls"
    "match_rules (drop_listener r ?t2) = remove1 (conn, full_rule ?new) (match_rules t)"
    "filters (drop_listener r ?t2) = filters t"
    using t1 by (simp_all add: drop_listener_def)
  show ?thesis
    using w sel find found detach rel drop
    by (subst g_dbus_remove_watch.simps)
      (simp add: filter_data_remove_callback.simps filter_data_free.simps
        g_dbus_remove_watch.simps[of E 0] remove_filter_if_last_def filter_data_find_def)
qed

lemma add_disconnect_watch_eq:
  assumes "filter_data_get E conn ServiceFilter None None (Some dbus_interface)
      (Some ''NameOwnerChanged'') (Some n) st = Some (Some r, st1)"
    and "find_listener r st1 = Some d" and "\<not> lock d"
  shows "g_dbus_add_disconnect_watch E conn (Some n) f u destroy st =
    Some (listener_id st1 + 1, set_listener
      (d\<lparr>callbacks := callbacks d @ [new_callback f destroy u (listener_id st1 + 1)]\<rparr>)
      (st1\<lparr>listener_id := listener_id st1 + 1\<rparr>))"
  using assms
  by (simp add: g_dbus_add_disconnect_watch_def g_dbus_add_service_watch_def
      filter_data_add_callback_def new_callback_def Let_def)


lemma add_remove_existing:
  assumes dist: "distinct (map fd_ref (listeners st))"
    and some: "filter_data_find_match st conn None None None (Some dbus_interface)
      (Some ''NameOwnerChanged'') (Some n) = Some d"
    and d: "callbacks d \<noteq> []" "processed d = []" "\<not> lock d"
    and id_ok: "listener_id st + 1 \<noteq> 0" "listener_id st + 1 \<notin> cb_id ` set (all_callbacks st)"
  shows "\<exists>st1 st2. g_dbus_add_disconnect_watch E conn (Some n) f u destroy st
      = Some (listener_id st + 1, st1)
    \<and> g_dbus_remove_watch E (listener_id st + 1) st1 = Some (True, st2)
    \<and> listeners st2 = listeners st \<and> match_rules st2 = match_rules st \<and> filters st2 = filters st"
proof -
  let ?st = "st\<lparr>listener_id := listener_id st + 1\<rparr>"
  note g = get_existing[OF some]
  note find = find_listener_in[OF dist g(2)]
  note add = add_disconnect_watch_eq[where E = E and f = f and u = u and destroy = destroy, OF g(1) find d(3)]
  have fresh: "listener_id st + 1 \<notin> cb_id ` set (all_callbacks ?st)"
    using id_ok(2) by (simp add: all_callbacks_def)
  have dist': "distinct (map fd_ref (listeners ?st))" and mem: "d \<in> set (listeners ?st)"
    using dist g(2) by simp_all
  have cb: "cb_id (new_callback f destroy u (listener_id st + 1)) = listener_id st + 1"
    "cb_data (new_callback f destroy u (listener_id st + 1)) = None"
    by (simp_all add: new_callback_def)
  note rem = remove_appended[OF dist' mem fresh id_ok(1) d(1,2) cb, of E]
  from rem obtain st2 where st2: "g_dbus_remove_watch E (listener_id st + 1)
      (set_listener (d\<lparr>callbacks := callbacks d @ [new_callback f destroy u (listener_id st + 1)]\<rparr>) ?st)
      = Some (True, st2)" "listeners st2 = listeners ?st" "match_rules st2 = match_rules ?st"
    "filters st2 = filters ?st" by (elim exE conjE) (rule that)
  have same: "listeners ?st = listeners st" "match_rules ?st = match_rules st" "filters ?st = filters st"
    by simp_all
  show ?thesis
    by (rule exI, rule exI, rule conjI, rule add, rule conjI, rule st2(1)) (simp only: st2 same simp_thms)
qed

lemma add_remove_new:
  assumes none: "filter_data_find_match st conn None None None (Some dbus_interface)
      (Some ''NameOwnerChanged'') (Some n) = None"
    and refs: "\<forall>d\<in>set (listeners st). fd_ref d < next_ref st"
    and id_ok: "listener_id st + 1 \<noteq> 0" "listener_id st + 1 \<notin> cb_id ` set (all_callbacks st)"
    and env: "\<not> add_filter_fails E" "\<forall>rule. \<not> add_match_fails E rule \<and> \<not> remove_match_fails E rule"
    and len: "length (full_rule (new_listener (next_ref st) conn n)) < 1024"
  shows "\<exists>st1 st2. g_dbus_add_disconnect_watch E conn (Some n) f u destroy st
      = Some (listener_id st + 1, st1)
    \<and> g_dbus_remove_watch E (listener_id st + 1) st1 = Some (True, st2)
    \<and> listeners st2 = listeners st
    \<and> mset (match_rules st2) = mset (match_rules st) \<and> mset (filters st2) = mset (filters st)"
proof -
  define r where "r = next_ref st"
  define w where "w = listener_id st + 1"
  define cb where "cb = new_callback f destroy u w"
  define rule where "rule = (conn, full_rule (new_listener r conn n))"
  define F where "F = (if filter_data_find st conn = None then filters st @ [conn] else filters st)"
  define st1 where "st1 = st\<lparr>filters := F, match_rules := match_rules st @ [rule],
    listeners := listeners st @ [new_listener r conn n], next_ref := Suc r\<rparr>"
  define t where "t = set_listener ((new_listener r conn n)\<lparr>callbacks := [cb]\<rparr>) (st1\<lparr>listener_id := w\<rparr>)"
  have "\<not> add_match_fails E (full_rule (new_listener r conn n))" using env(2) by blast
  from get_new[OF none env(1) this len[folded r_def] r_def]
  have g: "filter_data_get E conn ServiceFilter None None (Some dbus_interface)
      (Some ''NameOwnerChanged'') (Some n) st = Some (Some r, st1)"
    unfolding st1_def F_def rule_def .
  have neq: "\<forall>d\<in>set (listeners st). fd_ref d \<noteq> r" using refs less_irrefl unfolding r_def by metis
  have l1: "listeners st1 = listeners st @ [new_listener r conn n]" "listener_id st1 + 1 = w"
    by (simp_all add: st1_def w_def)
  have find: "find_listener r st1 = Some (new_listener r conn n)"
    using neq by (simp add: find_listener_def l1 find_snoc find_None_iff)
  have add: "g_dbus_add_disconnect_watch E conn (Some n) f u destroy st = Some (w, t)"
    using add_disconnect_watch_eq[where E = E and f = f and u = u and destroy = destroy, OF g find]
    unfolding t_def cb_def l1(2) by simp
  have "map (\<lambda>e. if fd_ref e = r then (new_listener r conn n)\<lparr>callbacks := [cb]\<rparr> else e) (listeners st) = listeners st"
    by (rule map_idI) (simp only: neq[rule_format] if_False)
  then have t: "listeners t = listeners st @ [(new_listener r conn n)\<lparr>callbacks := [cb]\<rparr>]"
    by (simp add: t_def set_listener_def l1)
  have tf: "match_rules t = match_rules st @ [rule]" "filters t = F"
    by (simp_all add: t_def st1_def)
  have old: "\<forall>d\<in>set (listeners st). fd_ref d \<noteq> r \<and> filter_data_find_callback d w = None"
    using neq fresh_callback[OF id_ok(2)] unfolding w_def by blast
  have cb: "cb_id cb = w" "cb_data cb = None" by (simp_all add: cb_def new_callback_def)
  have w: "w \<noteq> 0" using id_ok(1) by (simp add: w_def)
  have ok: "\<forall>rule. \<not> remove_match_fails E rule" using env(2) by blast
  have none: "\<forall>i. cb_data cb = Some i \<longrightarrow> services t i \<noteq> None" using cb(2) by simp
  from remove_new[OF t old cb(1) none w len[folded r_def] ok] obtain st2 where
    rem: "g_dbus_remove_watch E w t = Some (True, st2)" and ls: "listeners st2 = listeners st"
    and mr: "match_rules st2 = remove1 rule (match_rules t)"
    and fs: "filters st2 = (if find (\<lambda>d. fd_connection d = conn) (listeners st) = None
      then remove1 conn (filters t) else filters t)"
    unfolding rule_def[symmetric] by (elim exE conjE) (rule that)
  have same: "mset (match_rules st2) = mset (match_rules st)" unfolding mr tf by simp
  have "mset (filters st2) = mset (filters st)" unfolding fs tf F_def filter_data_find_def by simp
  from add[unfolded w_def] rem[unfolded w_def] ls same this show ?thesis by (intro exI conjI)
qed

text \<open>
  C26. Adding a disconnect watch and removing it by its id gives back the listeners, the
  match rules and the connection filters there were before, whether the name was watched
  already or not, as long as libdbus does not fail, the rule fits its buffer, no signal is being
  handled, and the id is new and not 0 (fewer than 2^32 - 1 were given out).
\<close>

theorem add_remove_watch:
  assumes dist: "distinct (map fd_ref (listeners st))"
    and refs: "\<forall>d\<in>set (listeners st). fd_ref d < next_ref st \<and> callbacks d \<noteq> []
                 \<and> processed d = [] \<and> \<not> lock d"
    and id_ok: "listener_id st + 1 \<noteq> 0" "listener_id st + 1 \<notin> cb_id ` set (all_callbacks st)"
    and env: "\<not> add_filter_fails E" "\<forall>rule. \<not> add_match_fails E rule \<and> \<not> remove_match_fails E rule"
    and len: "length (full_rule (new_listener (next_ref st) conn n)) < 1024"
  shows "\<exists>st1 st2. g_dbus_add_disconnect_watch E conn (Some n) f u destroy st
      = Some (listener_id st + 1, st1)
    \<and> g_dbus_remove_watch E (listener_id st + 1) st1 = Some (True, st2)
    \<and> listeners st2 = listeners st
    \<and> mset (match_rules st2) = mset (match_rules st) \<and> mset (filters st2) = mset (filters st)"
proof (cases "filter_data_find_match st conn None None None (Some dbus_interface)
      (Some ''NameOwnerChanged'') (Some n)")
  case None
  have "\<forall>d\<in>set (listeners st). fd_ref d < next_ref st" using refs by blast
  from add_remove_new[OF None this id_ok env len] show ?thesis .
next
  case (Some d)
  have "callbacks d \<noteq> []" "processed d = []" "\<not> lock d"
    using refs get_existing(2)[OF Some] by blast+
  from add_remove_existing[OF dist Some this id_ok] show ?thesis by metis
qed

theorem add_remove_watch_witness:
  "\<exists>st1 st2. g_dbus_add_disconnect_watch demo_watch_env 1 (Some '':1.9'') (Some 5) 0 None demo_watches
      = Some (listener_id demo_watches + 1, st1)
    \<and> g_dbus_remove_watch demo_watch_env (listener_id demo_watches + 1) st1 = Some (True, st2)
    \<and> listeners st2 = listeners demo_watches"
proof -
  have refs: "\<forall>d\<in>set (listeners demo_watches). fd_ref d < next_ref demo_watches \<and> callbacks d \<noteq> []
      \<and> processed d = [] \<and> \<not> lock d"
    and ids: "listener_id demo_watches + 1 \<noteq> 0"
      "listener_id demo_watches + 1 \<notin> cb_id ` set (all_callbacks demo_watches)"
    and dist: "distinct (map fd_ref (listeners demo_watches))"
    by (simp_all add: demo_watches_def demo_listener_def all_callbacks_def)
  have env: "\<not> add_filter_fails demo_watch_env"
    "\<forall>rule. \<not> add_match_fails demo_watch_env rule \<and> \<not> remove_match_fails demo_watch_env rule"
    by (simp_all add: demo_watch_env_def)
  have len: "length (full_rule (new_listener (next_ref demo_watches) 1 '':1.9'')) < 1024" by code_simp
  from add_remove_watch[OF dist refs ids env len, of "Some 5" 0 None]
  show ?thesis by blast
qed

text \<open>
  If the bus daemon cannot be asked for the owner of a name, the watch that was added
  is a trap: its callback keeps a pointer to the freed data of the question, and removing
  the watch uses it.
\<close>

lemma failed_owner_query_dangles:
  assumes "owner_call_fails E" and "\<not> add_filter_fails E" and "\<forall>rule. \<not> add_match_fails E rule"
    and "length (full_rule (new_listener 0 conn n)) < 1024"
  shows "\<exists>w st. g_dbus_add_service_watch E conn (Some n) (Some f) g u destroy watch_start = Some (w, st)
    \<and> w \<noteq> 0 \<and> g_dbus_remove_watch E w st = None"
proof -
  have "filter_data_find_match watch_start conn None None None (Some dbus_interface)
      (Some ''NameOwnerChanged'') (Some n) = None"
    by (simp add: filter_data_find_match_def watch_start_def)
  from get_new[OF this assms(2) _ assms(4)] assms(3)
  have g: "filter_data_get E conn ServiceFilter None None (Some dbus_interface)
      (Some ''NameOwnerChanged'') (Some n) watch_start =
    Some (Some 0, watch_start\<lparr>filters := [conn], match_rules := [(conn, full_rule (new_listener 0 conn n))],
       listeners := [new_listener 0 conn n], next_ref := 1\<rparr>)"
    by (simp add: watch_start_def filter_data_find_def)
  have eq: "(new_listener 0 conn n)\<lparr>processed := []\<rparr> = new_listener 0 conn n"
    by (simp add: new_listener_def)
  let ?st = "\<lambda>d. (watch_start\<lparr>listener_id := 1, filters := [conn],
    match_rules := [(conn, full_rule (new_listener 0 conn n))], listeners := [d], next_ref := 1, next_service := 1\<rparr>)"
  let ?cb = "\<lparr>conn_func = Some f, disc_func = g, signal_func = None, destroy_func = destroy,
    cb_data = Some 0, cb_user_data = u, cb_id = 1\<rparr>"
  have add: "g_dbus_add_service_watch E conn (Some n) (Some f) g u destroy watch_start =
      Some (1, ?st ((new_listener 0 conn n)\<lparr>callbacks := [?cb]\<rparr>))"
    using assms(1) g
    by (simp add: g_dbus_add_service_watch_def filter_data_add_callback_def find_listener_def
        set_listener_def check_service_def check_name_cache_def on_callbacks_def set_cb_data_def
        watch_start_def Let_def) (simp add: new_listener_def)
  have "g_dbus_remove_watch E 1 (?st ((new_listener 0 conn n)\<lparr>callbacks := [?cb]\<rparr>)) = None"
    by (simp add: g_dbus_remove_watch.simps filter_data_find_callback_def
        filter_data_remove_callback.simps find_listener_def detach_callback_def cancel_service_def
        set_listener_def watch_start_def Let_def)
  with add show ?thesis by (intro exI conjI) auto
qed

end
