(* ===== verification/Gdbus_Object.thy ===== *)
theory Gdbus_Object
  imports Bus "HOL-Library.Word" "HOL-Library.Monad_Syntax"
begin

text \<open>
  \<open>gdbus/object.c\<close>, first part: the tables a program describes its D-Bus interfaces with, the
  state of the library, introspection, and the signals about added and removed interfaces and
  changed properties. A \<open>struct generic_data *\<close> is a reference into \<open>heap\<close>, where a freed
  object is \<open>None\<close>; a \<open>struct interface_data *\<close> is named by \<open>if_ref\<close> within its object.
  Reading freed memory makes an operation \<open>None\<close>. The functions of the program (methods, getters,
  setters, security functions) are named by numbers: the environment says what they answer, and
  the calls to them are recorded. They are taken not to call back into the library before they
  return. \<open>dbus_connection_get_object_path_data\<close> is taken not to run out of memory.
\<close>

unbundle bit_operations_syntax

section \<open>Tables\<close>

record arg_info =
  arg_name :: string
  arg_signature :: string

text \<open>A method is a function of the program or one of those of this file.\<close>

datatype method_fn = ClientMethod nat | Introspect | PropGet | PropSet | PropGetAll | GetObjects

record method_table =
  m_name :: string
  m_function :: "method_fn option"
  m_flags :: "32 word"
  m_privilege :: "32 word"
  m_in_args :: "arg_info list"
  m_out_args :: "arg_info list"

record signal_table =
  s_name :: string
  s_flags :: "32 word"
  s_args :: "arg_info list"

record property_table =
  p_name :: string
  p_type :: string
  p_get :: "nat option"
  p_set :: "nat option"
  p_exists :: "nat option"
  p_flags :: "32 word"

record security_table =
  sec_privilege :: "32 word"
  sec_action :: string
  sec_flags :: "32 word"
  sec_function :: "nat option"

abbreviation (input) METHOD_FLAG_DEPRECATED :: "32 word" where "METHOD_FLAG_DEPRECATED \<equiv> 1"
abbreviation (input) METHOD_FLAG_NOREPLY :: "32 word" where "METHOD_FLAG_NOREPLY \<equiv> 2"
abbreviation (input) METHOD_FLAG_ASYNC :: "32 word" where "METHOD_FLAG_ASYNC \<equiv> 4"
abbreviation (input) METHOD_FLAG_EXPERIMENTAL :: "32 word" where "METHOD_FLAG_EXPERIMENTAL \<equiv> 8"
abbreviation (input) SIGNAL_FLAG_DEPRECATED :: "32 word" where "SIGNAL_FLAG_DEPRECATED \<equiv> 1"
abbreviation (input) SIGNAL_FLAG_EXPERIMENTAL :: "32 word" where "SIGNAL_FLAG_EXPERIMENTAL \<equiv> 2"
abbreviation (input) PROPERTY_FLAG_DEPRECATED :: "32 word" where "PROPERTY_FLAG_DEPRECATED \<equiv> 1"
abbreviation (input) PROPERTY_FLAG_EXPERIMENTAL :: "32 word" where "PROPERTY_FLAG_EXPERIMENTAL \<equiv> 2"
abbreviation (input) SECURITY_FLAG_BUILTIN :: "32 word" where "SECURITY_FLAG_BUILTIN \<equiv> 2"
abbreviation (input) SECURITY_FLAG_ALLOW_INTERACTION :: "32 word" where
  "SECURITY_FLAG_ALLOW_INTERACTION \<equiv> 4"

definition flag_set :: "32 word \<Rightarrow> 32 word \<Rightarrow> bool" where
  "flag_set flags flag \<longleftrightarrow> flags AND flag \<noteq> 0"

section \<open>State\<close>

text \<open>The user data of an interface belongs to the program, or is the object itself.\<close>

datatype user_data = ClientData nat | ObjectData nat

record interface_data =
  if_ref :: nat
  if_name :: string
  if_methods :: "method_table list"
  if_signals :: "signal_table list"
  if_properties :: "property_table list option"
  if_pending :: "property_table list"
  if_user_data :: user_data
  if_destroy :: "nat option"

record generic_data =
  g_refcount :: "32 word"
  g_conn :: nat
  g_path :: string
  g_interfaces :: "interface_data list"
  g_objects :: "nat list"
  g_added :: "nat list"
  g_removed :: "string list"
  g_process :: bool \<comment> \<open>\<open>process_id > 0\<close>\<close>
  g_pending_prop :: bool
  g_introspect :: "string option"
  g_parent :: "nat option"

record call_msg =
  c_is_call :: bool
  c_serial :: nat
  c_path :: string
  c_interface :: "string option"
  c_member :: string
  c_body :: "ditem list"

datatype obj_msg =
    SignalMsg string string string "ditem list" \<comment> \<open>path, interface, member, body\<close>
  | ReplyMsg nat "ditem list"
  | ErrorMsg nat string string
  | CallMsg string string string "ditem list" bool \<comment> \<open>the last: no reply wanted\<close>

record security_data =
  sq_pending :: "32 word"
  sq_message :: call_msg
  sq_method :: method_table
  sq_user_data :: user_data

record property_data =
  pd_conn :: nat
  pd_id :: "32 word"
  pd_message :: call_msg

datatype obj_call =
    MethodRun nat nat user_data                 \<comment> \<open>function, serial of the message\<close>
  | SetterRun nat "ditem list" "32 word" user_data
  | DestroyRun nat user_data
  | SecurityRun nat string bool "32 word"
  | PolkitAsked string bool "32 word"

record obj_state =
  global_flags :: "32 word"
  root :: "nat option"
  pending_data :: "nat list"
  heap :: "nat \<Rightarrow> generic_data option"
  next_object :: nat
  next_interface :: nat
  paths :: "(nat \<times> string, nat) ghash"
  next_pending :: "32 word"
  pending_security :: "security_data list"
  security_tab :: "security_table list option"
  next_pending_property :: "32 word"
  pending_property_set :: "property_data list"
  outbox :: "(nat \<times> obj_msg) list"
  runs :: "obj_call list"
  ticks :: nat

text \<open>
  What libdbus, polkit, the process environment and the functions of the program answer. The
  failures of libdbus are given per attempt, counted by \<open>ticks\<close>.
\<close>

record obj_env =
  doctype :: string
  no_memory :: "nat \<Rightarrow> bool"
  cannot_send :: "nat \<Rightarrow> bool"
  cannot_register :: "nat \<Rightarrow> bool"
  children_of :: "(nat \<times> string) list \<Rightarrow> nat \<Rightarrow> string \<Rightarrow> string list option"
  getter :: "nat \<Rightarrow> user_data \<Rightarrow> bool \<times> ditem list"
  is_there :: "nat \<Rightarrow> user_data \<Rightarrow> bool"
  method_answer :: "nat \<Rightarrow> call_msg \<Rightarrow> user_data \<Rightarrow> obj_msg option"
  polkit_fails :: "nat \<Rightarrow> bool"
  gdbus_experimental :: bool

section \<open>Reading and writing the state\<close>

definition put_data :: "nat \<Rightarrow> generic_data \<Rightarrow> obj_state \<Rightarrow> obj_state" where
  "put_data r d st = st\<lparr>heap := (heap st)(r \<mapsto> d)\<rparr>"

definition find_iface :: "nat \<Rightarrow> generic_data \<Rightarrow> interface_data option" where
  \<comment> \<open>the interface a pointer names\<close>
  "find_iface i d = find (\<lambda>f. if_ref f = i) (g_interfaces d)"

definition set_iface :: "interface_data \<Rightarrow> generic_data \<Rightarrow> generic_data" where
  "set_iface f d = d\<lparr>g_interfaces := map (\<lambda>e. if if_ref e = if_ref f then f else e) (g_interfaces d)\<rparr>"

definition new_msg :: "obj_env \<Rightarrow> obj_state \<Rightarrow> bool \<times> obj_state" where
  "new_msg E st = (\<not> no_memory E (ticks st), st\<lparr>ticks := Suc (ticks st)\<rparr>)"

definition dbus_connection_send :: "obj_env \<Rightarrow> nat \<Rightarrow> obj_msg \<Rightarrow> obj_state \<Rightarrow> bool \<times> obj_state" where
  "dbus_connection_send E conn msg st =
     (let st' = st\<lparr>ticks := Suc (ticks st)\<rparr> in
      if cannot_send E (ticks st) then (False, st')
      else (True, st'\<lparr>outbox := outbox st @ [(conn, msg)]\<rparr>))"

definition run_client :: "obj_call \<Rightarrow> obj_state \<Rightarrow> obj_state" where
  "run_client c st = st\<lparr>runs := runs st @ [c]\<rparr>"

definition path_data :: "nat \<Rightarrow> string \<Rightarrow> obj_state \<Rightarrow> nat option" where
  \<comment> \<open>\<open>dbus_connection_get_object_path_data\<close>\<close>
  "path_data conn path st = gh_lookup (paths st) (conn, path)"

section \<open>Introspection\<close>

definition quoted :: "string \<Rightarrow> string" where "quoted s = [CHR 0x22] @ s @ [CHR 0x22]"

definition nl :: string where "nl = [CHR 0x0A]"

fun print_arguments :: "arg_info list \<Rightarrow> string option \<Rightarrow> string" where
  "print_arguments [] direction = []"
| "print_arguments (a # args) direction =
     ''<arg name='' @ quoted (arg_name a) @ '' type='' @ quoted (arg_signature a)
     @ (case direction of Some dir \<Rightarrow> '' direction='' @ quoted dir | None \<Rightarrow> []) @ ''/>'' @ nl
     @ print_arguments args direction"

definition annotate :: "string \<Rightarrow> string \<Rightarrow> string" where
  "annotate name val =
     ''<annotation name='' @ quoted (''org.freedesktop.DBus.'' @ name) @ '' value='' @ quoted val @ ''/>''"

definition check_experimental :: "32 word \<Rightarrow> 32 word \<Rightarrow> 32 word \<Rightarrow> bool" where
  \<comment> \<open>the first argument is \<open>global_flags\<close>\<close>
  "check_experimental global flags flag =
     (if \<not> flag_set flags flag then False else \<not> flag_set global 1)"

definition method_xml :: "32 word \<Rightarrow> method_table \<Rightarrow> string" where
  "method_xml global m =
     (if check_experimental global (m_flags m) METHOD_FLAG_EXPERIMENTAL then []
      else ''<method name='' @ quoted (m_name m) @ ''>''
        @ print_arguments (m_in_args m) (Some ''in'') @ print_arguments (m_out_args m) (Some ''out'')
        @ (if flag_set (m_flags m) METHOD_FLAG_DEPRECATED then annotate ''Deprecated'' ''true'' else [])
        @ (if flag_set (m_flags m) METHOD_FLAG_NOREPLY then annotate ''Method.NoReply'' ''true'' else [])
        @ ''</method>'')"

definition signal_xml :: "32 word \<Rightarrow> signal_table \<Rightarrow> string" where
  "signal_xml global s =
     (if check_experimental global (s_flags s) SIGNAL_FLAG_EXPERIMENTAL then []
      else ''<signal name='' @ quoted (s_name s) @ ''>'' @ print_arguments (s_args s) None
        @ (if flag_set (s_flags s) SIGNAL_FLAG_DEPRECATED then annotate ''Deprecated'' ''true'' else [])
        @ ''</signal>'' @ nl)"

definition property_xml :: "32 word \<Rightarrow> property_table \<Rightarrow> string" where
  "property_xml global p =
     (if check_experimental global (p_flags p) PROPERTY_FLAG_EXPERIMENTAL then []
      else ''<property name='' @ quoted (p_name p) @ '' type='' @ quoted (p_type p) @ '' access=''
        @ quoted ((if p_get p \<noteq> None then ''read'' else []) @ (if p_set p \<noteq> None then ''write'' else []))
        @ ''>''
        @ (if flag_set (p_flags p) PROPERTY_FLAG_DEPRECATED then annotate ''Deprecated'' ''true'' else [])
        @ ''</property>'')"

abbreviation properties_of :: "interface_data \<Rightarrow> property_table list" where
  "properties_of f \<equiv> (case if_properties f of None \<Rightarrow> [] | Some ps \<Rightarrow> ps)"

definition generate_interface_xml :: "32 word \<Rightarrow> interface_data \<Rightarrow> string" where
  "generate_interface_xml global f =
     concat (map (method_xml global) (if_methods f)) @ concat (map (signal_xml global) (if_signals f))
     @ concat (map (property_xml global) (properties_of f))"

definition interface_xml :: "32 word \<Rightarrow> interface_data \<Rightarrow> string" where
  "interface_xml global f =
     ''<interface name='' @ quoted (if_name f) @ ''>'' @ generate_interface_xml global f @ ''</interface>''"

definition introspection_xml :: "obj_env \<Rightarrow> obj_state \<Rightarrow> generic_data \<Rightarrow> nat \<Rightarrow> string \<Rightarrow> string" where
  "introspection_xml E st d conn path =
     doctype E @ ''<node>'' @ concat (map (interface_xml (global_flags st)) (g_interfaces d))
     @ (case children_of E (map fst (paths st)) conn path of
          None \<Rightarrow> []
        | Some cs \<Rightarrow> concat (map (\<lambda>c. ''<node name='' @ quoted c @ ''/>'') cs))
     @ ''</node>''"

definition generate_introspection_xml ::
  "obj_env \<Rightarrow> nat \<Rightarrow> nat \<Rightarrow> string \<Rightarrow> obj_state \<Rightarrow> obj_state option"
where
  "generate_introspection_xml E conn r path st = do {
     d \<leftarrow> heap st r;
     Some (put_data r (d\<lparr>g_introspect := Some (introspection_xml E st d conn path)\<rparr>) st)
   }"

definition introspect ::
  "obj_env \<Rightarrow> nat \<Rightarrow> call_msg \<Rightarrow> nat \<Rightarrow> obj_state \<Rightarrow> (obj_msg option \<times> obj_state) option"
where
  "introspect E conn msg r st = do {
     d \<leftarrow> heap st r;
     st1 \<leftarrow> (if g_introspect d = None then generate_introspection_xml E conn r (c_path msg) st else Some st);
     d1 \<leftarrow> heap st1 r;
     let (ok, st2) = new_msg E st1;
     xml \<leftarrow> g_introspect d1;
     Some (if ok then Some (ReplyMsg (c_serial msg) [Basic (DString xml)]) else None, st2)
   }"

section \<open>Finding interfaces and properties\<close>

definition find_interface :: "interface_data list \<Rightarrow> string option \<Rightarrow> interface_data option" where
  "find_interface interfaces name =
     (case name of None \<Rightarrow> None | Some n \<Rightarrow> find (\<lambda>f. n = if_name f) interfaces)"

fun find_property :: "32 word \<Rightarrow> property_table list \<Rightarrow> string \<Rightarrow> property_table option" where
  "find_property global [] name = None"
| "find_property global (p # ps) name =
     (if name \<noteq> p_name p then find_property global ps name
      else if check_experimental global (p_flags p) PROPERTY_FLAG_EXPERIMENTAL then None
      else Some p)"

section \<open>Appending properties to a message\<close>

definition append_property :: "obj_env \<Rightarrow> interface_data \<Rightarrow> property_table \<Rightarrow> nat \<Rightarrow> ditem" where
  \<comment> \<open>the last argument is \<open>p->get\<close>, whose result is not looked at\<close>
  "append_property E f p get =
     DDictEntry [Basic (DString (p_name p)), DVariant (p_type p) (snd (getter E get (if_user_data f)))]"

definition exists_now :: "obj_env \<Rightarrow> interface_data \<Rightarrow> property_table \<Rightarrow> bool" where
  "exists_now E f p = (case p_exists p of None \<Rightarrow> True | Some ex \<Rightarrow> is_there E ex (if_user_data f))"

fun append_properties_loop :: "obj_env \<Rightarrow> 32 word \<Rightarrow> interface_data \<Rightarrow> property_table list \<Rightarrow> ditem list" where
  "append_properties_loop E global f [] = []"
| "append_properties_loop E global f (p # ps) =
     (if check_experimental global (p_flags p) PROPERTY_FLAG_EXPERIMENTAL
      then append_properties_loop E global f ps
      else (case p_get p of
              None \<Rightarrow> append_properties_loop E global f ps
            | Some get \<Rightarrow>
                (if \<not> exists_now E f p then append_properties_loop E global f ps
                 else append_property E f p get # append_properties_loop E global f ps)))"

definition append_properties :: "obj_env \<Rightarrow> 32 word \<Rightarrow> interface_data \<Rightarrow> ditem" where
  "append_properties E global f = DArray ''{sv}'' (append_properties_loop E global f (properties_of f))"

definition append_interface :: "obj_env \<Rightarrow> 32 word \<Rightarrow> interface_data \<Rightarrow> ditem" where
  "append_interface E global f = DDictEntry [Basic (DString (if_name f)), append_properties E global f]"

end
