(* ===== verification/Gdbus_Object_Tree.thy ===== *)
theory Gdbus_Object_Tree
  imports Gdbus_Object
begin

text \<open>
  \<open>gdbus/object.c\<close>, second part: the signals about changes, collected per object and sent in an
  idle callback, the tree of objects, and the registration of interfaces.
\<close>

section \<open>Signals about changes\<close>

abbreviation (input) properties_interface :: string where
  "properties_interface \<equiv> ''org.freedesktop.DBus.Properties''"

abbreviation (input) manager_interface :: string where
  "manager_interface \<equiv> ''org.freedesktop.DBus.ObjectManager''"

abbreviation (input) introspectable_interface :: string where
  "introspectable_interface \<equiv> ''org.freedesktop.DBus.Introspectable''"

text \<open>The loop over the pending properties: the dictionary and the invalidated names.\<close>

fun changed_properties ::
  "obj_env \<Rightarrow> interface_data \<Rightarrow> property_table list \<Rightarrow> ditem list \<times> string list \<Rightarrow> ditem list \<times> string list"
where
  "changed_properties E f [] acc = acc"
| "changed_properties E f (p # ps) (dict, invalidated) =
     (case p_get p of
        None \<Rightarrow> changed_properties E f ps (dict, invalidated)
      | Some get \<Rightarrow>
          (if \<not> exists_now E f p then changed_properties E f ps (dict, p_name p # invalidated)
           else changed_properties E f ps (dict @ [append_property E f p get], invalidated)))"

definition changed_body :: "obj_env \<Rightarrow> interface_data \<Rightarrow> ditem list" where
  "changed_body E f =
     (let (dict, invalidated) = changed_properties E f (rev (if_pending f)) ([], [])
      in [Basic (DString (if_name f)), DArray ''{sv}'' dict,
          DArray ''s'' (map (\<lambda>n. Basic (DString n)) invalidated)])"

definition process_properties_from_interface ::
  "obj_env \<Rightarrow> nat \<Rightarrow> nat \<Rightarrow> obj_state \<Rightarrow> obj_state option"
where
  "process_properties_from_interface E r i st = do {
     d0 \<leftarrow> heap st r;
     let d = d0\<lparr>g_pending_prop := False\<rparr>;
     f \<leftarrow> find_iface i d;
     let st1 = put_data r d st;
     if if_pending f = [] then Some st1
     else let (ok, st2) = new_msg E st1 in
       if \<not> ok then Some st2
       else Some (snd (dbus_connection_send E (g_conn d)
              (SignalMsg (g_path d) properties_interface ''PropertiesChanged'' (changed_body E f))
              (put_data r (set_iface (f\<lparr>if_pending := []\<rparr>) d) st2)))
   }"

fun process_interfaces :: "obj_env \<Rightarrow> nat \<Rightarrow> nat list \<Rightarrow> obj_state \<Rightarrow> obj_state option" where
  "process_interfaces E r [] st = Some st"
| "process_interfaces E r (i # rest) st =
     Option.bind (process_properties_from_interface E r i st) (process_interfaces E r rest)"

definition process_property_changes :: "obj_env \<Rightarrow> nat \<Rightarrow> obj_state \<Rightarrow> obj_state option" where
  "process_property_changes E r st = do {
     d \<leftarrow> heap st r;
     process_interfaces E r (map if_ref (g_interfaces d)) st
   }"

fun look_up_all :: "generic_data \<Rightarrow> nat list \<Rightarrow> interface_data list option" where
  "look_up_all d [] = Some []"
| "look_up_all d (i # rest) = do { f \<leftarrow> find_iface i d; fs \<leftarrow> look_up_all d rest; Some (f # fs) }"

definition emit_interfaces_added :: "obj_env \<Rightarrow> nat \<Rightarrow> obj_state \<Rightarrow> obj_state option" where
  "emit_interfaces_added E r st =
     (case root st of
        None \<Rightarrow> Some st
      | Some rt \<Rightarrow>
          if r = rt then Some st
          else do {
            rd \<leftarrow> heap st rt;
            d \<leftarrow> heap st r;
            fs \<leftarrow> look_up_all d (g_added d);
            let (ok, st1) = new_msg E st;
            if \<not> ok then Some st1
            else Some (snd (dbus_connection_send E (g_conn d)
                   (SignalMsg (g_path rd) manager_interface ''InterfacesAdded''
                      [Basic (DObjectPath (g_path d)),
                       DArray ''{sa{sv}}'' (map (append_interface E (global_flags st)) fs)])
                   (put_data r (d\<lparr>g_added := []\<rparr>) st1)))
          })"

definition emit_interfaces_removed :: "obj_env \<Rightarrow> nat \<Rightarrow> obj_state \<Rightarrow> obj_state option" where
  "emit_interfaces_removed E r st =
     (case root st of
        None \<Rightarrow> Some st
      | Some rt \<Rightarrow>
          if r = rt then Some st
          else do {
            rd \<leftarrow> heap st rt;
            d \<leftarrow> heap st r;
            let (ok, st1) = new_msg E st;
            if \<not> ok then Some st1
            else Some (snd (dbus_connection_send E (g_conn d)
                   (SignalMsg (g_path rd) manager_interface ''InterfacesRemoved''
                      [Basic (DObjectPath (g_path d)),
                       DArray ''s'' (map (\<lambda>n. Basic (DString n)) (g_removed d))])
                   (put_data r (d\<lparr>g_removed := []\<rparr>) st1)))
          })"

definition add_pending :: "nat \<Rightarrow> obj_state \<Rightarrow> obj_state option" where
  "add_pending r st = do {
     d \<leftarrow> heap st r;
     if g_process d then Some st
     else Some (put_data r (d\<lparr>g_process := True\<rparr>)
            (st\<lparr>pending_data := g_slist_append (pending_data st) r\<rparr>))
   }"

definition remove_pending :: "nat \<Rightarrow> obj_state \<Rightarrow> obj_state option" where
  "remove_pending r st = do {
     d \<leftarrow> heap st r;
     Some (put_data r (d\<lparr>g_process := False\<rparr>)
       (st\<lparr>pending_data := g_slist_remove (pending_data st) r\<rparr>))
   }"

definition process_changes :: "obj_env \<Rightarrow> nat \<Rightarrow> obj_state \<Rightarrow> obj_state option" where
  "process_changes E r st = do {
     st1 \<leftarrow> remove_pending r st;
     d1 \<leftarrow> heap st1 r;
     st2 \<leftarrow> (if g_added d1 \<noteq> [] then emit_interfaces_added E r st1 else Some st1);
     d2 \<leftarrow> heap st2 r;
     st3 \<leftarrow> (if g_pending_prop d2 then process_property_changes E r st2 else Some st2);
     d3 \<leftarrow> heap st3 r;
     if g_removed d3 \<noteq> [] then emit_interfaces_removed E r st3 else Some st3
   }"

fun flush_loop :: "obj_env \<Rightarrow> nat \<Rightarrow> nat list \<Rightarrow> obj_state \<Rightarrow> obj_state option" where
  "flush_loop E conn [] st = Some st"
| "flush_loop E conn (r # rest) st = do {
     d \<leftarrow> heap st r;
     if g_conn d \<noteq> conn then flush_loop E conn rest st
     else Option.bind (process_changes E r st) (flush_loop E conn rest)
   }"

definition g_dbus_flush :: "obj_env \<Rightarrow> nat \<Rightarrow> obj_state \<Rightarrow> obj_state option" where
  "g_dbus_flush E conn st = flush_loop E conn (pending_data st) st"

section \<open>Sending\<close>

fun find_signal :: "bool \<Rightarrow> signal_table list \<Rightarrow> string \<Rightarrow> arg_info list option" where
  \<comment> \<open>the first argument is whether \<open>GDBUS_EXPERIMENTAL\<close> is 1 in the environment\<close>
  "find_signal experimental [] name = None"
| "find_signal experimental (s # rest) name =
     (if s_name s \<noteq> name then find_signal experimental rest name
      else if flag_set (s_flags s) SIGNAL_FLAG_EXPERIMENTAL \<and> \<not> experimental then None
      else Some (s_args s))"

definition check_signal ::
  "obj_env \<Rightarrow> nat \<Rightarrow> string \<Rightarrow> string \<Rightarrow> string \<Rightarrow> obj_state \<Rightarrow> arg_info list option option"
where
  \<comment> \<open>the inner \<open>None\<close> is FALSE\<close>
  "check_signal E conn path interface name st =
     (case path_data conn path st of
        None \<Rightarrow> Some None
      | Some r \<Rightarrow> do {
          d \<leftarrow> heap st r;
          Some (case find_interface (g_interfaces d) (Some interface) of
                  None \<Rightarrow> None
                | Some f \<Rightarrow> find_signal (gdbus_experimental E) (if_signals f) name)
        })"

fun set_no_reply :: "obj_msg \<Rightarrow> obj_msg" where
  "set_no_reply (CallMsg path interface name body _) = CallMsg path interface name body True"
| "set_no_reply msg = msg"

definition g_dbus_send_message ::
  "obj_env \<Rightarrow> nat \<Rightarrow> obj_msg \<Rightarrow> obj_state \<Rightarrow> (bool \<times> obj_state) option"
where
  "g_dbus_send_message E conn msg st = do {
     ok \<leftarrow> (case msg of
              SignalMsg p i m body \<Rightarrow> map_option (\<lambda>a. a \<noteq> None) (check_signal E conn p i m st)
            | _ \<Rightarrow> Some True);
     if \<not> ok then Some (False, st)
     else map_option (dbus_connection_send E conn (set_no_reply msg)) (g_dbus_flush E conn st)
   }"

definition g_dbus_send_message_with_reply ::
  "obj_env \<Rightarrow> nat \<Rightarrow> obj_msg \<Rightarrow> obj_state \<Rightarrow> (bool \<times> obj_state) option"
where
  "g_dbus_send_message_with_reply E conn msg st =
     map_option (dbus_connection_send E conn msg) (g_dbus_flush E conn st)"

text \<open>The text of an error is cut by \<open>vsnprintf\<close>; a NULL format is undefined.\<close>

definition g_dbus_create_error ::
  "obj_env \<Rightarrow> call_msg \<Rightarrow> string \<Rightarrow> string \<Rightarrow> obj_state \<Rightarrow> obj_msg option \<times> obj_state"
where
  "g_dbus_create_error E msg name str st =
     (let (ok, st1) = new_msg E st
      in (if ok then Some (ErrorMsg (c_serial msg) name (take 1023 str)) else None, st1))"

definition g_dbus_send_error ::
  "obj_env \<Rightarrow> nat \<Rightarrow> call_msg \<Rightarrow> string option \<Rightarrow> string option \<Rightarrow> obj_state
     \<Rightarrow> (bool \<times> obj_state) option"
where
  "g_dbus_send_error E conn msg name str st =
     (case (name, str) of
        (Some n, Some s) \<Rightarrow>
          (case g_dbus_create_error E msg n s st of
             (None, st1) \<Rightarrow> Some (False, st1)
           | (Some e, st1) \<Rightarrow> g_dbus_send_message E conn e st1)
      | _ \<Rightarrow> None)"

definition g_dbus_create_reply ::
  "obj_env \<Rightarrow> call_msg \<Rightarrow> ditem list \<Rightarrow> obj_state \<Rightarrow> obj_msg option \<times> obj_state"
where
  "g_dbus_create_reply E msg body st =
     (let (ok, st1) = new_msg E st in
      if \<not> ok then (None, st1)
      else let (ok, st2) = new_msg E st1 in
        (if ok then Some (ReplyMsg (c_serial msg) body) else None, st2))"

definition g_dbus_send_reply ::
  "obj_env \<Rightarrow> nat \<Rightarrow> call_msg \<Rightarrow> ditem list \<Rightarrow> obj_state \<Rightarrow> (bool \<times> obj_state) option"
where
  "g_dbus_send_reply E conn msg body st =
     (case g_dbus_create_reply E msg body st of
        (None, st1) \<Rightarrow> Some (False, st1)
      | (Some m, st1) \<Rightarrow> g_dbus_send_message E conn m st1)"

section \<open>Adding and removing interfaces\<close>

definition visible :: "32 word \<Rightarrow> interface_data \<Rightarrow> bool" where
  \<comment> \<open>the three loops of \<open>add_interface\<close>: something to register\<close>
  "visible global f \<longleftrightarrow>
     list_ex (\<lambda>m. \<not> check_experimental global (m_flags m) METHOD_FLAG_EXPERIMENTAL) (if_methods f)
     \<or> list_ex (\<lambda>s. \<not> check_experimental global (s_flags s) SIGNAL_FLAG_EXPERIMENTAL) (if_signals f)
     \<or> list_ex (\<lambda>p. \<not> check_experimental global (p_flags p) PROPERTY_FLAG_EXPERIMENTAL) (properties_of f)"

definition add_interface ::
  "nat \<Rightarrow> string \<Rightarrow> method_table list \<Rightarrow> signal_table list \<Rightarrow> property_table list option
     \<Rightarrow> user_data \<Rightarrow> nat option \<Rightarrow> obj_state \<Rightarrow> (bool \<times> obj_state) option"
where
  "add_interface r name methods signals properties user destroy st =
     (let i = next_interface st;
          f = \<lparr>if_ref = i, if_name = name, if_methods = methods, if_signals = signals,
               if_properties = properties, if_pending = [], if_user_data = user, if_destroy = destroy\<rparr>
      in if \<not> visible (global_flags st) f then Some (False, st)
         else do {
           d \<leftarrow> heap st r;
           let st1 = put_data r (d\<lparr>g_interfaces := g_slist_append (g_interfaces d) f\<rparr>)
                       (st\<lparr>next_interface := Suc i\<rparr>);
           if g_parent d = None then Some (True, st1)
           else do {
             d1 \<leftarrow> heap st1 r;
             st2 \<leftarrow> add_pending r (put_data r (d1\<lparr>g_added := g_slist_append (g_added d1) i\<rparr>) st1);
             Some (True, st2)
           }
         })"

definition remove_interface ::
  "obj_env \<Rightarrow> nat \<Rightarrow> string \<Rightarrow> obj_state \<Rightarrow> (bool \<times> obj_state) option"
where
  "remove_interface E r name st = do {
     d0 \<leftarrow> heap st r;
     case find_interface (g_interfaces d0) (Some name) of
       None \<Rightarrow> Some (False, st)
     | Some f \<Rightarrow> do {
         st1 \<leftarrow> process_properties_from_interface E r (if_ref f) st;
         d1 \<leftarrow> heap st1 r;
         let d = d1\<lparr>g_interfaces := filter (\<lambda>e. if_ref e \<noteq> if_ref f) (g_interfaces d1)\<rparr>;
         let st2 = (case if_destroy f of
                      None \<Rightarrow> st1 | Some fn \<Rightarrow> run_client (DestroyRun fn (if_user_data f)) st1);
         if if_ref f \<in> set (g_added d)
         then Some (True, put_data r (d\<lparr>g_added := g_slist_remove (g_added d) (if_ref f)\<rparr>) st2)
         else if g_parent d = None then Some (True, put_data r d st2)
         else map_option (Pair True)
                (add_pending r (put_data r (d\<lparr>g_removed := if_name f # g_removed d\<rparr>) st2))
       }
   }"

section \<open>The tree of objects\<close>

text \<open>
  The part of \<open>invalidate_parent_data\<close> that cuts the path at its last slash; \<open>None\<close> is the
  jump to \<open>done\<close>.
\<close>

definition parent_path :: "string \<Rightarrow> string option" where
  "parent_path p =
     (if CHR ''/'' \<notin> set p then None
      else
        let slash = length p - 1 - length (takeWhile (\<lambda>c. c \<noteq> CHR ''/'') (rev p));
            cut = (if slash = 0 \<and> length p > 1 then take 1 p else take slash p)
        in if cut = [] then None else Some cut)"

lemma parent_path_shorter: "parent_path p = Some q \<Longrightarrow> length q < length p"
  by (cases p) (auto simp: parent_path_def Let_def split: if_splits)

function invalidate_parent_data ::
  "nat \<Rightarrow> string \<Rightarrow> obj_state \<Rightarrow> (nat option \<times> obj_state) option"
where
  "invalidate_parent_data conn child_path st =
     (case parent_path child_path of
        None \<Rightarrow> Some (None, st)
      | Some pp \<Rightarrow>
          (let given = path_data conn pp st in
           case invalidate_parent_data conn pp st of
             None \<Rightarrow> None
           | Some (parent, st1) \<Rightarrow>
               (case (if given = None then parent else given) of
                  None \<Rightarrow> Some (None, st1)
                | Some r \<Rightarrow>
                    (case heap st1 r of
                       None \<Rightarrow> None
                     | Some d \<Rightarrow>
                         (let st2 = put_data r (d\<lparr>g_introspect := None\<rparr>) st1 in
                          case path_data conn child_path st2 of
                            None \<Rightarrow> Some (Some r, st2)
                          | Some c \<Rightarrow>
                              (if c \<in> set (g_objects d) then Some (Some r, st2)
                               else
                                 (let st3 = put_data r (d\<lparr>g_introspect := None,
                                              g_objects := c # g_objects d\<rparr>) st2
                                  in case heap st3 c of
                                       None \<Rightarrow> None
                                     | Some cd \<Rightarrow>
                                         Some (Some r, put_data c (cd\<lparr>g_parent := Some r\<rparr>) st3))))))))"
  by pat_completeness auto
termination
  by (relation "measure (\<lambda>(conn, p, st). length p)") (auto dest: parent_path_shorter)

declare invalidate_parent_data.simps [simp del]

fun reset_parents :: "nat list \<Rightarrow> nat option \<Rightarrow> obj_state \<Rightarrow> obj_state option" where
  "reset_parents [] p st = Some st"
| "reset_parents (c # cs) p st = do {
     cd \<leftarrow> heap st c;
     reset_parents cs p (put_data c (cd\<lparr>g_parent := p\<rparr>) st)
   }"

definition generic_unregister :: "obj_env \<Rightarrow> nat \<Rightarrow> obj_state \<Rightarrow> obj_state option" where
  "generic_unregister E r st = do {
     d \<leftarrow> heap st r;
     st1 \<leftarrow> (case g_parent d of
               None \<Rightarrow> Some st
             | Some p \<Rightarrow> do {
                 pd \<leftarrow> heap st p;
                 Some (put_data p (pd\<lparr>g_objects := g_slist_remove (g_objects pd) r\<rparr>) st)
               });
     d1 \<leftarrow> heap st1 r;
     st2 \<leftarrow> (if g_process d1 then process_changes E r st1 else Some st1);
     d2 \<leftarrow> heap st2 r;
     st3 \<leftarrow> reset_parents (g_objects d2) (g_parent d2) st2;
     Some (st3\<lparr>heap := (heap st3)(r := None)\<rparr>)
   }"

section \<open>Registration\<close>

definition introspect_methods :: "method_table list" where
  "introspect_methods =
     [\<lparr>m_name = ''Introspect'', m_function = Some Introspect, m_flags = 0, m_privilege = 0,
       m_in_args = [], m_out_args = [\<lparr>arg_name = ''xml'', arg_signature = ''s''\<rparr>]\<rparr>]"

definition properties_methods :: "method_table list" where
  "properties_methods =
     [\<lparr>m_name = ''Get'', m_function = Some PropGet, m_flags = 0, m_privilege = 0,
       m_in_args = [\<lparr>arg_name = ''interface'', arg_signature = ''s''\<rparr>, \<lparr>arg_name = ''name'', arg_signature = ''s''\<rparr>],
       m_out_args = [\<lparr>arg_name = ''value'', arg_signature = ''v''\<rparr>]\<rparr>,
      \<lparr>m_name = ''Set'', m_function = Some PropSet, m_flags = METHOD_FLAG_ASYNC, m_privilege = 0,
       m_in_args = [\<lparr>arg_name = ''interface'', arg_signature = ''s''\<rparr>, \<lparr>arg_name = ''name'', arg_signature = ''s''\<rparr>,
                    \<lparr>arg_name = ''value'', arg_signature = ''v''\<rparr>],
       m_out_args = []\<rparr>,
      \<lparr>m_name = ''GetAll'', m_function = Some PropGetAll, m_flags = 0, m_privilege = 0,
       m_in_args = [\<lparr>arg_name = ''interface'', arg_signature = ''s''\<rparr>],
       m_out_args = [\<lparr>arg_name = ''properties'', arg_signature = ''a{sv}''\<rparr>]\<rparr>]"

definition properties_signals :: "signal_table list" where
  "properties_signals =
     [\<lparr>s_name = ''PropertiesChanged'', s_flags = 0,
       s_args = [\<lparr>arg_name = ''interface'', arg_signature = ''s''\<rparr>,
                 \<lparr>arg_name = ''changed_properties'', arg_signature = ''a{sv}''\<rparr>,
                 \<lparr>arg_name = ''invalidated_properties'', arg_signature = ''as''\<rparr>]\<rparr>]"

definition manager_methods :: "method_table list" where
  "manager_methods =
     [\<lparr>m_name = ''GetManagedObjects'', m_function = Some GetObjects, m_flags = 0, m_privilege = 0,
       m_in_args = [], m_out_args = [\<lparr>arg_name = ''objects'', arg_signature = ''a{oa{sa{sv}}}''\<rparr>]\<rparr>]"

definition manager_signals :: "signal_table list" where
  "manager_signals =
     [\<lparr>s_name = ''InterfacesAdded'', s_flags = 0,
       s_args = [\<lparr>arg_name = ''object'', arg_signature = ''o''\<rparr>,
                 \<lparr>arg_name = ''interfaces'', arg_signature = ''a{sa{sv}}''\<rparr>]\<rparr>,
      \<lparr>s_name = ''InterfacesRemoved'', s_flags = 0,
       s_args = [\<lparr>arg_name = ''object'', arg_signature = ''o''\<rparr>,
                 \<lparr>arg_name = ''interfaces'', arg_signature = ''as''\<rparr>]\<rparr>]"

definition object_path_ref ::
  "obj_env \<Rightarrow> nat \<Rightarrow> string \<Rightarrow> obj_state \<Rightarrow> (nat option \<times> obj_state) option"
where
  "object_path_ref E conn path st =
     (case path_data conn path st of
        Some r \<Rightarrow> do {
          d \<leftarrow> heap st r;
          Some (Some r, put_data r (d\<lparr>g_refcount := g_refcount d + 1\<rparr>) st)
        }
      | None \<Rightarrow>
          (let r = next_object st;
               st1 = put_data r
                 \<lparr>g_refcount = 1, g_conn = conn, g_path = path, g_interfaces = [], g_objects = [],
                  g_added = [], g_removed = [], g_process = False, g_pending_prop = False,
                  g_introspect = Some (doctype E @ ''<node></node>''), g_parent = None\<rparr>
                 (st\<lparr>next_object := Suc r, ticks := Suc (ticks st)\<rparr>)
           in if cannot_register E (ticks st)
              then Some (None, st1\<lparr>heap := (heap st1)(r := None)\<rparr>)
              else do {
                (_, st2) \<leftarrow> invalidate_parent_data conn path
                  (st1\<lparr>paths := gh_replace (conn, path) r (paths st1)\<rparr>);
                (_, st3) \<leftarrow> add_interface r introspectable_interface introspect_methods [] None
                  (ObjectData r) None st2;
                Some (Some r, st3)
              }))"

definition object_path_unref :: "obj_env \<Rightarrow> nat \<Rightarrow> string \<Rightarrow> obj_state \<Rightarrow> obj_state option" where
  "object_path_unref E conn path st =
     (case path_data conn path st of
        None \<Rightarrow> Some st
      | Some r \<Rightarrow> do {
          d \<leftarrow> heap st r;
          let st1 = put_data r (d\<lparr>g_refcount := g_refcount d - 1\<rparr>) st;
          if g_refcount d - 1 > 0 then Some st1
          else do {
            (_, st2) \<leftarrow> remove_interface E r introspectable_interface st1;
            (_, st3) \<leftarrow> remove_interface E r properties_interface st2;
            (_, st4) \<leftarrow> invalidate_parent_data (g_conn d) (g_path d) st3;
            generic_unregister E r (st4\<lparr>paths := gh_remove (g_conn d, g_path d) (paths st4)\<rparr>)
          }
        })"

definition clear_introspect :: "nat \<Rightarrow> obj_state \<Rightarrow> obj_state option" where
  "clear_introspect r st = do { d \<leftarrow> heap st r; Some (put_data r (d\<lparr>g_introspect := None\<rparr>) st) }"

definition g_dbus_register_interface ::
  "obj_env \<Rightarrow> nat \<Rightarrow> string \<Rightarrow> string \<Rightarrow> method_table list \<Rightarrow> signal_table list
     \<Rightarrow> property_table list option \<Rightarrow> user_data \<Rightarrow> nat option \<Rightarrow> obj_state \<Rightarrow> (bool \<times> obj_state) option"
where
  "g_dbus_register_interface E conn path name methods signals properties user destroy st = do {
     (ref, st1) \<leftarrow> object_path_ref E conn path st;
     case ref of
       None \<Rightarrow> Some (False, st1)
     | Some r \<Rightarrow> do {
         d1 \<leftarrow> heap st1 r;
         if find_interface (g_interfaces d1) (Some name) \<noteq> None
         then map_option (Pair False) (object_path_unref E conn path st1)
         else do {
           (ok, st2) \<leftarrow> add_interface r name methods signals properties user destroy st1;
           if \<not> ok then map_option (Pair False) (object_path_unref E conn path st2)
           else do {
             d2 \<leftarrow> heap st2 r;
             (_, st3) \<leftarrow> (if properties \<noteq> None
                            \<and> find_interface (g_interfaces d2) (Some properties_interface) = None
                          then add_interface r properties_interface properties_methods
                                 properties_signals None (ObjectData r) None st2
                          else Some (True, st2));
             map_option (Pair True) (clear_introspect r st3)
           }
         }
       }
   }"

definition g_dbus_unregister_interface ::
  "obj_env \<Rightarrow> nat \<Rightarrow> string option \<Rightarrow> string \<Rightarrow> obj_state \<Rightarrow> (bool \<times> obj_state) option"
where
  "g_dbus_unregister_interface E conn path name st =
     (case Option.bind path (\<lambda>p. path_data conn p st) of
        None \<Rightarrow> Some (False, st)
      | Some r \<Rightarrow> do {
          (ok, st1) \<leftarrow> remove_interface E r name st;
          if \<not> ok then Some (False, st1)
          else do {
            st2 \<leftarrow> clear_introspect r st1;
            d \<leftarrow> heap st2 r;
            map_option (Pair True) (object_path_unref E conn (g_path d) st2)
          }
        })"

definition g_dbus_attach_object_manager :: "obj_env \<Rightarrow> nat \<Rightarrow> obj_state \<Rightarrow> (bool \<times> obj_state) option" where
  "g_dbus_attach_object_manager E conn st = do {
     (ref, st1) \<leftarrow> object_path_ref E conn ''/'' st;
     case ref of
       None \<Rightarrow> Some (False, st1)
     | Some r \<Rightarrow> do {
         (_, st2) \<leftarrow> add_interface r manager_interface manager_methods manager_signals None
           (ObjectData r) None st1;
         Some (True, st2\<lparr>root := Some r\<rparr>)
       }
   }"

definition g_dbus_detach_object_manager :: "obj_env \<Rightarrow> nat \<Rightarrow> obj_state \<Rightarrow> (bool \<times> obj_state) option" where
  "g_dbus_detach_object_manager E conn st = do {
     (ok, st1) \<leftarrow> g_dbus_unregister_interface E conn (Some ''/'') manager_interface st;
     if \<not> ok then Some (False, st1) else Some (True, st1\<lparr>root := None\<rparr>)
   }"

definition g_dbus_set_flags :: "32 word \<Rightarrow> obj_state \<Rightarrow> obj_state" where
  "g_dbus_set_flags flags st = st\<lparr>global_flags := flags\<rparr>"

end
