(* ===== verification/Gdbus_Object_Calls.thy ===== *)
theory Gdbus_Object_Calls
  imports Gdbus_Object_Tree
begin

text \<open>
  \<open>gdbus/object.c\<close>, third part: running the method a message calls, with the check of its
  privilege, the methods of the three standard interfaces, and the functions by which a program
  emits signals and answers pending requests.
\<close>

abbreviation (input) invalid_args :: string where
  "invalid_args \<equiv> ''org.freedesktop.DBus.Error.InvalidArgs''"

abbreviation (input) unknown_property :: string where
  "unknown_property \<equiv> ''org.freedesktop.DBus.Error.UnknownProperty''"

abbreviation (input) property_read_only :: string where
  "property_read_only \<equiv> ''org.freedesktop.DBus.Error.PropertyReadOnly''"

abbreviation (input) invalid_signature :: string where
  "invalid_signature \<equiv> ''org.freedesktop.DBus.Error.InvalidSignature''"

abbreviation (input) auth_failed :: string where
  "auth_failed \<equiv> ''org.freedesktop.DBus.Error.AuthFailed''"

definition tick_quoted :: "string \<Rightarrow> string" where "tick_quoted s = [CHR 0x27] @ s @ [CHR 0x27]"

definition no_such :: "string \<Rightarrow> string \<Rightarrow> string" where
  "no_such what name = ''No such '' @ what @ '' '' @ tick_quoted name"

section \<open>The signature of the arguments\<close>

fun eat_signature :: "string \<Rightarrow> string \<Rightarrow> (string \<times> string) option" where
  \<comment> \<open>the inner loop: \<open>*sig\<close> and \<open>*p\<close> side by side; \<open>None\<close> where it returns FALSE\<close>
  "eat_signature (c # sg) (x # p) = (if x \<noteq> c then None else eat_signature sg p)"
| "eat_signature sg p = Some (sg, p)"

fun args_loop :: "arg_info list \<Rightarrow> string \<Rightarrow> string \<Rightarrow> bool" where
  \<comment> \<open>the last argument is \<open>p\<close>, empty for NULL\<close>
  "args_loop [] sg p = (sg = [] \<and> p = [])"
| "args_loop (a # args) sg p =
     (if sg = [] then False
      else (case eat_signature sg (arg_signature a) of
              None \<Rightarrow> False
            | Some (sg', p') \<Rightarrow> args_loop args sg' p'))"

definition g_dbus_args_have_signature :: "arg_info list \<Rightarrow> string \<Rightarrow> bool" where
  "g_dbus_args_have_signature args sg = args_loop args sg []"

section \<open>The properties interface\<close>

fun two_strings :: "ditem list \<Rightarrow> (string \<times> string) option" where
  "two_strings (Basic (DString a) # Basic (DString b) # _) = Some (a, b)"
| "two_strings _ = None"

fun one_string :: "ditem list \<Rightarrow> string option" where
  "one_string (Basic (DString a) # _) = Some a"
| "one_string _ = None"

definition properties_get ::
  "obj_env \<Rightarrow> call_msg \<Rightarrow> nat \<Rightarrow> obj_state \<Rightarrow> (obj_msg option \<times> obj_state) option"
where
  "properties_get E msg r st =
     (case two_strings (c_body msg) of
        None \<Rightarrow> Some (None, st)
      | Some (interface, name) \<Rightarrow> do {
          d \<leftarrow> heap st r;
          case find_interface (g_interfaces d) (Some interface) of
            None \<Rightarrow> Some (g_dbus_create_error E msg invalid_args (no_such ''interface'' interface) st)
          | Some f \<Rightarrow>
              (case find_property (global_flags st) (properties_of f) name of
                 None \<Rightarrow> Some (g_dbus_create_error E msg invalid_args (no_such ''property'' name) st)
               | Some p \<Rightarrow>
                   if \<not> exists_now E f p
                   then Some (g_dbus_create_error E msg invalid_args (no_such ''property'' name) st)
                   else (case p_get p of
                           None \<Rightarrow> Some (g_dbus_create_error E msg invalid_args
                                     (''Property '' @ tick_quoted name @ '' is not readable'') st)
                         | Some get \<Rightarrow>
                             (let (ok, st1) = new_msg E st; (done, items) = getter E get (if_user_data f)
                              in Some (if ok \<and> done
                                       then Some (ReplyMsg (c_serial msg) [DVariant (p_type p) items])
                                       else None, st1))))
        })"

definition properties_get_all ::
  "obj_env \<Rightarrow> call_msg \<Rightarrow> nat \<Rightarrow> obj_state \<Rightarrow> (obj_msg option \<times> obj_state) option"
where
  "properties_get_all E msg r st =
     (case one_string (c_body msg) of
        None \<Rightarrow> Some (None, st)
      | Some interface \<Rightarrow> do {
          d \<leftarrow> heap st r;
          case find_interface (g_interfaces d) (Some interface) of
            None \<Rightarrow> Some (g_dbus_create_error E msg invalid_args (no_such ''interface'' interface) st)
          | Some f \<Rightarrow>
              (let (ok, st1) = new_msg E st
               in Some (if ok then Some (ReplyMsg (c_serial msg) [append_properties E (global_flags st) f])
                        else None, st1))
        })"

definition arg_error :: "obj_env \<Rightarrow> call_msg \<Rightarrow> ditem list \<Rightarrow> obj_state \<Rightarrow> obj_msg option \<times> obj_state" where
  \<comment> \<open>\<open>%c\<close> of \<open>DBUS_TYPE_INVALID\<close> ends the text\<close>
  "arg_error E msg it st =
     g_dbus_create_error E msg invalid_args
       (case iter_arg_type it of
          None \<Rightarrow> ''Invalid argument type: '' @ [CHR 0x27]
        | Some c \<Rightarrow> ''Invalid argument type: '' @ tick_quoted [c]) st"

definition add_property_request ::
  "nat \<Rightarrow> call_msg \<Rightarrow> interface_data \<Rightarrow> nat \<Rightarrow> ditem list \<Rightarrow> obj_state \<Rightarrow> obj_state"
where
  \<comment> \<open>the end of \<open>properties_set\<close>: the request is pending and the setter is called\<close>
  "add_property_request conn msg f setter sub st =
     (let pid = next_pending_property st
      in run_client (SetterRun setter sub pid (if_user_data f))
           (st\<lparr>next_pending_property := pid + 1,
               pending_property_set := \<lparr>pd_conn = conn, pd_id = pid, pd_message = msg\<rparr>
                 # pending_property_set st\<rparr>))"

definition properties_set ::
  "obj_env \<Rightarrow> nat \<Rightarrow> call_msg \<Rightarrow> nat \<Rightarrow> obj_state \<Rightarrow> (obj_msg option \<times> obj_state) option"
where
  "properties_set E conn msg r st =
     (case c_body msg of
        [] \<Rightarrow> Some (g_dbus_create_error E msg invalid_args ''No arguments given'' st)
      | Basic (DString interface) # rest \<Rightarrow>
          (case rest of
             Basic (DString name) # rest2 \<Rightarrow>
               (case rest2 of
                  DVariant sg sub # _ \<Rightarrow> do {
                    d \<leftarrow> heap st r;
                    case find_interface (g_interfaces d) (Some interface) of
                      None \<Rightarrow> Some (g_dbus_create_error E msg invalid_args (no_such ''interface'' interface) st)
                    | Some f \<Rightarrow>
                        (case find_property (global_flags st) (properties_of f) name of
                           None \<Rightarrow> Some (g_dbus_create_error E msg unknown_property (no_such ''property'' name) st)
                         | Some p \<Rightarrow>
                             (case p_set p of
                                None \<Rightarrow> Some (g_dbus_create_error E msg property_read_only
                                          (''Property '' @ tick_quoted name @ '' is not writable'') st)
                              | Some setter \<Rightarrow>
                                  if \<not> exists_now E f p
                                  then Some (g_dbus_create_error E msg unknown_property (no_such ''property'' name) st)
                                  else if items_sig sub \<noteq> p_type p
                                  then Some (g_dbus_create_error E msg invalid_signature
                                         (''Invalid signature for '' @ tick_quoted name) st)
                                  else Some (None, add_property_request conn msg f setter sub st)))
                  }
                | _ \<Rightarrow> Some (arg_error E msg rest2 st))
           | _ \<Rightarrow> Some (arg_error E msg rest st))
      | it \<Rightarrow> Some (arg_error E msg it st))"

definition remove_pending_property_data :: "32 word \<Rightarrow> obj_state \<Rightarrow> (property_data \<times> obj_state) option" where
  \<comment> \<open>\<open>None\<close> is NULL\<close>
  "remove_pending_property_data pid st =
     (case find (\<lambda>p. pd_id p = pid) (pending_property_set st) of
        None \<Rightarrow> None
      | Some p \<Rightarrow> Some (p, st\<lparr>pending_property_set := remove1 p (pending_property_set st)\<rparr>))"

definition g_dbus_pending_property_success :: "obj_env \<Rightarrow> 32 word \<Rightarrow> obj_state \<Rightarrow> obj_state option" where
  "g_dbus_pending_property_success E pid st =
     (case remove_pending_property_data pid st of
        None \<Rightarrow> Some st
      | Some (p, st1) \<Rightarrow> map_option snd (g_dbus_send_reply E (pd_conn p) (pd_message p) [] st1))"

definition g_dbus_pending_property_error ::
  "obj_env \<Rightarrow> 32 word \<Rightarrow> string option \<Rightarrow> string option \<Rightarrow> obj_state \<Rightarrow> obj_state option"
where
  "g_dbus_pending_property_error E pid name str st =
     (case remove_pending_property_data pid st of
        None \<Rightarrow> Some st
      | Some (p, st1) \<Rightarrow> map_option snd (g_dbus_send_error E (pd_conn p) (pd_message p) name str st1))"

section \<open>The object manager interface\<close>

definition append_interfaces :: "obj_env \<Rightarrow> 32 word \<Rightarrow> generic_data \<Rightarrow> ditem" where
  "append_interfaces E global d =
     DArray ''{sa{sv}}'' (map (append_interface E global)
       (filter (\<lambda>f. if_ref f \<notin> set (g_added d)) (g_interfaces d)))"

text \<open>\<open>append_object\<close>: an object, then everything below it. The argument is the work left.\<close>

partial_function (option) append_objects ::
  "obj_env \<Rightarrow> obj_state \<Rightarrow> nat list \<Rightarrow> ditem list option"
where
  "append_objects E st rs =
     (case rs of
        [] \<Rightarrow> Some []
      | r # rest \<Rightarrow>
          Option.bind (heap st r) (\<lambda>d.
          Option.bind (append_objects E st (g_objects d @ rest)) (\<lambda>items.
          Some (DDictEntry [Basic (DObjectPath (g_path d)), append_interfaces E (global_flags st) d] # items))))"

definition get_objects ::
  "obj_env \<Rightarrow> call_msg \<Rightarrow> nat \<Rightarrow> obj_state \<Rightarrow> (obj_msg option \<times> obj_state) option"
where
  "get_objects E msg r st = do {
     d \<leftarrow> heap st r;
     let (ok, st1) = new_msg E st;
     if \<not> ok then Some (None, st1)
     else do {
       items \<leftarrow> append_objects E st1 (g_objects d);
       Some (Some (ReplyMsg (c_serial msg) [DArray ''{oa{sa{sv}}}'' items]), st1)
     }
   }"

section \<open>Running a method\<close>

definition object_of :: "user_data \<Rightarrow> nat option" where
  "object_of u = (case u of ObjectData r \<Rightarrow> Some r | ClientData _ \<Rightarrow> None)"

definition run_method ::
  "obj_env \<Rightarrow> nat \<Rightarrow> method_fn \<Rightarrow> call_msg \<Rightarrow> user_data \<Rightarrow> obj_state
     \<Rightarrow> (obj_msg option \<times> obj_state) option"
where
  "run_method E conn fn msg user st =
     (case fn of
        ClientMethod k \<Rightarrow> Some (method_answer E k msg user, run_client (MethodRun k (c_serial msg) user) st)
      | Introspect \<Rightarrow> Option.bind (object_of user) (\<lambda>r. introspect E conn msg r st)
      | PropGet \<Rightarrow> Option.bind (object_of user) (\<lambda>r. properties_get E msg r st)
      | PropSet \<Rightarrow> Option.bind (object_of user) (\<lambda>r. properties_set E conn msg r st)
      | PropGetAll \<Rightarrow> Option.bind (object_of user) (\<lambda>r. properties_get_all E msg r st)
      | GetObjects \<Rightarrow> Option.bind (object_of user) (\<lambda>r. get_objects E msg r st))"

definition process_message ::
  "obj_env \<Rightarrow> nat \<Rightarrow> call_msg \<Rightarrow> method_table \<Rightarrow> user_data \<Rightarrow> obj_state
     \<Rightarrow> (handler_result \<times> obj_state) option"
where
  "process_message E conn msg m user st = do {
     fn \<leftarrow> m_function m;
     (reply, st1) \<leftarrow> run_method E conn fn msg user st;
     if flag_set (m_flags m) METHOD_FLAG_NOREPLY then Some (Handled, st1)
     else if flag_set (m_flags m) METHOD_FLAG_ASYNC \<and> reply = None then Some (Handled, st1)
     else (case reply of
             None \<Rightarrow> Some (NeedMemory, st1)
           | Some out \<Rightarrow> map_option (\<lambda>(_, st2). (Handled, st2)) (g_dbus_send_message E conn out st1))
   }"

section \<open>Privileged methods\<close>

definition take_pending :: "32 word \<Rightarrow> obj_state \<Rightarrow> (security_data \<times> obj_state) option" where
  "take_pending pid st =
     (case find (\<lambda>s. sq_pending s = pid) (pending_security st) of
        None \<Rightarrow> None
      | Some s \<Rightarrow> Some (s, st\<lparr>pending_security := g_slist_remove (pending_security st) s\<rparr>))"

definition g_dbus_pending_success :: "obj_env \<Rightarrow> nat \<Rightarrow> 32 word \<Rightarrow> obj_state \<Rightarrow> obj_state option" where
  "g_dbus_pending_success E conn pid st =
     (case take_pending pid st of
        None \<Rightarrow> Some st
      | Some (s, st1) \<Rightarrow>
          map_option snd (process_message E conn (sq_message s) (sq_method s) (sq_user_data s) st1))"

definition g_dbus_pending_error ::
  "obj_env \<Rightarrow> nat \<Rightarrow> 32 word \<Rightarrow> string option \<Rightarrow> string option \<Rightarrow> obj_state \<Rightarrow> obj_state option"
where
  "g_dbus_pending_error E conn pid name str st =
     (case take_pending pid st of
        None \<Rightarrow> Some st
      | Some (s, st1) \<Rightarrow> map_option snd (g_dbus_send_error E conn (sq_message s) name str st1))"

definition builtin_security_result :: "obj_env \<Rightarrow> nat \<Rightarrow> 32 word \<Rightarrow> bool \<Rightarrow> obj_state \<Rightarrow> obj_state option" where
  "builtin_security_result E conn pid authorized st =
     (if authorized then g_dbus_pending_success E conn pid st
      else g_dbus_pending_error E conn pid (Some auth_failed) None st)"

definition builtin_security_function ::
  "obj_env \<Rightarrow> nat \<Rightarrow> string \<Rightarrow> bool \<Rightarrow> 32 word \<Rightarrow> obj_state \<Rightarrow> obj_state option"
where
  \<comment> \<open>the answer of polkit comes later, through \<open>builtin_security_result\<close>; whether it can be asked at
      all, the result of \<open>polkit_check_authorization\<close> in theory \<open>Polkit\<close>, is an answer of the
      environment here\<close>
  "builtin_security_function E conn action interaction pid st =
     (let st1 = run_client (PolkitAsked action interaction pid) (st\<lparr>ticks := Suc (ticks st)\<rparr>) in
      if polkit_fails E (ticks st) then g_dbus_pending_error E conn pid None None st1 else Some st1)"

fun find_security :: "security_table list \<Rightarrow> 32 word \<Rightarrow> security_table option" where
  \<comment> \<open>the table ends at an entry of privilege 0\<close>
  "find_security [] privilege = None"
| "find_security (s # rest) privilege =
     (if sec_privilege s = 0 then None
      else if sec_privilege s \<noteq> privilege then find_security rest privilege
      else Some s)"

definition check_privilege ::
  "obj_env \<Rightarrow> nat \<Rightarrow> call_msg \<Rightarrow> method_table \<Rightarrow> user_data \<Rightarrow> obj_state \<Rightarrow> (bool \<times> obj_state) option"
where
  "check_privilege E conn msg m user st =
     (case Option.bind (security_tab st) (\<lambda>t. find_security t (m_privilege m)) of
        None \<Rightarrow> Some (False, st)
      | Some s \<Rightarrow>
          (let pid = next_pending st;
               st1 = st\<lparr>next_pending := pid + 1,
                       pending_security := \<lparr>sq_pending = pid, sq_message = msg, sq_method = m,
                         sq_user_data = user\<rparr> # pending_security st\<rparr>;
               interaction = flag_set (sec_flags s) SECURITY_FLAG_ALLOW_INTERACTION
           in case (flag_set (sec_flags s) SECURITY_FLAG_BUILTIN, sec_function s) of
                (False, Some fn) \<Rightarrow> Some (True, run_client (SecurityRun fn (sec_action s) interaction pid) st1)
              | _ \<Rightarrow> map_option (Pair True)
                       (builtin_security_function E conn (sec_action s) interaction pid st1)))"

definition g_dbus_register_security :: "security_table list \<Rightarrow> obj_state \<Rightarrow> bool \<times> obj_state" where
  "g_dbus_register_security t st =
     (if security_tab st \<noteq> None then (False, st) else (True, st\<lparr>security_tab := Some t\<rparr>))"

definition g_dbus_unregister_security :: "obj_state \<Rightarrow> bool \<times> obj_state" where
  "g_dbus_unregister_security st = (True, st\<lparr>security_tab := None\<rparr>)"

section \<open>Dispatch\<close>

fun method_loop ::
  "obj_env \<Rightarrow> nat \<Rightarrow> call_msg \<Rightarrow> interface_data \<Rightarrow> method_table list \<Rightarrow> obj_state
     \<Rightarrow> (handler_result \<times> obj_state) option"
where
  "method_loop E conn msg f [] st = Some (NotYetHandled, st)"
| "method_loop E conn msg f (m # ms) st =
     (if m_function m = None then Some (NotYetHandled, st)
      else if \<not> (c_is_call msg \<and> c_member msg = m_name m) then method_loop E conn msg f ms st
      else if check_experimental (global_flags st) (m_flags m) METHOD_FLAG_EXPERIMENTAL
      then Some (NotYetHandled, st)
      else if \<not> g_dbus_args_have_signature (m_in_args m) (items_sig (c_body msg))
      then method_loop E conn msg f ms st
      else (case check_privilege E conn msg m (if_user_data f) st of
              None \<Rightarrow> None
            | Some (True, st1) \<Rightarrow> Some (Handled, st1)
            | Some (False, st1) \<Rightarrow> process_message E conn msg m (if_user_data f) st1))"

definition generic_message ::
  "obj_env \<Rightarrow> nat \<Rightarrow> call_msg \<Rightarrow> nat \<Rightarrow> obj_state \<Rightarrow> (handler_result \<times> obj_state) option"
where
  "generic_message E conn msg r st = do {
     d \<leftarrow> heap st r;
     case find_interface (g_interfaces d) (c_interface msg) of
       None \<Rightarrow> Some (NotYetHandled, st)
     | Some f \<Rightarrow> method_loop E conn msg f (if_methods f) st
   }"

section \<open>Signals of the program\<close>

definition g_dbus_emit_signal ::
  "obj_env \<Rightarrow> nat \<Rightarrow> string \<Rightarrow> string \<Rightarrow> string \<Rightarrow> ditem list \<Rightarrow> obj_state \<Rightarrow> (bool \<times> obj_state) option"
where
  "g_dbus_emit_signal E conn path interface name body st = do {
     found \<leftarrow> check_signal E conn path interface name st;
     case found of
       None \<Rightarrow> Some (False, st)
     | Some args \<Rightarrow>
         (let (ok, st1) = new_msg E st in
          if \<not> ok then Some (False, st1)
          else let (ok, st2) = new_msg E st1 in
            if \<not> ok then Some (False, st2)
            else if \<not> g_dbus_args_have_signature args (items_sig body) then Some (False, st2)
            else g_dbus_send_message E conn (SignalMsg path interface name body) st2)
   }"

definition g_dbus_emit_property_changed ::
  "nat \<Rightarrow> string option \<Rightarrow> string \<Rightarrow> string \<Rightarrow> obj_state \<Rightarrow> obj_state option"
where
  "g_dbus_emit_property_changed conn path interface name st =
     (case Option.bind path (\<lambda>p. path_data conn p st) of
        None \<Rightarrow> Some st
      | Some r \<Rightarrow> do {
          d \<leftarrow> heap st r;
          case find_interface (g_interfaces d) (Some interface) of
            None \<Rightarrow> Some st
          | Some f \<Rightarrow>
              if root st \<noteq> None \<and> if_ref f \<in> set (g_added d) then Some st
              else (case find_property (global_flags st) (properties_of f) name of
                      None \<Rightarrow> Some st
                    | Some p \<Rightarrow>
                        if p \<in> set (if_pending f) then Some st
                        else add_pending r (put_data r
                               ((set_iface (f\<lparr>if_pending := p # if_pending f\<rparr>) d)\<lparr>g_pending_prop := True\<rparr>) st))
        })"

definition g_dbus_get_properties ::
  "obj_env \<Rightarrow> nat \<Rightarrow> string option \<Rightarrow> string \<Rightarrow> ditem list \<Rightarrow> obj_state \<Rightarrow> ditem list option option"
where
  \<comment> \<open>what the iterator holds afterwards, the inner \<open>None\<close> for FALSE\<close>
  "g_dbus_get_properties E conn path interface it st =
     (case Option.bind path (\<lambda>p. path_data conn p st) of
        None \<Rightarrow> Some None
      | Some r \<Rightarrow> do {
          d \<leftarrow> heap st r;
          Some (case find_interface (g_interfaces d) (Some interface) of
                  None \<Rightarrow> None
                | Some f \<Rightarrow> Some (it @ [append_properties E (global_flags st) f]))
        })"

definition obj_start :: obj_state where
  "obj_start =
     \<lparr>global_flags = 0, root = None, pending_data = [], heap = (\<lambda>_. None), next_object = 0,
      next_interface = 0, paths = gh_empty, next_pending = 1, pending_security = [],
      security_tab = None, next_pending_property = 1, pending_property_set = [], outbox = [],
      runs = [], ticks = 0\<rparr>"

end
