(* ===== verification/Gdbus_Object_Props.thy ===== *)
theory Gdbus_Object_Props
  imports Gdbus_Object_Calls
begin

text \<open>
  Properties of \<open>gdbus/object.c\<close>: signatures and typing of the standard messages, what a
  message flushes before it, privileged methods, and the changes of properties that are lost.
\<close>

section \<open>A small program\<close>

definition demo_obj_env :: obj_env where
  "demo_obj_env =
     \<lparr>doctype = [], no_memory = (\<lambda>_. False), cannot_send = (\<lambda>_. False),
      cannot_register = (\<lambda>_. False), children_of = (\<lambda>_ _ _. None),
      getter = (\<lambda>_ _. (True, [Basic (DBoolean True)])), is_there = (\<lambda>_ _. True),
      method_answer = (\<lambda>_ _ _. None), polkit_fails = (\<lambda>_. False), gdbus_experimental = False\<rparr>"

definition demo_methods :: "method_table list" where
  "demo_methods = [\<lparr>m_name = ''Do'', m_function = Some (ClientMethod 1), m_flags = 0, m_privilege = 0,
     m_in_args = [], m_out_args = []\<rparr>]"

definition demo_register :: "string \<Rightarrow> obj_state \<Rightarrow> obj_state option" where
  "demo_register path st = map_option snd
     (g_dbus_register_interface demo_obj_env 1 path ''a.b'' demo_methods [] None (ClientData 0) None st)"

definition demo_unregister :: "string \<Rightarrow> obj_state \<Rightarrow> obj_state option" where
  "demo_unregister path st = map_option snd (g_dbus_unregister_interface demo_obj_env 1 (Some path) ''a.b'' st)"

definition demo_list :: "call_msg" where
  "demo_list = \<lparr>c_is_call = True, c_serial = 1, c_path = ''/'', c_interface = Some manager_interface,
     c_member = ''GetManagedObjects'', c_body = []\<rparr>"


text \<open>A new object, before it is linked into the tree.\<close>

definition fresh_object :: "obj_env \<Rightarrow> nat \<Rightarrow> string \<Rightarrow> generic_data" where
  "fresh_object E conn path =
     \<lparr>g_refcount = 1, g_conn = conn, g_path = path, g_interfaces = [], g_objects = [],
      g_added = [], g_removed = [], g_process = False, g_pending_prop = False,
      g_introspect = Some (doctype E @ ''<node></node>''), g_parent = None\<rparr>"

section \<open>Signatures\<close>

lemma eat_signature_prefix: "eat_signature (p @ sg) p = Some (sg, [])"
proof (induction p)
  case Nil
  show ?case by (cases sg) simp_all
qed simp

lemma eat_signature_common:
  "eat_signature sg p = Some (sg', p') \<Longrightarrow>
     \<exists>common. sg = common @ sg' \<and> p = common @ p' \<and> (sg' = [] \<or> p' = [])"
proof (induction sg p rule: eat_signature.induct)
  case (1 c sg x p)
  then have "x = c" "eat_signature sg p = Some (sg', p')" by (simp_all split: if_splits)
  with 1(1) obtain common where "sg = common @ sg'" "p = common @ p'" "sg' = [] \<or> p' = []" by blast
  with \<open>x = c\<close> have "c # sg = (c # common) @ sg' \<and> x # p = (c # common) @ p' \<and> (sg' = [] \<or> p' = [])"
    by simp
  then show ?case by blast
qed simp_all

lemma args_loop_spec:
  "\<forall>a\<in>set args. arg_signature a \<noteq> [] \<Longrightarrow> sg = [] \<or> p = [] \<Longrightarrow>
     args_loop args sg p \<longleftrightarrow> p = [] \<and> sg = concat (map arg_signature args)"
proof (induction args sg p rule: args_loop.induct)
  case (2 a args sg p)
  show ?case
  proof (cases "sg = []")
    case False
    then have p: "p = []" using 2(3) by simp
    show ?thesis
    proof (cases "eat_signature sg (arg_signature a)")
      case None
      have "sg \<noteq> arg_signature a @ concat (map arg_signature args)"
        using None eat_signature_prefix by fastforce
      with None False show ?thesis by simp
    next
      case (Some x)
      obtain sg' p' where x: "x = (sg', p')" by (cases x)
      obtain common where e: "sg = common @ sg'" "arg_signature a = common @ p'" "sg' = [] \<or> p' = []"
        using Some x eat_signature_common by blast
      have IH: "args_loop args sg' p' \<longleftrightarrow> p' = [] \<and> sg' = concat (map arg_signature args)"
        using 2(1)[OF False Some x[symmetric]] 2(2) e(3) by simp
      have "args_loop (a # args) sg p = args_loop args sg' p'" using False Some x by simp
      with IH e p show ?thesis by auto
    qed
  qed (use 2(2) in auto)
qed auto

text \<open>
  \<open>g_dbus_args_have_signature\<close>, which compares character by character across the table of
  arguments, decides whether the signature of the message is the concatenation of those of the
  arguments. (No argument has an empty signature.)
\<close>

lemma args_have_signature_concat:
  assumes "\<forall>a\<in>set args. arg_signature a \<noteq> []"
  shows "g_dbus_args_have_signature args sg \<longleftrightarrow> sg = concat (map arg_signature args)"
  using args_loop_spec[OF assms] by (simp add: g_dbus_args_have_signature_def)

section \<open>Typing of the standard messages\<close>

definition well_typed_getters :: "obj_env \<Rightarrow> interface_data \<Rightarrow> property_table list \<Rightarrow> bool" where
  "well_typed_getters E f ps \<longleftrightarrow>
     (\<forall>p\<in>set ps. \<forall>get. p_get p = Some get \<longrightarrow>
        (\<exists>i. snd (getter E get (if_user_data f)) = [i] \<and> wt_item i \<and> \<not> is_dict_entry i \<and> item_sig i = p_type p))"

lemma append_property_typed:
  assumes "well_typed_getters E f ps" and "p \<in> set ps" and "p_get p = Some get"
  shows "wt_item (append_property E f p get) \<and> item_sig (append_property E f p get) = ''{sv}''"
  using assms by (fastforce simp: well_typed_getters_def append_property_def)

lemma append_properties_typed:
  assumes "well_typed_getters E f (properties_of f)"
  shows "wt_item (append_properties E global f) \<and> item_sig (append_properties E global f) = ''a{sv}''"
proof -
  have "list_all (\<lambda>i. wt_item i \<and> item_sig i = ''{sv}'') (append_properties_loop E global f ps)"
    if "set ps \<subseteq> set (properties_of f)" for ps
    using that
  proof (induction ps)
    case (Cons p ps)
    with append_property_typed[OF assms, of p] show ?case
      by (simp del: wt_item.simps item_sig.simps split: option.split)
  qed simp
  then show ?thesis by (simp add: append_properties_def)
qed

lemma append_interface_typed:
  assumes "well_typed_getters E f (properties_of f)"
  shows "wt_item (append_interface E global f) \<and> item_sig (append_interface E global f) = ''{sa{sv}}''"
  using append_properties_typed[OF assms, of global]
  by (simp add: append_interface_def append_properties_def)

lemma changed_properties_typed:
  assumes "well_typed_getters E f ps" and "list_all (\<lambda>i. wt_item i \<and> item_sig i = ''{sv}'') dict"
  shows "list_all (\<lambda>i. wt_item i \<and> item_sig i = ''{sv}'') (fst (changed_properties E f ps (dict, invs)))"
  using assms
proof (induction ps arbitrary: dict invs)
  case (Cons p ps)
  have ps: "well_typed_getters E f ps" using Cons.prems(1) by (simp add: well_typed_getters_def)
  show ?case
  proof (cases "p_get p")
    case None
    with Cons.IH[OF ps Cons.prems(2)] show ?thesis by simp
  next
    case (Some get)
    have "list_all (\<lambda>i. wt_item i \<and> item_sig i = ''{sv}'') (dict @ [append_property E f p get])"
      using Cons.prems(2) append_property_typed[OF Cons.prems(1) _ Some] by simp
    from Cons.IH[OF ps this] Cons.IH[OF ps Cons.prems(2)] Some show ?thesis by simp
  qed
qed simp

lemma changed_body_typed:
  assumes "well_typed_getters E f (if_pending f)"
  shows "wt_body (changed_body E f) \<and> items_sig (changed_body E f) = ''sa{sv}as''"
proof -
  obtain dict invs where c: "changed_properties E f (rev (if_pending f)) ([], []) = (dict, invs)"
    by (cases "changed_properties E f (rev (if_pending f)) ([], [])")
  have "well_typed_getters E f (rev (if_pending f))" using assms by (simp add: well_typed_getters_def)
  from changed_properties_typed[OF this, of "[]" "[]"] c
  have "list_all (\<lambda>i. wt_item i \<and> item_sig i = ''{sv}'') dict" by simp
  moreover have "list_all (\<lambda>i. wt_item i \<and> item_sig i = ''s'') (map (\<lambda>n. Basic (DString n)) invs)"
    by (simp add: list_all_iff)
  ultimately show ?thesis by (simp add: changed_body_def c wt_body_def)
qed

text \<open>The signature a table entry declares for a message.\<close>

definition declared :: "arg_info list \<Rightarrow> string" where
  "declared args = concat (map arg_signature args)"

text \<open>
  What the library sends about properties is well-typed and has the signature its own
  tables declare: the changed properties of an interface, and the answer of \<open>GetAll\<close>. (Each
  getter of the interface is taken to append one value of the type of its property.)
\<close>

lemma property_messages_typed:
  assumes "well_typed_getters E f (properties_of f)" and "set (if_pending f) \<subseteq> set (properties_of f)"
  shows "wt_body (changed_body E f) \<and> items_sig (changed_body E f) = declared (s_args (properties_signals ! 0))
    \<and> wt_body [append_properties E global f]
    \<and> items_sig [append_properties E global f] = declared (m_out_args (properties_methods ! 2))"
proof -
  have "well_typed_getters E f (if_pending f)" using assms unfolding well_typed_getters_def by blast
  from changed_body_typed[OF this] append_properties_typed[OF assms(1), of global] show ?thesis
    by (simp add: declared_def properties_signals_def properties_methods_def wt_body_def
        append_properties_def)
qed

definition demo_property :: property_table where
  "demo_property = \<lparr>p_name = ''Powered'', p_type = ''b'', p_get = Some 1, p_set = None, p_exists = None, p_flags = 0\<rparr>"

definition demo_interface :: "nat \<Rightarrow> string \<Rightarrow> interface_data" where
  "demo_interface i name = \<lparr>if_ref = i, if_name = name, if_methods = demo_methods, if_signals = [],
     if_properties = Some [demo_property], if_pending = [demo_property], if_user_data = ClientData 0,
     if_destroy = None\<rparr>"

section \<open>Changes of properties\<close>

lemma find_if_ref: "distinct (map if_ref fs) \<Longrightarrow> f \<in> set fs \<Longrightarrow> find (\<lambda>e. if_ref e = if_ref f) fs = Some f"
  by (induction fs) auto

lemma find_name: "distinct (map if_name fs) \<Longrightarrow> f \<in> set fs \<Longrightarrow> find (\<lambda>e. if_name f = if_name e) fs = Some f"
proof (induction fs)
  case (Cons e fs)
  show ?case
  proof (cases "f = e")
    case False
    with Cons.prems have "f \<in> set fs" by simp
    with Cons.prems(1) have "if_name f \<noteq> if_name e" by (metis distinct.simps(2) image_eqI list.set_map list.simps(9))
    with Cons \<open>f \<in> set fs\<close> show ?thesis by simp
  qed simp
qed simp

lemma heap_put_data [simp]: "heap (put_data r d st) = (heap st)(r \<mapsto> d)"
  by (simp add: put_data_def)

lemma put_data_frame [simp]:
  "paths (put_data r d st) = paths st" "root (put_data r d st) = root st"
  "global_flags (put_data r d st) = global_flags st" "outbox (put_data r d st) = outbox st"
  "pending_data (put_data r d st) = pending_data st" "runs (put_data r d st) = runs st"
  "ticks (put_data r d st) = ticks st" "path_data c p (put_data r d st) = path_data c p st"
  "pending_security (put_data r d st) = pending_security st"
  "next_object (put_data r d st) = next_object st" "next_interface (put_data r d st) = next_interface st"
  by (simp_all add: put_data_def path_data_def)

lemma new_msg_frame [simp]:
  "heap (snd (new_msg E st)) = heap st" "paths (snd (new_msg E st)) = paths st"
  "root (snd (new_msg E st)) = root st" "global_flags (snd (new_msg E st)) = global_flags st"
  "outbox (snd (new_msg E st)) = outbox st" "pending_data (snd (new_msg E st)) = pending_data st"
  "path_data c p (snd (new_msg E st)) = path_data c p st" "runs (snd (new_msg E st)) = runs st"
  "pending_security (snd (new_msg E st)) = pending_security st"
  by (simp_all add: new_msg_def path_data_def)

lemma dbus_send_frame [simp]:
  "heap (snd (dbus_connection_send E c m st)) = heap st"
  "paths (snd (dbus_connection_send E c m st)) = paths st"
  "root (snd (dbus_connection_send E c m st)) = root st"
  "global_flags (snd (dbus_connection_send E c m st)) = global_flags st"
  "pending_data (snd (dbus_connection_send E c m st)) = pending_data st"
  "path_data k p (snd (dbus_connection_send E c m st)) = path_data k p st"
  "runs (snd (dbus_connection_send E c m st)) = runs st"
  "pending_security (snd (dbus_connection_send E c m st)) = pending_security st"
  by (simp_all add: dbus_connection_send_def path_data_def Let_def)

lemma run_client_frame [simp]:
  "heap (run_client x st) = heap st" "paths (run_client x st) = paths st"
  "root (run_client x st) = root st" "global_flags (run_client x st) = global_flags st"
  "path_data k p (run_client x st) = path_data k p st" "outbox (run_client x st) = outbox st"
  "pending_data (run_client x st) = pending_data st"
  "pending_security (run_client x st) = pending_security st"
  by (simp_all add: run_client_def path_data_def)

lemma process_properties_effect:
  assumes "process_properties_from_interface E r i st = Some st'" and "heap st r = Some d"
    and "find_iface i d = Some f"
  shows "\<exists>ps. heap st' = (heap st)(r \<mapsto> set_iface (f\<lparr>if_pending := ps\<rparr>) (d\<lparr>g_pending_prop := False\<rparr>))
      \<or> heap st' = (heap st)(r \<mapsto> d\<lparr>g_pending_prop := False\<rparr>)"
    and "paths st' = paths st" "root st' = root st" "global_flags st' = global_flags st"
  using assms
  by (auto simp: process_properties_from_interface_def find_iface_def Let_def case_prod_beta
      split: if_splits)

lemma set_iface_map:
  "map if_ref (g_interfaces (set_iface f d)) = map if_ref (g_interfaces d)"
  by (simp add: set_iface_def comp_def if_distrib cong: if_cong)

lemma set_iface_other: "g \<in> set (g_interfaces d) \<Longrightarrow> if_ref g \<noteq> if_ref f \<Longrightarrow> g \<in> set (g_interfaces (set_iface f d))"
  by (force simp: set_iface_def)

lemma same_ref: "distinct (map if_ref fs) \<Longrightarrow> e \<in> set fs \<Longrightarrow> f \<in> set fs \<Longrightarrow> if_ref e = if_ref f \<Longrightarrow> e = f"
  by (metis distinct_map inj_on_eq_iff)

lemma set_iface_names:
  assumes "distinct (map if_ref (g_interfaces d))" and "f \<in> set (g_interfaces d)"
    and "if_ref f' = if_ref f" and "if_name f' = if_name f"
  shows "map if_name (g_interfaces (set_iface f' d)) = map if_name (g_interfaces d)"
proof -
  have "if_name (if if_ref e = if_ref f' then f' else e) = if_name e" if "e \<in> set (g_interfaces d)" for e
    using same_ref[OF assms(1) that assms(2)] assms(3,4) by auto
  then show ?thesis by (simp add: set_iface_def)
qed

lemma process_properties_other:
  assumes run: "process_properties_from_interface E r i st = Some st'" and d: "heap st r = Some d"
    and dist: "distinct (map if_ref (g_interfaces d))" and f: "f \<in> set (g_interfaces d)" "if_ref f = i"
  obtains d' where "heap st' = (heap st)(r \<mapsto> d')" "\<not> g_pending_prop d'" "g_added d' = g_added d"
    "g_parent d' = g_parent d" "map if_ref (g_interfaces d') = map if_ref (g_interfaces d)"
    "map if_name (g_interfaces d') = map if_name (g_interfaces d)"
    "\<And>g. g \<in> set (g_interfaces d) \<Longrightarrow> if_ref g \<noteq> i \<Longrightarrow> g \<in> set (g_interfaces d')"
proof -
  have find: "find_iface i d = Some f"
    using find_if_ref[OF dist f(1)] f(2) by (simp add: find_iface_def)
  from process_properties_effect(1)[OF run d find] show ?thesis
  proof (elim exE disjE)
    fix ps let ?f = "f\<lparr>if_pending := ps\<rparr>" and ?d = "d\<lparr>g_pending_prop := False\<rparr>"
    assume "heap st' = (heap st)(r \<mapsto> set_iface ?f ?d)"
    then show thesis
    proof (rule that)
      show "\<not> g_pending_prop (set_iface ?f ?d)" "g_added (set_iface ?f ?d) = g_added d"
        "g_parent (set_iface ?f ?d) = g_parent d"
        by (simp_all add: set_iface_def)
      show "map if_ref (g_interfaces (set_iface ?f ?d)) = map if_ref (g_interfaces d)"
        using set_iface_map[of ?f ?d] by simp
      show "map if_name (g_interfaces (set_iface ?f ?d)) = map if_name (g_interfaces d)"
        using set_iface_names[of ?d f ?f] dist f(1) by simp
    next
      fix g assume "g \<in> set (g_interfaces d)" "if_ref g \<noteq> i"
      then show "g \<in> set (g_interfaces (set_iface ?f ?d))" using set_iface_other[of g ?d ?f] f(2) by simp
    qed
  next
    assume "heap st' = (heap st)(r \<mapsto> d\<lparr>g_pending_prop := False\<rparr>)"
    then show thesis by (rule that) simp_all
  qed
qed

lemma add_pending_effect:
  assumes "add_pending r st = Some st'" and "heap st r = Some d"
  shows "heap st' = (heap st)(r \<mapsto> d\<lparr>g_process := True\<rparr>)" "paths st' = paths st" "root st' = root st"
    "global_flags st' = global_flags st"
  using assms by (auto simp: add_pending_def fun_upd_idem_iff split: if_splits)

lemma emit_known_change:
  assumes "path_data conn path st = Some r" and "heap st r = Some d" and "g \<in> set (g_interfaces d)"
    and "distinct (map if_name (g_interfaces d))" and "p \<in> set (if_pending g)"
    and "find_property (global_flags st) (properties_of g) (p_name p) = Some p"
  shows "g_dbus_emit_property_changed conn (Some path) (if_name g) (p_name p) st = Some st"
  using assms find_name[OF assms(4,3)]
  by (simp add: g_dbus_emit_property_changed_def find_interface_def)

text \<open>
  Removing an interface loses the changes of the properties of all other interfaces of the
  object: \<open>process_properties_from_interface\<close> clears the mark of the whole object, so these
  changes are not sent, and as they stay in the list of their interface, no later change of the
  same property is ever announced.
\<close>

lemma removal_loses_changes:
  assumes "heap st r = Some d" and "path_data conn path st = Some r"
    and "distinct (map if_ref (g_interfaces d))" and "distinct (map if_name (g_interfaces d))"
    and "f \<in> set (g_interfaces d)" and "g \<in> set (g_interfaces d)" and "if_ref g \<noteq> if_ref f"
    and "p \<in> set (if_pending g)"
    and "find_property (global_flags st) (properties_of g) (p_name p) = Some p"
    and "remove_interface E r (if_name f) st = Some (True, st')"
  shows "\<exists>d'. heap st' r = Some d' \<and> \<not> g_pending_prop d' \<and> g \<in> set (g_interfaces d')
    \<and> g_dbus_emit_property_changed conn (Some path) (if_name g) (p_name p) st' = Some st'"
proof -
  have f: "find_interface (g_interfaces d) (Some (if_name f)) = Some f"
    using find_name[OF assms(4,5)] by (simp add: find_interface_def)
  from assms(1,10) f obtain st1 where
    st1: "process_properties_from_interface E r (if_ref f) st = Some st1"
    by (auto simp: remove_interface_def bind_eq_Some_conv)
  have ff: "find_iface (if_ref f) d = Some f" using find_if_ref[OF assms(3,5)] by (simp add: find_iface_def)
  from process_properties_other[OF st1 assms(1,3,5) refl] obtain d1 where
    d1: "heap st1 = (heap st)(r \<mapsto> d1)" "\<not> g_pending_prop d1"
      "map if_name (g_interfaces d1) = map if_name (g_interfaces d)"
      "\<And>g. g \<in> set (g_interfaces d) \<Longrightarrow> if_ref g \<noteq> if_ref f \<Longrightarrow> g \<in> set (g_interfaces d1)"
    by blast
  define fs where "fs = filter (\<lambda>e. if_ref e \<noteq> if_ref f) (g_interfaces d1)"
  have "\<exists>d'. heap st' r = Some d' \<and> \<not> g_pending_prop d' \<and> g_interfaces d' = fs"
    and frame: "paths st' = paths st" "global_flags st' = global_flags st"
    using assms(1,10) f st1 d1(1,2) process_properties_effect(2,4)[OF st1 assms(1) ff]
    by (auto simp: remove_interface_def Let_def fs_def add_pending_def
        split: if_splits option.splits)
  then obtain d' where d': "heap st' r = Some d'" "\<not> g_pending_prop d'" "g_interfaces d' = fs" by blast
  have g: "g \<in> set fs" using d1(4)[OF assms(6,7)] assms(7) by (simp add: fs_def)
  have "distinct (map if_name fs)"
    unfolding fs_def using assms(4) d1(3) by (metis distinct_map_filter)
  then have "g_dbus_emit_property_changed conn (Some path) (if_name g) (p_name p) st' = Some st'"
    using emit_known_change[of conn path st' r d' g p] d' g assms(2,8,9) frame
    by (simp add: path_data_def)
  with d' g show ?thesis by blast
qed

text \<open>An object with two interfaces, each with a change that is not announced yet.\<close>

definition demo_changed :: obj_state where
  "demo_changed = obj_start\<lparr>paths := [((1, ''/a''), 0)], next_object := 1, next_interface := 2,
     pending_data := [0],
     heap := [0 \<mapsto> (fresh_object demo_obj_env 1 ''/a'')\<lparr>g_process := True, g_pending_prop := True,
       g_interfaces := [demo_interface 0 ''a.b'', demo_interface 1 ''c.d'']\<rparr>]\<rparr>"

end
