(* ===== verification/Gdbus_Object_Flush.thy ===== *)
theory Gdbus_Object_Flush
  imports Gdbus_Object_Props
begin

section \<open>What a message flushes\<close>

fun is_signal :: "obj_msg \<Rightarrow> bool" where
  "is_signal (SignalMsg _ _ _ _) = True"
| "is_signal _ = False"

text \<open>
  What the functions that send the collected changes have in common: they send signals of one
  connection and touch nothing else that is visible outside of an object.
\<close>

definition advances :: "nat \<Rightarrow> obj_state \<Rightarrow> obj_state \<Rightarrow> bool" where
  "advances c st st' \<longleftrightarrow>
     (\<exists>sigs. outbox st' = outbox st @ map (Pair c) sigs \<and> (\<forall>m\<in>set sigs. is_signal m))
     \<and> paths st' = paths st \<and> root st' = root st \<and> global_flags st' = global_flags st
     \<and> pending_security st' = pending_security st \<and> runs st' = runs st
     \<and> (\<forall>q. map_option g_conn (heap st' q) = map_option g_conn (heap st q))"

lemma advances_refl [simp]: "advances c st st"
  by (auto simp: advances_def intro: exI[of _ "[]"])

lemma advances_trans: "advances c st st' \<Longrightarrow> advances c st' st'' \<Longrightarrow> advances c st st''"
proof -
  assume a: "advances c st st'" and b: "advances c st' st''"
  from a obtain s1 where s1: "outbox st' = outbox st @ map (Pair c) s1" "\<forall>m\<in>set s1. is_signal m"
    by (auto simp: advances_def)
  from b obtain s2 where s2: "outbox st'' = outbox st' @ map (Pair c) s2" "\<forall>m\<in>set s2. is_signal m"
    by (auto simp: advances_def)
  have "outbox st'' = outbox st @ map (Pair c) (s1 @ s2) \<and> (\<forall>m\<in>set (s1 @ s2). is_signal m)"
    using s1 s2 by auto
  then have "\<exists>sigs. outbox st'' = outbox st @ map (Pair c) sigs \<and> (\<forall>m\<in>set sigs. is_signal m)" by blast
  with a b show ?thesis by (simp add: advances_def)
qed

lemma advances_put:
  "heap st r = Some d \<Longrightarrow> g_conn d' = g_conn d \<Longrightarrow> advances c st (put_data r d' st)"
  by (auto simp: advances_def intro: exI[of _ "[]"])

lemma advances_new_msg: "advances c st (snd (new_msg E st))"
  by (auto simp: advances_def intro: exI[of _ "[]"])

lemma advances_send: "is_signal m \<Longrightarrow> advances c st (snd (dbus_connection_send E c m st))"
  by (auto simp: advances_def dbus_connection_send_def Let_def intro: exI[of _ "[]"] exI[of _ "[m]"])

text \<open>Writing an object, then sending one signal for it.\<close>

lemma advances_signal:
  assumes "heap st r = Some d" and "g_conn d' = g_conn d" and "is_signal m" and "g_conn d = c"
  shows "advances c st (snd (dbus_connection_send E c m (put_data r d' (snd (new_msg E st)))))"
proof -
  have "heap (snd (new_msg E st)) r = Some d" using assms(1) by simp
  from advances_put[OF this assms(2)] advances_send[OF assms(3)] advances_new_msg show ?thesis
    by (meson advances_trans)
qed

lemma set_iface_conn [simp]: "g_conn (set_iface f d) = g_conn d"
  by (simp add: set_iface_def)

lemma process_properties_advances:
  assumes "process_properties_from_interface E r i st = Some st'" and "heap st r = Some d"
  shows "advances (g_conn d) st st' \<and> pending_data st' = pending_data st"
proof -
  let ?d = "d\<lparr>g_pending_prop := False\<rparr>" let ?st = "put_data r ?d st"
  have put: "advances (g_conn d) st ?st" by (rule advances_put[OF assms(2)]) simp
  have h: "heap ?st r = Some ?d" by simp
  have sig: "advances (g_conn d) ?st (snd (dbus_connection_send E (g_conn d) m
      (put_data r (set_iface f ?d) (snd (new_msg E ?st)))))" if "is_signal m" for f m
    by (rule advances_signal[OF h _ that]) simp_all
  from assms obtain f where "st' = ?st \<or> st' = snd (new_msg E ?st) \<or>
      st' = snd (dbus_connection_send E (g_conn d)
        (SignalMsg (g_path d) properties_interface ''PropertiesChanged'' (changed_body E f))
        (put_data r (set_iface (f\<lparr>if_pending := []\<rparr>) ?d) (snd (new_msg E ?st))))"
    by (auto simp: process_properties_from_interface_def Let_def bind_eq_Some_conv case_prod_beta
        split: if_splits)
  then show ?thesis
    using put advances_new_msg sig[of "SignalMsg (g_path d) properties_interface ''PropertiesChanged''
        (changed_body E f)" "f\<lparr>if_pending := []\<rparr>"] advances_trans[OF put]
    by (elim disjE) simp_all
qed

lemma process_interfaces_advances:
  "process_interfaces E r is st = Some st' \<Longrightarrow> heap st r = Some d \<Longrightarrow>
     advances (g_conn d) st st' \<and> pending_data st' = pending_data st"
proof (induction "is" arbitrary: st d)
  case (Cons i rest)
  then obtain st1 where st1: "process_properties_from_interface E r i st = Some st1"
    and rest: "process_interfaces E r rest st1 = Some st'"
    by (auto simp: bind_eq_Some_conv)
  note a = process_properties_advances[OF st1 Cons.prems(2)]
  then obtain d1 where d1: "heap st1 r = Some d1" "g_conn d1 = g_conn d"
    using Cons.prems(2) unfolding advances_def by (metis map_option_eq_Some option.simps(9))
  from Cons.IH[OF rest d1(1)] d1(2) a show ?case using advances_trans by metis
qed simp

lemma emit_added_advances:
  assumes "emit_interfaces_added E r st = Some st'" and "heap st r = Some d"
  shows "advances (g_conn d) st st' \<and> pending_data st' = pending_data st"
proof -
  from assms consider "st' = st" | "st' = snd (new_msg E st)"
    | p body where "st' = snd (dbus_connection_send E (g_conn d)
        (SignalMsg p manager_interface ''InterfacesAdded'' body)
        (put_data r (d\<lparr>g_added := []\<rparr>) (snd (new_msg E st))))"
    by (auto simp: emit_interfaces_added_def Let_def bind_eq_Some_conv case_prod_beta
        split: option.splits if_splits)
  then show ?thesis
  proof cases
    case 3
    have "advances (g_conn d) st st'"
      unfolding 3 by (rule advances_signal[OF assms(2)]) simp_all
    with 3 show ?thesis by simp
  qed (simp_all add: advances_new_msg)
qed

lemma emit_removed_advances:
  assumes "emit_interfaces_removed E r st = Some st'" and "heap st r = Some d"
  shows "advances (g_conn d) st st' \<and> pending_data st' = pending_data st"
proof -
  from assms consider "st' = st" | "st' = snd (new_msg E st)"
    | p body where "st' = snd (dbus_connection_send E (g_conn d)
        (SignalMsg p manager_interface ''InterfacesRemoved'' body)
        (put_data r (d\<lparr>g_removed := []\<rparr>) (snd (new_msg E st))))"
    by (auto simp: emit_interfaces_removed_def Let_def bind_eq_Some_conv case_prod_beta
        split: option.splits if_splits)
  then show ?thesis
  proof cases
    case 3
    have "advances (g_conn d) st st'"
      unfolding 3 by (rule advances_signal[OF assms(2)]) simp_all
    with 3 show ?thesis by simp
  qed (simp_all add: advances_new_msg)
qed

lemma advances_conn:
  "advances c st st' \<Longrightarrow> heap st r = Some d \<Longrightarrow> \<exists>d'. heap st' r = Some d' \<and> g_conn d' = g_conn d"
  unfolding advances_def by (metis map_option_eq_Some option.simps(9))

lemma process_changes_advances:
  assumes "process_changes E r st = Some st'" and "heap st r = Some d"
  shows "advances (g_conn d) st st' \<and> pending_data st' = remove1 r (pending_data st)"
proof -
  let ?st1 = "put_data r (d\<lparr>g_process := False\<rparr>) (st\<lparr>pending_data := g_slist_remove (pending_data st) r\<rparr>)"
  have a1: "advances (g_conn d) st ?st1"
    using assms(2) by (auto simp: advances_def intro: exI[of _ "[]"])
  from assms obtain d1 st2 d2 st3 d3 where
    d1: "heap ?st1 r = Some d1" and
    st2: "(if g_added d1 \<noteq> [] then emit_interfaces_added E r ?st1 else Some ?st1) = Some st2" and
    d2: "heap st2 r = Some d2" and
    st3: "(if g_pending_prop d2 then process_property_changes E r st2 else Some st2) = Some st3" and
    d3: "heap st3 r = Some d3" and
    st4: "(if g_removed d3 \<noteq> [] then emit_interfaces_removed E r st3 else Some st3) = Some st'"
    by (auto simp only: process_changes_def remove_pending_def bind_eq_Some_conv option.sel
        option.inject Option.bind.simps)
  have "d1 = d\<lparr>g_process := False\<rparr>" using d1 by simp
  then have c1: "g_conn d1 = g_conn d" by simp
  have s2: "advances (g_conn d) ?st1 st2 \<and> pending_data st2 = pending_data ?st1"
    using st2 emit_added_advances[OF _ d1, of E st2] c1 by (auto split: if_splits)
  have c2: "g_conn d2 = g_conn d" using advances_conn[OF conjunct1[OF s2] d1] d2 c1 by simp
  have s3: "advances (g_conn d) st2 st3 \<and> pending_data st3 = pending_data st2"
    using st3 process_interfaces_advances[OF _ d2] c2 d2
    by (auto simp: process_property_changes_def split: if_splits)
  have c3: "g_conn d3 = g_conn d" using advances_conn[OF conjunct1[OF s3] d2] d3 c2 by simp
  have s4: "advances (g_conn d) st3 st' \<and> pending_data st' = pending_data st3"
    using st4 emit_removed_advances[OF _ d3] c3 by (auto split: if_splits)
  from a1 s2 s3 s4 show ?thesis by (simp, meson advances_trans)
qed

section \<open>Which signals an object announces\<close>

text \<open>
  The specification: what the changes collected in an object are announced by. The interfaces
  added and removed are announced at the path of the object manager, unless there is none or the
  object is its own; the changed properties by one signal per interface that has any.
\<close>

definition reliable :: "obj_env \<Rightarrow> bool" where
  "reliable E \<longleftrightarrow> (\<forall>t. \<not> no_memory E t \<and> \<not> cannot_send E t)"

definition manager_path :: "obj_state \<Rightarrow> nat \<Rightarrow> string option" where
  "manager_path st r =
     (case root st of
        None \<Rightarrow> None
      | Some rt \<Rightarrow> if r = rt then None else map_option g_path (heap st rt))"

definition added_signal :: "obj_env \<Rightarrow> 32 word \<Rightarrow> string option \<Rightarrow> generic_data \<Rightarrow> obj_msg list" where
  "added_signal E global at d =
     (case (at, look_up_all d (g_added d)) of
        (Some p, Some fs) \<Rightarrow>
          (if fs = [] then []
           else [SignalMsg p manager_interface ''InterfacesAdded''
                   [Basic (DObjectPath (g_path d)), DArray ''{sa{sv}}'' (map (append_interface E global) fs)]])
      | _ \<Rightarrow> [])"

definition changed_signal :: "obj_env \<Rightarrow> generic_data \<Rightarrow> interface_data \<Rightarrow> obj_msg" where
  "changed_signal E d f = SignalMsg (g_path d) properties_interface ''PropertiesChanged'' (changed_body E f)"

definition changed_signals :: "obj_env \<Rightarrow> generic_data \<Rightarrow> obj_msg list" where
  "changed_signals E d =
     (if g_pending_prop d
      then map (changed_signal E d) (filter (\<lambda>f. if_pending f \<noteq> []) (g_interfaces d)) else [])"

definition removed_signal :: "string option \<Rightarrow> generic_data \<Rightarrow> obj_msg list" where
  "removed_signal at d =
     (case at of
        None \<Rightarrow> []
      | Some p \<Rightarrow>
          (if g_removed d = [] then []
           else [SignalMsg p manager_interface ''InterfacesRemoved''
                   [Basic (DObjectPath (g_path d)), DArray ''s'' (map (\<lambda>n. Basic (DString n)) (g_removed d))]]))"

definition announcements :: "obj_env \<Rightarrow> obj_state \<Rightarrow> nat \<Rightarrow> obj_msg list" where
  "announcements E st r =
     (case heap st r of
        None \<Rightarrow> []
      | Some d \<Rightarrow> added_signal E (global_flags st) (manager_path st r) d @ changed_signals E d
                  @ removed_signal (manager_path st r) d)"

text \<open>What stays the same while an object is processed.\<close>

definition only_object :: "nat \<Rightarrow> obj_state \<Rightarrow> obj_state \<Rightarrow> bool" where
  "only_object r st st' \<longleftrightarrow> root st' = root st \<and> global_flags st' = global_flags st
     \<and> (\<forall>q. q \<noteq> r \<longrightarrow> heap st' q = heap st q)
     \<and> map_option g_path (heap st' r) = map_option g_path (heap st r)
     \<and> map_option g_conn (heap st' r) = map_option g_conn (heap st r)"

lemma only_object_trans: "only_object r a b \<Longrightarrow> only_object r b c \<Longrightarrow> only_object r a c"
  by (simp add: only_object_def)

lemma only_object_path: "only_object r st st' \<Longrightarrow> manager_path st' q = manager_path st q"
proof -
  assume oo: "only_object r st st'"
  have "map_option g_path (heap st' x) = map_option g_path (heap st x)" for x
    using oo by (cases "x = r") (simp_all add: only_object_def)
  with oo show ?thesis by (simp add: manager_path_def only_object_def split: option.split)
qed

lemma only_object_announcements:
  "only_object r st st' \<Longrightarrow> q \<noteq> r \<Longrightarrow> announcements E st' q = announcements E st q"
proof -
  assume oo: "only_object r st st'" and "q \<noteq> r"
  then have "heap st' q = heap st q" "global_flags st' = global_flags st" by (simp_all add: only_object_def)
  with only_object_path[OF oo] show ?thesis by (simp add: announcements_def split: option.split)
qed

lemma look_up_all_frame [simp]: "look_up_all (d\<lparr>g_process := b\<rparr>) is = look_up_all d is"
  by (induction "is") (simp_all add: find_iface_def)

lemma look_up_all_nil: "look_up_all d is = Some fs \<Longrightarrow> fs = [] \<longleftrightarrow> is = []"
  by (cases "is") (auto simp: bind_eq_Some_conv)

text \<open>The three parts of \<open>process_changes\<close>.\<close>

lemma emit_added_says:
  assumes "reliable E" and "emit_interfaces_added E r st = Some st'" and "heap st r = Some d" and "g_added d \<noteq> []"
  shows "outbox st' = outbox st @ map (Pair (g_conn d)) (added_signal E (global_flags st) (manager_path st r) d)
    \<and> only_object r st st' \<and> pending_data st' = pending_data st
    \<and> (\<exists>xs. heap st' r = Some (d\<lparr>g_added := xs\<rparr>))"
proof (cases "manager_path st r")
  case None
  with assms(2,3) have "st' = st"
    by (auto simp: emit_interfaces_added_def manager_path_def bind_eq_Some_conv split: option.splits if_splits)
  moreover have "\<exists>xs. d = d\<lparr>g_added := xs\<rparr>" by (rule exI[of _ "g_added d"]) simp
  ultimately show ?thesis using None assms(3) by (simp add: added_signal_def only_object_def)
next
  case (Some p)
  then obtain rt rd where rt: "root st = Some rt" "r \<noteq> rt" "heap st rt = Some rd" "g_path rd = p"
    by (auto simp: manager_path_def split: option.splits if_splits)
  from assms(2,3) rt(1-3) obtain fs where fs: "look_up_all d (g_added d) = Some fs"
    by (auto simp: emit_interfaces_added_def bind_eq_Some_conv)
  have st': "st' = (put_data r (d\<lparr>g_added := []\<rparr>) st)\<lparr>ticks := Suc (Suc (ticks st)), outbox := outbox st @
      [(g_conn d, SignalMsg p manager_interface ''InterfacesAdded''
         [Basic (DObjectPath (g_path d)), DArray ''{sa{sv}}'' (map (append_interface E (global_flags st)) fs)])]\<rparr>"
    using assms(1-3) rt fs
    by (simp add: emit_interfaces_added_def new_msg_def dbus_connection_send_def reliable_def put_data_def Let_def)
  from fs assms(4) have "fs \<noteq> []" by (simp add: look_up_all_nil)
  then show ?thesis using Some fs assms(3)
    by (simp add: st' added_signal_def only_object_def put_data_def) blast
qed

lemma emit_removed_says:
  assumes "reliable E" and "emit_interfaces_removed E r st = Some st'" and "heap st r = Some d" and "g_removed d \<noteq> []"
  shows "outbox st' = outbox st @ map (Pair (g_conn d)) (removed_signal (manager_path st r) d)
    \<and> only_object r st st' \<and> pending_data st' = pending_data st"
proof (cases "manager_path st r")
  case None
  with assms(2,3) have "st' = st"
    by (auto simp: emit_interfaces_removed_def manager_path_def bind_eq_Some_conv split: option.splits if_splits)
  then show ?thesis using None by (simp add: removed_signal_def only_object_def)
next
  case (Some p)
  then obtain rt rd where rt: "root st = Some rt" "r \<noteq> rt" "heap st rt = Some rd" "g_path rd = p"
    by (auto simp: manager_path_def split: option.splits if_splits)
  have "st' = (put_data r (d\<lparr>g_removed := []\<rparr>) st)\<lparr>ticks := Suc (Suc (ticks st)), outbox := outbox st @
      [(g_conn d, SignalMsg p manager_interface ''InterfacesRemoved''
         [Basic (DObjectPath (g_path d)), DArray ''s'' (map (\<lambda>n. Basic (DString n)) (g_removed d))])]\<rparr>"
    using assms(1-3) rt
    by (simp add: emit_interfaces_removed_def new_msg_def dbus_connection_send_def reliable_def put_data_def Let_def)
  then show ?thesis using Some assms(3,4) by (simp add: removed_signal_def only_object_def put_data_def)
qed

lemma find_set_iface: "i \<noteq> if_ref f \<Longrightarrow> find_iface i (set_iface f d) = find_iface i d"
proof -
  assume i: "i \<noteq> if_ref f"
  have "find (\<lambda>g. if_ref g = i) (map (\<lambda>e. if if_ref e = if_ref f then f else e) es) = find (\<lambda>g. if_ref g = i) es" for es
    using i by (induction es) auto
  then show ?thesis by (simp add: find_iface_def set_iface_def)
qed

text \<open>One interface: its signal, if properties of it have changed.\<close>

definition iface_signals :: "obj_env \<Rightarrow> generic_data \<Rightarrow> nat \<Rightarrow> obj_msg list" where
  "iface_signals E d i =
     (case find_iface i d of
        None \<Rightarrow> [] | Some f \<Rightarrow> if if_pending f = [] then [] else [changed_signal E d f])"

lemma process_properties_says:
  assumes "reliable E" and "process_properties_from_interface E r i st = Some st'" and "heap st r = Some d"
  shows "outbox st' = outbox st @ map (Pair (g_conn d)) (iface_signals E d i)
    \<and> only_object r st st' \<and> pending_data st' = pending_data st
    \<and> (\<exists>d'. heap st' r = Some d' \<and> g_removed d' = g_removed d \<and> g_path d' = g_path d \<and> g_conn d' = g_conn d
         \<and> (\<forall>j. j \<noteq> i \<longrightarrow> find_iface j d' = find_iface j d))"
proof -
  let ?d = "d\<lparr>g_pending_prop := False\<rparr>"
  have fi: "find_iface j ?d = find_iface j d" for j by (simp add: find_iface_def)
  from assms(2,3) obtain f where f: "find_iface i d = Some f"
    by (auto simp: process_properties_from_interface_def bind_eq_Some_conv Let_def fi)
  then have ref: "if_ref f = i" by (auto simp: find_iface_def find_Some_iff)
  show ?thesis
  proof (cases "if_pending f = []")
    case True
    with assms(2,3) f have "st' = put_data r ?d st"
      by (simp add: process_properties_from_interface_def fi Let_def)
    then show ?thesis using f True assms(3)
      by (simp add: iface_signals_def only_object_def put_data_def fi)
  next
    case False
    let ?d' = "set_iface (f\<lparr>if_pending := []\<rparr>) ?d"
    have st': "st' = (put_data r ?d' st)\<lparr>ticks := Suc (Suc (ticks st)), outbox := outbox st @
        [(g_conn d, changed_signal E d f)]\<rparr>"
      using assms f False
      by (simp add: process_properties_from_interface_def fi Let_def new_msg_def dbus_connection_send_def
          reliable_def put_data_def changed_signal_def)
    have "find_iface j ?d' = find_iface j d" if "j \<noteq> i" for j
      using find_set_iface[of j "f\<lparr>if_pending := []\<rparr>" ?d] that ref fi by simp
    moreover have "g_removed ?d' = g_removed d" "g_path ?d' = g_path d" "g_conn ?d' = g_conn d"
      by (simp_all add: set_iface_def)
    ultimately show ?thesis using f False assms(3)
      by (simp add: st' iface_signals_def only_object_def put_data_def)
  qed
qed

lemma iface_signals_cong:
  "find_iface i d' = find_iface i d \<Longrightarrow> g_path d' = g_path d \<Longrightarrow> iface_signals E d' i = iface_signals E d i"
  by (simp add: iface_signals_def changed_signal_def split: option.split)

lemma process_interfaces_say:
  "process_interfaces E r is st = Some st' \<Longrightarrow> reliable E \<Longrightarrow> distinct is \<Longrightarrow> heap st r = Some d \<Longrightarrow>
     outbox st' = outbox st @ map (Pair (g_conn d)) (concat (map (iface_signals E d) is))
     \<and> only_object r st st' \<and> pending_data st' = pending_data st
     \<and> (\<exists>d'. heap st' r = Some d' \<and> g_removed d' = g_removed d \<and> g_path d' = g_path d \<and> g_conn d' = g_conn d)"
proof (induction "is" arbitrary: st d)
  case Nil
  then show ?case by (simp add: only_object_def)
next
  case (Cons i rest)
  from Cons.prems(1) obtain st1 where st1: "process_properties_from_interface E r i st = Some st1"
    and rest: "process_interfaces E r rest st1 = Some st'" by (auto simp: bind_eq_Some_conv)
  from process_properties_says[OF Cons.prems(2) st1 Cons.prems(4)] obtain d1 where
    s1: "outbox st1 = outbox st @ map (Pair (g_conn d)) (iface_signals E d i)" "only_object r st st1"
      "pending_data st1 = pending_data st"
    and d1: "heap st1 r = Some d1" "g_removed d1 = g_removed d" "g_path d1 = g_path d" "g_conn d1 = g_conn d"
      "\<And>j. j \<noteq> i \<Longrightarrow> find_iface j d1 = find_iface j d" by blast
  from Cons.prems(3) have dist: "distinct rest" "i \<notin> set rest" by simp_all
  have "map (iface_signals E d1) rest = map (iface_signals E d) rest"
    by (intro map_cong refl iface_signals_cong d1(3) d1(5)) (use dist(2) in auto)
  with Cons.IH[OF rest Cons.prems(2) dist(1) d1(1)] s1 d1(2-4) only_object_trans[OF s1(2)] show ?case by simp
qed

lemma concat_iface_signals:
  assumes "distinct (map if_ref (g_interfaces d))"
  shows "concat (map (iface_signals E d) (map if_ref (g_interfaces d)))
    = map (changed_signal E d) (filter (\<lambda>f. if_pending f \<noteq> []) (g_interfaces d))"
proof -
  have find: "find (\<lambda>e. if_ref e = if_ref f) es = Some f" if "f \<in> set es" "distinct (map if_ref es)" for f es
    using that by (induction es) auto
  have "iface_signals E d (if_ref f) = (if if_pending f \<noteq> [] then [changed_signal E d f] else [])"
    if "f \<in> set (g_interfaces d)" for f
    using find[OF that assms] by (simp add: iface_signals_def find_iface_def)
  moreover have "concat (map (\<lambda>f. if if_pending f \<noteq> [] then [changed_signal E d f] else []) es)
    = map (changed_signal E d) (filter (\<lambda>f. if_pending f \<noteq> []) es)" for es
    by (induction es) auto
  ultimately show ?thesis by (simp add: o_def cong: map_cong)
qed

lemma process_changes_announces:
  assumes rel: "reliable E" and run: "process_changes E r st = Some st'" and d: "heap st r = Some d"
    and refs: "distinct (map if_ref (g_interfaces d))"
  shows "outbox st' = outbox st @ map (Pair (g_conn d)) (announcements E st r)
    \<and> only_object r st st' \<and> pending_data st' = remove1 r (pending_data st)"
proof -
  let ?d = "d\<lparr>g_process := False\<rparr>"
  let ?st1 = "put_data r ?d (st\<lparr>pending_data := g_slist_remove (pending_data st) r\<rparr>)"
  have o1: "only_object r st ?st1" using d by (simp add: only_object_def put_data_def)
  note path1 = only_object_path[OF o1, of r]
  from run d obtain d1 st2 d2 st3 d3 where
    d1: "heap ?st1 r = Some d1" and
    st2': "(if g_added d1 \<noteq> [] then emit_interfaces_added E r ?st1 else Some ?st1) = Some st2" and
    d2: "heap st2 r = Some d2" and
    st3: "(if g_pending_prop d2 then process_property_changes E r st2 else Some st2) = Some st3" and
    d3: "heap st3 r = Some d3" and
    st4: "(if g_removed d3 \<noteq> [] then emit_interfaces_removed E r st3 else Some st3) = Some st'"
    by (auto simp only: process_changes_def remove_pending_def bind_eq_Some_conv option.sel
        option.inject Option.bind.simps)
  have h1: "heap ?st1 r = Some ?d" by (simp add: put_data_def)
  with d1 have st2: "(if g_added d \<noteq> [] then emit_interfaces_added E r ?st1 else Some ?st1) = Some st2"
    using st2' by (auto split: if_splits)
  have flags: "global_flags ?st1 = global_flags st" "outbox ?st1 = outbox st"
    by (simp_all add: put_data_def)
  have sig: "added_signal E g at ?d = added_signal E g at d" for g at
    by (simp add: added_signal_def split: option.split)
  have nosig: "added_signal E g at d = []" if "g_added d = []" for g at
    using that by (simp add: added_signal_def split: option.split)
  have s2: "outbox st2 = outbox st @ map (Pair (g_conn d)) (added_signal E (global_flags st) (manager_path st r) d)
      \<and> only_object r ?st1 st2 \<and> pending_data st2 = remove1 r (pending_data st)
      \<and> (\<exists>xs. d2 = ?d\<lparr>g_added := xs\<rparr>)"
  proof (cases "g_added d = []")
    case True
    with st2 have "st2 = ?st1" by simp
    moreover have "\<exists>xs. ?d = ?d\<lparr>g_added := xs\<rparr>" by (rule exI[of _ "g_added ?d"]) simp
    ultimately show ?thesis using d2 h1 nosig[OF True]
      by (simp add: only_object_def)
  next
    case False
    with st2 have "emit_interfaces_added E r ?st1 = Some st2" by simp
    from emit_added_says[OF rel this h1] False d2 path1 flags sig show ?thesis
      by (simp add: put_data_def)
  qed
  then obtain xs where x2: "d2 = ?d\<lparr>g_added := xs\<rparr>" by blast
  have c2: "g_conn d2 = g_conn d" "g_removed d2 = g_removed d" "g_path d2 = g_path d"
    "g_pending_prop d2 = g_pending_prop d" "g_interfaces d2 = g_interfaces d" by (simp_all add: x2)
  have sig2: "changed_signal E d2 = changed_signal E d" by (simp add: changed_signal_def c2 fun_eq_iff)
  have s3: "outbox st3 = outbox st2 @ map (Pair (g_conn d)) (changed_signals E d)
      \<and> only_object r st2 st3 \<and> pending_data st3 = pending_data st2
      \<and> g_removed d3 = g_removed d \<and> g_path d3 = g_path d \<and> g_conn d3 = g_conn d"
  proof (cases "g_pending_prop d")
    case False
    with st3 c2 have "st3 = st2" by simp
    then show ?thesis using False d2 d3 c2 by (simp add: changed_signals_def only_object_def)
  next
    case True
    with st3 c2 d2 have "process_interfaces E r (map if_ref (g_interfaces d)) st2 = Some st3"
      by (simp add: process_property_changes_def)
    from process_interfaces_say[OF this rel refs d2] have
      p: "outbox st3 = outbox st2 @ map (Pair (g_conn d)) (concat (map (iface_signals E d2) (map if_ref (g_interfaces d))))"
        "only_object r st2 st3" "pending_data st3 = pending_data st2"
        "g_removed d3 = g_removed d" "g_path d3 = g_path d" "g_conn d3 = g_conn d"
      using d3 c2 by auto
    have "concat (map (iface_signals E d2) (map if_ref (g_interfaces d))) = changed_signals E d"
      using concat_iface_signals[of d2 E] refs True by (simp add: c2 sig2 changed_signals_def)
    with p show ?thesis by simp
  qed
  have o3: "only_object r st st3" using o1 s2 s3 only_object_trans by blast
  have rsig: "removed_signal at d3 = removed_signal at d" for at
    using s3 by (simp add: removed_signal_def split: option.split)
  have s4: "outbox st' = outbox st3 @ map (Pair (g_conn d)) (removed_signal (manager_path st r) d)
      \<and> only_object r st3 st' \<and> pending_data st' = pending_data st3"
  proof (cases "g_removed d3 = []")
    case True
    with st4 have "st' = st3" by simp
    moreover have "removed_signal (manager_path st r) d = []"
      using True s3 by (simp add: removed_signal_def split: option.split)
    ultimately show ?thesis by (simp add: only_object_def)
  next
    case False
    with st4 have "emit_interfaces_removed E r st3 = Some st'" by simp
    from emit_removed_says[OF rel this d3 False] only_object_path[OF o3, of r] s3 rsig show ?thesis by simp
  qed
  show ?thesis
    using s2 s3 s4 only_object_trans[OF o3, of st'] d by (simp add: announcements_def)
qed

text \<open>The loop over all objects, for one connection.\<close>

definition of_connection :: "nat \<Rightarrow> obj_state \<Rightarrow> nat \<Rightarrow> bool" where
  "of_connection c st r \<longleftrightarrow> map_option g_conn (heap st r) = Some c"

lemma only_object_connection: "only_object r st st' \<Longrightarrow> of_connection c st' q = of_connection c st q"
  by (cases "q = r") (simp_all add: only_object_def of_connection_def)

lemma flush_loop_announces:
  "flush_loop E c rs st = Some st' \<Longrightarrow> reliable E \<Longrightarrow> distinct rs \<Longrightarrow> distinct (pending_data st) \<Longrightarrow>
     \<forall>r\<in>set rs. \<forall>d. heap st r = Some d \<longrightarrow> distinct (map if_ref (g_interfaces d)) \<Longrightarrow>
     outbox st' = outbox st @ map (Pair c) (concat (map (announcements E st) (filter (of_connection c st) rs)))
     \<and> pending_data st' = filter (\<lambda>r. \<not> (r \<in> set rs \<and> of_connection c st r)) (pending_data st)"
proof (induction rs arbitrary: st)
  case (Cons r rest)
  then obtain d where d: "heap st r = Some d" by (auto simp: bind_eq_Some_conv)
  show ?case
  proof (cases "g_conn d = c")
    case False
    then have no: "\<not> of_connection c st r" using d by (simp add: of_connection_def)
    then have eq: "(\<lambda>q. \<not> (q \<in> set (r # rest) \<and> of_connection c st q)) = (\<lambda>q. \<not> (q \<in> set rest \<and> of_connection c st q))"
      by (auto simp: fun_eq_iff)
    from Cons.prems(1) d False have rest: "flush_loop E c rest st = Some st'" by simp
    have "distinct rest" "\<forall>r\<in>set rest. \<forall>d. heap st r = Some d \<longrightarrow> distinct (map if_ref (g_interfaces d))"
      using Cons.prems(3,5) by simp_all
    from Cons.IH[OF rest Cons.prems(2) this(1) Cons.prems(4) this(2)] no show ?thesis unfolding eq by simp
  next
    case True
    with d Cons.prems(1) obtain st1 where st1: "process_changes E r st = Some st1"
      and rest: "flush_loop E c rest st1 = Some st'" by (auto simp: bind_eq_Some_conv)
    from Cons.prems(5) d have refs: "distinct (map if_ref (g_interfaces d))" by simp
    note a = process_changes_announces[OF Cons.prems(2) st1 d refs, unfolded True]
    from Cons.prems(3) have dist: "distinct rest" "r \<notin> set rest" by simp_all
    have same: "heap st1 q = heap st q" if "q \<in> set rest" for q
      using a dist(2) that by (auto simp: only_object_def)
    then have refs': "\<forall>r\<in>set rest. \<forall>d. heap st1 r = Some d \<longrightarrow> distinct (map if_ref (g_interfaces d))"
      using Cons.prems(5) by simp
    have pd: "pending_data st1 = filter (\<lambda>q. q \<noteq> r) (pending_data st)"
      using a Cons.prems(4) by (auto simp: distinct_remove1_removeAll removeAll_filter_not_eq intro: filter_cong)
    then have dist1: "distinct (pending_data st1)" using Cons.prems(4) by simp
    have oc: "of_connection c st1 = of_connection c st" using a only_object_connection by (auto simp: fun_eq_iff)
    have same_says: "map (announcements E st1) (filter (of_connection c st) rest)
        = map (announcements E st) (filter (of_connection c st) rest)"
    proof (intro map_cong refl only_object_announcements)
      show "only_object r st st1" using a by simp
      show "q \<noteq> r" if "q \<in> set (filter (of_connection c st) rest)" for q using that dist(2) by auto
    qed
    have oc_r: "of_connection c st r" using d True by (simp add: of_connection_def)
    have kept: "filter (\<lambda>q. \<not> (q \<in> set rest \<and> of_connection c st q)) (filter (\<lambda>q. q \<noteq> r) (pending_data st))
        = filter (\<lambda>q. \<not> (q \<in> set (r # rest) \<and> of_connection c st q)) (pending_data st)"
      unfolding filter_filter using oc_r by (intro filter_cong refl) auto
    note later = Cons.IH[OF rest Cons.prems(2) dist(1) dist1 refs', unfolded oc pd same_says kept]
    have said: "outbox st1 = outbox st @ map (Pair c) (announcements E st r)" using a by simp
    show ?thesis unfolding conjunct1[OF later] said using conjunct2[OF later] oc_r by simp
  qed
qed simp

text \<open>
  C22. What is sent with a message. Before a message all changes collected for its connection
  are announced: between what was sent before and the message stand, object by object in the
  order in which the objects first changed, exactly the signals that announce what the object
  had collected (its added interfaces, then its changed properties, then its removed interfaces),
  and no others; the list of changed objects keeps those of other connections only. Memory and
  sending do not fail, and the interfaces of an object are different ones.
\<close>

theorem send_message_flushes:
  assumes "g_dbus_send_message E c msg st = Some (True, st')" and "reliable E" and "distinct (pending_data st)"
    and "\<forall>r\<in>set (pending_data st). \<forall>d. heap st r = Some d \<longrightarrow> distinct (map if_ref (g_interfaces d))"
  shows "outbox st' = outbox st
        @ map (Pair c) (concat (map (announcements E st) (filter (of_connection c st) (pending_data st))))
        @ [(c, set_no_reply msg)]
    \<and> pending_data st' = filter (\<lambda>r. \<not> of_connection c st r) (pending_data st)"
proof -
  from assms(1) obtain st1 where st1: "g_dbus_flush E c st = Some st1"
    and send: "dbus_connection_send E c (set_no_reply msg) st1 = (True, st')"
    by (auto simp: g_dbus_send_message_def Let_def bind_eq_Some_conv split: if_splits)
  note f = flush_loop_announces[OF st1[unfolded g_dbus_flush_def] assms(2,3,3,4)]
  have "outbox st' = outbox st1 @ [(c, set_no_reply msg)]" "pending_data st' = pending_data st1"
    using send by (auto simp: dbus_connection_send_def Let_def split: if_splits)
  moreover have "filter (\<lambda>r. \<not> (r \<in> set (pending_data st) \<and> of_connection c st r)) (pending_data st)
      = filter (\<lambda>r. \<not> of_connection c st r) (pending_data st)" by (rule filter_cong) auto
  ultimately show ?thesis using f by simp
qed

theorem send_message_flushes_witness:
  "\<exists>st'. g_dbus_send_message demo_obj_env 1 (ReplyMsg 7 []) demo_changed = Some (True, st')
    \<and> outbox st' = map (Pair 1) (announcements demo_obj_env demo_changed 0) @ [(1, ReplyMsg 7 [])]
    \<and> map (\<lambda>m. case m of SignalMsg p i n body \<Rightarrow> (p, n) | _ \<Rightarrow> ([], [])) (announcements demo_obj_env demo_changed 0)
        = [(''/a'', ''PropertiesChanged''), (''/a'', ''PropertiesChanged'')]
    \<and> pending_data st' = []"
proof -
  have "map_option fst (g_dbus_send_message demo_obj_env 1 (ReplyMsg 7 []) demo_changed) = Some True" by code_simp
  then obtain st' where run: "g_dbus_send_message demo_obj_env 1 (ReplyMsg 7 []) demo_changed = Some (True, st')"
    by auto
  have start: "distinct (pending_data demo_changed)" "outbox demo_changed = []" "pending_data demo_changed = [0]"
    "of_connection 1 demo_changed 0"
    by (simp_all add: demo_changed_def obj_start_def of_connection_def fresh_object_def)
  have refs: "\<forall>r\<in>set (pending_data demo_changed). \<forall>d. heap demo_changed r = Some d \<longrightarrow>
      distinct (map if_ref (g_interfaces d))"
    by (simp add: demo_changed_def obj_start_def demo_interface_def)
  have "reliable demo_obj_env" by (simp add: reliable_def demo_obj_env_def)
  from send_message_flushes[OF run this start(1) refs]
  have flushed: "outbox st' = map (Pair 1) (announcements demo_obj_env demo_changed 0) @ [(1, ReplyMsg 7 [])]"
    "pending_data st' = []" using start by simp_all
  have said: "map (\<lambda>m. case m of SignalMsg p i n body \<Rightarrow> (p, n) | _ \<Rightarrow> ([], [])) (announcements demo_obj_env demo_changed 0)
        = [(''/a'', ''PropertiesChanged''), (''/a'', ''PropertiesChanged'')]"
    by (simp add: announcements_def manager_path_def demo_changed_def obj_start_def demo_interface_def
        changed_signals_def changed_signal_def fresh_object_def added_signal_def removed_signal_def)
  show ?thesis by (intro exI[of _ st'] conjI run flushed said)
qed

end
