(* ===== verification/Gdbus_Object_Run.thy ===== *)
theory Gdbus_Object_Run
  imports Gdbus_Object_Flush
begin

text \<open>
  Running methods: theory \<open>Bus\<close> is an abstraction of \<open>gdbus/object.c\<close> for a program without
  pending changes; a privileged method waits for its authorisation.
\<close>

section \<open>The abstraction\<close>

fun as_out :: "obj_msg \<Rightarrow> out_msg option" where
  "as_out (ReplyMsg s body) = Some (MethodReturn s body)"
| "as_out (ErrorMsg s name txt) = Some (ErrorReply s name txt)"
| "as_out _ = None"

definition bus_of :: "obj_env \<Rightarrow> (string, string) ghash \<Rightarrow> obj_state \<Rightarrow> bus" where
  "bus_of E agents st =
     \<lparr>object_paths = agents, sent = List.map_filter as_out (map snd (outbox st)), clock = ticks st,
      alloc_fails = no_memory E, send_fails = cannot_send E, aborted = False\<rparr>"

lemma new_msg_refines:
  "new_message (bus_of E agents st) = (fst (new_msg E st), bus_of E agents (snd (new_msg E st)))"
  by (simp add: new_message_def new_msg_def bus_of_def)

lemma map_filter_snoc: "List.map_filter f (xs @ [x]) = List.map_filter f xs @ (case f x of None \<Rightarrow> [] | Some y \<Rightarrow> [y])"
  by (induction xs) (simp_all add: List.map_filter_simps split: option.split)

lemma dbus_send_refines:
  assumes "as_out msg = Some out"
  shows "Bus.g_dbus_send_message out (bus_of E agents st) =
    (fst (dbus_connection_send E c msg st), bus_of E agents (snd (dbus_connection_send E c msg st)))"
  using assms
  by (simp add: Bus.g_dbus_send_message_def dbus_connection_send_def bus_of_def Let_def map_filter_snoc)

lemma send_message_refines:
  assumes "as_out msg = Some out" and "pending_data st = []"
  shows "\<exists>ok st'. Gdbus_Object_Tree.g_dbus_send_message E c msg st = Some (ok, st')
    \<and> Bus.g_dbus_send_message out (bus_of E agents st) = (ok, bus_of E agents st') \<and> pending_data st' = []"
proof -
  have "set_no_reply msg = msg" using assms(1) by (cases msg) simp_all
  moreover have "Gdbus_Object_Tree.g_dbus_send_message E c msg st =
      Some (dbus_connection_send E c (set_no_reply msg) st)"
    using assms by (cases msg) (simp_all add: Gdbus_Object_Tree.g_dbus_send_message_def g_dbus_flush_def)
  ultimately show ?thesis
    using dbus_send_refines[OF assms(1), of E agents st c] assms(2)
    by (metis prod.collapse dbus_send_frame(5))
qed

lemma process_message_refines:
  assumes "m_function m = Some (ClientMethod k)" and "pending_data st = []"
    and "method_answer E k msg user = reply" and "\<forall>r. reply = Some r \<longrightarrow> as_out r \<noteq> None"
  shows "\<exists>res st'. Gdbus_Object_Calls.process_message E c msg m user st = Some (res, st')
    \<and> Bus.process_message (flag_set (m_flags m) METHOD_FLAG_NOREPLY) (flag_set (m_flags m) METHOD_FLAG_ASYNC)
        (Option.bind reply as_out) (bus_of E agents st) = (res, bus_of E agents st')
    \<and> pending_data st' = []"
proof -
  define st1 where "st1 = run_client (MethodRun k (c_serial msg) user) st"
  have st1: "pending_data st1 = []" "bus_of E agents st1 = bus_of E agents st"
    using assms(2) by (simp_all add: st1_def run_client_def bus_of_def)
  have run: "Gdbus_Object_Calls.process_message E c msg m user st =
     (if flag_set (m_flags m) METHOD_FLAG_NOREPLY then Some (Handled, st1)
      else if flag_set (m_flags m) METHOD_FLAG_ASYNC \<and> reply = None then Some (Handled, st1)
      else (case reply of
              None \<Rightarrow> Some (NeedMemory, st1)
            | Some out \<Rightarrow> map_option (\<lambda>(_, st2). (Handled, st2))
                (Gdbus_Object_Tree.g_dbus_send_message E c out st1)))"
    using assms(1,3) by (simp add: Gdbus_Object_Calls.process_message_def run_method_def st1_def split: option.split)
  show ?thesis
  proof (cases reply)
    case None
    with run st1 show ?thesis by (auto simp: Bus.process_message_def)
  next
    case (Some r)
    with assms(4) obtain out where out: "as_out r = Some out" by auto
    from send_message_refines[OF out st1(1), of E c agents] obtain ok st' where
      "Gdbus_Object_Tree.g_dbus_send_message E c r st1 = Some (ok, st')"
      "Bus.g_dbus_send_message out (bus_of E agents st1) = (ok, bus_of E agents st')" "pending_data st' = []"
      by blast
    with run st1 Some out show ?thesis by (auto simp: Bus.process_message_def)
  qed
qed

text \<open>
  C18. For a program that exports no properties and no object manager, as pold does, the code
  that runs a method refines the abstraction the manager is verified with: the same handler
  result, the same messages sent and the same attempts, for every reply of the method and every
  combination of its flags.
\<close>

theorem process_message_refines_bus:
  assumes "m_function m = Some (ClientMethod k)" and "pending_data st = []"
    and "method_answer E k msg user = reply" and "\<forall>r. reply = Some r \<longrightarrow> as_out r \<noteq> None"
  shows "\<exists>res st'. Gdbus_Object_Calls.process_message E c msg m user st = Some (res, st')
    \<and> Bus.process_message (flag_set (m_flags m) METHOD_FLAG_NOREPLY) (flag_set (m_flags m) METHOD_FLAG_ASYNC)
        (Option.bind reply as_out) (bus_of E agents st) = (res, bus_of E agents st')
    \<and> pending_data st' = []"
  by (rule process_message_refines[OF assms])

theorem process_message_refines_bus_witness:
  "\<exists>res st'. Gdbus_Object_Calls.process_message (demo_obj_env\<lparr>method_answer := (\<lambda>_ _ _. Some (ReplyMsg 7 []))\<rparr>)
      1 demo_list (demo_methods ! 0) (ClientData 0) obj_start = Some (res, st')
    \<and> Bus.process_message False False (Some (MethodReturn 7 [])) (bus_of demo_obj_env [] obj_start)
      = (res, bus_of demo_obj_env [] st')"
proof -
  let ?E = "demo_obj_env\<lparr>method_answer := (\<lambda>_ _ _. Some (ReplyMsg 7 []))\<rparr>"
  have m: "m_function (demo_methods ! 0) = Some (ClientMethod 1)" by (simp add: demo_methods_def)
  have p: "pending_data obj_start = []" by (simp add: obj_start_def)
  have a: "method_answer ?E 1 demo_list (ClientData 0) = Some (ReplyMsg 7 [])" by simp
  have no_flags: "\<not> flag_set (m_flags (demo_methods ! 0)) x" for x
    by (simp add: demo_methods_def flag_set_def)
  have "bus_of ?E agents st = bus_of demo_obj_env agents st" for agents st
    by (simp add: bus_of_def)
  with process_message_refines_bus[OF m p a, of 1 "[]"] no_flags show ?thesis by auto
qed

section \<open>Privileged methods\<close>

lemma flush_loop_advances: "flush_loop E c rs st = Some st' \<Longrightarrow> advances c st st'"
proof (induction rs arbitrary: st)
  case (Cons r rest)
  then obtain d where d: "heap st r = Some d" by (auto simp: bind_eq_Some_conv)
  show ?case
  proof (cases "g_conn d = c")
    case True
    with d Cons.prems obtain st1 where st1: "process_changes E r st = Some st1"
      and rest: "flush_loop E c rest st1 = Some st'"
      by (auto simp: bind_eq_Some_conv)
    from process_changes_advances[OF st1 d] True Cons.IH[OF rest] show ?thesis
      by (meson advances_trans)
  qed (use d Cons in simp)
qed simp

lemma send_message_keeps:
  assumes "Gdbus_Object_Tree.g_dbus_send_message E c msg st = Some (ok, st')"
  shows "pending_security st' = pending_security st \<and> runs st' = runs st"
proof (cases "st' = st")
  case False
  with assms obtain st1 where "flush_loop E c (pending_data st) st = Some st1"
    and "dbus_connection_send E c (set_no_reply msg) st1 = (ok, st')"
    by (auto simp: Gdbus_Object_Tree.g_dbus_send_message_def g_dbus_flush_def bind_eq_Some_conv
        split: if_splits)
  with flush_loop_advances[of E c "pending_data st" st st1] show ?thesis
    by (metis advances_def dbus_send_frame(7,8) snd_conv)
qed simp

definition passed_over :: "32 word \<Rightarrow> call_msg \<Rightarrow> method_table \<Rightarrow> bool" where
  "passed_over global msg m \<longleftrightarrow> m_function m \<noteq> None
     \<and> (c_member msg \<noteq> m_name m
        \<or> \<not> check_experimental global (m_flags m) METHOD_FLAG_EXPERIMENTAL
          \<and> \<not> g_dbus_args_have_signature (m_in_args m) (items_sig (c_body msg)))"

definition called :: "32 word \<Rightarrow> call_msg \<Rightarrow> method_table \<Rightarrow> bool" where
  "called global msg m \<longleftrightarrow> m_function m \<noteq> None \<and> c_is_call msg \<and> c_member msg = m_name m
     \<and> \<not> check_experimental global (m_flags m) METHOD_FLAG_EXPERIMENTAL
     \<and> g_dbus_args_have_signature (m_in_args m) (items_sig (c_body msg))"

lemma method_loop_called:
  assumes "\<forall>m'\<in>set pre. passed_over (global_flags st) msg m'" and "called (global_flags st) msg m"
  shows "method_loop E c msg f (pre @ m # post) st =
    (case check_privilege E c msg m (if_user_data f) st of
       None \<Rightarrow> None
     | Some (True, st1) \<Rightarrow> Some (Handled, st1)
     | Some (False, st1) \<Rightarrow> Gdbus_Object_Calls.process_message E c msg m (if_user_data f) st1)"
  using assms
proof (induction pre)
  case Nil
  then show ?case by (auto simp: called_def)
next
  case (Cons m' pre)
  then show ?case by (auto simp: passed_over_def called_def)
qed

lemma pending_runs_once:
  assumes sec: "pending_security st1 = entry # rest" and pid: "sq_pending entry = pid"
    and fn: "m_function (sq_method entry) = Some (ClientMethod k)"
    and ok: "g_dbus_pending_success E c pid st1 = Some st2"
  shows "runs st2 = runs st1 @ [MethodRun k (c_serial (sq_message entry)) (sq_user_data entry)]"
    and "pending_security st2 = rest"
proof -
  let ?st = "st1\<lparr>pending_security := rest\<rparr>"
  let ?st' = "run_client (MethodRun k (c_serial (sq_message entry)) (sq_user_data entry)) ?st"
  from ok sec pid obtain res where
    "Gdbus_Object_Calls.process_message E c (sq_message entry) (sq_method entry) (sq_user_data entry) ?st
      = Some (res, st2)"
    by (auto simp: g_dbus_pending_success_def take_pending_def)
  with fn consider "st2 = ?st'" |
    out ok where "Gdbus_Object_Tree.g_dbus_send_message E c out ?st' = Some (ok, st2)"
    by (auto simp: Gdbus_Object_Calls.process_message_def run_method_def split: if_splits option.splits)
  then have "runs st2 = runs st1 @ [MethodRun k (c_serial (sq_message entry)) (sq_user_data entry)]
      \<and> pending_security st2 = rest"
  proof cases
    case 1
    then show ?thesis by (simp add: run_client_def)
  next
    case 2
    from send_message_keeps[OF 2] show ?thesis by (simp add: run_client_def)
  qed
  then show "runs st2 = runs st1 @ [MethodRun k (c_serial (sq_message entry)) (sq_user_data entry)]"
    "pending_security st2 = rest" by simp_all
qed

lemma pending_success_returns:
  assumes sec: "pending_security st1 = entry # rest" and pid: "sq_pending entry = pid"
    and fn: "m_function (sq_method entry) = Some (ClientMethod k)" and idle: "pending_data st1 = []"
    and reply: "\<forall>r. method_answer E k (sq_message entry) (sq_user_data entry) = Some r \<longrightarrow> as_out r \<noteq> None"
  shows "g_dbus_pending_success E c pid st1 \<noteq> None"
proof -
  have "pending_data (st1\<lparr>pending_security := rest\<rparr>) = []" using idle by simp
  from process_message_refines[OF fn this refl reply, of c "[]"] sec pid show ?thesis
    by (auto simp: g_dbus_pending_success_def take_pending_def)
qed

text \<open>
  C20. A method whose privilege the program guards is not run when it is called: nothing is
  sent, only the guard is asked, under a new id. It runs when the guard reports success for that
  id, exactly once (and with nothing else to announce this succeeds), and afterwards neither a
  success nor an error for the id does anything.
\<close>

theorem privileged_method_waits:
  assumes "heap st r = Some d" and "find_interface (g_interfaces d) (c_interface msg) = Some f"
    and "if_methods f = pre @ m # post" and "\<forall>m'\<in>set pre. passed_over (global_flags st) msg m'"
    and "called (global_flags st) msg m" and "m_function m = Some (ClientMethod k)"
    and "security_tab st = Some t" and "find_security t (m_privilege m) = Some s"
    and "sec_function s = Some fn" and "\<not> flag_set (sec_flags s) SECURITY_FLAG_BUILTIN"
    and "next_pending st \<notin> sq_pending ` set (pending_security st)"
  shows "\<exists>st1 ask. generic_message E c msg r st = Some (Handled, st1)
    \<and> outbox st1 = outbox st \<and> runs st1 = runs st @ [SecurityRun fn (sec_action s) ask (next_pending st)]
    \<and> (pending_data st = [] \<and> (\<forall>r. method_answer E k msg (if_user_data f) = Some r \<longrightarrow> as_out r \<noteq> None)
         \<longrightarrow> g_dbus_pending_success E c (next_pending st) st1 \<noteq> None)
    \<and> (\<forall>st2. g_dbus_pending_success E c (next_pending st) st1 = Some st2 \<longrightarrow>
         runs st2 = runs st1 @ [MethodRun k (c_serial msg) (if_user_data f)]
         \<and> g_dbus_pending_success E c (next_pending st) st2 = Some st2
         \<and> (\<forall>name txt. g_dbus_pending_error E c (next_pending st) name txt st2 = Some st2))"
proof -
  let ?pid = "next_pending st" and ?ask = "flag_set (sec_flags s) SECURITY_FLAG_ALLOW_INTERACTION"
  let ?entry = "\<lparr>sq_pending = ?pid, sq_message = msg, sq_method = m, sq_user_data = if_user_data f\<rparr>"
  define st1 where "st1 = run_client (SecurityRun fn (sec_action s) ?ask ?pid)
    (st\<lparr>next_pending := ?pid + 1, pending_security := ?entry # pending_security st\<rparr>)"
  have "check_privilege E c msg m (if_user_data f) st = Some (True, st1)"
    using assms(7-10) by (simp add: check_privilege_def st1_def Let_def)
  then have gm: "generic_message E c msg r st = Some (Handled, st1)"
    using assms(1-3) method_loop_called[OF assms(4,5), of E c f post]
    by (simp add: generic_message_def)
  have sec: "pending_security st1 = ?entry # pending_security st"
    and out: "outbox st1 = outbox st" and rn: "runs st1 = runs st @ [SecurityRun fn (sec_action s) ?ask ?pid]"
    by (simp_all add: st1_def run_client_def)
  have some: "g_dbus_pending_success E c ?pid st1 \<noteq> None"
    if "pending_data st = []" "\<forall>r. method_answer E k msg (if_user_data f) = Some r \<longrightarrow> as_out r \<noteq> None"
  proof -
    have "pending_data st1 = []" using that(1) by (simp add: st1_def run_client_def)
    from pending_success_returns[OF sec _ _ this, of ?pid k E c] assms(6) that(2) show ?thesis by simp
  qed
  have once: "runs st2 = runs st1 @ [MethodRun k (c_serial msg) (if_user_data f)]
      \<and> pending_security st2 = pending_security st"
    if "g_dbus_pending_success E c ?pid st1 = Some st2" for st2
    using pending_runs_once[OF sec _ _ that, of k] assms(6) by simp
  have none: "take_pending ?pid st2 = None" if "pending_security st2 = pending_security st" for st2
  proof -
    have "find (\<lambda>s. sq_pending s = ?pid) (pending_security st2) = None"
      unfolding find_None_iff that using assms(11) by (metis image_eqI)
    then show ?thesis by (simp add: take_pending_def)
  qed
  have "runs st2 = runs st1 @ [MethodRun k (c_serial msg) (if_user_data f)]
      \<and> g_dbus_pending_success E c ?pid st2 = Some st2
      \<and> (\<forall>name txt. g_dbus_pending_error E c ?pid name txt st2 = Some st2)"
    if "g_dbus_pending_success E c ?pid st1 = Some st2" for st2
    using once[OF that] none[of st2]
    by (simp add: g_dbus_pending_success_def g_dbus_pending_error_def)
  with gm out rn some show ?thesis by blast
qed

text \<open>
  A refused authorisation is undefined: \<open>builtin_security_result\<close> passes NULL for the
  format of the error text, which \<open>vsnprintf\<close> reads.
\<close>

lemma refusal_is_undefined:
  assumes "pid \<in> sq_pending ` set (pending_security st)"
  shows "builtin_security_result E c pid False st = None"
proof -
  from assms obtain s where "find (\<lambda>s. sq_pending s = pid) (pending_security st) = Some s"
    by (cases "find (\<lambda>s. sq_pending s = pid) (pending_security st)") (auto simp: find_None_iff)
  then show ?thesis
    by (simp add: builtin_security_result_def g_dbus_pending_error_def take_pending_def g_dbus_send_error_def)
qed

text \<open>A guarded method of an object.\<close>

definition guarded :: method_table where
  "guarded = (demo_methods ! 0)\<lparr>m_privilege := 5\<rparr>"

definition demo_guarded :: obj_state where
  "demo_guarded = demo_changed\<lparr>
     security_tab := Some [\<lparr>sec_privilege = 5, sec_action = ''act'', sec_flags = 0, sec_function = Some 9\<rparr>],
     heap := [0 \<mapsto> (fresh_object demo_obj_env 1 ''/a'')\<lparr>g_interfaces :=
       [(demo_interface 0 ''a.b'')\<lparr>if_methods := [guarded]\<rparr>]\<rparr>]\<rparr>"

definition demo_do :: call_msg where
  "demo_do = \<lparr>c_is_call = True, c_serial = 3, c_path = ''/a'', c_interface = Some ''a.b'', c_member = ''Do'',
     c_body = []\<rparr>"

theorem privileged_method_waits_witness:
  "\<exists>st1 ask. generic_message demo_obj_env 1 demo_do 0 demo_guarded = Some (Handled, st1)
    \<and> outbox st1 = [] \<and> runs st1 = [SecurityRun 9 ''act'' ask 1]"
proof -
  let ?d = "(fresh_object demo_obj_env 1 ''/a'')\<lparr>g_interfaces :=
       [(demo_interface 0 ''a.b'')\<lparr>if_methods := [guarded]\<rparr>]\<rparr>"
  let ?f = "(demo_interface 0 ''a.b'')\<lparr>if_methods := [guarded]\<rparr>"
  let ?s = "\<lparr>sec_privilege = 5, sec_action = ''act'', sec_flags = 0, sec_function = Some 9\<rparr>"
  have 1: "heap demo_guarded 0 = Some ?d" "find_interface (g_interfaces ?d) (c_interface demo_do) = Some ?f"
    "if_methods ?f = [] @ guarded # []" "\<forall>m\<in>set []. passed_over (global_flags demo_guarded) demo_do m"
    by (simp_all add: demo_guarded_def demo_do_def find_interface_def demo_interface_def)
  have 2: "called (global_flags demo_guarded) demo_do guarded"
    by (simp add: called_def demo_do_def guarded_def demo_methods_def check_experimental_def flag_set_def
        g_dbus_args_have_signature_def)
  have 3: "m_function guarded = Some (ClientMethod 1)" "security_tab demo_guarded = Some [?s]"
    "find_security [?s] (m_privilege guarded) = Some ?s" "sec_function ?s = Some 9"
    "\<not> flag_set (sec_flags ?s) SECURITY_FLAG_BUILTIN"
    "next_pending demo_guarded \<notin> sq_pending ` set (pending_security demo_guarded)"
    by (simp_all add: guarded_def demo_methods_def demo_guarded_def demo_changed_def obj_start_def flag_set_def)
  have 4: "outbox demo_guarded = []" "runs demo_guarded = []" "next_pending demo_guarded = 1"
    by (simp_all add: demo_guarded_def demo_changed_def obj_start_def)
  from privileged_method_waits[OF 1 2 3, of demo_obj_env 1] 4 show ?thesis by fastforce
qed

end
