(* ===== verification/Gdbus_Object_Forest.thy ===== *)
theory Gdbus_Object_Forest
  imports Gdbus_Object_Props
begin

text \<open>
  The tree of objects of \<open>gdbus/object.c\<close>: what the object manager reports, what a registration
  leaves behind, and two orders of registration in which a freed object stays in the tree.
\<close>

section \<open>Well-formed states\<close>

text \<open>
  Objects and paths name each other, parents and children are live, interfaces have their own
  references, and the objects with an idle callback are those in \<open>pending_data\<close>.
\<close>

definition data_ok :: "obj_state \<Rightarrow> nat \<Rightarrow> generic_data \<Rightarrow> bool" where
  "data_ok st r d \<longleftrightarrow> path_data (g_conn d) (g_path d) st = Some r \<and> r < next_object st
     \<and> (\<forall>p. g_parent d = Some p \<longrightarrow> heap st p \<noteq> None) \<and> (\<forall>c\<in>set (g_objects d). heap st c \<noteq> None)
     \<and> distinct (map if_ref (g_interfaces d)) \<and> (\<forall>f\<in>set (g_interfaces d). if_ref f < next_interface st)
     \<and> set (g_added d) \<subseteq> if_ref ` set (g_interfaces d) \<and> (g_process d \<longleftrightarrow> r \<in> set (pending_data st))"

definition obj_wf :: "obj_state \<Rightarrow> bool" where
  "obj_wf st \<longleftrightarrow> (\<forall>r d. heap st r = Some d \<longrightarrow> data_ok st r d)
     \<and> (\<forall>c p r. path_data c p st = Some r \<longrightarrow> heap st r \<noteq> None)
     \<and> distinct (pending_data st) \<and> (\<forall>r\<in>set (pending_data st). heap st r \<noteq> None)
     \<and> (\<forall>r. root st = Some r \<longrightarrow> heap st r \<noteq> None)"

lemma obj_wfD:
  assumes "obj_wf st"
  shows "heap st r = Some d \<Longrightarrow> data_ok st r d" "path_data c p st = Some r \<Longrightarrow> heap st r \<noteq> None"
    "distinct (pending_data st)" "r \<in> set (pending_data st) \<Longrightarrow> heap st r \<noteq> None"
    "root st = Some r \<Longrightarrow> heap st r \<noteq> None"
  using assms by (simp_all add: obj_wf_def)

text \<open>The parts of a state that survive a change of one object.\<close>

lemma data_ok_mono:
  assumes "data_ok st r d" and "paths st' = paths st" and "next_object st \<le> next_object st'"
    and "next_interface st \<le> next_interface st'" and "\<And>q. heap st q \<noteq> None \<Longrightarrow> heap st' q \<noteq> None"
    and "r \<in> set (pending_data st') \<longleftrightarrow> r \<in> set (pending_data st)"
  shows "data_ok st' r d"
proof -
  have "path_data c p st' = path_data c p st" for c p using assms(2) by (simp add: path_data_def)
  moreover have "r < next_object st'" using assms(1,3) by (simp add: data_ok_def)
  moreover have "\<forall>f\<in>set (g_interfaces d). if_ref f < next_interface st'"
    using assms(1,4) by (auto simp: data_ok_def)
  moreover have "\<forall>p. g_parent d = Some p \<longrightarrow> heap st' p \<noteq> None"
    "\<forall>c\<in>set (g_objects d). heap st' c \<noteq> None"
    using assms(1,5) unfolding data_ok_def by blast+
  ultimately show ?thesis using assms(1,6) unfolding data_ok_def by simp
qed

lemma obj_wf_put:
  assumes wf: "obj_wf st" and d: "heap st r = Some d" and ok: "data_ok st r d'"
  shows "obj_wf (put_data r d' st)"
proof -
  let ?st = "put_data r d' st"
  have live: "heap ?st q \<noteq> None \<longleftrightarrow> heap st q \<noteq> None" for q using d by simp
  have "data_ok ?st q e" if "heap ?st q = Some e" for q e
  proof -
    have "data_ok st q e"
    proof (cases "q = r")
      case True
      with that ok show ?thesis by simp
    next
      case False
      with that have "heap st q = Some e" by simp
      then show ?thesis by (rule obj_wfD(1)[OF wf])
    qed
    then show ?thesis by (rule data_ok_mono) (auto simp: put_data_def)
  qed
  then show ?thesis
    using obj_wfD(2-5)[OF wf] live unfolding obj_wf_def put_data_frame by blast
qed

text \<open>Two states with the same objects up to introspection data and the tree.\<close>

definition outline :: "generic_data \<Rightarrow> interface_data list \<times> nat list \<times> bool \<times> 32 word \<times> nat \<times> string" where
  "outline d = (g_interfaces d, g_added d, g_process d, g_refcount d, g_conn d, g_path d)"

definition same_objects :: "obj_state \<Rightarrow> obj_state \<Rightarrow> bool" where
  "same_objects st st' \<longleftrightarrow> paths st' = paths st \<and> next_object st' = next_object st
     \<and> next_interface st' = next_interface st \<and> pending_data st' = pending_data st
     \<and> global_flags st' = global_flags st \<and> root st' = root st
     \<and> (\<forall>q. map_option outline (heap st' q) = map_option outline (heap st q))"

lemma same_objects_refl [simp]: "same_objects st st"
  by (simp add: same_objects_def)

lemma same_objects_trans: "same_objects st st' \<Longrightarrow> same_objects st' st'' \<Longrightarrow> same_objects st st''"
  by (simp add: same_objects_def)

lemma same_objects_put:
  "heap st r = Some d \<Longrightarrow> outline d' = outline d \<Longrightarrow> same_objects st (put_data r d' st)"
  by (simp add: same_objects_def)

lemma same_objects_live: "same_objects st st' \<Longrightarrow> heap st' q = None \<longleftrightarrow> heap st q = None"
  unfolding same_objects_def by (metis map_option_is_None)

lemma invalidate_wf:
  "obj_wf st \<Longrightarrow> \<exists>par st'. invalidate_parent_data c p st = Some (par, st') \<and> obj_wf st'
     \<and> same_objects st st' \<and> (\<forall>q. par = Some q \<longrightarrow> heap st' q \<noteq> None)"
proof (induction c p st rule: invalidate_parent_data.induct)
  case (1 c p st)
  show ?case
  proof (cases "parent_path p")
    case None
    with 1(2) show ?thesis by (subst invalidate_parent_data.simps) simp
  next
    case (Some pp)
    from 1(1)[OF Some refl 1(2)] obtain par st1 where
      st1: "invalidate_parent_data c pp st = Some (par, st1)" "obj_wf st1" "same_objects st st1"
      "\<forall>q. par = Some q \<longrightarrow> heap st1 q \<noteq> None" by blast
    define given where "given = (if path_data c pp st = None then par else path_data c pp st)"
    note inv = invalidate_parent_data.simps[of c p st, simplified Some option.case Let_def st1(1) prod.case,
      folded given_def]
    show ?thesis
    proof (cases given)
      case None
      with inv st1 show ?thesis by simp
    next
      case (Some r)
      have "heap st1 r \<noteq> None"
        using Some st1(4) obj_wfD(2)[OF 1(2)] same_objects_live[OF st1(3)]
        unfolding given_def by (metis option.sel option.distinct(1))
      then obtain d where d: "heap st1 r = Some d" by blast
      define d2 where "d2 = d\<lparr>g_introspect := None\<rparr>"
      define st2 where "st2 = put_data r d2 st1"
      have ok2: "data_ok st1 r d2" using obj_wfD(1)[OF st1(2) d] by (simp add: data_ok_def d2_def)
      have wf2: "obj_wf st2" unfolding st2_def by (rule obj_wf_put[OF st1(2) d ok2])
      have "same_objects st1 st2"
        unfolding st2_def by (rule same_objects_put[OF d]) (simp add: outline_def d2_def)
      then have so: "same_objects st st2" by (rule same_objects_trans[OF st1(3)])
      have h2: "heap st2 r = Some d2" by (simp add: st2_def)
      note inv2 = inv[simplified Some option.case d, folded d2_def, folded st2_def]
      show ?thesis
      proof (cases "path_data c p st2")
        case None
        with inv2 wf2 so h2 show ?thesis by simp
      next
        case (Some ch)
        define d3 where "d3 = d2\<lparr>g_objects := ch # g_objects d\<rparr>"
        define st3 where "st3 = put_data r d3 st2"
        have live: "heap st2 ch \<noteq> None" by (rule obj_wfD(2)[OF wf2 Some])
        have "data_ok st2 r d3"
          using obj_wfD(1)[OF wf2 h2] live by (simp add: data_ok_def d3_def d2_def)
        then have wf3: "obj_wf st3" unfolding st3_def by (rule obj_wf_put[OF wf2 h2])
        have so3: "same_objects st2 st3"
          unfolding st3_def by (rule same_objects_put[OF h2]) (simp add: outline_def d3_def d2_def)
        have r3: "heap st3 r \<noteq> None" by (simp add: st3_def)
        have "heap st3 ch \<noteq> None" using live same_objects_live[OF so3, of ch] by simp
        then obtain cd where cd: "heap st3 ch = Some cd" by blast
        define st4 where "st4 = put_data ch (cd\<lparr>g_parent := Some r\<rparr>) st3"
        have ok4: "data_ok st3 ch (cd\<lparr>g_parent := Some r\<rparr>)"
          using obj_wfD(1)[OF wf3 cd] r3 by (simp add: data_ok_def)
        have wf4: "obj_wf st4" unfolding st4_def by (rule obj_wf_put[OF wf3 cd ok4])
        have "same_objects st3 st4"
          unfolding st4_def by (rule same_objects_put[OF cd]) (simp add: outline_def)
        then have so4: "same_objects st st4" using so so3 same_objects_trans by blast
        have r4: "heap st4 r \<noteq> None" using r3 by (simp add: st4_def)
        have "invalidate_parent_data c p st =
            (if ch \<in> set (g_objects d) then Some (Some r, st2) else Some (Some r, st4))"
          using inv2[unfolded Some option.case d3_def[symmetric] st3_def[symmetric] cd st4_def[symmetric]] .
        with wf2 so h2 wf4 so4 r4 show ?thesis by (cases "ch \<in> set (g_objects d)") simp_all
      qed
    qed
  qed
qed

section \<open>Registration\<close>

text \<open>Adding an interface to an object of a well-formed state.\<close>

lemma add_interface_wf:
  fixes st defines "i \<equiv> next_interface st"
  assumes wf: "obj_wf st" and d: "heap st r = Some d"
    and vis: "visible (global_flags st) \<lparr>if_ref = i, if_name = name, if_methods = ms, if_signals = ss,
      if_properties = ps, if_pending = [], if_user_data = u, if_destroy = ds\<rparr>"
  shows "\<exists>st' d'. add_interface r name ms ss ps u ds st = Some (True, st') \<and> obj_wf st'
    \<and> heap st' r = Some d' \<and> paths st' = paths st \<and> root st' = root st
    \<and> global_flags st' = global_flags st
    \<and> g_interfaces d' = g_interfaces d @ [\<lparr>if_ref = i, if_name = name, if_methods = ms, if_signals = ss,
      if_properties = ps, if_pending = [], if_user_data = u, if_destroy = ds\<rparr>]
    \<and> g_introspect d' = g_introspect d"
proof -
  define f where "f = \<lparr>if_ref = i, if_name = name, if_methods = ms, if_signals = ss,
      if_properties = ps, if_pending = [], if_user_data = u, if_destroy = ds\<rparr>"
  define d1 where "d1 = d\<lparr>g_interfaces := g_interfaces d @ [f]\<rparr>"
  define st0 where "st0 = st\<lparr>next_interface := Suc i\<rparr>"
  define st1 where "st1 = put_data r d1 st0"
  have h0: "heap st0 r = Some d" using d by (simp add: st0_def)
  note dok = obj_wfD(1)[OF wf d]
  have "data_ok st0 q e" if "heap st0 q = Some e" for q e
  proof -
    have "data_ok st q e" using that obj_wfD(1)[OF wf] by (simp add: st0_def)
    then show ?thesis by (rule data_ok_mono) (simp_all add: st0_def i_def)
  qed
  then have wf0: "obj_wf st0"
    using obj_wfD(2-5)[OF wf] by (simp add: obj_wf_def st0_def path_data_def)
  have "i \<notin> if_ref ` set (g_interfaces d)" using dok by (auto simp: data_ok_def i_def)
  then have ok1: "data_ok st0 r d1"
    using obj_wfD(1)[OF wf0 h0] by (auto simp: data_ok_def d1_def f_def st0_def)
  have wf1: "obj_wf st1" unfolding st1_def by (rule obj_wf_put[OF wf0 h0 ok1])
  have h1: "heap st1 r = Some d1" by (simp add: st1_def)
  have same: "paths st1 = paths st" "root st1 = root st" "global_flags st1 = global_flags st"
    by (simp_all add: st1_def st0_def)
  have add: "add_interface r name ms ss ps u ds st =
    (if g_parent d = None then Some (True, st1)
     else map_option (Pair True) (add_pending r (put_data r (d1\<lparr>g_added := g_added d1 @ [i]\<rparr>) st1)))"
    using vis d
    by (simp add: add_interface_def Let_def i_def[symmetric] f_def[symmetric] d1_def[symmetric]
        st0_def[symmetric] st1_def[symmetric] h1 bind_map_option map_conv_bind_option comp_def)
  show ?thesis
  proof (cases "g_parent d = None")
    case True
    with add wf1 h1 same show ?thesis by (simp add: d1_def f_def)
  next
    case False
    define d2 where "d2 = d1\<lparr>g_added := g_added d1 @ [i]\<rparr>"
    define st2 where "st2 = put_data r d2 st1"
    have ok2: "data_ok st1 r d2"
      using obj_wfD(1)[OF wf1 h1] by (auto simp: data_ok_def d2_def d1_def f_def)
    have wf2: "obj_wf st2" unfolding st2_def by (rule obj_wf_put[OF wf1 h1 ok2])
    have h2: "heap st2 r = Some d2" by (simp add: st2_def)
    have same2: "paths st2 = paths st" "root st2 = root st" "global_flags st2 = global_flags st"
      using same by (simp_all add: st2_def)
    show ?thesis
    proof (cases "g_process d2")
      case True
      then have "add_pending r st2 = Some st2" by (simp add: add_pending_def h2)
      with add False wf2 h2 same2 show ?thesis
        by (simp add: st2_def d2_def d1_def f_def)
    next
      case np: False
      define d3 where "d3 = d2\<lparr>g_process := True\<rparr>"
      define st3 where "st3 = put_data r d3 (st2\<lparr>pending_data := pending_data st2 @ [r]\<rparr>)"
      have "add_pending r st2 = Some st3" using np by (simp add: add_pending_def h2 st3_def d3_def)
      then have "add_interface r name ms ss ps u ds st = Some (True, st3)"
        using add False by (simp add: st2_def d2_def)
      moreover have "obj_wf st3"
      proof -
        have notin: "r \<notin> set (pending_data st2)" using np obj_wfD(1)[OF wf2 h2] by (simp add: data_ok_def)
        have live: "heap st3 q \<noteq> None \<longleftrightarrow> heap st2 q \<noteq> None" for q by (simp add: st3_def h2)
        have pd: "path_data c p st3 = path_data c p st2" for c p by (simp add: st3_def path_data_def)
        have "data_ok st3 q e" if e: "heap st3 q = Some e" for q e
        proof (cases "q = r")
          case True
          with e have "e = d3" by (simp add: st3_def)
          with True obj_wfD(1)[OF wf2 h2] show ?thesis
            by (simp add: data_ok_def d3_def pd live) (simp add: st3_def)
        next
          case False
          with e have "heap st2 q = Some e" by (simp add: st3_def)
          from obj_wfD(1)[OF wf2 this] show ?thesis
            by (rule data_ok_mono) (use False live in \<open>simp_all add: st3_def\<close>)
        qed
        moreover have "distinct (pending_data st3)" "set (pending_data st3) = insert r (set (pending_data st2))"
          using notin obj_wfD(3)[OF wf2] by (simp_all add: st3_def)
        moreover have "root st3 = root st2" by (simp add: st3_def)
        ultimately show ?thesis
          using obj_wfD(2,4,5)[OF wf2] h2 unfolding obj_wf_def pd live
          by (metis insert_iff option.distinct(1))
      qed
      moreover have "heap st3 r = Some d3" "paths st3 = paths st" "root st3 = root st"
        "global_flags st3 = global_flags st"
        using same2 by (simp_all add: st3_def)
      ultimately show ?thesis by (simp add: d3_def d2_def d1_def f_def)
    qed
  qed
qed

lemma visible_introspect:
  "visible global \<lparr>if_ref = i, if_name = n, if_methods = introspect_methods, if_signals = ss,
     if_properties = ps, if_pending = [], if_user_data = u, if_destroy = ds\<rparr>"
  by (simp add: visible_def introspect_methods_def check_experimental_def flag_set_def)

lemma visible_properties:
  "visible global \<lparr>if_ref = i, if_name = n, if_methods = properties_methods, if_signals = ss,
     if_properties = ps, if_pending = [], if_user_data = u, if_destroy = ds\<rparr>"
  by (simp add: visible_def properties_methods_def check_experimental_def flag_set_def)

definition with_object :: "obj_env \<Rightarrow> nat \<Rightarrow> string \<Rightarrow> obj_state \<Rightarrow> obj_state" where
  "with_object E conn path st =
     put_data (next_object st) (fresh_object E conn path)
       (st\<lparr>next_object := Suc (next_object st), ticks := Suc (ticks st),
           paths := gh_replace (conn, path) (next_object st) (paths st)\<rparr>)"

lemma with_object_wf:
  assumes wf: "obj_wf st" and new: "path_data conn path st = None"
  shows "obj_wf (with_object E conn path st)"
proof -
  let ?st = "with_object E conn path st" and ?r = "next_object st"
  have pd: "path_data c p ?st = (if (c, p) = (conn, path) then Some ?r else path_data c p st)" for c p
    by (simp add: with_object_def path_data_def gh.lookup_replace put_data_def)
  have free: "heap st ?r = None"
    using obj_wfD(1)[OF wf, of ?r] by (cases "heap st ?r") (auto simp: data_ok_def)
  have hp: "heap ?st = (heap st)(?r \<mapsto> fresh_object E conn path)" by (simp add: with_object_def)
  have rest: "pending_data ?st = pending_data st" "root ?st = root st" "next_object ?st = Suc ?r"
    "next_interface ?st = next_interface st"
    by (simp_all add: with_object_def)
  have live: "heap st q \<noteq> None \<Longrightarrow> heap ?st q \<noteq> None" for q by (simp add: hp)
  have "data_ok ?st q e" if e: "heap ?st q = Some e" for q e
  proof (cases "q = ?r")
    case True
    have "?r \<notin> set (pending_data st)" using free obj_wfD(4)[OF wf, of ?r] by auto
    moreover have "e = fresh_object E conn path" using e True by (simp add: hp)
    ultimately show ?thesis using True by (simp add: data_ok_def fresh_object_def pd rest)
  next
    case False
    with e have "heap st q = Some e" by (simp add: hp)
    from obj_wfD(1)[OF wf this] have ok: "data_ok st q e" .
    then have "path_data (g_conn e) (g_path e) ?st = Some q" using new by (auto simp: pd data_ok_def)
    with ok live show ?thesis unfolding data_ok_def rest by (metis less_Suc_eq)
  qed
  moreover have "heap ?st q \<noteq> None" if "path_data c p ?st = Some q" for c p q
    using that obj_wfD(2)[OF wf, of c p q] live[of q] by (auto simp: pd hp split: if_splits)
  ultimately show ?thesis
    using obj_wfD(3-5)[OF wf] live unfolding obj_wf_def rest by blast
qed

lemma object_path_ref_wf:
  assumes wf: "obj_wf st" and reg: "path_data conn path st = None \<Longrightarrow> \<not> cannot_register E (ticks st)"
  shows "\<exists>r st1 d1. object_path_ref E conn path st = Some (Some r, st1) \<and> obj_wf st1
    \<and> heap st1 r = Some d1 \<and> path_data conn path st1 = Some r \<and> global_flags st1 = global_flags st
    \<and> (case path_data conn path st of
         None \<Rightarrow> map if_name (g_interfaces d1) = [introspectable_interface]
       | Some q \<Rightarrow> r = q \<and> (\<forall>d. heap st q = Some d \<longrightarrow> g_interfaces d1 = g_interfaces d))"
proof (cases "path_data conn path st")
  case (Some r)
  from obj_wfD(2)[OF wf Some] obtain d where d: "heap st r = Some d" by blast
  let ?d = "d\<lparr>g_refcount := g_refcount d + 1\<rparr>"
  have ok: "data_ok st r ?d" using obj_wfD(1)[OF wf d] by (simp add: data_ok_def)
  from obj_wf_put[OF wf d ok] Some d show ?thesis by (simp add: object_path_ref_def)
next
  case None
  let ?st = "with_object E conn path st" and ?r = "next_object st"
  from invalidate_wf[OF with_object_wf[OF wf None, of E], of conn path] obtain par st2 where
    st2: "invalidate_parent_data conn path ?st = Some (par, st2)" "obj_wf st2" "same_objects ?st st2"
    by blast
  have "map_option outline (heap st2 ?r) = Some (outline (fresh_object E conn path))"
    using st2(3) by (simp add: same_objects_def with_object_def)
  then obtain d2 where d2: "heap st2 ?r = Some d2" "g_interfaces d2 = []"
    by (auto simp: outline_def fresh_object_def)
  from add_interface_wf[OF st2(2) d2(1) visible_introspect] obtain st3 d3 where
    st3: "add_interface ?r introspectable_interface introspect_methods [] None (ObjectData ?r) None st2
        = Some (True, st3)" "obj_wf st3" "heap st3 ?r = Some d3" "paths st3 = paths st2"
      "global_flags st3 = global_flags st2" "map if_name (g_interfaces d3) = [introspectable_interface]"
    using d2(2) by fastforce
  have "object_path_ref E conn path st = Some (Some ?r, st3)"
  proof -
    have "put_data ?r (fresh_object E conn path) (st\<lparr>next_object := Suc ?r, ticks := Suc (ticks st)\<rparr>)
        \<lparr>paths := gh_replace (conn, path) ?r (paths st)\<rparr> = ?st"
      by (simp add: with_object_def put_data_def)
    with None reg st2(1) st3(1) show ?thesis
      by (simp add: object_path_ref_def Let_def fresh_object_def[symmetric])
  qed
  moreover have "path_data conn path st3 = Some ?r" "global_flags st3 = global_flags st"
    using st3(4,5) st2(3)
    by (simp_all add: same_objects_def with_object_def path_data_def gh.lookup_replace put_data_def)
  ultimately show ?thesis using st3 None by simp
qed

text \<open>An interface of which something is visible.\<close>

definition shown :: "obj_state \<Rightarrow> string \<Rightarrow> method_table list \<Rightarrow> signal_table list \<Rightarrow> property_table list option
    \<Rightarrow> user_data \<Rightarrow> nat option \<Rightarrow> bool" where
  "shown st name ms ss ps u ds \<longleftrightarrow> (\<forall>i. visible (global_flags st) \<lparr>if_ref = i, if_name = name,
     if_methods = ms, if_signals = ss, if_properties = ps, if_pending = [], if_user_data = u, if_destroy = ds\<rparr>)"

lemma register_succeeds:
  assumes wf: "obj_wf st" and reg: "path_data conn path st = None \<Longrightarrow> \<not> cannot_register E (ticks st)"
    and vis: "\<And>i. visible (global_flags st) \<lparr>if_ref = i, if_name = name, if_methods = ms, if_signals = ss,
      if_properties = ps, if_pending = [], if_user_data = u, if_destroy = ds\<rparr>"
    and new: "\<And>q d. path_data conn path st = Some q \<Longrightarrow> heap st q = Some d \<Longrightarrow>
      find_interface (g_interfaces d) (Some name) = None"
    and name: "path_data conn path st = None \<Longrightarrow> name \<noteq> introspectable_interface"
  shows "\<exists>st' r d f. g_dbus_register_interface E conn path name ms ss ps u ds st = Some (True, st')
    \<and> obj_wf st' \<and> path_data conn path st' = Some r \<and> heap st' r = Some d \<and> g_introspect d = None
    \<and> find_interface (g_interfaces d) (Some name) = Some f \<and> if_methods f = ms \<and> if_signals f = ss
    \<and> if_properties f = ps"
proof -
  from object_path_ref_wf[OF wf reg] obtain r st1 d1 where
    st1: "object_path_ref E conn path st = Some (Some r, st1)" "obj_wf st1" "heap st1 r = Some d1"
      "path_data conn path st1 = Some r" "global_flags st1 = global_flags st"
    and ifs: "case path_data conn path st of
         None \<Rightarrow> map if_name (g_interfaces d1) = [introspectable_interface]
       | Some q \<Rightarrow> r = q \<and> (\<forall>d. heap st q = Some d \<longrightarrow> g_interfaces d1 = g_interfaces d)"
    by blast
  have free: "find_interface (g_interfaces d1) (Some name) = None"
  proof (cases "path_data conn path st")
    case None
    with ifs name show ?thesis by (auto simp: find_interface_def)
  next
    case (Some q)
    from obj_wfD(2)[OF wf Some] obtain d where "heap st q = Some d" by blast
    with ifs Some new[OF Some this] show ?thesis by simp
  qed
  define f where "f = \<lparr>if_ref = next_interface st1, if_name = name, if_methods = ms, if_signals = ss,
      if_properties = ps, if_pending = [], if_user_data = u, if_destroy = ds\<rparr>"
  from add_interface_wf[OF st1(2,3) vis[folded st1(5)]] obtain st2 d2 where
    st2: "add_interface r name ms ss ps u ds st1 = Some (True, st2)" "obj_wf st2" "heap st2 r = Some d2"
      "paths st2 = paths st1" "g_interfaces d2 = g_interfaces d1 @ [f]"
    unfolding f_def by blast
  define extra where "extra \<longleftrightarrow> ps \<noteq> None \<and> find_interface (g_interfaces d2) (Some properties_interface) = None"
  have "\<exists>st3 d3 ok more. (if extra then add_interface r properties_interface properties_methods properties_signals
          None (ObjectData r) None st2 else Some (True, st2)) = Some (ok, st3)
      \<and> obj_wf st3 \<and> heap st3 r = Some d3 \<and> paths st3 = paths st2 \<and> g_interfaces d3 = g_interfaces d2 @ more"
  proof (cases extra)
    case True
    from add_interface_wf[OF st2(2,3) visible_properties, of properties_interface properties_signals
        None "ObjectData r" None]
    show ?thesis using True by (simp, blast)
  next
    case False
    with st2 show ?thesis
      by (intro exI[of _ st2] exI[of _ d2] exI[of _ True] exI[of _ "[]"]) simp
  qed
  then obtain st3 d3 ok more where
    st3: "(if extra then add_interface r properties_interface properties_methods properties_signals
          None (ObjectData r) None st2 else Some (True, st2)) = Some (ok, st3)"
      "obj_wf st3" "heap st3 r = Some d3" "paths st3 = paths st2" "g_interfaces d3 = g_interfaces d2 @ more"
    by blast
  let ?d = "d3\<lparr>g_introspect := None\<rparr>" and ?st = "put_data r (d3\<lparr>g_introspect := None\<rparr>) st3"
  have ok4: "data_ok st3 r ?d" using obj_wfD(1)[OF st3(2,3)] by (simp add: data_ok_def)
  have "g_dbus_register_interface E conn path name ms ss ps u ds st = Some (True, ?st)"
    using st1(1,3) free st2(1,3) st3(1,3)
    by (simp add: g_dbus_register_interface_def clear_introspect_def extra_def)
  moreover have "find_interface (g_interfaces ?d) (Some name) = Some f"
    using free st2(5) st3(5) by (simp add: find_interface_def f_def find_append)
  moreover have "path_data conn path ?st = Some r"
    using st1(4) st2(4) st3(4) by (simp add: path_data_def)
  ultimately show ?thesis
    using obj_wf_put[OF st3(2,3) ok4] by (intro exI[of _ ?st] exI[of _ r] exI[of _ ?d] exI[of _ f]) (simp add: f_def)
qed

text \<open>A path libdbus refuses, and an interface a known object does not take: nothing has changed.\<close>

lemma register_refused:
  assumes wf: "obj_wf st" and path: "path_data conn path st = None" and no: "cannot_register E (ticks st)"
  shows "\<exists>st'. g_dbus_register_interface E conn path name ms ss ps u ds st = Some (False, st') \<and> obj_wf st'
    \<and> heap st' = heap st \<and> paths st' = paths st"
proof -
  let ?st = "st\<lparr>next_object := Suc (next_object st), ticks := Suc (ticks st)\<rparr>"
  have unused: "heap st (next_object st) = None"
    using obj_wfD(1)[OF wf, of "next_object st"] by (cases "heap st (next_object st)") (auto simp: data_ok_def)
  have "data_ok ?st r d" if "heap st r = Some d" for r d
    by (rule data_ok_mono[OF obj_wfD(1)[OF wf that]]) simp_all
  then have "obj_wf ?st" using wf by (simp add: obj_wf_def path_data_def)
  moreover have "g_dbus_register_interface E conn path name ms ss ps u ds st = Some (False, ?st)"
    using path no unused
    by (simp add: g_dbus_register_interface_def object_path_ref_def put_data_def Let_def fun_upd_idem)
  ultimately show ?thesis by (intro exI[of _ ?st]) simp
qed

lemma put_data_twice: "put_data r a (put_data r b st) = put_data r a st"
  by (simp add: put_data_def)

lemma put_data_same: "heap st r = Some d \<Longrightarrow> put_data r d st = st"
  by (simp add: put_data_def fun_upd_idem)

lemma register_declined:
  assumes path: "path_data conn path st = Some r" and d: "heap st r = Some d" and rc: "g_refcount d \<noteq> 0"
    and bad: "find_interface (g_interfaces d) (Some name) \<noteq> None \<or> (\<forall>i. \<not> visible (global_flags st)
      \<lparr>if_ref = i, if_name = name, if_methods = ms, if_signals = ss, if_properties = ps, if_pending = [],
       if_user_data = u, if_destroy = ds\<rparr>)"
  shows "g_dbus_register_interface E conn path name ms ss ps u ds st = Some (False, st)"
proof -
  let ?d = "d\<lparr>g_refcount := g_refcount d + 1\<rparr>"
  have undone: "put_data r (?d\<lparr>g_refcount := g_refcount ?d - 1\<rparr>) (put_data r ?d st) = st"
    using put_data_same[OF d] by (simp add: put_data_twice)
  have "object_path_unref E conn path (put_data r ?d st) = Some st"
    using path rc undone by (simp add: object_path_unref_def path_data_def put_data_def word_neq_0_conv)
  then show ?thesis using path d bad
    by (auto simp: g_dbus_register_interface_def object_path_ref_def add_interface_def path_data_def put_data_def
        Let_def)
qed

text \<open>
  C19. Registering an interface keeps the objects well-formed and touches no freed memory, whether
  it succeeds or not. A new path that libdbus refuses leaves objects and paths as they were; an
  object that is already there and has an interface of the name, or is offered one with nothing
  visible, is left exactly as it was, its reference count included; otherwise registering
  succeeds, the path leads to an object with the interface, and the next introspection is
  generated anew. Not covered is the one failure that frees an object: a new path whose first
  interface has nothing visible or is named like the interface every object has. Objects that are
  there hold at least one reference.
\<close>

theorem register_interface_wf:
  assumes wf: "obj_wf st"
    and held: "\<And>r d. path_data conn path st = Some r \<Longrightarrow> heap st r = Some d \<Longrightarrow> g_refcount d \<noteq> 0"
    and first: "path_data conn path st = None \<Longrightarrow> name \<noteq> introspectable_interface \<and> shown st name ms ss ps u ds"
  shows "if path_data conn path st = None \<and> cannot_register E (ticks st)
    then \<exists>st'. g_dbus_register_interface E conn path name ms ss ps u ds st = Some (False, st') \<and> obj_wf st'
      \<and> heap st' = heap st \<and> paths st' = paths st
    else if (\<exists>r d. path_data conn path st = Some r \<and> heap st r = Some d \<and>
          (find_interface (g_interfaces d) (Some name) \<noteq> None \<or> \<not> shown st name ms ss ps u ds))
    then g_dbus_register_interface E conn path name ms ss ps u ds st = Some (False, st)
    else \<exists>st' r d f. g_dbus_register_interface E conn path name ms ss ps u ds st = Some (True, st')
      \<and> obj_wf st' \<and> path_data conn path st' = Some r \<and> heap st' r = Some d \<and> g_introspect d = None
      \<and> find_interface (g_interfaces d) (Some name) = Some f \<and> if_methods f = ms \<and> if_signals f = ss
      \<and> if_properties f = ps"
proof (cases "path_data conn path st")
  case None
  show ?thesis
  proof (cases "cannot_register E (ticks st)")
    case True
    from register_refused[OF wf None True] None True show ?thesis by simp
  next
    case False
    with None first have "shown st name ms ss ps u ds" "name \<noteq> introspectable_interface" by simp_all
    from register_succeeds[OF wf _ this(1)[unfolded shown_def, rule_format] _ this(2), where conn = conn and path = path
      and E = E] None False show ?thesis by simp
  qed
next
  case (Some r)
  from obj_wfD(2)[OF wf Some] obtain d where d: "heap st r = Some d" by blast
  show ?thesis
  proof (cases "find_interface (g_interfaces d) (Some name) \<noteq> None \<or> \<not> shown st name ms ss ps u ds")
    case True
    then have "find_interface (g_interfaces d) (Some name) \<noteq> None \<or> (\<forall>i. \<not> visible (global_flags st)
      \<lparr>if_ref = i, if_name = name, if_methods = ms, if_signals = ss, if_properties = ps, if_pending = [],
       if_user_data = u, if_destroy = ds\<rparr>)" by (simp add: shown_def visible_def)
    from register_declined[OF Some d held[OF Some d] this] Some d True show ?thesis by simp
  next
    case False
    then have ok: "shown st name ms ss ps u ds" "find_interface (g_interfaces d) (Some name) = None" by simp_all
    have new: "find_interface (g_interfaces e) (Some name) = None"
      if "path_data conn path st = Some q" "heap st q = Some e" for q e
      using that Some d ok(2) by simp
    from register_succeeds[OF wf _ ok(1)[unfolded shown_def, rule_format] new, where conn = conn and path = path
      and E = E] Some d False
    show ?thesis by simp
  qed
qed

theorem register_interface_wf_witness:
  "\<exists>st' r d f. g_dbus_register_interface demo_obj_env 1 ''/a'' ''a.b'' demo_methods [] None (ClientData 0) None obj_start
      = Some (True, st') \<and> obj_wf st' \<and> path_data 1 ''/a'' st' = Some r \<and> heap st' r = Some d
    \<and> find_interface (g_interfaces d) (Some ''a.b'') = Some f \<and> if_methods f = demo_methods"
proof -
  have wf: "obj_wf obj_start" by (simp add: obj_wf_def obj_start_def path_data_def)
  have no: "path_data 1 ''/a'' obj_start = None" by (simp add: obj_start_def path_data_def)
  have vis: "visible (global_flags obj_start) \<lparr>if_ref = i, if_name = ''a.b'', if_methods = demo_methods,
      if_signals = [], if_properties = None, if_pending = [], if_user_data = ClientData 0, if_destroy = None\<rparr>" for i
    by (simp add: visible_def demo_methods_def check_experimental_def flag_set_def)
  have reg: "\<not> cannot_register demo_obj_env (ticks obj_start)" by (simp add: demo_obj_env_def)
  have "''a.b'' \<noteq> introspectable_interface \<and> shown obj_start ''a.b'' demo_methods [] None (ClientData 0) None"
    using vis by (simp add: shown_def)
  from register_interface_wf[OF wf _ this, of 1 "''/a''" demo_obj_env] no reg show ?thesis by simp blast
qed

section \<open>What the object manager reports\<close>

definition below :: "obj_state \<Rightarrow> (nat \<times> nat) set" where
  "below st = {(c, r). \<exists>d. heap st r = Some d \<and> c \<in> set (g_objects d)}"

definition reached :: "obj_state \<Rightarrow> nat list \<Rightarrow> nat set" where
  "reached st rs = {c. \<exists>r\<in>set rs. (c, r) \<in> (below st)\<^sup>*}"

fun entry_path :: "ditem \<Rightarrow> string" where
  "entry_path (DDictEntry (Basic (DObjectPath p) # _)) = p"
| "entry_path _ = []"

lemma reached_Cons:
  "heap st r = Some d \<Longrightarrow> reached st (r # rest) = insert r (reached st (g_objects d @ rest))"
proof -
  assume d: "heap st r = Some d"
  have "(c, r) \<in> (below st)\<^sup>* \<longleftrightarrow> c = r \<or> (\<exists>q\<in>set (g_objects d). (c, q) \<in> (below st)\<^sup>*)" for c
  proof
    assume "(c, r) \<in> (below st)\<^sup>*"
    then show "c = r \<or> (\<exists>q\<in>set (g_objects d). (c, q) \<in> (below st)\<^sup>*)"
      by (cases rule: rtranclE) (use d in \<open>auto simp: below_def\<close>)
  next
    assume "c = r \<or> (\<exists>q\<in>set (g_objects d). (c, q) \<in> (below st)\<^sup>*)"
    then show "(c, r) \<in> (below st)\<^sup>*"
      by (auto simp: below_def d intro: rtrancl_into_rtrancl)
  qed
  then show ?thesis by (auto simp: reached_def)
qed

lemma append_objects_paths:
  assumes "append_objects E st rs = Some items"
  shows "(\<forall>c\<in>reached st rs. heap st c \<noteq> None)
    \<and> set (map entry_path items) = {g_path d |c d. c \<in> reached st rs \<and> heap st c = Some d}"
proof (rule append_objects.raw_induct[where P = "\<lambda>E st rs items.
      (\<forall>c\<in>reached st rs. heap st c \<noteq> None)
      \<and> set (map entry_path items) = {g_path d |c d. c \<in> reached st rs \<and> heap st c = Some d}", OF _ assms])
  fix rec E st rs items
  assume IH: "\<And>E st rs items. rec E st rs = Some items \<Longrightarrow>
      (\<forall>c\<in>reached st rs. heap st c \<noteq> None)
      \<and> set (map entry_path items) = {g_path d |c d. c \<in> reached st rs \<and> heap st c = Some d}"
    and step: "(case rs of
        [] \<Rightarrow> Some []
      | r # rest \<Rightarrow>
          Option.bind (heap st r) (\<lambda>d. Option.bind (rec E st (g_objects d @ rest)) (\<lambda>items.
          Some (DDictEntry [Basic (DObjectPath (g_path d)), append_interfaces E (global_flags st) d] # items))))
      = Some items"
  show "(\<forall>c\<in>reached st rs. heap st c \<noteq> None)
    \<and> set (map entry_path items) = {g_path d |c d. c \<in> reached st rs \<and> heap st c = Some d}"
  proof (cases rs)
    case Nil
    with step show ?thesis by (simp add: reached_def)
  next
    case (Cons r rest)
    with step obtain d more where d: "heap st r = Some d" and more: "rec E st (g_objects d @ rest) = Some more"
      and items: "items = DDictEntry [Basic (DObjectPath (g_path d)), append_interfaces E (global_flags st) d] # more"
      by (auto simp: bind_eq_Some_conv)
    have "{g_path e |c e. c \<in> reached st rs \<and> heap st c = Some e} =
        insert (g_path d) {g_path e |c e. c \<in> reached st (g_objects d @ rest) \<and> heap st c = Some e}"
      unfolding Cons reached_Cons[OF d] using d by auto
    moreover have "\<forall>c\<in>reached st rs. heap st c \<noteq> None"
      using IH[OF more] d unfolding Cons reached_Cons[OF d] by blast
    ultimately show ?thesis using IH[OF more] items by simp
  qed
qed

lemma append_objects_returns:
  assumes wf: "wf (below st)" and live: "\<forall>c\<in>reached st rs. heap st c \<noteq> None"
  shows "append_objects E st rs \<noteq> None"
proof -
  have one: "(\<forall>c\<in>reached st [r]. heap st c \<noteq> None) \<Longrightarrow> append_objects E st rest \<noteq> None \<Longrightarrow>
      append_objects E st (r # rest) \<noteq> None" for r rest
    using wf
  proof (induction r arbitrary: rest rule: wf_induct_rule)
    case (less r)
    have "r \<in> reached st [r]" by (simp add: reached_def)
    with less.prems(1) obtain d where d: "heap st r = Some d" by blast
    have "append_objects E st (qs @ rest) \<noteq> None" if "set qs \<subseteq> set (g_objects d)" for qs
      using that
    proof (induction qs)
      case Nil
      then show ?case using less.prems(2) by simp
    next
      case (Cons q qs)
      then have q: "(q, r) \<in> below st" using d by (auto simp: below_def)
      have "reached st [q] \<subseteq> reached st [r]"
        using q by (auto simp: reached_def intro: rtrancl_into_rtrancl)
      with less.prems(1) have "\<forall>c\<in>reached st [q]. heap st c \<noteq> None" by blast
      from less.IH[OF q this] Cons show ?case by simp
    qed
    from this[of "g_objects d"] show ?case
      by (subst append_objects.simps) (auto simp: d)
  qed
  show ?thesis
    using live
  proof (induction rs)
    case Nil
    show ?case by (subst append_objects.simps) simp
  next
    case (Cons r rs)
    have "reached st [r] \<subseteq> reached st (r # rs)" "reached st rs \<subseteq> reached st (r # rs)"
      by (auto simp: reached_def)
    with Cons one[of r rs] show ?case by blast
  qed
qed

text \<open>
  C23. \<open>GetManagedObjects\<close> answers, and names exactly the paths of the objects below the object
  manager, as long as the tree has no cycle and no freed object, and there is memory for the reply.
\<close>

theorem managed_objects_exact:
  assumes "heap st r = Some d" and "wf (below st)" and "\<forall>c\<in>reached st (g_objects d). heap st c \<noteq> None"
    and "\<not> no_memory E (ticks st)"
  shows "\<exists>items st'. get_objects E msg r st
      = Some (Some (ReplyMsg (c_serial msg) [DArray ''{oa{sa{sv}}}'' items]), st')
    \<and> set (map entry_path items) = {g_path e |c e. c \<in> reached st (g_objects d) \<and> heap st c = Some e}"
proof -
  define st1 where "st1 = snd (new_msg E st)"
  have msg: "new_msg E st = (True, st1)" using assms(4) by (simp add: new_msg_def st1_def)
  have heap: "heap st1 = heap st" by (simp add: st1_def)
  then have same: "below st1 = below st" "reached st1 = reached st"
    by (simp_all add: below_def reached_def fun_eq_iff)
  from append_objects_returns[of st1 "g_objects d" E] assms(2,3) obtain items where
    items: "append_objects E st1 (g_objects d) = Some items" by (auto simp: same heap)
  then have "get_objects E msg r st
      = Some (Some (ReplyMsg (c_serial msg) [DArray ''{oa{sa{sv}}}'' items]), st1)"
    using assms(1) msg by (simp add: get_objects_def)
  with conjunct2[OF append_objects_paths[OF items]] show ?thesis unfolding same heap by blast
qed

theorem managed_objects_exact_witness:
  "\<exists>items st'. get_objects demo_obj_env demo_list 0 (obj_start\<lparr>heap := [0 \<mapsto>
       (fresh_object demo_obj_env 1 ''/'')\<lparr>g_objects := [1]\<rparr>, 1 \<mapsto> fresh_object demo_obj_env 1 ''/a'']\<rparr>)
      = Some (Some (ReplyMsg 1 [DArray ''{oa{sa{sv}}}'' items]), st')
    \<and> set (map entry_path items) = {''/a''}"
proof -
  let ?d = "(fresh_object demo_obj_env 1 ''/'')\<lparr>g_objects := [1]\<rparr>"
  let ?st = "obj_start\<lparr>heap := [0 \<mapsto> ?d, 1 \<mapsto> fresh_object demo_obj_env 1 ''/a'']\<rparr>"
  have h: "heap ?st 0 = Some ?d" "heap ?st 1 = Some (fresh_object demo_obj_env 1 ''/a'')" by simp_all
  have below: "below ?st = {(1, 0)}"
    by (auto simp: below_def fresh_object_def split: if_splits)
  have "c = 1" if "(c, 1) \<in> (below ?st)\<^sup>*" for c
    using that unfolding below by (rule rtranclE) auto
  then have "(c, 1) \<in> (below ?st)\<^sup>* \<longleftrightarrow> c = 1" for c by blast
  then have reached: "reached ?st (g_objects ?d) = {1}" by (simp add: reached_def)
  have wf: "wf (below ?st)" unfolding below by (simp add: wf_insert)
  have ok: "\<not> no_memory demo_obj_env (ticks ?st)" by (simp add: demo_obj_env_def)
  have live: "\<forall>c\<in>reached ?st (g_objects ?d). heap ?st c \<noteq> None" unfolding reached by simp
  from managed_objects_exact[OF h(1) wf live ok, of demo_list] obtain items st' where
    "get_objects demo_obj_env demo_list 0 ?st
      = Some (Some (ReplyMsg (c_serial demo_list) [DArray ''{oa{sa{sv}}}'' items]), st')"
    and paths: "set (map entry_path items)
      = {g_path e |c e. c \<in> reached ?st (g_objects ?d) \<and> heap ?st c = Some e}"
    by blast
  moreover have "{g_path e |c e. c \<in> reached ?st (g_objects ?d) \<and> heap ?st c = Some e} = {''/a''}"
    unfolding reached by (simp add: fresh_object_def)
  ultimately show ?thesis by (simp add: demo_list_def)
qed

section \<open>Freed objects in the tree\<close>

definition late_parent :: "obj_state option" where
  "late_parent = do {
     st1 \<leftarrow> demo_register ''/'' obj_start;
     st2 \<leftarrow> demo_register ''/a/b'' st1;
     st3 \<leftarrow> demo_register ''/a'' st2;
     demo_unregister ''/a/b'' st3
   }"

definition orphan :: "obj_state option" where
  "orphan = do {
     st1 \<leftarrow> demo_register ''/'' obj_start;
     st2 \<leftarrow> demo_register ''/a'' st1;
     st3 \<leftarrow> demo_register ''/a/b'' st2;
     st4 \<leftarrow> demo_unregister ''/a'' st3;
     demo_unregister ''/'' st4
   }"

lemma late_parent_state:
  "map_option (\<lambda>st. (map_option g_objects (heap st 0), heap st 1 = None)) late_parent
     = Some (Some [2, 1], True)"
  by code_simp

lemma orphan_state: "orphan \<noteq> None" by code_simp

text \<open>
  C24. Two orders of registration leave a freed object in the tree. A parent registered after
  its child becomes its parent only when the child goes; the entry of the child in the list of
  its former parent stays, and \<open>GetManagedObjects\<close> reads it. And when an object goes, its
  children get its parent but do not enter the list of that, so nothing resets their pointer
  when that goes too, and their own removal reads it.
\<close>

theorem freed_objects_in_tree:
  "(\<exists>st. late_parent = Some st \<and> get_objects demo_obj_env demo_list 0 st = None)
   \<and> (\<exists>st. orphan = Some st \<and> demo_unregister ''/a/b'' st = None)"
proof (intro conjI)
  from late_parent_state obtain st d where st: "late_parent = Some st" "heap st 0 = Some d"
    "g_objects d = [2, 1]" "heap st 1 = None"
    by (cases late_parent) auto
  have heap: "heap (snd (new_msg demo_obj_env st)) = heap st" by simp
  have "1 \<in> reached (snd (new_msg demo_obj_env st)) [2, 1]" by (simp add: reached_def)
  with st(4) append_objects_paths[of demo_obj_env "snd (new_msg demo_obj_env st)" "[2, 1]"] heap
  have "append_objects demo_obj_env (snd (new_msg demo_obj_env st)) [2, 1] = None"
    by (cases "append_objects demo_obj_env (snd (new_msg demo_obj_env st)) [2, 1]") auto
  then have "get_objects demo_obj_env demo_list 0 st = None"
    using st(2,3) by (simp add: get_objects_def case_prod_beta new_msg_def demo_obj_env_def)
  with st(1) show "\<exists>st. late_parent = Some st \<and> get_objects demo_obj_env demo_list 0 st = None" by blast
next
  from orphan_state obtain st where st: "orphan = Some st" by blast
  have "Option.bind orphan (demo_unregister ''/a/b'') = None" by code_simp
  then have "demo_unregister ''/a/b'' st = None" unfolding st Option.bind.simps .
  with st show "\<exists>st. orphan = Some st \<and> demo_unregister ''/a/b'' st = None" by blast
qed

lemma visible_manager:
  "visible global \<lparr>if_ref = i, if_name = n, if_methods = manager_methods, if_signals = ss,
     if_properties = ps, if_pending = [], if_user_data = u, if_destroy = ds\<rparr>"
  by (simp add: visible_def manager_methods_def check_experimental_def flag_set_def)

lemma add_interface_root:
  assumes "heap st r = Some d" and "g_parent d = None"
    and "\<And>i. visible (global_flags st) \<lparr>if_ref = i, if_name = name, if_methods = ms, if_signals = ss,
      if_properties = ps, if_pending = [], if_user_data = u, if_destroy = ds\<rparr>"
  shows "\<exists>f st'. add_interface r name ms ss ps u ds st = Some (True, st') \<and> if_name f = name
    \<and> heap st' r = Some (d\<lparr>g_interfaces := g_interfaces d @ [f]\<rparr>) \<and> global_flags st' = global_flags st"
proof -
  define f where "f = \<lparr>if_ref = next_interface st, if_name = name, if_methods = ms, if_signals = ss,
      if_properties = ps, if_pending = [], if_user_data = u, if_destroy = ds\<rparr>"
  let ?st = "put_data r (d\<lparr>g_interfaces := g_interfaces d @ [f]\<rparr>)
    (st\<lparr>next_interface := Suc (next_interface st)\<rparr>)"
  have "add_interface r name ms ss ps u ds st = Some (True, ?st)"
    using assms by (simp add: add_interface_def Let_def f_def)
  then show ?thesis by (intro exI[of _ f] exI[of _ ?st]) (simp add: f_def)
qed

text \<open>
  \<open>g_dbus_attach_object_manager\<close> adds its interface without discarding the introspection
  data: attached to a new root object, the object still answers \<open>Introspect\<close> with the empty
  node it was created with.
\<close>

lemma attach_leaves_empty_introspection:
  assumes "path_data conn ''/'' st = None" and "\<not> cannot_register E (ticks st)"
  shows "\<exists>st' r d. g_dbus_attach_object_manager E conn st = Some (True, st') \<and> root st' = Some r
    \<and> heap st' r = Some d
    \<and> map if_name (g_interfaces d) = [introspectable_interface, manager_interface]
    \<and> (\<not> no_memory E (ticks st') \<longrightarrow> (\<exists>st''. introspect E conn msg r st'
        = Some (Some (ReplyMsg (c_serial msg) [Basic (DString (doctype E @ ''<node></node>''))]), st'')))"
proof -
  let ?r = "next_object st" and ?d = "fresh_object E conn ''/''"
  let ?xml = "doctype E @ ''<node></node>''"
  define st1 where "st1 = with_object E conn ''/'' st"
  have d: "g_parent ?d = None" "g_interfaces ?d = []" "g_introspect ?d = Some ?xml"
    by (simp_all add: fresh_object_def)
  have "parent_path ''/'' = None" by (simp add: parent_path_def)
  then have inv: "invalidate_parent_data conn ''/'' st1 = Some (None, st1)"
    by (subst invalidate_parent_data.simps) simp
  have h1: "heap st1 ?r = Some ?d" by (simp add: st1_def with_object_def)
  from add_interface_root[OF h1 d(1) visible_introspect] obtain f st2 where
    f: "add_interface ?r introspectable_interface introspect_methods [] None (ObjectData ?r) None st1
      = Some (True, st2)" "if_name f = introspectable_interface"
      "heap st2 ?r = Some (?d\<lparr>g_interfaces := g_interfaces ?d @ [f]\<rparr>)" by blast
  have "put_data ?r ?d (st\<lparr>next_object := Suc ?r, ticks := Suc (ticks st)\<rparr>)
      \<lparr>paths := gh_replace (conn, ''/'') ?r (paths st)\<rparr> = st1"
    by (simp add: st1_def with_object_def put_data_def)
  then have ref: "object_path_ref E conn ''/'' st = Some (Some ?r, st2)"
    using assms inv f(1) by (simp add: object_path_ref_def Let_def fresh_object_def[symmetric])
  let ?d2 = "?d\<lparr>g_interfaces := g_interfaces ?d @ [f]\<rparr>"
  have "g_parent ?d2 = None" using d(1) by simp
  from add_interface_root[OF f(3) this visible_manager] obtain f2 st3 where
    f2: "add_interface ?r manager_interface manager_methods manager_signals None (ObjectData ?r) None st2
      = Some (True, st3)" "if_name f2 = manager_interface"
      "heap st3 ?r = Some (?d2\<lparr>g_interfaces := g_interfaces ?d2 @ [f2]\<rparr>)" by blast
  define d3 where "d3 = ?d2\<lparr>g_interfaces := g_interfaces ?d2 @ [f2]\<rparr>"
  define st4 where "st4 = st3\<lparr>root := Some ?r\<rparr>"
  have h4: "heap st4 ?r = Some d3" using f2(3) by (simp add: st4_def d3_def)
  have d3: "map if_name (g_interfaces d3) = [introspectable_interface, manager_interface]"
    "g_introspect d3 = Some ?xml"
    using f(2) f2(2) d(2,3) by (simp_all add: d3_def)
  have att: "g_dbus_attach_object_manager E conn st = Some (True, st4)"
    using ref f2(1) by (simp add: g_dbus_attach_object_manager_def st4_def)
  have "\<exists>st''. introspect E conn msg ?r st4 = Some (Some (ReplyMsg (c_serial msg) [Basic (DString ?xml)]), st'')"
    if "\<not> no_memory E (ticks st4)"
    using that h4 d3(2) by (simp add: introspect_def new_msg_def)
  moreover have "root st4 = Some ?r" by (simp add: st4_def)
  ultimately show ?thesis using att h4 d3(1)
    by (intro exI[of _ st4] exI[of _ ?r] exI[of _ d3]) simp
qed

end
