(* ===== verification/Gdbus_Client.thy ===== *)
theory Gdbus_Client
  imports Gdbus_Watch Fdo_Dbus "HOL-Library.Monad_Syntax"
begin

text \<open>
  \<open>gdbus/client.c\<close>: a client mirrors the objects of a service on the bus. Each interface of a
  remote object is a proxy with a table of its properties; the proxies follow the signals and
  replies of the service. A \<open>GDBusClient\<close> and a \<open>GDBusProxy\<close> are objects of two heaps, named
  by numbers; a read of a freed one, a NULL pointer that is dereferenced or passed to libdbus
  and a call of libdbus that it forbids give \<open>None\<close>. The watches are those of \<open>gdbus/watch.c\<close>,
  with the client or the proxy as their user data. The functions of the program are recorded, in
  order, in \<open>program\<close>; they are taken not to call back into this file before they return.
  Reference counts do not overflow. What \<open>g_dbus_send_message_with_reply\<close> flushes before a
  message is the state of \<open>Gdbus_Object_Tree\<close>, apart from this one.
\<close>

section \<open>State\<close>

record prop_entry =
  pe_type :: "char option"
  pe_msg :: "ditem list option"

record gproxy =
  px_refs :: nat
  px_client :: "nat option"
  px_path :: string
  px_interface :: string
  px_props :: "(string, prop_entry) ghash"
  px_watch :: "32 word"
  px_prop_func :: "client_fn option"
  px_prop_data :: nat
  px_removed_func :: "client_fn option"
  px_removed_data :: nat

record gclient =
  gc_refs :: nat
  gc_conn :: nat
  gc_service :: string
  gc_base_path :: string
  gc_watch :: "32 word"
  gc_added_watch :: "32 word"
  gc_removed_watch :: "32 word"
  gc_match_rules :: "string list"
  gc_pending_call :: "nat option"
  gc_get_objects_call :: "nat option"
  gc_connect_func :: "client_fn option"
  gc_connect_data :: nat
  gc_disconn_func :: "client_fn option"
  gc_disconn_data :: nat
  gc_signal_func :: "client_fn option"
  gc_signal_data :: nat
  gc_proxy_added :: "client_fn option"
  gc_proxy_removed :: "client_fn option"
  gc_property_changed :: "client_fn option"
  gc_user_data :: nat
  gc_proxy_list :: "nat list"

text \<open>\<open>set_property_data\<close> and \<open>method_call_data\<close>, and which reply a pending call waits for.\<close>

record reply_data =
  rd_function :: "client_fn option"
  rd_user_data :: nat
  rd_destroy :: "client_fn option"

datatype reply_to =
    ModifyMatchReply
  | GetAllReply nat
  | RefreshReply nat string
  | SetReply reply_data
  | CallReply reply_data
  | ObjectsReply nat

datatype program_call =
    PropFunc client_fn nat string "ditem list option" nat
  | PropertyChanged client_fn nat string "ditem list option" nat
  | ProxyAdded client_fn nat nat
  | ProxyRemoved client_fn nat nat
  | RemovedFunc client_fn nat nat
  | ConnectFunc client_fn nat nat
  | DisconnFunc client_fn nat nat
  | SignalFunc client_fn nat nat
  | SetupFunc client_fn nat
  | ResultFunc client_fn bool nat
  | ReturnFunc client_fn dmessage nat
  | DestroyFunc client_fn nat

record client_msg =
  cm_destination :: string
  cm_path :: string
  cm_interface :: string
  cm_member :: string
  cm_body :: "ditem list"
  cm_timeout :: int

record client_state =
  clients :: "nat \<Rightarrow> gclient option"
  proxies :: "nat \<Rightarrow> gproxy option"
  next_client :: nat
  next_proxy :: nat
  registry :: watch_state
  client_filters :: "(nat \<times> nat) list"
  conn_refs :: "nat \<Rightarrow> int"
  sent_calls :: "client_msg list"
  awaited :: "(nat \<times> reply_to) list"
  next_call :: nat
  program :: "program_call list"
  attempts :: nat

text \<open>
  What the surroundings do: whether the n-th attempt to get memory fails, what the n-th attempt
  to send comes to, and what a function of the program appends to a message.
\<close>

record client_env =
  try_fails :: "nat \<Rightarrow> bool"
  reply_outcome :: "nat \<Rightarrow> send_outcome"
  watching :: watch_env
  setup_items :: "client_fn \<Rightarrow> nat \<Rightarrow> ditem list"

abbreviation (input) service_connect_fn :: client_fn where "service_connect_fn \<equiv> 1"
abbreviation (input) service_disconnect_fn :: client_fn where "service_disconnect_fn \<equiv> 2"
abbreviation (input) interfaces_added_fn :: client_fn where "interfaces_added_fn \<equiv> 3"
abbreviation (input) interfaces_removed_fn :: client_fn where "interfaces_removed_fn \<equiv> 4"
abbreviation (input) properties_changed_fn :: client_fn where "properties_changed_fn \<equiv> 5"

abbreviation (input) properties_interface :: string where
  "properties_interface \<equiv> ''org.freedesktop.DBus.Properties''"
abbreviation (input) introspectable_interface :: string where
  "introspectable_interface \<equiv> ''org.freedesktop.DBus.Introspectable''"
abbreviation (input) object_manager_interface :: string where
  "object_manager_interface \<equiv> ''org.freedesktop.DBus.ObjectManager''"

definition set_proxy :: "nat \<Rightarrow> gproxy \<Rightarrow> client_state \<Rightarrow> client_state" where
  "set_proxy p x st = st\<lparr>proxies := (proxies st)(p \<mapsto> x)\<rparr>"

definition set_client :: "nat \<Rightarrow> gclient \<Rightarrow> client_state \<Rightarrow> client_state" where
  "set_client c x st = st\<lparr>clients := (clients st)(c \<mapsto> x)\<rparr>"

definition tell :: "client_fn option \<Rightarrow> (client_fn \<Rightarrow> program_call) \<Rightarrow> client_state \<Rightarrow> client_state" where
  "tell f how st = (case f of None \<Rightarrow> st | Some g \<Rightarrow> st\<lparr>program := program st @ [how g]\<rparr>)"

definition try_new :: "client_env \<Rightarrow> client_state \<Rightarrow> bool \<times> client_state" where
  "try_new E st = (\<not> try_fails E (attempts st), st\<lparr>attempts := Suc (attempts st)\<rparr>)"

text \<open>A message is created, filled and sent; \<open>await\<close> sets the function for its reply.\<close>

definition send_call :: "client_env \<Rightarrow> client_msg \<Rightarrow> client_state \<Rightarrow> send_outcome \<times> client_state" where
  "send_call E msg st =
     (let outcome = reply_outcome E (attempts st); st1 = st\<lparr>attempts := Suc (attempts st)\<rparr>
      in (outcome, if outcome = SentCall then st1\<lparr>sent_calls := sent_calls st1 @ [msg]\<rparr> else st1))"

definition await :: "reply_to \<Rightarrow> client_state \<Rightarrow> client_state" where
  "await r st = st\<lparr>awaited := awaited st @ [(next_call st, r)], next_call := Suc (next_call st)\<rparr>"

definition bus_msg :: "string \<Rightarrow> string \<Rightarrow> client_msg" where
  "bus_msg member rule =
     \<lparr>cm_destination = ''org.freedesktop.DBus'', cm_path = ''/org/freedesktop/DBus'',
      cm_interface = ''org.freedesktop.DBus'', cm_member = member, cm_body = [Basic (DString rule)], cm_timeout = -1\<rparr>"

definition modify_match_reply :: "dmessage \<Rightarrow> client_state \<Rightarrow> client_state" where
  "modify_match_reply reply st = st"

definition modify_match :: "client_env \<Rightarrow> string \<Rightarrow> string \<Rightarrow> client_state \<Rightarrow> bool \<times> client_state" where
  "modify_match E member rule st =
     (let (outcome, st1) = send_call E (bus_msg member rule) st in
      if outcome = SentCall then (True, await ModifyMatchReply st1) else (False, st1))"

section \<open>Copying values\<close>

text \<open>The signature of the values under an iterator inside an array or a variant.\<close>

fun iter_get_signature :: "ditem \<Rightarrow> string" where
  "iter_get_signature (DArray s _) = s"
| "iter_get_signature (DVariant _ items) = (case items of [] \<Rightarrow> [] | i # _ \<Rightarrow> item_sig i)"
| "iter_get_signature _ = []"

fun append_item :: "ditem list \<Rightarrow> ditem \<Rightarrow> ditem list" and append_items :: "ditem list \<Rightarrow> ditem list \<Rightarrow> ditem list" where
  "append_item base (Basic v) = base @ [Basic v]"
| "append_item base (DArray s items) = base @ [DArray (iter_get_signature (DArray s items)) (append_items [] items)]"
| "append_item base (DVariant s items) =
     base @ [DVariant (iter_get_signature (DVariant s items)) (append_items [] items)]"
| "append_item base (DStruct items) = base @ [DStruct (append_items [] items)]"
| "append_item base (DDictEntry items) = base @ [DDictEntry (append_items [] items)]"
| "append_items base [] = base"
| "append_items base (i # rest) = append_items (append_item base i) rest"

definition iter_append_iter :: "ditem list \<Rightarrow> ditem list \<Rightarrow> ditem list" where
  "iter_append_iter base iter = (case iter of [] \<Rightarrow> base | i # _ \<Rightarrow> append_item base i)"

text \<open>What is under an iterator, where it is of the type the code asks for.\<close>

fun string_at :: "ditem list \<Rightarrow> string option" where
  "string_at (Basic (DString s) # _) = Some s"
| "string_at _ = None"

fun path_at :: "ditem list \<Rightarrow> string option" where
  "path_at (Basic (DObjectPath s) # _) = Some s"
| "path_at _ = None"

fun array_at :: "ditem list \<Rightarrow> ditem list option" where
  "array_at (DArray _ items # _) = Some items"
| "array_at _ = None"

fun variant_at :: "ditem list \<Rightarrow> ditem list option" where
  "variant_at (DVariant _ items # _) = Some items"
| "variant_at _ = None"

section \<open>Properties\<close>

text \<open>A message that cannot be copied leaves the entry without a value.\<close>

definition prop_entry_update ::
  "client_env \<Rightarrow> prop_entry \<Rightarrow> ditem list \<Rightarrow> client_state \<Rightarrow> prop_entry \<times> client_state"
where
  "prop_entry_update E prop iter st =
     (let (new, st1) = try_new E st in
      if \<not> new then (prop, st1)
      else let (copied, st2) = try_new E st1 in
           (prop\<lparr>pe_msg := (if copied then Some (iter_append_iter [] iter) else None)\<rparr>, st2))"

definition prop_entry_new :: "client_env \<Rightarrow> ditem list \<Rightarrow> client_state \<Rightarrow> prop_entry option \<times> client_state" where
  "prop_entry_new E iter st =
     (let (new, st1) = try_new E st in
      if \<not> new then (None, st1)
      else let (prop, st2) = prop_entry_update E \<lparr>pe_type = iter_arg_type iter, pe_msg = None\<rparr> iter st1
           in (Some prop, st2))"

text \<open>\<open>client->property_changed\<close>: the client is read.\<close>

definition tell_changed :: "nat \<Rightarrow> nat \<Rightarrow> string \<Rightarrow> ditem list option \<Rightarrow> client_state \<Rightarrow> client_state option" where
  "tell_changed c p name val st =
     map_option (\<lambda>cl. tell (gc_property_changed cl) (\<lambda>f. PropertyChanged f p name val (gc_user_data cl)) st)
       (clients st c)"

text \<open>The entry the table has for a name is updated, or a new one made.\<close>

definition store_entry ::
  "client_env \<Rightarrow> prop_entry option \<Rightarrow> ditem list \<Rightarrow> client_state \<Rightarrow> prop_entry option \<times> client_state"
where
  "store_entry E old val st =
     (case old of
        Some prop \<Rightarrow> (let (e, st1) = prop_entry_update E prop val st in (Some e, st1))
      | None \<Rightarrow> prop_entry_new E val st)"

definition add_property ::
  "client_env \<Rightarrow> nat \<Rightarrow> string \<Rightarrow> ditem list \<Rightarrow> bool \<Rightarrow> client_state \<Rightarrow> client_state option"
where
  "add_property E p name iter send_changed st = do {
     x \<leftarrow> proxies st p;
     (case variant_at iter of
        None \<Rightarrow> Some st
      | Some val \<Rightarrow>
          (let (entry, st1) = store_entry E (gh_lookup (px_props x) name) val st
           in (case entry of
                 None \<Rightarrow> Some st1
               | Some e \<Rightarrow>
                   (let st2 = set_proxy p (x\<lparr>px_props := gh_replace name e (px_props x)\<rparr>) st1;
                        st3 = tell (px_prop_func x) (\<lambda>f. PropFunc f p name (Some val) (px_prop_data x)) st2
                    in (case px_client x of
                          None \<Rightarrow> Some st3
                        | Some c \<Rightarrow> if send_changed then tell_changed c p name (Some val) st3 else Some st3)))))
   }"

fun update_loop :: "client_env \<Rightarrow> nat \<Rightarrow> bool \<Rightarrow> ditem list \<Rightarrow> client_state \<Rightarrow> client_state option" where
  "update_loop E p send_changed (DDictEntry entry # dict) st =
     (case string_at entry of
        None \<Rightarrow> Some st
      | Some name \<Rightarrow> Option.bind (add_property E p name (iter_next entry) send_changed st)
                       (update_loop E p send_changed dict))"
| "update_loop E p send_changed _ st = Some st"

definition update_properties ::
  "client_env \<Rightarrow> nat \<Rightarrow> ditem list \<Rightarrow> bool \<Rightarrow> client_state \<Rightarrow> client_state option"
where
  "update_properties E p iter send_changed st =
     (case array_at iter of None \<Rightarrow> Some st | Some dict \<Rightarrow> update_loop E p send_changed dict st)"

section \<open>References\<close>

definition g_dbus_proxy_ref :: "nat \<Rightarrow> client_state \<Rightarrow> client_state option" where
  "g_dbus_proxy_ref p st = map_option (\<lambda>x. set_proxy p (x\<lparr>px_refs := px_refs x + 1\<rparr>) st) (proxies st p)"

definition g_dbus_proxy_unref :: "nat \<Rightarrow> client_state \<Rightarrow> client_state option" where
  "g_dbus_proxy_unref p st =
     map_option (\<lambda>x. if px_refs x - 1 > 0 then set_proxy p (x\<lparr>px_refs := px_refs x - 1\<rparr>) st
                     else st\<lparr>proxies := (proxies st)(p := None)\<rparr>) (proxies st p)"

definition unwatch :: "client_env \<Rightarrow> 32 word \<Rightarrow> client_state \<Rightarrow> client_state option" where
  "unwatch E wid st =
     map_option (\<lambda>(_, w). st\<lparr>registry := w\<rparr>) (g_dbus_remove_watch (watching E) wid (registry st))"

text \<open>The first half of \<open>proxy_free\<close>: the proxy is taken off its client.\<close>

definition detach_proxy :: "client_env \<Rightarrow> nat \<Rightarrow> client_state \<Rightarrow> client_state option" where
  "detach_proxy E p st = do {
     x \<leftarrow> proxies st p;
     (case px_client x of
        None \<Rightarrow> Some st
      | Some c \<Rightarrow> do {
          cl \<leftarrow> clients st c;
          st1 \<leftarrow> unwatch E (px_watch x) (tell (gc_proxy_removed cl) (\<lambda>f. ProxyRemoved f p (gc_user_data cl)) st);
          Some (set_proxy p (x\<lparr>px_props := [], px_client := None\<rparr>) st1)
        })
   }"

definition proxy_free :: "client_env \<Rightarrow> nat \<Rightarrow> client_state \<Rightarrow> client_state option" where
  "proxy_free E p st = do {
     x \<leftarrow> proxies st p;
     st1 \<leftarrow> detach_proxy E p st;
     g_dbus_proxy_unref p (tell (px_removed_func x) (\<lambda>f. RemovedFunc f p (px_removed_data x)) st1)
   }"

text \<open>\<open>g_list_free_full\<close> with \<open>proxy_free\<close>.\<close>

fun free_proxies :: "client_env \<Rightarrow> nat list \<Rightarrow> client_state \<Rightarrow> client_state option" where
  "free_proxies E [] st = Some st"
| "free_proxies E (p # ps) st = Option.bind (proxy_free E p st) (free_proxies E ps)"

definition g_dbus_client_ref :: "nat \<Rightarrow> client_state \<Rightarrow> client_state option" where
  "g_dbus_client_ref c st = map_option (\<lambda>x. set_client c (x\<lparr>gc_refs := gc_refs x + 1\<rparr>) st) (clients st c)"

definition cancel_call :: "nat option \<Rightarrow> client_state \<Rightarrow> client_state" where
  "cancel_call call st =
     (case call of None \<Rightarrow> st | Some i \<Rightarrow> st\<lparr>awaited := filter (\<lambda>(j, _). j \<noteq> i) (awaited st)\<rparr>)"

definition modify_matches :: "client_env \<Rightarrow> string \<Rightarrow> string list \<Rightarrow> client_state \<Rightarrow> client_state" where
  "modify_matches E member rules = fold (\<lambda>rule st. snd (modify_match E member rule st)) rules"

text \<open>The last reference is given back.\<close>

definition free_client :: "client_env \<Rightarrow> nat \<Rightarrow> gclient \<Rightarrow> client_state \<Rightarrow> client_state option" where
  "free_client E c x st = do {
     let st = cancel_call (gc_get_objects_call x) (cancel_call (gc_pending_call x) st);
     let st = modify_matches E ''RemoveMatch'' (gc_match_rules x) st;
     let st = st\<lparr>client_filters := remove1 (gc_conn x, c) (client_filters st)\<rparr>;
     st \<leftarrow> free_proxies E (gc_proxy_list x) st;
     let st = tell (gc_disconn_func x) (\<lambda>f. DisconnFunc f (gc_conn x) (gc_disconn_data x)) st;
     st \<leftarrow> unwatch E (gc_watch x) st;
     st \<leftarrow> unwatch E (gc_added_watch x) st;
     st \<leftarrow> unwatch E (gc_removed_watch x) st;
     Some (st\<lparr>conn_refs := (conn_refs st)(gc_conn x := conn_refs st (gc_conn x) - 1),
              clients := (clients st)(c := None)\<rparr>)
   }"

definition g_dbus_client_unref :: "client_env \<Rightarrow> nat \<Rightarrow> client_state \<Rightarrow> client_state option" where
  "g_dbus_client_unref E c st = do {
     x \<leftarrow> clients st c;
     let st1 = set_client c (x\<lparr>gc_refs := gc_refs x - 1\<rparr>) st;
     (if gc_refs x - 1 > 0 then Some st1 else free_client E c x st1)
   }"

section \<open>All properties of a proxy\<close>

definition proxy_msg :: "gclient \<Rightarrow> gproxy \<Rightarrow> string \<Rightarrow> ditem list \<Rightarrow> client_msg" where
  "proxy_msg cl x member body =
     \<lparr>cm_destination = gc_service cl, cm_path = px_path x, cm_interface = properties_interface,
      cm_member = member, cm_body = body, cm_timeout = -1\<rparr>"

text \<open>A missing client is dereferenced, at the latest where its list of proxies is searched.\<close>

definition get_all_properties_reply :: "client_env \<Rightarrow> nat \<Rightarrow> dmessage \<Rightarrow> client_state \<Rightarrow> client_state option" where
  "get_all_properties_reply E p reply st = do {
     x \<leftarrow> proxies st p;
     c \<leftarrow> px_client x;
     st1 \<leftarrow> (if msg_error reply then Some st else update_properties E p (msg_body reply) False st);
     cl \<leftarrow> clients st1 c;
     let st2 = (if p \<in> set (gc_proxy_list cl) then st1
                else set_client c (cl\<lparr>gc_proxy_list := gc_proxy_list cl @ [p]\<rparr>)
                       (tell (gc_proxy_added cl) (\<lambda>f. ProxyAdded f p (gc_user_data cl)) st1));
     g_dbus_client_unref E c st2
   }"

text \<open>libdbus forbids to wait for the reply of a call that is NULL, which it is on a closed connection.\<close>

definition get_all_properties :: "client_env \<Rightarrow> nat \<Rightarrow> client_state \<Rightarrow> client_state option" where
  "get_all_properties E p st = do {
     x \<leftarrow> proxies st p;
     c \<leftarrow> px_client x;
     cl \<leftarrow> clients st c;
     let (outcome, st1) = send_call E (proxy_msg cl x ''GetAll'' [Basic (DString (px_interface x))]) st;
     (case outcome of
        NoMessage \<Rightarrow> Some st1
      | SendFailed \<Rightarrow> Some st1
      | NoPendingCall \<Rightarrow> None
      | SentCall \<Rightarrow> map_option (await (GetAllReply p)) (g_dbus_client_ref c st1))
   }"

text \<open>The inner result is the proxy found, if any.\<close>

fun lookup_loop :: "string \<Rightarrow> string \<Rightarrow> nat list \<Rightarrow> client_state \<Rightarrow> nat option option" where
  "lookup_loop path interface [] st = Some None"
| "lookup_loop path interface (p # ps) st =
     Option.bind (proxies st p) (\<lambda>x.
       if px_interface x = interface \<and> px_path x = path then Some (Some p) else lookup_loop path interface ps st)"

definition proxy_lookup :: "nat \<Rightarrow> string \<Rightarrow> string \<Rightarrow> client_state \<Rightarrow> nat option option" where
  "proxy_lookup c path interface st =
     Option.bind (clients st c) (\<lambda>cl. lookup_loop path interface (gc_proxy_list cl) st)"

fun invalidate_loop :: "nat \<Rightarrow> ditem list \<Rightarrow> client_state \<Rightarrow> client_state option" where
  "invalidate_loop p (Basic (DString name) # names) st = do {
     x \<leftarrow> proxies st p;
     c \<leftarrow> px_client x;
     let st1 = set_proxy p (x\<lparr>px_props := gh_remove name (px_props x)\<rparr>) st;
     st2 \<leftarrow> tell_changed c p name None (tell (px_prop_func x) (\<lambda>f. PropFunc f p name None (px_prop_data x)) st1);
     invalidate_loop p names st2
   }"
| "invalidate_loop p _ st = Some st"

definition properties_changed :: "client_env \<Rightarrow> nat \<Rightarrow> ditem list \<Rightarrow> client_state \<Rightarrow> client_state option" where
  "properties_changed E p body st = do {
     x \<leftarrow> proxies st p;
     (case string_at body of
        None \<Rightarrow> Some st
      | Some interface \<Rightarrow> do {
          st1 \<leftarrow> update_properties E p (iter_next body) True st;
          (case array_at (iter_next (iter_next body)) of
             None \<Rightarrow> Some st1
           | Some names \<Rightarrow> invalidate_loop p names st1)
        })
   }"

section \<open>Proxies come and go\<close>

definition proxy_new ::
  "client_env \<Rightarrow> nat \<Rightarrow> string \<Rightarrow> string \<Rightarrow> client_state \<Rightarrow> (nat option \<times> client_state) option"
where
  "proxy_new E c path interface st =
     (let (new, st1) = try_new E st; p = next_proxy st in
      if \<not> new then Some (None, st1)
      else do {
        cl \<leftarrow> clients st c;
        (w, reg) \<leftarrow> g_dbus_add_properties_watch (watching E) (gc_conn cl) (Some (gc_service cl)) (Some path)
                    (Some interface) (Some properties_changed_fn) p None (registry st);
        st2 \<leftarrow> g_dbus_proxy_ref p
          (set_proxy p \<lparr>px_refs = 0, px_client = Some c, px_path = path, px_interface = interface, px_props = [],
                         px_watch = w, px_prop_func = None, px_prop_data = 0, px_removed_func = None,
                         px_removed_data = 0\<rparr>
             (st1\<lparr>next_proxy := Suc p, registry := reg\<rparr>));
        Some (Some p, st2)
      })"

text \<open>The link of the first proxy that fits is deleted before the proxy is freed.\<close>

definition proxy_remove :: "client_env \<Rightarrow> nat \<Rightarrow> string \<Rightarrow> string \<Rightarrow> client_state \<Rightarrow> client_state option" where
  "proxy_remove E c path interface st = do {
     found \<leftarrow> proxy_lookup c path interface st;
     cl \<leftarrow> clients st c;
     (case found of
        None \<Rightarrow> Some st
      | Some p \<Rightarrow> proxy_free E p (set_client c (cl\<lparr>gc_proxy_list := remove1 p (gc_proxy_list cl)\<rparr>) st))
   }"

definition g_dbus_proxy_new ::
  "client_env \<Rightarrow> nat option \<Rightarrow> string \<Rightarrow> string \<Rightarrow> client_state \<Rightarrow> (nat option \<times> client_state) option"
where
  "g_dbus_proxy_new E client path interface st =
     (case client of
        None \<Rightarrow> Some (None, st)
      | Some c \<Rightarrow> do {
          found \<leftarrow> proxy_lookup c path interface st;
          (case found of
             Some p \<Rightarrow> map_option (\<lambda>s. (Some p, s)) (g_dbus_proxy_ref p st)
           | None \<Rightarrow> do {
               (new, st1) \<leftarrow> proxy_new E c path interface st;
               (case new of
                  None \<Rightarrow> Some (None, st1)
                | Some p \<Rightarrow> map_option (\<lambda>s. (Some p, s))
                              (Option.bind (get_all_properties E p st1) (g_dbus_proxy_ref p)))
             })
        })"

definition g_dbus_proxy_get_path :: "nat option \<Rightarrow> client_state \<Rightarrow> string option option" where
  "g_dbus_proxy_get_path proxy st =
     (case proxy of None \<Rightarrow> Some None | Some p \<Rightarrow> map_option (\<lambda>x. Some (px_path x)) (proxies st p))"

definition g_dbus_proxy_get_interface :: "nat option \<Rightarrow> client_state \<Rightarrow> string option option" where
  "g_dbus_proxy_get_interface proxy st =
     (case proxy of None \<Rightarrow> Some None | Some p \<Rightarrow> map_option (\<lambda>x. Some (px_interface x)) (proxies st p))"

text \<open>The iterator set on the stored value; the inner \<open>None\<close> is FALSE.\<close>

definition stored_value :: "gproxy \<Rightarrow> string \<Rightarrow> ditem list option" where
  "stored_value x name =
     (case gh_lookup (px_props x) name of
        None \<Rightarrow> None
      | Some prop \<Rightarrow> (case pe_msg prop of None \<Rightarrow> None | Some body \<Rightarrow> if body = [] then None else Some body))"

definition g_dbus_proxy_get_property ::
  "nat option \<Rightarrow> string option \<Rightarrow> client_state \<Rightarrow> ditem list option option"
where
  "g_dbus_proxy_get_property proxy name st =
     (case (proxy, name) of
        (Some p, Some n) \<Rightarrow> map_option (\<lambda>x. stored_value x n) (proxies st p)
      | _ \<Rightarrow> Some None)"

section \<open>Calls to the remote object\<close>

definition refresh_property_reply :: "client_env \<Rightarrow> nat \<Rightarrow> string \<Rightarrow> dmessage \<Rightarrow> client_state \<Rightarrow> client_state option" where
  "refresh_property_reply E p name reply st =
     (if msg_error reply then Some st else add_property E p name (msg_body reply) True st)"

text \<open>
  The common end of the three calls: send the message and wait for the reply. On a closed
  connection the call is NULL, for which libdbus takes no function.
\<close>

definition call_and_wait ::
  "client_env \<Rightarrow> client_msg \<Rightarrow> reply_to \<Rightarrow> client_state \<Rightarrow> (bool \<times> client_state) option"
where
  "call_and_wait E msg r st =
     (let (outcome, st1) = send_call E msg st in
      case outcome of
        NoMessage \<Rightarrow> Some (False, st1)
      | SendFailed \<Rightarrow> Some (False, st1)
      | NoPendingCall \<Rightarrow> None
      | SentCall \<Rightarrow> Some (True, await r st1))"

definition g_dbus_proxy_refresh_property ::
  "client_env \<Rightarrow> nat option \<Rightarrow> string option \<Rightarrow> client_state \<Rightarrow> (bool \<times> client_state) option"
where
  "g_dbus_proxy_refresh_property E proxy name st =
     (case (proxy, name) of
        (Some p, Some n) \<Rightarrow> do {
          x \<leftarrow> proxies st p;
          (case px_client x of
             None \<Rightarrow> Some (False, st)
           | Some c \<Rightarrow>
               (let (new, st1) = try_new E st in
                if \<not> new then Some (False, st1)
                else do {
                  cl \<leftarrow> clients st1 c;
                  call_and_wait E (proxy_msg cl x ''Get'' [Basic (DString (px_interface x)), Basic (DString n)])
                    (RefreshReply p n) st1
                }))
        }
      | _ \<Rightarrow> Some (False, st))"

text \<open>The result function gets an error that is set if the reply is one.\<close>

definition set_property_reply :: "reply_data \<Rightarrow> dmessage \<Rightarrow> client_state \<Rightarrow> client_state" where
  "set_property_reply data reply st =
     tell (rd_destroy data) (\<lambda>f. DestroyFunc f (rd_user_data data))
       (tell (rd_function data) (\<lambda>f. ResultFunc f (msg_error reply) (rd_user_data data)) st)"

definition type_is_basic :: "char \<Rightarrow> bool" where
  "type_is_basic c \<longleftrightarrow> c \<in> set ''ybnqiuxtdsog''"

text \<open>The value behind the pointer is one of the type given; anything else is undefined here.\<close>

definition g_dbus_proxy_set_property_basic ::
  "client_env \<Rightarrow> nat option \<Rightarrow> string option \<Rightarrow> char \<Rightarrow> dbasic option \<Rightarrow> reply_data \<Rightarrow> client_state
     \<Rightarrow> (bool \<times> client_state) option"
where
  "g_dbus_proxy_set_property_basic E proxy name type val data st =
     (case (proxy, name, val) of
        (Some p, Some n, Some v) \<Rightarrow>
          (if \<not> type_is_basic type then Some (False, st)
           else do {
             x \<leftarrow> proxies st p;
             (case px_client x of
                None \<Rightarrow> Some (False, st)
              | Some c \<Rightarrow>
                  (let (new, st1) = try_new E st in
                   if \<not> new then Some (False, st1)
                   else do {
                     cl \<leftarrow> clients st1 c;
                     (if type_code v \<noteq> type \<and> reply_outcome E (attempts st1) \<noteq> NoMessage then None
                      else call_and_wait E
                             (proxy_msg cl x ''Set''
                               [Basic (DString (px_interface x)), Basic (DString n), DVariant [type] [Basic v]])
                             (SetReply data) st1)
                   }))
           })
      | _ \<Rightarrow> Some (False, st))"

definition method_call_reply :: "reply_data \<Rightarrow> dmessage \<Rightarrow> client_state \<Rightarrow> client_state" where
  "method_call_reply data reply st =
     tell (rd_destroy data) (\<lambda>f. DestroyFunc f (rd_user_data data))
       (tell (rd_function data) (\<lambda>f. ReturnFunc f reply (rd_user_data data)) st)"

definition g_dbus_proxy_method_call ::
  "client_env \<Rightarrow> nat option \<Rightarrow> string option \<Rightarrow> client_fn option \<Rightarrow> reply_data \<Rightarrow> client_state
     \<Rightarrow> (bool \<times> client_state) option"
where
  "g_dbus_proxy_method_call E proxy method setup data st =
     (case (proxy, method) of
        (Some p, Some m) \<Rightarrow> do {
          x \<leftarrow> proxies st p;
          (case px_client x of
             None \<Rightarrow> Some (False, st)
           | Some c \<Rightarrow>
               (let (new, st1) = try_new E st in
                if \<not> new then Some (False, st1)
                else do {
                  cl \<leftarrow> clients st1 c;
                  let st2 = (if reply_outcome E (attempts st1) = NoMessage then st1
                             else tell setup (\<lambda>f. SetupFunc f (rd_user_data data)) st1);
                  call_and_wait E
                    \<lparr>cm_destination = gc_service cl, cm_path = px_path x, cm_interface = px_interface x, cm_member = m,
                     cm_body = (case setup of None \<Rightarrow> [] | Some f \<Rightarrow> setup_items E f (rd_user_data data)),
                     cm_timeout = 300 * 1000\<rparr>
                    (CallReply data) st2
                }))
        }
      | _ \<Rightarrow> Some (False, st))"

definition g_dbus_proxy_set_property_watch ::
  "nat option \<Rightarrow> client_fn option \<Rightarrow> nat \<Rightarrow> client_state \<Rightarrow> (bool \<times> client_state) option"
where
  "g_dbus_proxy_set_property_watch proxy f data st =
     (case proxy of
        None \<Rightarrow> Some (False, st)
      | Some p \<Rightarrow> map_option (\<lambda>x. (True, set_proxy p (x\<lparr>px_prop_func := f, px_prop_data := data\<rparr>) st)) (proxies st p))"

definition g_dbus_proxy_set_removed_watch ::
  "nat option \<Rightarrow> client_fn option \<Rightarrow> nat \<Rightarrow> client_state \<Rightarrow> (bool \<times> client_state) option"
where
  "g_dbus_proxy_set_removed_watch proxy f data st =
     (case proxy of
        None \<Rightarrow> Some (False, st)
      | Some p \<Rightarrow>
          map_option (\<lambda>x. (True, set_proxy p (x\<lparr>px_removed_func := f, px_removed_data := data\<rparr>) st)) (proxies st p))"

section \<open>The objects of the service\<close>

fun get_all_loop :: "client_env \<Rightarrow> nat list \<Rightarrow> client_state \<Rightarrow> client_state option" where
  "get_all_loop E [] st = Some st"
| "get_all_loop E (p # ps) st = Option.bind (get_all_properties E p st) (get_all_loop E ps)"

definition refresh_properties :: "client_env \<Rightarrow> nat \<Rightarrow> client_state \<Rightarrow> client_state option" where
  "refresh_properties E c st = Option.bind (clients st c) (\<lambda>cl. get_all_loop E (gc_proxy_list cl) st)"

definition parse_properties ::
  "client_env \<Rightarrow> nat \<Rightarrow> string \<Rightarrow> string \<Rightarrow> ditem list \<Rightarrow> client_state \<Rightarrow> client_state option"
where
  "parse_properties E c path interface iter st =
     (if interface = introspectable_interface then Some st
      else if interface = properties_interface then Some st
      else do {
        found \<leftarrow> proxy_lookup c path interface st;
        (case found of
           Some p \<Rightarrow> update_properties E p iter False st
         | None \<Rightarrow> do {
             (new, st1) \<leftarrow> proxy_new E c path interface st;
             (case new of
                None \<Rightarrow> Some st1
              | Some p \<Rightarrow> do {
                  st2 \<leftarrow> update_properties E p iter False st1;
                  cl \<leftarrow> clients st2 c;
                  Some (set_client c (cl\<lparr>gc_proxy_list := gc_proxy_list cl @ [p]\<rparr>)
                         (tell (gc_proxy_added cl) (\<lambda>f. ProxyAdded f p (gc_user_data cl)) st2))
                })
           })
      })"

fun interfaces_loop :: "client_env \<Rightarrow> nat \<Rightarrow> string \<Rightarrow> ditem list \<Rightarrow> client_state \<Rightarrow> client_state option" where
  "interfaces_loop E c path (DDictEntry entry # dict) st =
     (case string_at entry of
        None \<Rightarrow> Some st
      | Some interface \<Rightarrow> Option.bind (parse_properties E c path interface (iter_next entry) st)
                            (interfaces_loop E c path dict))"
| "interfaces_loop E c path _ st = Some st"

definition parse_interfaces :: "client_env \<Rightarrow> nat \<Rightarrow> string \<Rightarrow> ditem list \<Rightarrow> client_state \<Rightarrow> client_state option" where
  "parse_interfaces E c path iter st =
     (case array_at iter of None \<Rightarrow> Some st | Some dict \<Rightarrow> interfaces_loop E c path dict st)"

definition interfaces_added :: "client_env \<Rightarrow> nat \<Rightarrow> ditem list \<Rightarrow> client_state \<Rightarrow> client_state option" where
  "interfaces_added E c body st =
     (case path_at body of
        None \<Rightarrow> Some st
      | Some path \<Rightarrow> do {
          st1 \<leftarrow> g_dbus_client_ref c st;
          st2 \<leftarrow> parse_interfaces E c path (iter_next body) st1;
          g_dbus_client_unref E c st2
        })"

fun remove_loop :: "client_env \<Rightarrow> nat \<Rightarrow> string \<Rightarrow> ditem list \<Rightarrow> client_state \<Rightarrow> client_state option" where
  "remove_loop E c path (Basic (DString interface) # entries) st =
     Option.bind (proxy_remove E c path interface st) (remove_loop E c path entries)"
| "remove_loop E c path _ st = Some st"

definition interfaces_removed :: "client_env \<Rightarrow> nat \<Rightarrow> ditem list \<Rightarrow> client_state \<Rightarrow> client_state option" where
  "interfaces_removed E c body st =
     (case path_at body of
        None \<Rightarrow> Some st
      | Some path \<Rightarrow>
          (case array_at (iter_next body) of
             None \<Rightarrow> Some st
           | Some entries \<Rightarrow> do {
               st1 \<leftarrow> g_dbus_client_ref c st;
               st2 \<leftarrow> remove_loop E c path entries st1;
               g_dbus_client_unref E c st2
             }))"

fun objects_loop :: "client_env \<Rightarrow> nat \<Rightarrow> ditem list \<Rightarrow> client_state \<Rightarrow> client_state option" where
  "objects_loop E c (DDictEntry entry # dict) st =
     (case path_at entry of
        None \<Rightarrow> Some st
      | Some path \<Rightarrow> Option.bind (parse_interfaces E c path (iter_next entry) st) (objects_loop E c dict))"
| "objects_loop E c _ st = Some st"

definition parse_managed_objects :: "client_env \<Rightarrow> nat \<Rightarrow> ditem list \<Rightarrow> client_state \<Rightarrow> client_state option" where
  "parse_managed_objects E c body st =
     (case array_at body of None \<Rightarrow> Some st | Some dict \<Rightarrow> objects_loop E c dict st)"

definition get_managed_objects_reply :: "client_env \<Rightarrow> nat \<Rightarrow> dmessage \<Rightarrow> client_state \<Rightarrow> client_state option" where
  "get_managed_objects_reply E c reply st = do {
     st1 \<leftarrow> g_dbus_client_ref c st;
     st2 \<leftarrow> (if msg_error reply then Some st1 else parse_managed_objects E c (msg_body reply) st1);
     cl \<leftarrow> clients st2 c;
     g_dbus_client_unref E c (set_client c (cl\<lparr>gc_get_objects_call := None\<rparr>) st2)
   }"

definition objects_msg :: "gclient \<Rightarrow> client_msg" where
  "objects_msg cl =
     \<lparr>cm_destination = gc_service cl, cm_path = ''/'', cm_interface = object_manager_interface,
      cm_member = ''GetManagedObjects'', cm_body = [], cm_timeout = -1\<rparr>"

definition get_managed_objects :: "client_env \<Rightarrow> nat \<Rightarrow> client_state \<Rightarrow> client_state option" where
  "get_managed_objects E c st = do {
     cl \<leftarrow> clients st c;
     (if gc_proxy_added cl = None \<and> gc_proxy_removed cl = None then refresh_properties E c st
      else if gc_get_objects_call cl \<noteq> None then Some st
      else (let (outcome, st1) = send_call E (objects_msg cl) st in
            case outcome of
              NoMessage \<Rightarrow> Some st1
            | SendFailed \<Rightarrow> Some st1
            | NoPendingCall \<Rightarrow> None
            | SentCall \<Rightarrow>
                Some (await (ObjectsReply c)
                  (set_client c (cl\<lparr>gc_get_objects_call := Some (next_call st1)\<rparr>) st1))))
   }"

section \<open>The service and the client\<close>

definition service_connect :: "client_env \<Rightarrow> nat \<Rightarrow> client_state \<Rightarrow> client_state option" where
  "service_connect E c st = do {
     st1 \<leftarrow> g_dbus_client_ref c st;
     cl \<leftarrow> clients st1 c;
     st2 \<leftarrow> get_managed_objects E c
              (tell (gc_connect_func cl) (\<lambda>f. ConnectFunc f (gc_conn cl) (gc_connect_data cl)) st1);
     g_dbus_client_unref E c st2
   }"

definition service_disconnect :: "client_env \<Rightarrow> nat \<Rightarrow> client_state \<Rightarrow> client_state option" where
  "service_disconnect E c st = do {
     cl \<leftarrow> clients st c;
     st1 \<leftarrow> free_proxies E (gc_proxy_list cl) st;
     cl1 \<leftarrow> clients st1 c;
     Some (tell (gc_disconn_func cl1) (\<lambda>f. DisconnFunc f (gc_conn cl1) (gc_disconn_data cl1))
            (set_client c (cl1\<lparr>gc_proxy_list := []\<rparr>) st1))
   }"

text \<open>\<open>g_str_has_prefix\<close> is FALSE for NULL, \<open>g_str_equal\<close> dereferences it.\<close>

definition message_filter :: "nat \<Rightarrow> bool \<Rightarrow> signal_msg \<Rightarrow> client_state \<Rightarrow> client_state option" where
  "message_filter c is_signal msg st =
     (if \<not> is_signal then Some st
      else if sig_sender msg = None then Some st
      else do {
        cl \<leftarrow> clients st c;
        (case sig_path msg of
           None \<Rightarrow> Some st
         | Some path \<Rightarrow>
             (if \<not> g_str_has_prefix path (gc_base_path cl) then Some st
              else do {
                interface \<leftarrow> sig_interface msg;
                (if interface = properties_interface then Some st
                 else Some (tell (gc_signal_func cl) (\<lambda>f. SignalFunc f (gc_conn cl) (gc_signal_data cl)) st))
              }))
      })"

definition client_rule :: "string \<Rightarrow> string \<Rightarrow> string" where
  "client_rule service path =
     ''type='' @ [CHR 0x27] @ ''signal'' @ [CHR 0x27] @ '',sender='' @ [CHR 0x27] @ service @ [CHR 0x27]
     @ '',path_namespace='' @ [CHR 0x27] @ path @ [CHR 0x27]"

definition g_dbus_client_new ::
  "client_env \<Rightarrow> nat option \<Rightarrow> string \<Rightarrow> string \<Rightarrow> client_state \<Rightarrow> (nat option \<times> client_state) option"
where
  "g_dbus_client_new E connection service path st =
     (case connection of
        None \<Rightarrow> Some (None, st)
      | Some conn \<Rightarrow>
          (let (new, st1) = try_new E st; (filtered, st2) = try_new E st1; c = next_client st in
           if \<not> new then Some (None, st1)
           else if \<not> filtered then Some (None, st2)
           else do {
             (w1, reg1) \<leftarrow> g_dbus_add_service_watch (watching E) conn (Some service) (Some service_connect_fn)
                            (Some service_disconnect_fn) c None (registry st);
             (w2, reg2) \<leftarrow> g_dbus_add_signal_watch (watching E) conn (Some service) (Some ''/'')
                            (Some object_manager_interface) (Some ''InterfacesAdded'') (Some interfaces_added_fn) c None reg1;
             (w3, reg3) \<leftarrow> g_dbus_add_signal_watch (watching E) conn (Some service) (Some ''/'')
                            (Some object_manager_interface) (Some ''InterfacesRemoved'') (Some interfaces_removed_fn) c None reg2;
             let rules = [client_rule service path];
             let cl = \<lparr>gc_refs = 0, gc_conn = conn, gc_service = service, gc_base_path = path, gc_watch = w1,
                       gc_added_watch = w2, gc_removed_watch = w3, gc_match_rules = rules, gc_pending_call = None,
                       gc_get_objects_call = None, gc_connect_func = None, gc_connect_data = 0, gc_disconn_func = None,
                       gc_disconn_data = 0, gc_signal_func = None, gc_signal_data = 0, gc_proxy_added = None,
                       gc_proxy_removed = None, gc_property_changed = None, gc_user_data = 0, gc_proxy_list = []\<rparr>;
             st3 \<leftarrow> g_dbus_client_ref c
               (modify_matches E ''AddMatch'' rules
                 (set_client c cl
                   (st2\<lparr>next_client := Suc c, registry := reg3, client_filters := client_filters st2 @ [(conn, c)],
                        conn_refs := (conn_refs st2)(conn := conn_refs st2 conn + 1)\<rparr>)));
             Some (Some c, st3)
           }))"

definition set_client_fields :: "nat option \<Rightarrow> (gclient \<Rightarrow> gclient) \<Rightarrow> client_state \<Rightarrow> (bool \<times> client_state) option" where
  "set_client_fields client f st =
     (case client of
        None \<Rightarrow> Some (False, st)
      | Some c \<Rightarrow> map_option (\<lambda>x. (True, set_client c (f x) st)) (clients st c))"

definition g_dbus_client_set_connect_watch ::
  "nat option \<Rightarrow> client_fn option \<Rightarrow> nat \<Rightarrow> client_state \<Rightarrow> (bool \<times> client_state) option"
where
  "g_dbus_client_set_connect_watch client f data =
     set_client_fields client (\<lambda>x. x\<lparr>gc_connect_func := f, gc_connect_data := data\<rparr>)"

definition g_dbus_client_set_disconnect_watch ::
  "nat option \<Rightarrow> client_fn option \<Rightarrow> nat \<Rightarrow> client_state \<Rightarrow> (bool \<times> client_state) option"
where
  "g_dbus_client_set_disconnect_watch client f data =
     set_client_fields client (\<lambda>x. x\<lparr>gc_disconn_func := f, gc_disconn_data := data\<rparr>)"

definition g_dbus_client_set_signal_watch ::
  "nat option \<Rightarrow> client_fn option \<Rightarrow> nat \<Rightarrow> client_state \<Rightarrow> (bool \<times> client_state) option"
where
  "g_dbus_client_set_signal_watch client f data =
     set_client_fields client (\<lambda>x. x\<lparr>gc_signal_func := f, gc_signal_data := data\<rparr>)"

definition g_dbus_client_set_proxy_handlers ::
  "client_env \<Rightarrow> nat option \<Rightarrow> client_fn option \<Rightarrow> client_fn option \<Rightarrow> client_fn option \<Rightarrow> nat \<Rightarrow> client_state
     \<Rightarrow> (bool \<times> client_state) option"
where
  "g_dbus_client_set_proxy_handlers E client added removed changed data st =
     (case client of
        None \<Rightarrow> Some (False, st)
      | Some c \<Rightarrow> do {
          x \<leftarrow> clients st c;
          st1 \<leftarrow> get_managed_objects E c
            (set_client c (x\<lparr>gc_proxy_added := added, gc_proxy_removed := removed, gc_property_changed := changed,
                             gc_user_data := data\<rparr>) st);
          Some (True, st1)
        })"

section \<open>What libdbus calls\<close>

text \<open>The reply of a pending call runs the function set for it, once.\<close>

definition run_reply :: "client_env \<Rightarrow> reply_to \<Rightarrow> dmessage \<Rightarrow> client_state \<Rightarrow> client_state option" where
  "run_reply E r reply st =
     (case r of
        ModifyMatchReply \<Rightarrow> Some (modify_match_reply reply st)
      | GetAllReply p \<Rightarrow> get_all_properties_reply E p reply st
      | RefreshReply p name \<Rightarrow> refresh_property_reply E p name reply st
      | SetReply data \<Rightarrow> Some (set_property_reply data reply st)
      | CallReply data \<Rightarrow> Some (method_call_reply data reply st)
      | ObjectsReply c \<Rightarrow> get_managed_objects_reply E c reply st)"

definition reply_arrives :: "client_env \<Rightarrow> nat \<Rightarrow> dmessage \<Rightarrow> client_state \<Rightarrow> client_state option" where
  "reply_arrives E i reply st =
     (case map_of (awaited st) i of
        None \<Rightarrow> Some st
      | Some r \<Rightarrow> run_reply E r reply (st\<lparr>awaited := filter (\<lambda>(j, _). j \<noteq> i) (awaited st)\<rparr>))"

definition client_start :: client_state where
  "client_start =
     \<lparr>clients = (\<lambda>_. None), proxies = (\<lambda>_. None), next_client = 0, next_proxy = 0, registry = watch_start,
      client_filters = [], conn_refs = (\<lambda>_. 0), sent_calls = [], awaited = [], next_call = 0, program = [],
      attempts = 0\<rparr>"

end
