(* ===== verification/Gdbus_Watch_Registry.thy ===== *)
theory Gdbus_Watch_Registry
  imports Gdbus_Watch_Props
begin

text \<open>
  The registry of watches between two messages: watches can be added and removed in any order
  without touching freed memory. Its laws are those the users of \<open>gdbus/watch.c\<close> rest on.
\<close>

section \<open>The invariant\<close>

definition callbacks_of :: "watch_state \<Rightarrow> filter_callback multiset" where
  "callbacks_of st = mset (concat (map callbacks (listeners st)))"

definition listener_ok :: "nat \<Rightarrow> filter_data \<Rightarrow> bool" where
  "listener_ok n d \<longleftrightarrow> fd_ref d < n \<and> registered d \<and> \<not> lock d \<and> processed d = [] \<and> callbacks d \<noteq> []
     \<and> length (full_rule d) < 1024"

text \<open>
  Ids are given out once, the question a callback waits for exists, and no two callbacks wait for
  the same one.
\<close>

definition callbacks_ok ::
  "filter_callback multiset \<Rightarrow> 32 word \<Rightarrow> (nat \<Rightarrow> service_data option) \<Rightarrow> nat \<Rightarrow> bool"
where
  "callbacks_ok M lid svs n \<longleftrightarrow>
     (\<forall>cb\<in>#M. cb_id cb \<noteq> 0 \<and> unat (cb_id cb) \<le> unat lid \<and> (\<forall>s. cb_data cb = Some s \<longrightarrow> svs s \<noteq> None \<and> s < n))
     \<and> (\<forall>i. size (filter_mset (\<lambda>cb. cb_id cb = i) M) \<le> 1)
     \<and> (\<forall>s. size (filter_mset (\<lambda>cb. cb_data cb = Some s) M) \<le> 1)"

text \<open>
  A callback without any function is the watch a listener has on the name it belongs to; the
  others are the watches of the clients.
\<close>

definition visible :: "filter_callback \<Rightarrow> bool" where
  "visible cb \<longleftrightarrow> conn_func cb \<noteq> None \<or> disc_func cb \<noteq> None \<or> signal_func cb \<noteq> None"

definition names_ok :: "watch_state \<Rightarrow> bool" where
  "names_ok st \<longleftrightarrow> (\<forall>d\<in>set (listeners st). unat (name_watch d) \<le> unat (listener_id st)
     \<and> (\<forall>cb\<in>#callbacks_of st. cb_id cb = name_watch d \<longrightarrow> \<not> visible cb))"

text \<open>What a client sees: its callbacks, whatever listener, connection and rule they are filed under.\<close>

definition watches :: "watch_state \<Rightarrow> filter_callback multiset" where
  "watches st = image_mset (\<lambda>cb. cb\<lparr>cb_data := None\<rparr>) (filter_mset visible (callbacks_of st))"

definition registry_ok :: "watch_state \<Rightarrow> bool" where
  "registry_ok st \<longleftrightarrow> distinct (map fd_ref (listeners st)) \<and> (\<forall>d\<in>set (listeners st). listener_ok (next_ref st) d)
     \<and> callbacks_ok (callbacks_of st) (listener_id st) (services st) (next_service st) \<and> names_ok st"

lemma registry_start: "registry_ok watch_start"
  by (simp add: registry_ok_def watch_start_def callbacks_of_def callbacks_ok_def names_ok_def)

lemma callbacks_ok_subset:
  "callbacks_ok M lid svs n \<Longrightarrow> N \<subseteq># M \<Longrightarrow> callbacks_ok N lid svs n"
proof -
  assume ok: "callbacks_ok M lid svs n" and sub: "N \<subseteq># M"
  have "size (filter_mset P N) \<le> size (filter_mset P M)" for P
    by (intro size_mset_mono multiset_filter_mono sub)
  with ok sub show ?thesis
    unfolding callbacks_ok_def by (meson mset_subset_eqD order_trans)
qed

lemma callbacks_ok_free:
  assumes ok: "callbacks_ok (add_mset cb M) lid svs n" and data: "cb_data cb = Some s"
  shows "callbacks_ok M lid (svs(s := None)) n"
proof -
  have sub: "callbacks_ok M lid svs n" by (rule callbacks_ok_subset[OF ok]) simp
  have "size (filter_mset (\<lambda>c. cb_data c = Some s) (add_mset cb M)) \<le> 1"
    using ok unfolding callbacks_ok_def by blast
  then have "filter_mset (\<lambda>c. cb_data c = Some s) M = {#}" using data by simp
  then have "cb_data c \<noteq> Some s" if "c \<in># M" for c using that by (auto simp: filter_mset_eq_mempty_iff)
  with sub show ?thesis unfolding callbacks_ok_def by auto
qed

lemma callbacks_ok_new:
  assumes ok: "callbacks_ok M lid svs n" and room: "unat lid + 1 < 2 ^ 32"
    and cb: "cb_id cb = lid + 1" "cb_data cb = None"
  shows "callbacks_ok (add_mset cb M) (lid + 1) svs n"
proof -
  have lid: "unat (lid + 1) = unat lid + 1" using room by (simp add: unat_word_ariths)
  have old: "unat (cb_id c) \<le> unat lid" if "c \<in># M" for c using ok that unfolding callbacks_ok_def by blast
  have "cb_id c \<noteq> lid + 1" if "c \<in># M" for c using old[OF that] lid by auto
  then have none: "filter_mset (\<lambda>c. cb_id c = lid + 1) M = {#}" by (auto simp: filter_mset_eq_mempty_iff)
  have "lid + 1 \<noteq> 0" using lid by (metis add_is_0 one_neq_zero unat_0)
  then show ?thesis
    using ok cb lid none old unfolding callbacks_ok_def by (auto simp: le_Suc_eq)
qed

lemma callbacks_ok_data:
  assumes ok: "callbacks_ok M lid svs n"
  shows "callbacks_ok (image_mset (set_cb_data wid n) M) lid (svs(n \<mapsto> sd)) (Suc n)"
proof -
  let ?f = "set_cb_data wid n"
  have ids: "filter_mset (\<lambda>cb. cb_id cb = i) (image_mset ?f M) = image_mset ?f (filter_mset (\<lambda>cb. cb_id cb = i) M)" for i
    by (induction M) (simp_all add: set_cb_data_def)
  have data: "size (filter_mset (\<lambda>cb. cb_data cb = Some s) (image_mset ?f M)) \<le> 1" for s
  proof (cases "s = n")
    case True
    have "filter_mset (\<lambda>cb. cb_data cb = Some n) (image_mset ?f M) \<subseteq># image_mset ?f (filter_mset (\<lambda>cb. cb_id cb = wid) M)"
      if "\<forall>cb\<in>#M. cb_data cb \<noteq> Some n"
      using that by (induction M) (auto simp: set_cb_data_def)
    moreover have "\<forall>cb\<in>#M. cb_data cb \<noteq> Some n" using ok unfolding callbacks_ok_def by auto
    ultimately have "size (filter_mset (\<lambda>cb. cb_data cb = Some n) (image_mset ?f M))
        \<le> size (filter_mset (\<lambda>cb. cb_id cb = wid) M)"
      using size_mset_mono size_image_mset by metis
    also have "\<dots> \<le> 1" using ok unfolding callbacks_ok_def by blast
    finally show ?thesis using True by simp
  next
    case False
    then have "size (filter_mset (\<lambda>cb. cb_data cb = Some s) (image_mset ?f M)) \<le> size (filter_mset (\<lambda>cb. cb_data cb = Some s) M)"
      by (induction M) (auto simp: set_cb_data_def)
    also have "\<dots> \<le> 1" using ok unfolding callbacks_ok_def by blast
    finally show ?thesis .
  qed
  have "cb_id cb \<noteq> 0 \<and> unat (cb_id cb) \<le> unat lid
      \<and> (\<forall>s. cb_data cb = Some s \<longrightarrow> (svs(n \<mapsto> sd)) s \<noteq> None \<and> s < Suc n)"
    if "cb \<in># image_mset ?f M" for cb
    using that ok unfolding callbacks_ok_def by (fastforce simp: set_cb_data_def less_Suc_eq)
  with ids data ok show ?thesis unfolding callbacks_ok_def by (simp add: size_image_mset)
qed

section \<open>Changing a listener\<close>

lemma callbacks_set_listener:
  assumes "distinct (map fd_ref (listeners st))" and "d \<in> set (listeners st)" and "fd_ref d' = fd_ref d"
  shows "callbacks_of (set_listener d' st) + mset (callbacks d) = callbacks_of st + mset (callbacks d')"
proof -
  have "distinct (map fd_ref ds) \<Longrightarrow> d \<in> set ds \<Longrightarrow>
      mset (concat (map callbacks (map (\<lambda>e. if fd_ref e = fd_ref d' then d' else e) ds))) + mset (callbacks d)
      = mset (concat (map callbacks ds)) + mset (callbacks d')" for ds
  proof (induction ds)
    case (Cons e ds)
    show ?case
    proof (cases "e = d")
      case True
      with Cons.prems(1) have "map (\<lambda>e. if fd_ref e = fd_ref d' then d' else e) ds = ds"
        using assms(3) by (intro map_idI) (auto simp: image_iff)
      then have "map callbacks (map (\<lambda>e. if fd_ref e = fd_ref d' then d' else e) ds) = map callbacks ds"
        by simp
      then show ?thesis using True assms(3) by (simp only: list.map concat.simps mset_append if_True) (simp add: ac_simps)
    next
      case False
      with Cons.prems have "d \<in> set ds" "fd_ref e \<noteq> fd_ref d'" using assms(3) by (auto simp: image_iff)
      with Cons show ?thesis by (simp add: ac_simps)
    qed
  qed simp
  from this[OF assms(1,2)] show ?thesis by (simp add: callbacks_of_def set_listener_def)
qed

lemma set_listener_more [simp]:
  "next_ref (set_listener d st) = next_ref st" "listener_id (set_listener d st) = listener_id st"
  "next_service (set_listener d st) = next_service st"
  by (simp_all add: set_listener_def)

lemma listeners_set_listener:
  "e \<in> set (listeners (set_listener d st)) \<Longrightarrow> e = d \<or> e \<in> set (listeners st) \<and> fd_ref e \<noteq> fd_ref d"
  by (auto simp: set_listener_def split: if_splits)

text \<open>A change that keeps the callbacks and the rule.\<close>

lemma registry_set_listener:
  assumes ok: "registry_ok st" and d: "find_listener r st = Some d" and same: "fd_ref d' = r" "callbacks d' = callbacks d"
    and d': "listener_ok (next_ref st) d'" "unat (name_watch d') \<le> unat (listener_id st)"
      "\<forall>cb\<in>#callbacks_of st. cb_id cb = name_watch d' \<longrightarrow> \<not> visible cb"
  shows "registry_ok (set_listener d' st)" and "callbacks_of (set_listener d' st) = callbacks_of st"
proof -
  from find_listenerD[OF d] have dd: "d \<in> set (listeners st)" "fd_ref d = r" by auto
  from ok have dist: "distinct (map fd_ref (listeners st))" by (simp add: registry_ok_def)
  from callbacks_set_listener[OF dist dd(1), of d'] same dd(2) show cbs: "callbacks_of (set_listener d' st) = callbacks_of st"
    by simp
  have "listener_ok (next_ref st) e" if "e \<in> set (listeners (set_listener d' st))" for e
    using listeners_set_listener[OF that] ok d'(1) unfolding registry_ok_def by blast
  moreover have "names_ok (set_listener d' st)"
    unfolding names_ok_def cbs set_listener_more
    using listeners_set_listener[of _ d' st] ok d'(2,3) unfolding registry_ok_def names_ok_def by metis
  moreover have "next_ref (set_listener d' st) = next_ref st" "services (set_listener d' st) = services st"
    "listener_id (set_listener d' st) = listener_id st" "next_service (set_listener d' st) = next_service st"
    by (simp_all add: set_listener_def)
  ultimately show "registry_ok (set_listener d' st)"
    using ok cbs dist by (simp add: registry_ok_def)
qed

section \<open>Adding\<close>

text \<open>The listener \<open>filter_data_get\<close> creates where there is none.\<close>

definition unique_name_of :: "string option \<Rightarrow> bool" where
  "unique_name_of sender = (case sender of Some (c # _) \<Rightarrow> c = CHR '':'' | _ \<Rightarrow> False)"

definition listener_for ::
  "nat \<Rightarrow> nat \<Rightarrow> filter_handler \<Rightarrow> string option \<Rightarrow> string option \<Rightarrow> string option \<Rightarrow> string option
     \<Rightarrow> string option \<Rightarrow> filter_data"
where
  "listener_for r conn h sender path interface member argument =
     \<lparr>fd_ref = r, fd_connection = conn, handle_func = Some h,
      fd_name = (if unique_name_of sender then None else sender),
      fd_owner = (if unique_name_of sender then sender else None), fd_path = path,
      fd_interface = interface, fd_member = member, fd_argument = argument,
      callbacks = [], processed = [], name_watch = 0, lock = False, registered = True\<rparr>"

definition rule_fits :: "string option \<Rightarrow> string option \<Rightarrow> string option \<Rightarrow> string option \<Rightarrow> string option \<Rightarrow> bool" where
  "rule_fits sender path interface member argument \<longleftrightarrow>
     length (full_rule (listener_for 0 0 ServiceFilter sender path interface member argument)) < 1024"

definition adding_fine :: "watch_env \<Rightarrow> bool" where
  "adding_fine E \<longleftrightarrow> \<not> add_filter_fails E \<and> (\<forall>rule. \<not> add_match_fails E rule) \<and> \<not> owner_call_fails E"

lemma get_creates:
  assumes none: "filter_data_find_match st conn (if unique_name_of sender then None else sender)
      (if unique_name_of sender then sender else None) path interface member argument = None"
    and E: "adding_fine E" and len: "rule_fits sender path interface member argument"
  obtains st1 where "filter_data_get E conn h sender path interface member argument st = Some (Some (next_ref st), st1)"
    "listeners st1 = listeners st @ [listener_for (next_ref st) conn h sender path interface member argument]"
    "next_ref st1 = Suc (next_ref st)" "listener_id st1 = listener_id st" "services st1 = services st"
    "next_service st1 = next_service st" "calls st1 = calls st"
proof -
  let ?new = "listener_for (next_ref st) conn h sender path interface member argument"
  let ?d = "?new\<lparr>handle_func := None, registered := False\<rparr>"
  have rule: "full_rule ?d = full_rule (listener_for 0 0 ServiceFilter sender path interface member argument)"
    by (rule full_rule_cong) (simp_all add: listener_for_def)
  have len': "length (full_rule (listener_for 0 0 ServiceFilter sender path interface member argument)) < 1024"
    using len by (simp add: rule_fits_def)
  have fmt: "format_rule ?d 1024 = Some (full_rule ?d)"
    unfolding rule by (rule format_rule_cong[OF rule len'])
  have reg: "?d\<lparr>handle_func := Some h, registered := True\<rparr> = ?new" by (simp add: listener_for_def)
  have am: "add_match E ?d h t = Some (Some ?new, t\<lparr>match_rules := match_rules t @ [(fd_connection ?d, full_rule ?d)]\<rparr>)" for t
    using E fmt reg by (simp add: add_match_def adding_fine_def)
  have d: "\<lparr>fd_ref = next_ref st, fd_connection = conn, handle_func = None,
      fd_name = (if unique_name_of sender then None else sender),
      fd_owner = (if unique_name_of sender then sender else None), fd_path = path, fd_interface = interface,
      fd_member = member, fd_argument = argument, callbacks = [], processed = [], name_watch = 0, lock = False,
      registered = False\<rparr> = ?d"
    by (simp add: listener_for_def)
  have ref: "fd_ref ?new = next_ref st" by (simp add: listener_for_def)
  let ?st1 = "if filter_data_find st conn = None then st\<lparr>filters := filters st @ [conn]\<rparr> else st"
  have fm: "filter_data_find_match ?st1 conn (if unique_name_of sender then None else sender)
      (if unique_name_of sender then sender else None) path interface member argument = None"
    using none by (simp add: filter_data_find_match_def)
  have nr: "next_ref ?st1 = next_ref st" by simp
  have "filter_data_get E conn h sender path interface member argument st =
      Some (Some (next_ref st), ?st1\<lparr>match_rules := match_rules ?st1 @ [(fd_connection ?d, full_rule ?d)],
        listeners := listeners ?st1 @ [?new], next_ref := Suc (next_ref ?st1)\<rparr>)"
    unfolding filter_data_get_def Let_def unique_name_of_def[symmetric] fm nr d am
    using E ref by (simp add: adding_fine_def)
  then show ?thesis by (rule that) simp_all
qed

lemma find_match_in:
  assumes "filter_data_find_match st conn name owner path interface member argument = Some d"
  shows "d \<in> set (listeners st)" "fd_connection d = conn" "fd_name d = name"
  using assms unfolding filter_data_find_match_def by (auto dest: find_SomeD)

lemma get_finds:
  assumes "filter_data_find_match st conn (if unique_name_of sender then None else sender)
      (if unique_name_of sender then sender else None) path interface member argument = Some d"
  shows "filter_data_get E conn h sender path interface member argument st = Some (Some (fd_ref d), st)"
proof -
  from find_match_in[OF assms] have "filter_data_find st conn \<noteq> None"
    by (auto simp: filter_data_find_def find_None_iff)
  then obtain y where "filter_data_find st conn = Some y" by blast
  with assms show ?thesis
    unfolding filter_data_get_def Let_def unique_name_of_def[symmetric] by simp
qed

lemma names_ok_add:
  assumes ok: "names_ok st" and cbs: "callbacks_of st2 = add_mset cb (callbacks_of st)"
    and cok: "callbacks_ok (callbacks_of st2) (listener_id st2) (services st2) (next_service st2)"
    and ids: "cb_id cb = listener_id st + 1" "listener_id st2 = listener_id st + 1" "unat (listener_id st) + 1 < 2 ^ 32"
    and names: "\<forall>e\<in>set (listeners st2). name_watch e = 0 \<or> (\<exists>d\<in>set (listeners st). name_watch e = name_watch d)"
  shows "names_ok st2"
proof -
  have lid: "unat (listener_id st2) = unat (listener_id st) + 1" using ids by (simp add: unat_word_ariths)
  have "unat (name_watch e) \<le> unat (listener_id st2) \<and> (c \<in># callbacks_of st2 \<longrightarrow> cb_id c = name_watch e \<longrightarrow> \<not> visible c)"
    if "e \<in> set (listeners st2)" for e c
  proof -
    from names that consider "name_watch e = 0" | d where "d \<in> set (listeners st)" "name_watch e = name_watch d" by blast
    then show ?thesis
    proof cases
      case 1
      with cok show ?thesis by (auto simp: callbacks_ok_def)
    next
      case 2
      with ok have "unat (name_watch e) \<le> unat (listener_id st)"
        and old: "\<forall>c\<in>#callbacks_of st. cb_id c = name_watch e \<longrightarrow> \<not> visible c" unfolding names_ok_def by auto
      with lid ids have "name_watch e \<noteq> cb_id cb" by auto
      with old lid \<open>unat (name_watch e) \<le> _\<close> show ?thesis unfolding cbs by auto
    qed
  qed
  then show ?thesis by (auto simp: names_ok_def)
qed

abbreviation (input) callback_for ::
  "client_fn option \<Rightarrow> client_fn option \<Rightarrow> client_fn option \<Rightarrow> client_fn option \<Rightarrow> nat \<Rightarrow> 32 word \<Rightarrow> filter_callback"
where
  "callback_for cf df sf destroy u w \<equiv>
     \<lparr>conn_func = cf, disc_func = df, signal_func = sf, destroy_func = destroy, cb_data = None,
      cb_user_data = u, cb_id = w\<rparr>"

text \<open>A callback is added to a listener that is there already, or to a new one.\<close>

lemma add_callback_known:
  assumes ok: "registry_ok st" and E: "adding_fine E" and len: "rule_fits sender path interface member argument"
    and room: "unat (listener_id st) + 1 < 2 ^ 32"
    and Some: "filter_data_find_match st conn
      (if unique_name_of sender then None else sender)
      (if unique_name_of sender then sender else None) path interface member argument = Some d0"
  obtains r st1 st2 d where
    "filter_data_get E conn h sender path interface member argument st = Some (Some r, st1)"
    "filter_data_add_callback r cf df sf destroy u st1 = Some (listener_id st + 1, st2)"
    "registry_ok st2" "listener_id st2 = listener_id st + 1" "find_listener r st2 = Some d"
    "callbacks_of st2 = add_mset (callback_for cf df sf destroy u (listener_id st + 1)) (callbacks_of st)"
    "\<forall>q. find_listener q st \<noteq> None \<longrightarrow> find_listener q st2 \<noteq> None"
    "services st2 = services st" "next_service st2 = next_service st" "calls st2 = calls st"
    "fd_name d = (if unique_name_of sender then None else sender)"
proof -
  let ?w = "listener_id st + 1" and ?name = "if unique_name_of sender then None else sender"
  let ?cb = "callback_for cf df sf destroy u ?w"
  from ok have dist: "distinct (map fd_ref (listeners st))"
    and cbs: "callbacks_ok (callbacks_of st) (listener_id st) (services st) (next_service st)"
    by (simp_all add: registry_ok_def)
  have cbs2: "callbacks_ok (add_mset ?cb (callbacks_of st)) ?w (services st) (next_service st)"
    by (rule callbacks_ok_new[OF cbs room]) simp_all
  from find_match_in(1)[OF Some] have d0: "d0 \<in> set (listeners st)" .
  define d' where "d' = d0\<lparr>callbacks := callbacks d0 @ [?cb]\<rparr>"
  define st2 where "st2 = set_listener d' (st\<lparr>listener_id := ?w\<rparr>)"
  have d': "fd_ref d' = fd_ref d0" "callbacks d' = callbacks d0 @ [?cb]" "name_watch d' = name_watch d0"
    "fd_name d' = ?name" using find_match_in(3)[OF Some] by (simp_all add: d'_def)
  have f2: "next_ref st2 = next_ref st" "listener_id st2 = ?w" "services st2 = services st"
    "next_service st2 = next_service st" "calls st2 = calls st" by (simp_all add: st2_def)
  from ok d0 have d_ok: "listener_ok (next_ref st) d0" "\<not> lock d0" unfolding registry_ok_def listener_ok_def by blast+
  have find: "find_listener (fd_ref d0) st = Some d0" by (rule find_listener_in[OF dist d0])
  have c: "callbacks_of st2 = add_mset ?cb (callbacks_of st)"
  proof -
    have "callbacks_of st2 + mset (callbacks d0) = callbacks_of (st\<lparr>listener_id := ?w\<rparr>) + mset (callbacks d0 @ [?cb])"
      using callbacks_set_listener[of "st\<lparr>listener_id := ?w\<rparr>" d0 d'] dist d0 d' by (simp add: st2_def)
    then show ?thesis by (simp add: callbacks_of_def)
  qed
  have rule: "full_rule d' = full_rule d0" by (rule full_rule_cong) (simp_all add: d'_def)
  have "listener_ok (next_ref st) d'" using d_ok(1) rule by (simp add: listener_ok_def d'_def)
  moreover have mem: "e = d' \<or> e \<in> set (listeners st)" if "e \<in> set (listeners st2)" for e
    using listeners_set_listener[OF that[unfolded st2_def]] by auto
  ultimately have each: "\<forall>e\<in>set (listeners st2). listener_ok (next_ref st2) e"
    using ok f2(1) unfolding registry_ok_def by metis
  have names: "\<forall>e\<in>set (listeners st2). name_watch e = 0 \<or> (\<exists>d\<in>set (listeners st). name_watch e = name_watch d)"
    using mem d0 d'(3) by metis
  have "names_ok st2"
    by (rule names_ok_add[OF _ c _ _ f2(2) room names]) (use ok c cbs2 f2 in \<open>simp_all add: registry_ok_def\<close>)
  then have "registry_ok st2" using each c cbs2 dist f2 by (simp add: registry_ok_def) (simp add: st2_def)
  moreover have "filter_data_add_callback (fd_ref d0) cf df sf destroy u st = Some (?w, st2)"
    using find d_ok(2) by (simp add: filter_data_add_callback_def Let_def st2_def d'_def)
  moreover have "find_listener (fd_ref d0) st2 = Some d'"
    using d0 d'(1) by (simp add: find_set_listener st2_def)
  moreover have "\<forall>q. find_listener q st \<noteq> None \<longrightarrow> find_listener q st2 \<noteq> None"
    using d0 d'(1) by (simp add: find_set_listener st2_def) (simp add: find_listener_def)
  ultimately show ?thesis
    using get_finds[OF Some] c f2 d'(4) by (intro that[of "fd_ref d0" st st2 d']) simp_all
qed

lemma add_callback_fresh:
  assumes ok: "registry_ok st" and E: "adding_fine E" and len: "rule_fits sender path interface member argument"
    and room: "unat (listener_id st) + 1 < 2 ^ 32"
    and None: "filter_data_find_match st conn
      (if unique_name_of sender then None else sender)
      (if unique_name_of sender then sender else None) path interface member argument = None"
  obtains r st1 st2 d where
    "filter_data_get E conn h sender path interface member argument st = Some (Some r, st1)"
    "filter_data_add_callback r cf df sf destroy u st1 = Some (listener_id st + 1, st2)"
    "registry_ok st2" "listener_id st2 = listener_id st + 1" "find_listener r st2 = Some d"
    "callbacks_of st2 = add_mset (callback_for cf df sf destroy u (listener_id st + 1)) (callbacks_of st)"
    "\<forall>q. find_listener q st \<noteq> None \<longrightarrow> find_listener q st2 \<noteq> None"
    "services st2 = services st" "next_service st2 = next_service st" "calls st2 = calls st"
    "fd_name d = (if unique_name_of sender then None else sender)"
proof -
  let ?w = "listener_id st + 1" and ?name = "if unique_name_of sender then None else sender"
  let ?cb = "callback_for cf df sf destroy u ?w"
  from ok have dist: "distinct (map fd_ref (listeners st))"
    and cbs: "callbacks_ok (callbacks_of st) (listener_id st) (services st) (next_service st)"
    by (simp_all add: registry_ok_def)
  have cbs2: "callbacks_ok (add_mset ?cb (callbacks_of st)) ?w (services st) (next_service st)"
    by (rule callbacks_ok_new[OF cbs room]) simp_all
  from get_creates[OF None E len, of h] obtain st1 where
    get: "filter_data_get E conn h sender path interface member argument st = Some (Some (next_ref st), st1)"
    and l1: "listeners st1 = listeners st @ [listener_for (next_ref st) conn h sender path interface member argument]"
    and f1: "next_ref st1 = Suc (next_ref st)" "listener_id st1 = listener_id st" "services st1 = services st"
      "next_service st1 = next_service st" "calls st1 = calls st" .
  define new where "new = listener_for (next_ref st) conn h sender path interface member argument"
  have new: "fd_ref new = next_ref st" "\<not> lock new" "callbacks new = []" "processed new = []" "registered new"
    by (simp_all add: new_def listener_for_def)
  let ?d' = "new\<lparr>callbacks := [?cb]\<rparr>"
  have neq: "fd_ref d \<noteq> next_ref st" if "d \<in> set (listeners st)" for d
    using ok that unfolding registry_ok_def listener_ok_def by (metis less_irrefl)
  then have "find (\<lambda>d. fd_ref d = next_ref st) (listeners st) = None" by (simp add: find_None_iff)
  then have find: "find_listener (next_ref st) st1 = Some new"
    unfolding find_listener_def l1 new_def[symmetric] using new(1) by (simp add: find_snoc)
  let ?st2 = "set_listener ?d' (st1\<lparr>listener_id := ?w\<rparr>)"
  have "map (\<lambda>e. if fd_ref e = next_ref st then ?d' else e) (listeners st) = listeners st"
    using neq by (intro map_idI) auto
  then have l2: "listeners ?st2 = listeners st @ [?d']"
    by (simp add: set_listener_def l1 new_def[symmetric] new(1))
  have c: "callbacks_of ?st2 = add_mset ?cb (callbacks_of st)" unfolding callbacks_of_def l2 by simp
  have "full_rule ?d' = full_rule (listener_for 0 0 ServiceFilter sender path interface member argument)"
    by (rule full_rule_cong) (simp_all add: new_def listener_for_def)
  then have "listener_ok (Suc (next_ref st)) ?d'" using new len by (simp add: listener_ok_def rule_fits_def)
  moreover have "listener_ok (Suc (next_ref st)) e" if "e \<in> set (listeners st)" for e
    using ok that unfolding registry_ok_def listener_ok_def by (metis less_SucI)
  ultimately have "\<forall>e\<in>set (listeners ?st2). listener_ok (next_ref ?st2) e"
    unfolding l2 by (simp add: set_listener_def f1)
  moreover have "distinct (map fd_ref (listeners ?st2))"
    unfolding l2 using dist new(1) by (simp add: image_iff) (metis neq)
  moreover have "callbacks_ok (callbacks_of ?st2) (listener_id ?st2) (services ?st2) (next_service ?st2)"
    unfolding c using cbs2 by (simp add: set_listener_def f1)
  moreover have "names_ok ?st2"
  proof (rule names_ok_add[of st _ ?cb])
    show "\<forall>e\<in>set (listeners ?st2). name_watch e = 0 \<or> (\<exists>d\<in>set (listeners st). name_watch e = name_watch d)"
      unfolding l2 by (auto simp: new_def listener_for_def)
  qed (use ok c cbs2 room f1 in \<open>simp_all add: registry_ok_def\<close>)
  ultimately have "registry_ok ?st2" by (simp add: registry_ok_def)
  moreover have "filter_data_add_callback (next_ref st) cf df sf destroy u st1 = Some (?w, ?st2)"
    using find new f1(2) by (simp add: filter_data_add_callback_def Let_def)
  moreover have "find_listener (next_ref st) ?st2 = Some ?d'"
    using neq new(1) unfolding find_listener_def l2 by (simp add: find_snoc find_None_iff)
  moreover have "\<forall>q. find_listener q st \<noteq> None \<longrightarrow> find_listener q ?st2 \<noteq> None"
    unfolding find_listener_def l2 by (auto simp: find_None_iff)
  moreover have "fd_name ?d' = ?name" by (simp add: new_def listener_for_def)
  ultimately show ?thesis
    using get c f1 by (intro that[of "next_ref st" st1 ?st2 ?d']) simp_all
qed

lemma add_callback_registry:
  assumes ok: "registry_ok st" and E: "adding_fine E" and len: "rule_fits sender path interface member argument"
    and room: "unat (listener_id st) + 1 < 2 ^ 32"
  obtains r st1 st2 d where
    "filter_data_get E conn h sender path interface member argument st = Some (Some r, st1)"
    "filter_data_add_callback r cf df sf destroy u st1 = Some (listener_id st + 1, st2)"
    "registry_ok st2" "listener_id st2 = listener_id st + 1" "find_listener r st2 = Some d"
    "callbacks_of st2 = add_mset (callback_for cf df sf destroy u (listener_id st + 1)) (callbacks_of st)"
    "\<forall>q. find_listener q st \<noteq> None \<longrightarrow> find_listener q st2 \<noteq> None"
    "services st2 = services st" "next_service st2 = next_service st" "calls st2 = calls st"
    "fd_name d = (if unique_name_of sender then None else sender)"
proof (cases "filter_data_find_match st conn (if unique_name_of sender then None else sender)
    (if unique_name_of sender then sender else None) path interface member argument")
  case (Some d)
  from add_callback_known[OF ok E len room Some] that show ?thesis .
next
  case None
  from add_callback_fresh[OF ok E len room None] that show ?thesis .
qed

lemma callbacks_on_callbacks: "callbacks_of (on_callbacks f st) = image_mset f (callbacks_of st)"
proof -
  have "mset (concat (map callbacks (map (\<lambda>d. d\<lparr>callbacks := map f (callbacks d), processed := map f (processed d)\<rparr>) ds)))
      = image_mset f (mset (concat (map callbacks ds)))" for ds
    by (induction ds) simp_all
  then show ?thesis by (simp add: callbacks_of_def on_callbacks_def)
qed

lemma set_cb_data_simps [simp]:
  "cb_id (set_cb_data w s cb) = cb_id cb" "visible (set_cb_data w s cb) = visible cb"
  "(set_cb_data w s cb)\<lparr>cb_data := None\<rparr> = cb\<lparr>cb_data := None\<rparr>"
  by (simp_all add: set_cb_data_def visible_def)

lemma watches_same_data:
  assumes "callbacks_of st' = image_mset (set_cb_data w s) (callbacks_of st)"
  shows "watches st' = watches st"
proof -
  have "image_mset (\<lambda>cb. cb\<lparr>cb_data := None\<rparr>) (filter_mset visible (image_mset (set_cb_data w s) M))
      = image_mset (\<lambda>cb. cb\<lparr>cb_data := None\<rparr>) (filter_mset visible M)" for M
    by (induction M) simp_all
  then show ?thesis by (simp add: watches_def assms)
qed

lemma find_listener_map:
  assumes "\<And>d. fd_ref (f d) = fd_ref d" and "listeners st' = map f (listeners st)"
  shows "find_listener q st' = map_option f (find_listener q st)"
proof -
  have "find (\<lambda>d. fd_ref d = q) (map f ds) = map_option f (find (\<lambda>d. fd_ref d = q) ds)" for ds
    by (induction ds) (simp_all add: assms(1))
  then show ?thesis by (simp add: find_listener_def assms(2))
qed

lemma check_service_registry:
  assumes ok: "registry_ok st" and E: "adding_fine E" and st'_def: "st' = check_service E conn n w st"
  shows "registry_ok st'" and "watches st' = watches st" and "listener_id st' = listener_id st"
    and "find_listener q st \<noteq> None \<longrightarrow> find_listener q st' \<noteq> None" and "calls st' = calls st"
proof -
  let ?s = "next_service st" and ?f = "\<lambda>d. d\<lparr>callbacks := map (set_cb_data w (next_service st)) (callbacks d),
    processed := map (set_cb_data w (next_service st)) (processed d)\<rparr>"
  obtain sd where st': "listeners st' = map ?f (listeners st)" "services st' = (services st)(?s \<mapsto> sd)"
    "next_service st' = Suc ?s" "next_ref st' = next_ref st" "listener_id st' = listener_id st" "calls st' = calls st"
  proof -
    define owner where "owner = (case check_name_cache n st of None \<Rightarrow> NoOwner
      | Some d \<Rightarrow> if fd_owner d = None then NoOwner else ListenerOwner (fd_ref d))"
    have no: "\<not> owner_call_fails E" using E by (simp add: adding_fine_def)
    note eq = st'_def check_service_def Let_def no on_callbacks_def owner_def[symmetric]
    show thesis
    proof (cases "owner = NoOwner")
      case True
      then show thesis by (intro that) (simp_all add: eq)
    next
      case False
      then show thesis by (intro that) (simp_all add: eq)
    qed
  qed
  then have cbs: "callbacks_of st' = image_mset (set_cb_data w ?s) (callbacks_of st)"
    using callbacks_on_callbacks[of "set_cb_data w ?s" st] by (simp add: callbacks_of_def on_callbacks_def)
  from ok have old: "distinct (map fd_ref (listeners st))" "\<forall>d\<in>set (listeners st). listener_ok (next_ref st) d"
    "callbacks_ok (callbacks_of st) (listener_id st) (services st) ?s" "names_ok st"
    by (simp_all add: registry_ok_def)
  have rule: "full_rule (d\<lparr>callbacks := xs, processed := ys\<rparr>) = full_rule d" for d xs ys
    by (rule full_rule_cong) simp_all
  have "\<forall>d\<in>set (listeners st'). listener_ok (next_ref st') d"
    using old(2) unfolding st' by (auto simp: listener_ok_def rule)
  moreover have "distinct (map fd_ref (listeners st'))" using old(1) by (simp add: st'(1) comp_def)
  moreover have "callbacks_ok (callbacks_of st') (listener_id st') (services st') (next_service st')"
    unfolding cbs st'(2,3,5) by (rule callbacks_ok_data[OF old(3)])
  moreover have "names_ok st'" using old(4) unfolding names_ok_def cbs st'(1,5) by auto
  ultimately show "registry_ok st'" by (simp add: registry_ok_def)
  show "watches st' = watches st" by (rule watches_same_data[OF cbs])
  show "listener_id st' = listener_id st" "calls st' = calls st" by (rule st')+
  show "find_listener q st \<noteq> None \<longrightarrow> find_listener q st' \<noteq> None"
    using find_listener_map[of ?f st' st q] st'(1) by simp
qed

lemma watches_add:
  "callbacks_of st' = add_mset cb (callbacks_of st) \<Longrightarrow> cb_data cb = None \<Longrightarrow>
     watches st' = (if visible cb then {#cb#} else {#}) + watches st"
  by (simp add: watches_def)

definition name_fits :: "string \<Rightarrow> bool" where
  "name_fits n \<longleftrightarrow> rule_fits None None (Some dbus_interface) (Some ''NameOwnerChanged'') (Some n)"

lemma service_watch_registry:
  assumes ok: "registry_ok st" and E: "adding_fine E" and len: "name_fits n"
    and room: "unat (listener_id st) + 1 < 2 ^ 32"
  obtains st' where "g_dbus_add_service_watch E conn (Some n) cf df u destroy st = Some (listener_id st + 1, st')"
    "registry_ok st'" "listener_id st' = listener_id st + 1" "calls st' = calls st"
    "watches st' = (if cf \<noteq> None \<or> df \<noteq> None then {#callback_for cf df None destroy u (listener_id st + 1)#} else {#})
       + watches st"
    "\<forall>q. find_listener q st \<noteq> None \<longrightarrow> find_listener q st' \<noteq> None"
    "cf = None \<longrightarrow> callbacks_of st' = add_mset (callback_for cf df None destroy u (listener_id st + 1)) (callbacks_of st)"
proof -
  from add_callback_registry[OF ok E len[unfolded name_fits_def] room, of conn ServiceFilter cf df None destroy u]
  obtain r st1 st2 d where
    get: "filter_data_get E conn ServiceFilter None None (Some dbus_interface) (Some ''NameOwnerChanged'') (Some n) st
      = Some (Some r, st1)"
    and add: "filter_data_add_callback r cf df None destroy u st1 = Some (listener_id st + 1, st2)"
    and r2: "registry_ok st2" "listener_id st2 = listener_id st + 1"
    and c: "callbacks_of st2 = add_mset (callback_for cf df None destroy u (listener_id st + 1)) (callbacks_of st)"
    and q: "\<forall>q. find_listener q st \<noteq> None \<longrightarrow> find_listener q st2 \<noteq> None" and cl: "calls st2 = calls st" .
  from watches_add[OF c] have w: "watches st2 = (if cf \<noteq> None \<or> df \<noteq> None
      then {#callback_for cf df None destroy u (listener_id st + 1)#} else {#}) + watches st"
    by (simp add: visible_def)
  show ?thesis
  proof (cases cf)
    case None
    with get add have "g_dbus_add_service_watch E conn (Some n) cf df u destroy st = Some (listener_id st + 1, st2)"
      by (simp add: g_dbus_add_service_watch_def)
    then show ?thesis by (rule that) (use r2 cl w q c None in simp_all)
  next
    case (Some f)
    let ?st' = "check_service E conn n (listener_id st + 1) st2"
    note cs = check_service_registry[OF r2(1) E, of ?st' conn n "listener_id st + 1", OF refl]
    from get add Some have "g_dbus_add_service_watch E conn (Some n) cf df u destroy st = Some (listener_id st + 1, ?st')"
      by (simp add: g_dbus_add_service_watch_def)
    then show ?thesis by (rule that) (use cs r2 cl w q Some in simp_all)
  qed
qed

lemma watch_name_registry:
  assumes ok: "registry_ok st" and E: "adding_fine E" and d: "find_listener r st = Some d"
    and len: "\<forall>n. fd_name d = Some n \<longrightarrow> name_fits n" and room: "unat (listener_id st) + 1 < 2 ^ 32"
  obtains st' where "watch_name E conn r st = Some st'" "registry_ok st'" "watches st' = watches st"
    "calls st' = calls st" "unat (listener_id st) \<le> unat (listener_id st')"
    "unat (listener_id st') \<le> unat (listener_id st) + 1"
proof (cases "fd_name d \<noteq> None \<and> name_watch d = 0")
  case False
  then have "watch_name E conn r st = Some st" using d by (auto simp: watch_name_def)
  then show ?thesis by (rule that) (simp_all add: ok)
next
  case True
  then obtain n where n: "fd_name d = Some n" by blast
  let ?w = "listener_id st + 1"
  from service_watch_registry[OF ok E len[rule_format, OF n] room, of conn None None 0 None] obtain st1 where
    add: "g_dbus_add_service_watch E conn (Some n) None None 0 None st = Some (?w, st1)"
    and r1: "registry_ok st1" "listener_id st1 = ?w" "calls st1 = calls st" "watches st1 = watches st"
    and q: "\<forall>q. find_listener q st \<noteq> None \<longrightarrow> find_listener q st1 \<noteq> None"
    and c: "callbacks_of st1 = add_mset (callback_for None None None None 0 ?w) (callbacks_of st)" by auto
  from q d obtain d1 where d1: "find_listener r st1 = Some d1" by fastforce
  let ?d' = "d1\<lparr>name_watch := ?w\<rparr>"
  have id: "unat ?w = unat (listener_id st) + 1" using room by (simp add: unat_word_ariths)
  have mem: "d1 \<in> set (listeners st1)" "fd_ref d1 = r" using find_listenerD[OF d1] by auto
  have "full_rule ?d' = full_rule d1" by (rule full_rule_cong) simp_all
  then have l: "listener_ok (next_ref st1) ?d'"
    using r1(1) mem unfolding registry_ok_def by (auto simp: listener_ok_def)
  have old: "unat (cb_id cb) \<le> unat (listener_id st)" if "cb \<in># callbacks_of st" for cb
    using ok that unfolding registry_ok_def callbacks_ok_def by blast
  have "cb_id cb \<noteq> ?w" if "cb \<in># callbacks_of st" for cb using old[OF that] id by auto
  then have inv: "\<forall>cb\<in>#callbacks_of st1. cb_id cb = name_watch ?d' \<longrightarrow> \<not> visible cb"
    unfolding c by (auto simp: visible_def)
  note set' = registry_set_listener[OF r1(1) d1 _ _ l _ inv]
  have st': "registry_ok (set_listener ?d' st1)" "callbacks_of (set_listener ?d' st1) = callbacks_of st1"
    using set' mem(2) r1(2) by simp_all
  have "watch_name E conn r st = Some (set_listener ?d' st1)"
    using d n True add d1 by (simp add: watch_name_def)
  then show ?thesis by (rule that) (use st' r1 id in \<open>simp_all add: watches_def\<close>)
qed

lemma signal_watch_registry:
  assumes ok: "registry_ok st" and E: "adding_fine E" and len: "rule_fits sender path interface member argument"
    and names: "\<forall>n. sender = Some n \<longrightarrow> name_fits n" and room: "unat (listener_id st) + 2 < 2 ^ 32"
  obtains r st1 st2 st3 where
    "filter_data_get E conn SignalFilter sender path interface member argument st = Some (Some r, st1)"
    "filter_data_add_callback r None None (Some f) destroy u st1 = Some (listener_id st + 1, st2)"
    "watch_name E conn r st2 = Some st3" "registry_ok st3" "calls st3 = calls st"
    "watches st3 = add_mset (callback_for None None (Some f) destroy u (listener_id st + 1)) (watches st)"
    "unat (listener_id st) + 1 \<le> unat (listener_id st3)" "unat (listener_id st3) \<le> unat (listener_id st) + 2"
proof -
  have room1: "unat (listener_id st) + 1 < 2 ^ 32" using room by simp
  from add_callback_registry[OF ok E len room1, of conn SignalFilter None None "Some f" destroy u]
  obtain r st1 st2 d where
    get: "filter_data_get E conn SignalFilter sender path interface member argument st = Some (Some r, st1)"
    and add: "filter_data_add_callback r None None (Some f) destroy u st1 = Some (listener_id st + 1, st2)"
    and r2: "registry_ok st2" "listener_id st2 = listener_id st + 1" "find_listener r st2 = Some d"
    and c: "callbacks_of st2 = add_mset (callback_for None None (Some f) destroy u (listener_id st + 1)) (callbacks_of st)"
    and nm: "fd_name d = (if unique_name_of sender then None else sender)" and cl: "calls st2 = calls st" .
  have id: "unat (listener_id st2) = unat (listener_id st) + 1" using room1 r2(2) by (simp add: unat_word_ariths)
  have "\<forall>n. fd_name d = Some n \<longrightarrow> name_fits n" using nm names by simp
  from watch_name_registry[OF r2(1) E r2(3) this, of conn] id room obtain st3 where
    "watch_name E conn r st2 = Some st3" "registry_ok st3" "watches st3 = watches st2" "calls st3 = calls st2"
    "unat (listener_id st2) \<le> unat (listener_id st3)" "unat (listener_id st3) \<le> unat (listener_id st2) + 1" by auto
  with get add watches_add[OF c] id cl show ?thesis by (intro that) (simp_all add: visible_def)
qed

section \<open>Removing\<close>

definition removing_fine :: "watch_env \<Rightarrow> bool" where
  "removing_fine E \<longleftrightarrow> (\<forall>rule. \<not> remove_match_fails E rule)"

text \<open>A callback is taken off its listener, which may have no other.\<close>

lemma detach_registry:
  assumes ok: "registry_ok st" and d: "find_listener r st = Some d" and cb: "cb \<in> set (callbacks d)"
  obtains d1 st1 where "detach_callback d cb st = Some (d1, st1)"
    "callbacks d1 = remove1 cb (callbacks d)" "fd_ref d1 = r" "name_watch d1 = name_watch d" "\<not> lock d1" "registered d1"
    "full_rule d1 = full_rule d" "processed d1 = []"
    "listeners st1 = listeners (set_listener d1 st)" "callbacks_of st = add_mset cb (callbacks_of st1)"
    "callbacks_ok (callbacks_of st1) (listener_id st1) (services st1) (next_service st1)"
    "listener_id st1 = listener_id st" "next_ref st1 = next_ref st"
proof -
  define d1 where "d1 = d\<lparr>callbacks := remove1 cb (callbacks d), processed := remove1 cb (processed d)\<rparr>"
  from find_listenerD[OF d] have dd: "d \<in> set (listeners st)" "fd_ref d = r" by auto
  from ok dd(1) have dist: "distinct (map fd_ref (listeners st))" and l: "listener_ok (next_ref st) d"
    and cok: "callbacks_ok (callbacks_of st) (listener_id st) (services st) (next_service st)"
    by (auto simp: registry_ok_def)
  have d1: "fd_ref d1 = r" "callbacks d1 = remove1 cb (callbacks d)" "processed d1 = []" "name_watch d1 = name_watch d"
    "\<not> lock d1" "registered d1" using l dd(2) by (simp_all add: d1_def listener_ok_def)
  have rule: "full_rule d1 = full_rule d" by (rule full_rule_cong) (simp_all add: d1_def)
  have "callbacks_of (set_listener d1 st) + mset (callbacks d) = callbacks_of st + mset (callbacks d1)"
    by (rule callbacks_set_listener[OF dist dd(1)]) (simp add: d1 dd)
  moreover have "mset (callbacks d) = add_mset cb (mset (callbacks d1))" using cb by (simp add: d1)
  ultimately have c: "callbacks_of st = add_mset cb (callbacks_of (set_listener d1 st))" by simp
  have sub: "callbacks_ok (callbacks_of (set_listener d1 st)) (listener_id st) (services st) (next_service st)"
    by (rule callbacks_ok_subset[OF cok]) (simp add: c)
  obtain st0 where st0: "cancel_service cb (set_listener d1 st) = Some st0" "listeners st0 = listeners (set_listener d1 st)"
    "callbacks_ok (callbacks_of (set_listener d1 st)) (listener_id st0) (services st0) (next_service st0)"
    "listener_id st0 = listener_id st" "next_ref st0 = next_ref st"
  proof (cases "cb_data cb")
    case None
    then have "cancel_service cb (set_listener d1 st) = Some (set_listener d1 st)" by (simp add: cancel_service_def)
    then show ?thesis by (rule that) (use sub in simp_all)
  next
    case (Some s)
    from cok have "callbacks_ok (add_mset cb (callbacks_of (set_listener d1 st))) (listener_id st) (services st) (next_service st)"
      unfolding c .
    from callbacks_ok_free[OF this Some] have fr: "callbacks_ok (callbacks_of (set_listener d1 st)) (listener_id st)
        ((services st)(s := None)) (next_service st)" .
    have "services st s \<noteq> None" using cok Some unfolding c callbacks_ok_def by auto
    then have "cancel_service cb (set_listener d1 st) = Some ((set_listener d1 st)\<lparr>services := (services st)(s := None)\<rparr>)"
      using Some by (auto simp: cancel_service_def)
    then show ?thesis by (rule that) (use fr in simp_all)
  qed
  let ?st1 = "call_client (destroy_func cb) DestroyCalled (cb_user_data cb) st0"
  have f: "listeners ?st1 = listeners st0" "listener_id ?st1 = listener_id st0" "services ?st1 = services st0"
    "next_service ?st1 = next_service st0" "next_ref ?st1 = next_ref st0"
    by (simp_all add: call_client_def split: option.split)
  have cs: "callbacks_of ?st1 = callbacks_of (set_listener d1 st)" unfolding callbacks_of_def f st0(2) ..
  have "detach_callback d cb st = Some (d1, ?st1)"
    using st0(1) by (simp add: detach_callback_def d1_def[symmetric] Let_def)
  then show ?thesis by (rule that) (use d1 rule f st0 c cs in simp_all)
qed

lemma watches_split:
  assumes c: "callbacks_of st = add_mset cb (callbacks_of st1)" and id: "cb_id cb = wid"
    and cok: "callbacks_ok (callbacks_of st) lid svs n"
  shows "watches st1 = filter_mset (\<lambda>c. cb_id c \<noteq> wid) (watches st)"
proof -
  have "size (filter_mset (\<lambda>c. cb_id c = wid) (callbacks_of st)) \<le> 1" using cok unfolding callbacks_ok_def by blast
  then have "filter_mset (\<lambda>c. cb_id c = wid) (callbacks_of st1) = {#}" unfolding c using id by simp
  then have "cb_id x \<noteq> wid" if "x \<in># watches st1" for x
    using that by (auto simp: watches_def filter_mset_eq_mempty_iff)
  then have "filter_mset (\<lambda>c. cb_id c \<noteq> wid) (watches st1) = watches st1" by (simp add: filter_mset_eq_conv)
  then show ?thesis using id by (simp add: watches_def c)
qed

lemma watches_no_id:
  "\<forall>cb\<in>#callbacks_of st. cb_id cb = wid \<longrightarrow> \<not> visible cb \<Longrightarrow> filter_mset (\<lambda>c. cb_id c \<noteq> wid) (watches st) = watches st"
  by (auto simp: watches_def filter_mset_eq_conv)

lemma names_ok_sub:
  assumes "names_ok st" and "callbacks_of st' \<subseteq># callbacks_of st" and "listener_id st' = listener_id st"
    and "\<forall>e\<in>set (listeners st'). \<exists>d\<in>set (listeners st). name_watch e = name_watch d"
  shows "names_ok st'"
  using assms unfolding names_ok_def by (metis mset_subset_eqD)

lemma found_watch:
  assumes ok: "registry_ok st" and d: "find (\<lambda>d. filter_data_find_callback d wid \<noteq> None) (listeners st) = Some d"
  obtains cb where "filter_data_find_callback d wid = Some cb" "cb \<in> set (callbacks d)" "cb_id cb = wid"
    "find_listener (fd_ref d) st = Some d"
proof -
  from find_SomeD[OF d] obtain cb where cb: "filter_data_find_callback d wid = Some cb" and dd: "d \<in> set (listeners st)" by auto
  from ok dd have "processed d = []" "distinct (map fd_ref (listeners st))" by (auto simp: registry_ok_def listener_ok_def)
  with cb find_listener_in[OF _ dd] show ?thesis
    by (intro that) (auto simp: filter_data_find_callback_def split: option.splits dest: find_SomeD)
qed

lemma not_found_watch:
  assumes ok: "registry_ok st" and none: "find (\<lambda>d. filter_data_find_callback d wid \<noteq> None) (listeners st) = None"
  shows "cb \<in># callbacks_of st \<Longrightarrow> cb_id cb \<noteq> wid"
  using none by (fastforce simp: callbacks_of_def find_None_iff filter_data_find_callback_def split: option.splits)

lemma remove_watch_registry:
  assumes "registry_ok st" and "removing_fine E"
  shows "\<exists>b st'. g_dbus_remove_watch E wid st = Some (b, st') \<and> registry_ok st'
    \<and> watches st' = filter_mset (\<lambda>cb. cb_id cb \<noteq> wid) (watches st) \<and> listener_id st' = listener_id st"
  using assms
proof (induction "length (listeners st)" arbitrary: st wid rule: less_induct)
  case less
  note ok = less.prems(1)
  from ok have cok: "callbacks_ok (callbacks_of st) (listener_id st) (services st) (next_service st)"
    and nok: "names_ok st" and each: "\<forall>d\<in>set (listeners st). listener_ok (next_ref st) d"
    and dist: "distinct (map fd_ref (listeners st))" by (simp_all add: registry_ok_def)
  consider "wid = 0" | "wid \<noteq> 0" "find (\<lambda>d. filter_data_find_callback d wid \<noteq> None) (listeners st) = None"
    | d where "wid \<noteq> 0" "find (\<lambda>d. filter_data_find_callback d wid \<noteq> None) (listeners st) = Some d" by fastforce
  then show ?case
  proof cases
    case 1
    have "\<forall>cb\<in>#callbacks_of st. cb_id cb = wid \<longrightarrow> \<not> visible cb" using cok 1 by (simp add: callbacks_ok_def)
    from watches_no_id[OF this] 1 ok show ?thesis
      by (intro exI[of _ False] exI[of _ st]) (simp add: g_dbus_remove_watch.simps)
  next
    case 2
    from not_found_watch[OF ok 2(2)] have "\<forall>cb\<in>#callbacks_of st. cb_id cb = wid \<longrightarrow> \<not> visible cb" by blast
    from watches_no_id[OF this] 2 ok show ?thesis
      by (intro exI[of _ False] exI[of _ st]) (simp add: g_dbus_remove_watch.simps)
  next
    case (3 d)
    from found_watch[OF ok 3(2)] obtain cb where fcb: "filter_data_find_callback d wid = Some cb"
      and cb: "cb \<in> set (callbacks d)" "cb_id cb = wid" and fd: "find_listener (fd_ref d) st = Some d" .
    from detach_registry[OF ok fd cb(1)] obtain d1 st1 where det: "detach_callback d cb st = Some (d1, st1)"
      and d1: "callbacks d1 = remove1 cb (callbacks d)" "fd_ref d1 = fd_ref d" "name_watch d1 = name_watch d" "\<not> lock d1"
        "registered d1" "full_rule d1 = full_rule d" "processed d1 = []"
      and l1: "listeners st1 = listeners (set_listener d1 st)" and c1: "callbacks_of st = add_mset cb (callbacks_of st1)"
      and cok1: "callbacks_ok (callbacks_of st1) (listener_id st1) (services st1) (next_service st1)"
      and f1: "listener_id st1 = listener_id st" "next_ref st1 = next_ref st" .
    from find_listenerD[OF fd] have dd: "d \<in> set (listeners st)" by simp
    from each dd have dok: "listener_ok (next_ref st) d" by blast
    have w1: "watches st1 = filter_mset (\<lambda>c. cb_id c \<noteq> wid) (watches st)" by (rule watches_split[OF c1 cb(2) cok])
    have mem: "e = d1 \<or> e \<in> set (listeners st) \<and> fd_ref e \<noteq> fd_ref d" if "e \<in> set (listeners st1)" for e
      using listeners_set_listener[OF that[unfolded l1]] d1(2) by simp
    then have "\<forall>e\<in>set (listeners st1). \<exists>d\<in>set (listeners st). name_watch e = name_watch d"
      using dd d1(3) by metis
    from names_ok_sub[OF nok _ f1(1) this] c1 have nok1: "names_ok st1" by simp
    have dist1: "distinct (map fd_ref (listeners st1))" unfolding l1 using dist by simp
    have rem: "g_dbus_remove_watch E wid st
        = map_option (\<lambda>(_, st'). (True, st')) (filter_data_remove_callback E (fd_ref d) wid st)"
      using 3 by (subst g_dbus_remove_watch.simps) simp
    show ?thesis
    proof (cases "callbacks d1 = []")
      case False
      then have "listener_ok (next_ref st) d1" using dok d1 by (simp add: listener_ok_def)
      then have "\<forall>e\<in>set (listeners st1). listener_ok (next_ref st1) e" using mem each f1(2) by metis
      then have "registry_ok st1" using dist1 cok1 nok1 by (simp add: registry_ok_def)
      moreover have "g_dbus_remove_watch E wid st = Some (True, st1)"
        unfolding rem using fd fcb det False by (subst filter_data_remove_callback.simps) simp
      ultimately show ?thesis using w1 f1 by blast
    next
      case True
      let ?mr = "remove1 (fd_connection d1, full_rule d1) (match_rules st1)"
      have fmt: "format_rule d1 1024 = Some (full_rule d1)"
        using dok d1(6) by (intro format_rule_fits) (simp add: listener_ok_def)
      have rel: "release_match E d1 st1 = Some (True, st1\<lparr>match_rules := ?mr\<rparr>)"
        using d1(5) fmt less.prems(2) by (simp add: release_match_def remove_match_def removing_fine_def)
      define st3 where "st3 = remove_filter_if_last (fd_connection d1) (drop_listener (fd_ref d) (st1\<lparr>match_rules := ?mr\<rparr>))"
      have f3: "listeners st3 = filter (\<lambda>e. fd_ref e \<noteq> fd_ref d) (listeners st1)" "listener_id st3 = listener_id st"
        "next_ref st3 = next_ref st" "services st3 = services st1" "next_service st3 = next_service st1"
        using f1 by (simp_all add: st3_def remove_filter_if_last_def drop_listener_def)
      have less3: "length (listeners st3) < length (listeners st)"
        using drop_listener_shrinks[OF fd, of st1] l1 by (simp add: f3 drop_listener_def)
      have d1_in: "d1 \<in> set (listeners st1)" unfolding l1 using dd d1(2) by (force simp: set_listener_def)
      have c3: "callbacks_of st3 = callbacks_of st1"
      proof -
        have "mset (concat (map callbacks (filter (\<lambda>e. fd_ref e \<noteq> fd_ref d) es))) = mset (concat (map callbacks es))"
          if "\<forall>e\<in>set es. fd_ref e = fd_ref d \<longrightarrow> callbacks e = []" for es
          using that by (induction es) auto
        moreover have "\<forall>e\<in>set (listeners st1). fd_ref e = fd_ref d \<longrightarrow> callbacks e = []" using mem True by metis
        ultimately show ?thesis by (simp add: callbacks_of_def f3)
      qed
      have w3: "watches st3 = watches st1" by (simp add: watches_def c3)
      have "\<forall>e\<in>set (listeners st3). listener_ok (next_ref st3) e"
        using mem each d1(2) by (auto simp: f3)
      moreover have "distinct (map fd_ref (listeners st3))" using dist1 by (simp add: f3 distinct_map_filter)
      moreover have "names_ok st3" by (rule names_ok_sub[OF nok1]) (use f3 f1 c3 in auto)
      ultimately have ok3: "registry_ok st3" using cok1 f1 f3 c3 by (simp add: registry_ok_def)
      from less.hyps[OF less3 ok3 less.prems(2), of "name_watch d1"] obtain b st' where
        st': "g_dbus_remove_watch E (name_watch d1) st3 = Some (b, st')" "registry_ok st'"
        "watches st' = filter_mset (\<lambda>cb. cb_id cb \<noteq> name_watch d1) (watches st3)" "listener_id st' = listener_id st3" by blast
      have "\<forall>cb\<in>#callbacks_of st3. cb_id cb = name_watch d1 \<longrightarrow> \<not> visible cb"
        using nok1 d1_in unfolding names_ok_def c3 by blast
      from watches_no_id[OF this] st'(3) w3 w1 have w: "watches st' = filter_mset (\<lambda>c. cb_id c \<noteq> wid) (watches st)" by simp
      have "g_dbus_remove_watch E wid st = Some (True, st')"
        unfolding rem using fd fcb det True d1(4) rel st'(1)
        by (subst filter_data_remove_callback.simps) (simp add: filter_data_free.simps st3_def)
      with st' w f3 show ?thesis by auto
    qed
  qed
qed

section \<open>The contract\<close>

text \<open>
  Sequences of requests (\<open>Inl\<close>) and removals (\<open>Inr\<close>), with the ids they give or take, and the
  account one keeps of them.
\<close>

fun operate ::
  "('r \<Rightarrow> 's \<Rightarrow> (32 word \<times> 's) option) \<Rightarrow> (32 word \<Rightarrow> 's \<Rightarrow> (bool \<times> 's) option)
     \<Rightarrow> ('r + 32 word) list \<Rightarrow> 's \<Rightarrow> (32 word list \<times> 's) option"
where
  "operate request remove [] s = Some ([], s)"
| "operate request remove (Inl r # ops) s =
     (case request r s of
        None \<Rightarrow> None
      | Some (w, s1) \<Rightarrow> map_option (\<lambda>(ws, s2). (w # ws, s2)) (operate request remove ops s1))"
| "operate request remove (Inr w # ops) s =
     (case remove w s of
        None \<Rightarrow> None
      | Some (b, s1) \<Rightarrow> map_option (\<lambda>(ws, s2). (w # ws, s2)) (operate request remove ops s1))"

fun account ::
  "('r \<Rightarrow> 32 word \<Rightarrow> filter_callback) \<Rightarrow> ('r + 32 word) \<times> 32 word \<Rightarrow> filter_callback multiset
     \<Rightarrow> filter_callback multiset"
where
  "account new (Inl r, w) M = add_mset (new r w) M"
| "account new (Inr _, w) M = filter_mset (\<lambda>cb. cb_id cb \<noteq> w) M"

text \<open>
  What the users of the registry rest on: a request that fits is served under a new id and adds
  one watch, and an id removes its watch and no other. \<open>used\<close> counts the ids given out.
\<close>

locale watch_registry =
  fixes ok :: "'s \<Rightarrow> bool" and used :: "'s \<Rightarrow> nat" and view :: "'s \<Rightarrow> filter_callback multiset"
    and request :: "'r \<Rightarrow> 's \<Rightarrow> (32 word \<times> 's) option" and remove :: "32 word \<Rightarrow> 's \<Rightarrow> (bool \<times> 's) option"
    and fits :: "'r \<Rightarrow> bool" and watch_of :: "'r \<Rightarrow> 32 word \<Rightarrow> filter_callback"
  assumes request_served: "ok s \<Longrightarrow> fits r \<Longrightarrow> used s + 2 < 2 ^ 32 \<Longrightarrow>
      \<exists>w s'. request r s = Some (w, s') \<and> ok s' \<and> view s' = add_mset (watch_of r w) (view s)
        \<and> used s < unat w \<and> unat w \<le> used s' \<and> used s' \<le> used s + 2"
    and removed: "ok s \<Longrightarrow> \<exists>b s'. remove w s = Some (b, s') \<and> ok s'
        \<and> view s' = filter_mset (\<lambda>cb. cb_id cb \<noteq> w) (view s) \<and> used s' = used s"
    and ids_used: "ok s \<Longrightarrow> cb \<in># view s \<Longrightarrow> cb_id cb \<noteq> 0 \<and> unat (cb_id cb) \<le> used s"
    and watch_id: "cb_id (watch_of r w) = w"
begin

lemma operate_total:
  assumes "ok s" and "\<forall>r. Inl r \<in> set ops \<longrightarrow> fits r" and "used s + 2 * length ops < 2 ^ 32"
  shows "\<exists>ws s'. operate request remove ops s = Some (ws, s') \<and> ok s' \<and> length ws = length ops
    \<and> view s' = fold (account watch_of) (zip ops ws) (view s) \<and> used s' \<le> used s + 2 * length ops"
  using assms
proof (induction ops arbitrary: s)
  case (Cons a ops)
  show ?case
  proof (cases a)
    case (Inl r)
    with Cons.prems request_served[of s r] obtain w s1 where w: "request r s = Some (w, s1)" "ok s1"
      "view s1 = add_mset (watch_of r w) (view s)" "used s1 \<le> used s + 2" by auto
    with Cons.prems Cons.IH[of s1] obtain ws s' where "operate request remove ops s1 = Some (ws, s')" "ok s'" "length ws = length ops"
      "view s' = fold (account watch_of) (zip ops ws) (view s1)" "used s' \<le> used s1 + 2 * length ops" by auto
    with Inl w show ?thesis by (intro exI[of _ "w # ws"] exI[of _ s']) simp
  next
    case (Inr w)
    with Cons.prems removed[of s w] obtain b s1 where w: "remove w s = Some (b, s1)" "ok s1"
      "view s1 = filter_mset (\<lambda>cb. cb_id cb \<noteq> w) (view s)" "used s1 = used s" by auto
    with Cons.prems Cons.IH[of s1] obtain ws s' where "operate request remove ops s1 = Some (ws, s')" "ok s'" "length ws = length ops"
      "view s' = fold (account watch_of) (zip ops ws) (view s1)" "used s' \<le> used s1 + 2 * length ops" by auto
    with Inr w show ?thesis by (intro exI[of _ "w # ws"] exI[of _ s']) simp
  qed
qed simp

end

text \<open>The three ways to ask for a watch.\<close>

datatype watch_request =
    ServiceRequest nat string "client_fn option" "client_fn option" nat "client_fn option"
  | SignalRequest nat "string option" "string option" "string option" "string option" client_fn nat "client_fn option"
  | PropertiesRequest nat "string option" "string option" "string option" client_fn nat "client_fn option"

fun request_watch :: "watch_env \<Rightarrow> watch_request \<Rightarrow> watch_state \<Rightarrow> (32 word \<times> watch_state) option" where
  "request_watch E (ServiceRequest conn n cf df u destroy) st =
     g_dbus_add_service_watch E conn (Some n) cf df u destroy st"
| "request_watch E (SignalRequest conn sender path interface member f u destroy) st =
     g_dbus_add_signal_watch E conn sender path interface member (Some f) u destroy st"
| "request_watch E (PropertiesRequest conn sender path interface f u destroy) st =
     g_dbus_add_properties_watch E conn sender path interface (Some f) u destroy st"

definition sender_fits :: "string option \<Rightarrow> bool" where
  "sender_fits sender \<longleftrightarrow> (case sender of None \<Rightarrow> True | Some n \<Rightarrow> name_fits n)"

fun request_fits :: "watch_request \<Rightarrow> bool" where
  "request_fits (ServiceRequest conn n cf df u destroy) \<longleftrightarrow> name_fits n \<and> (cf \<noteq> None \<or> df \<noteq> None)"
| "request_fits (SignalRequest conn sender path interface member f u destroy) \<longleftrightarrow>
     sender_fits sender \<and> rule_fits sender path interface member None"
| "request_fits (PropertiesRequest conn sender path interface f u destroy) \<longleftrightarrow>
     sender_fits sender
     \<and> rule_fits sender path (Some ''org.freedesktop.DBus.Properties'') (Some ''PropertiesChanged'') interface"

fun watch_of :: "watch_request \<Rightarrow> 32 word \<Rightarrow> filter_callback" where
  "watch_of (ServiceRequest conn n cf df u destroy) w = callback_for cf df None destroy u w"
| "watch_of (SignalRequest conn sender path interface member f u destroy) w =
     callback_for None None (Some f) destroy u w"
| "watch_of (PropertiesRequest conn sender path interface f u destroy) w =
     callback_for None None (Some f) destroy u w"

lemma request_watch_registry:
  assumes ok: "registry_ok st" and E: "adding_fine E" and fit: "request_fits r"
    and room: "unat (listener_id st) + 2 < 2 ^ 32"
  shows "\<exists>st'. request_watch E r st = Some (listener_id st + 1, st') \<and> registry_ok st'
    \<and> watches st' = add_mset (watch_of r (listener_id st + 1)) (watches st)
    \<and> unat (listener_id st) + 1 \<le> unat (listener_id st') \<and> unat (listener_id st') \<le> unat (listener_id st) + 2"
proof -
  have id: "unat (listener_id st + 1) = unat (listener_id st) + 1" using room by (simp add: unat_word_ariths)
  show ?thesis
  proof (cases r)
    case (ServiceRequest conn n cf df u destroy)
    then have "name_fits n" "cf \<noteq> None \<or> df \<noteq> None" "unat (listener_id st) + 1 < 2 ^ 32" using fit room by auto
    note fit' = this
    from service_watch_registry[OF ok E fit'(1,3), of conn cf df u destroy] obtain st' where
      "g_dbus_add_service_watch E conn (Some n) cf df u destroy st = Some (listener_id st + 1, st')" "registry_ok st'"
      "listener_id st' = listener_id st + 1" "calls st' = calls st"
      "watches st' = (if cf \<noteq> None \<or> df \<noteq> None then {#callback_for cf df None destroy u (listener_id st + 1)#} else {#})
         + watches st"
      "\<forall>q. find_listener q st \<noteq> None \<longrightarrow> find_listener q st' \<noteq> None"
      "cf = None \<longrightarrow> callbacks_of st' = add_mset (callback_for cf df None destroy u (listener_id st + 1)) (callbacks_of st)" .
    with ServiceRequest id fit'(2) show ?thesis by (intro exI[of _ st']) simp
  next
    case (SignalRequest conn sender path interface member f u destroy)
    then have "rule_fits sender path interface member None" "\<forall>n. sender = Some n \<longrightarrow> name_fits n"
      using fit by (auto simp: sender_fits_def)
    from signal_watch_registry[OF ok E this room, of conn f destroy u] obtain q st1 st2 st3 where
      "filter_data_get E conn SignalFilter sender path interface member None st = Some (Some q, st1)"
      "filter_data_add_callback q None None (Some f) destroy u st1 = Some (listener_id st + 1, st2)"
      "watch_name E conn q st2 = Some st3" "registry_ok st3" "calls st3 = calls st"
      "watches st3 = add_mset (callback_for None None (Some f) destroy u (listener_id st + 1)) (watches st)"
      "unat (listener_id st) + 1 \<le> unat (listener_id st3)" "unat (listener_id st3) \<le> unat (listener_id st) + 2" .
    with SignalRequest show ?thesis by (intro exI[of _ st3]) (simp add: g_dbus_add_signal_watch_def)
  next
    case (PropertiesRequest conn sender path interface f u destroy)
    then have "rule_fits sender path (Some ''org.freedesktop.DBus.Properties'') (Some ''PropertiesChanged'') interface"
      "\<forall>n. sender = Some n \<longrightarrow> name_fits n"
      using fit by (auto simp: sender_fits_def)
    from signal_watch_registry[OF ok E this room, of conn f destroy u] obtain q st1 st2 st3 where
      "filter_data_get E conn SignalFilter sender path (Some ''org.freedesktop.DBus.Properties'')
         (Some ''PropertiesChanged'') interface st = Some (Some q, st1)"
      "filter_data_add_callback q None None (Some f) destroy u st1 = Some (listener_id st + 1, st2)"
      "watch_name E conn q st2 = Some st3" "registry_ok st3" "calls st3 = calls st"
      "watches st3 = add_mset (callback_for None None (Some f) destroy u (listener_id st + 1)) (watches st)"
      "unat (listener_id st) + 1 \<le> unat (listener_id st3)" "unat (listener_id st3) \<le> unat (listener_id st) + 2" .
    with PropertiesRequest show ?thesis by (intro exI[of _ st3]) (simp add: g_dbus_add_properties_watch_def)
  qed
qed

lemma request_served_registry:
  assumes "registry_ok st \<and> adding_fine E \<and> removing_fine E" and "request_fits r" and "unat (listener_id st) + 2 < 2 ^ 32"
  shows "\<exists>w st'. request_watch E r st = Some (w, st') \<and> (registry_ok st' \<and> adding_fine E \<and> removing_fine E)
    \<and> watches st' = add_mset (watch_of r w) (watches st) \<and> unat (listener_id st) < unat w
    \<and> unat w \<le> unat (listener_id st') \<and> unat (listener_id st') \<le> unat (listener_id st) + 2"
proof -
  have id: "unat (listener_id st + 1) = unat (listener_id st) + 1" using assms(3) by (simp add: unat_word_ariths)
  from request_watch_registry[OF _ _ assms(2,3), of E] assms(1) obtain st' where
    "request_watch E r st = Some (listener_id st + 1, st')" "registry_ok st'"
    "watches st' = add_mset (watch_of r (listener_id st + 1)) (watches st)"
    "unat (listener_id st) + 1 \<le> unat (listener_id st')" "unat (listener_id st') \<le> unat (listener_id st) + 2" by blast
  with assms(1) id show ?thesis by (intro exI[of _ "listener_id st + 1"] exI[of _ st']) simp
qed

interpretation wr: watch_registry "\<lambda>st. registry_ok st \<and> adding_fine E \<and> removing_fine E"
  "\<lambda>st. unat (listener_id st)" watches "request_watch E" "g_dbus_remove_watch E" request_fits watch_of
  for E
proof unfold_locales
  fix st r
  assume "registry_ok st \<and> adding_fine E \<and> removing_fine E" "request_fits r" "unat (listener_id st) + 2 < 2 ^ 32"
  then show "\<exists>w st'. request_watch E r st = Some (w, st') \<and> (registry_ok st' \<and> adding_fine E \<and> removing_fine E)
    \<and> watches st' = add_mset (watch_of r w) (watches st) \<and> unat (listener_id st) < unat w
    \<and> unat w \<le> unat (listener_id st') \<and> unat (listener_id st') \<le> unat (listener_id st) + 2"
    by (rule request_served_registry)
next
  fix st w
  assume "registry_ok st \<and> adding_fine E \<and> removing_fine E"
  with remove_watch_registry[of st E w] show "\<exists>b st'. g_dbus_remove_watch E w st = Some (b, st')
    \<and> (registry_ok st' \<and> adding_fine E \<and> removing_fine E)
    \<and> watches st' = filter_mset (\<lambda>cb. cb_id cb \<noteq> w) (watches st) \<and> unat (listener_id st') = unat (listener_id st)"
    by fastforce
next
  fix st cb
  assume "registry_ok st \<and> adding_fine E \<and> removing_fine E" "cb \<in># watches st"
  then show "cb_id cb \<noteq> 0 \<and> unat (cb_id cb) \<le> unat (listener_id st)"
    by (auto simp: watches_def registry_ok_def callbacks_ok_def)
next
  fix r w
  show "cb_id (watch_of r w) = w" by (cases r) simp_all
qed

text \<open>
  C31. Signals and the owners of names can be watched and unwatched in any order: however the
  requests are interleaved with removals, of ids that were never given out or removed before
  too, nothing freed is touched, each request is served, and the watches registered are exactly
  those asked for and not removed since (compared as callbacks with their functions, data and id;
  under which rule they are filed is C26). libdbus does not fail, each rule fits its buffer, and
  there are fewer than 2^31 operations, so that no id is given out twice.
\<close>

theorem watch_registry_safe:
  assumes "adding_fine E" and "removing_fine E" and "\<forall>r. Inl r \<in> set ops \<longrightarrow> request_fits r"
    and "2 * length ops < 2 ^ 32"
  shows "\<exists>ws st. operate (request_watch E) (g_dbus_remove_watch E) ops watch_start = Some (ws, st)
    \<and> length ws = length ops \<and> registry_ok st \<and> watches st = fold (account watch_of) (zip ops ws) {#}"
proof -
  have "unat (listener_id watch_start) = 0" "watches watch_start = {#}"
    by (simp_all add: watch_start_def watches_def callbacks_of_def)
  with wr.operate_total[of watch_start E ops] registry_start assms show ?thesis by auto
qed

definition demo_requests :: "(watch_request + 32 word) list" where
  "demo_requests =
     [Inl (SignalRequest 1 (Some ''net.connman'') (Some ''/'') None None 3 0 None),
      Inl (ServiceRequest 1 ''net.connman'' (Some 1) (Some 2) 0 None), Inr 1, Inr 9]"

theorem watch_registry_safe_witness:
  "\<exists>ws st. operate (request_watch demo_watch_env) (g_dbus_remove_watch demo_watch_env) demo_requests watch_start = Some (ws, st)
    \<and> registry_ok st"
proof -
  have E: "adding_fine demo_watch_env" "removing_fine demo_watch_env"
    by (simp_all add: adding_fine_def removing_fine_def demo_watch_env_def)
  have "name_fits ''net.connman''" "rule_fits (Some ''net.connman'') (Some ''/'') None None None" by code_simp+
  then have fit: "\<forall>r. Inl r \<in> set demo_requests \<longrightarrow> request_fits r"
    by (auto simp: demo_requests_def sender_fits_def)
  have "2 * length demo_requests < 2 ^ 32" by (simp add: demo_requests_def)
  from watch_registry_safe[OF E fit this] show ?thesis by blast
qed

end
