(* ===== verification/Gdbus_Client_Props.thy ===== *)
theory Gdbus_Client_Props
  imports Gdbus_Client Gdbus_Watch_Registry
begin

text \<open>
  The tables of properties of \<open>gdbus/client.c\<close>: values are copied exactly, and the messages of a
  service change the table of a proxy and nothing else.
\<close>

section \<open>Copying\<close>

lemma append_item_copies:
  "wt_item i \<Longrightarrow> append_item base i = base @ [i]"
  "list_all wt_item items \<Longrightarrow> append_items base items = base @ items"
proof (induction base i and base items rule: append_item_append_items.induct)
  case (2 base s items)
  then show ?case by (simp add: list_all_iff)
next
  case (3 base s items)
  then obtain i where "items = [i]" "wt_item i" "item_sig i = s"
    by (auto split: list.splits)
  with 3 show ?case by simp
next
  case (4 base items)
  then show ?case by (simp add: list_all_iff)
next
  case (5 base items)
  then have "list_all wt_item items" by (auto split: list.splits)
  with 5 show ?case by simp
qed simp_all

lemma copy_of_wt: "wt_item i \<Longrightarrow> iter_append_iter [] (i # rest) = [i]"
  by (simp add: iter_append_iter_def append_item_copies)

section \<open>What does not concern the tables\<close>

text \<open>Everything but the tables of the proxies, the record of calls and the attempts.\<close>

definition bare :: "client_state \<Rightarrow> nat \<Rightarrow> gproxy option" where
  "bare st p = map_option (\<lambda>x. x\<lparr>px_props := []\<rparr>) (proxies st p)"

definition same_shape :: "client_state \<Rightarrow> client_state \<Rightarrow> bool" where
  "same_shape st st' \<longleftrightarrow> clients st' = clients st \<and> bare st' = bare st \<and> registry st' = registry st
     \<and> awaited st' = awaited st \<and> next_client st' = next_client st \<and> next_proxy st' = next_proxy st
     \<and> next_call st' = next_call st \<and> client_filters st' = client_filters st \<and> conn_refs st' = conn_refs st
     \<and> sent_calls st' = sent_calls st"

lemma same_shape_refl [simp]: "same_shape st st"
  by (simp add: same_shape_def)

lemma same_shape_trans: "same_shape s t \<Longrightarrow> same_shape t u \<Longrightarrow> same_shape s u"
  by (simp add: same_shape_def)

lemma same_shape_attempts [simp]: "same_shape st (st\<lparr>attempts := n\<rparr>)"
  by (simp add: same_shape_def bare_def fun_eq_iff)

lemma same_shape_tell [simp]: "same_shape st (tell f how st)"
  by (simp add: same_shape_def tell_def bare_def fun_eq_iff split: option.split)

lemma tell_fields [simp]:
  "clients (tell f how st) = clients st" "proxies (tell f how st) = proxies st" "registry (tell f how st) = registry st"
  "awaited (tell f how st) = awaited st" "attempts (tell f how st) = attempts st"
  "next_client (tell f how st) = next_client st" "next_proxy (tell f how st) = next_proxy st"
  "next_call (tell f how st) = next_call st" "client_filters (tell f how st) = client_filters st"
  "conn_refs (tell f how st) = conn_refs st" "sent_calls (tell f how st) = sent_calls st"
  by (simp_all add: tell_def split: option.split)

lemma same_shape_props:
  "proxies st p = Some x \<Longrightarrow> same_shape st (set_proxy p (x\<lparr>px_props := props\<rparr>) st)"
  by (auto simp: same_shape_def set_proxy_def bare_def fun_eq_iff)

lemma same_shape_proxy:
  assumes "same_shape st st'" and "proxies st p = Some x"
  obtains props where "proxies st' p = Some (x\<lparr>px_props := props\<rparr>)"
proof -
  from assms(1) have "bare st' p = bare st p" by (simp add: same_shape_def)
  with assms(2) obtain y where y: "proxies st' p = Some y" and e: "y\<lparr>px_props := []\<rparr> = x\<lparr>px_props := []\<rparr>"
    by (auto simp: bare_def)
  have "y = (y\<lparr>px_props := []\<rparr>)\<lparr>px_props := px_props y\<rparr>" by simp
  then have "y = x\<lparr>px_props := px_props y\<rparr>" unfolding e by simp
  with y show ?thesis by (metis that)
qed

text \<open>The clients a proxy points to exist: then a change of its table is always defined.\<close>

definition attached_live :: "client_state \<Rightarrow> nat \<Rightarrow> bool" where
  "attached_live st p \<longleftrightarrow> (\<exists>x. proxies st p = Some x \<and> (\<forall>c. px_client x = Some c \<longrightarrow> clients st c \<noteq> None))"

lemma attached_live_shape: "same_shape st st' \<Longrightarrow> attached_live st' p = attached_live st p"
proof -
  assume s: "same_shape st st'"
  then have "bare st' p = bare st p" "clients st' = clients st" by (simp_all add: same_shape_def)
  moreover have "attached_live t p \<longleftrightarrow> (\<exists>y. bare t p = Some y \<and> (\<forall>c. px_client y = Some c \<longrightarrow> clients t c \<noteq> None))" for t
    by (auto simp: attached_live_def bare_def)
  ultimately show ?thesis by simp
qed

lemma prop_entry_update_state: "\<exists>n. snd (prop_entry_update E prop val st) = st\<lparr>attempts := n\<rparr>"
  by (auto simp: prop_entry_update_def try_new_def Let_def)

lemma store_entry_state: "\<exists>n. snd (store_entry E prev val st) = st\<lparr>attempts := n\<rparr>"
proof (cases prev)
  case None
  have "\<exists>n. snd (prop_entry_update E pe val (st\<lparr>attempts := m\<rparr>)) = st\<lparr>attempts := n\<rparr>" for pe m
    using prop_entry_update_state[of E pe val "st\<lparr>attempts := m\<rparr>"] by auto
  with None show ?thesis by (auto simp: store_entry_def prop_entry_new_def try_new_def split_beta)
next
  case (Some pe)
  with prop_entry_update_state[of E pe val st] show ?thesis by (simp add: store_entry_def split_beta)
qed

lemma add_property_total:
  assumes "attached_live st p"
  obtains st' where "add_property E p name iter send st = Some st'" "same_shape st st'"
proof -
  from assms obtain x where x: "proxies st p = Some x" and live: "\<forall>c. px_client x = Some c \<longrightarrow> clients st c \<noteq> None"
    by (auto simp: attached_live_def)
  show ?thesis
  proof (cases "variant_at iter")
    case None
    with x that show ?thesis by (simp add: add_property_def)
  next
    case (Some val)
    define r where "r = store_entry E (gh_lookup (px_props x) name) val st"
    obtain n where n: "snd r = st\<lparr>attempts := n\<rparr>" unfolding r_def using store_entry_state by blast
    show ?thesis
    proof (cases "fst r")
      case None
      with x Some n show ?thesis
        by (intro that[of "st\<lparr>attempts := n\<rparr>"]) (simp_all add: add_property_def r_def[symmetric] split_beta)
    next
      case (Some e)
      let ?st2 = "set_proxy p (x\<lparr>px_props := gh_replace name e (px_props x)\<rparr>) (st\<lparr>attempts := n\<rparr>)"
      let ?st3 = "tell (px_prop_func x) (\<lambda>f. PropFunc f p name (Some val) (px_prop_data x)) ?st2"
      have s2: "same_shape (st\<lparr>attempts := n\<rparr>) ?st2" by (rule same_shape_props) (simp add: x)
      have s3: "same_shape st ?st3"
        by (rule same_shape_trans[OF same_shape_trans[OF same_shape_attempts s2] same_shape_tell])
      have step: "add_property E p name iter send st =
          (case px_client x of None \<Rightarrow> Some ?st3
           | Some c \<Rightarrow> if send then tell_changed c p name (Some val) ?st3 else Some ?st3)"
        using x \<open>variant_at iter = Some val\<close> Some n
        by (simp add: add_property_def r_def[symmetric] split_beta Let_def)
      show ?thesis
      proof (cases "px_client x")
        case None
        with step s3 that show ?thesis by simp
      next
        case (Some c)
        with live obtain cl where cl: "clients ?st3 c = Some cl" by (auto simp: set_proxy_def)
        show ?thesis
        proof (cases send)
          case True
          have "tell_changed c p name (Some val) ?st3
              = Some (tell (gc_property_changed cl) (\<lambda>f. PropertyChanged f p name (Some val) (gc_user_data cl)) ?st3)"
            using cl by (simp add: tell_changed_def)
          with step Some True show ?thesis by (intro that) (simp, rule same_shape_trans[OF s3 same_shape_tell])
        next
          case False
          with step Some s3 that show ?thesis by simp
        qed
      qed
    qed
  qed
qed

lemma update_loop_total:
  "attached_live st p \<Longrightarrow> \<exists>st'. update_loop E p send dict st = Some st' \<and> same_shape st st'"
proof (induction E p send dict st rule: update_loop.induct)
  case (1 E p send entry dict st)
  show ?case
  proof (cases "string_at entry")
    case None
    then show ?thesis by simp
  next
    case (Some name)
    from add_property_total[OF 1(2)] obtain st1 where st1: "add_property E p name (iter_next entry) send st = Some st1"
      and s1: "same_shape st st1" .
    have "attached_live st1 p" using 1(2) attached_live_shape[OF s1] by simp
    from 1(1)[OF Some st1 this] obtain st' where "update_loop E p send dict st1 = Some st'" "same_shape st1 st'" by blast
    with Some st1 same_shape_trans[OF s1] show ?thesis by simp
  qed
qed simp_all

lemma update_properties_total:
  "attached_live st p \<Longrightarrow> \<exists>st'. update_properties E p iter send st = Some st' \<and> same_shape st st'"
  using update_loop_total by (auto simp: update_properties_def split: option.split)

text \<open>Removing entries needs a client.\<close>

lemma invalidate_loop_total:
  assumes "proxies st p = Some x" and "px_client x = Some c" and "clients st c \<noteq> None"
  shows "\<exists>st'. invalidate_loop p names st = Some st' \<and> same_shape st st'"
  using assms
proof (induction p names st arbitrary: x rule: invalidate_loop.induct)
  case (1 p name names st)
  let ?x = "x\<lparr>px_props := gh_remove name (px_props x)\<rparr>"
  let ?st1 = "tell (px_prop_func x) (\<lambda>f. PropFunc f p name None (px_prop_data x)) (set_proxy p ?x st)"
  from 1(4) obtain cl where cl: "clients ?st1 c = Some cl" by (auto simp: set_proxy_def)
  let ?st2 = "tell (gc_property_changed cl) (\<lambda>f. PropertyChanged f p name None (gc_user_data cl)) ?st1"
  have s: "same_shape st ?st2" using same_shape_props[OF 1(2)] by (meson same_shape_tell same_shape_trans)
  have tc: "tell_changed c p name None ?st1 = Some ?st2" using cl by (simp add: tell_changed_def)
  have "proxies ?st2 p = Some ?x" "clients ?st2 c \<noteq> None" using cl by (simp_all add: set_proxy_def)
  from 1(1)[OF 1(2,3) refl tc this(1) _ this(2)] 1(3) obtain st' where
    "invalidate_loop p names ?st2 = Some st'" "same_shape ?st2 st'" by auto
  with 1 tc same_shape_trans[OF s] show ?case by (simp add: Let_def)
qed simp_all

lemma properties_changed_total:
  assumes "proxies st p = Some x" and "px_client x = Some c" and "clients st c \<noteq> None"
  shows "\<exists>st'. properties_changed E p body st = Some st' \<and> same_shape st st'"
proof (cases "string_at body")
  case None
  with assms show ?thesis by (simp add: properties_changed_def)
next
  case (Some interface)
  have live: "attached_live st p" using assms by (simp add: attached_live_def)
  from update_properties_total[OF this] obtain st1 where
    st1: "update_properties E p (iter_next body) True st = Some st1" and s1: "same_shape st st1" by blast
  from same_shape_proxy[OF s1 assms(1)] obtain props where "proxies st1 p = Some (x\<lparr>px_props := props\<rparr>)" .
  moreover have "px_client (x\<lparr>px_props := props\<rparr>) = Some c" "clients st1 c \<noteq> None"
    using assms s1 by (simp_all add: same_shape_def)
  ultimately obtain x1 where "proxies st1 p = Some x1" "px_client x1 = Some c" "clients st1 c \<noteq> None" by blast
  from invalidate_loop_total[OF this] st1 s1 Some assms(1) show ?thesis
    by (auto simp: properties_changed_def split: option.split intro: same_shape_trans)
qed

section \<open>What the tables hold\<close>

text \<open>The values a program can read, while there is memory.\<close>

definition plenty :: "client_env \<Rightarrow> bool" where
  "plenty E \<longleftrightarrow> (\<forall>n. \<not> try_fails E n)"

definition table :: "client_state \<Rightarrow> nat \<Rightarrow> string \<Rightarrow> ditem list option" where
  "table st p name = Option.bind (proxies st p) (\<lambda>x. stored_value x name)"

text \<open>The entries of a dictionary of variants.\<close>

fun dict_values :: "ditem list \<Rightarrow> (string \<times> ditem) list" where
  "dict_values (DDictEntry [Basic (DString n), DVariant s [v]] # dict) = (n, v) # dict_values dict"
| "dict_values _ = []"

fun strings_of :: "ditem list \<Rightarrow> string list" where
  "strings_of (Basic (DString n) # items) = n # strings_of items"
| "strings_of _ = []"

definition changes :: "(string \<times> ditem) list \<Rightarrow> (string \<Rightarrow> ditem list option) \<Rightarrow> string \<Rightarrow> ditem list option" where
  "changes kvs m = fold (\<lambda>(n, v) m. m(n \<mapsto> [v])) kvs m"

definition removals :: "string list \<Rightarrow> (string \<Rightarrow> ditem list option) \<Rightarrow> string \<Rightarrow> ditem list option" where
  "removals ns m = fold (\<lambda>n m. m(n := None)) ns m"

text \<open>The calls a change of one property makes.\<close>

definition told ::
  "nat \<Rightarrow> gproxy \<Rightarrow> gclient option \<Rightarrow> string \<Rightarrow> ditem list option \<Rightarrow> program_call list"
where
  "told p x client name val =
     (case px_prop_func x of None \<Rightarrow> [] | Some f \<Rightarrow> [PropFunc f p name val (px_prop_data x)])
     @ (case client of
          None \<Rightarrow> []
        | Some cl \<Rightarrow> (case gc_property_changed cl of
            None \<Rightarrow> [] | Some f \<Rightarrow> [PropertyChanged f p name val (gc_user_data cl)]))"

lemma told_props [simp]: "told p (x\<lparr>px_props := props\<rparr>) = told p x"
  by (simp add: told_def fun_eq_iff split: option.split)

lemma store_entry_value:
  assumes "plenty E" and "wt_item v"
  shows "\<exists>e. fst (store_entry E prev (v # rest) st) = Some e \<and> pe_msg e = Some [v]"
  using assms copy_of_wt[of v rest]
  by (auto simp: store_entry_def prop_entry_new_def prop_entry_update_def try_new_def plenty_def Let_def
      split: option.split)

text \<open>One property: the client that is told, if any, is the fifth argument of \<open>told\<close>.\<close>

lemma add_property_value:
  assumes E: "plenty E" and v: "wt_item v" and x: "proxies st p = Some x"
    and cl: "case px_client x of None \<Rightarrow> client = None
      | Some c \<Rightarrow> if send then client \<noteq> None \<and> clients st c = client else client = None"
  obtains st' props where "add_property E p name [DVariant s [v]] send st = Some st'" "same_shape st st'"
    "proxies st' = (proxies st)(p \<mapsto> x\<lparr>px_props := props\<rparr>)"
    "stored_value (x\<lparr>px_props := props\<rparr>) = (stored_value x)(name \<mapsto> [v])"
    "program st' = program st @ told p x client name (Some [v])"
proof -
  define r where "r = store_entry E (gh_lookup (px_props x) name) [v] st"
  obtain n where n: "snd r = st\<lparr>attempts := n\<rparr>" unfolding r_def using store_entry_state by blast
  obtain e where e: "fst r = Some e" "pe_msg e = Some [v]"
    unfolding r_def using store_entry_value[OF E v] by blast
  let ?props = "gh_replace name e (px_props x)"
  let ?st2 = "set_proxy p (x\<lparr>px_props := ?props\<rparr>) (st\<lparr>attempts := n\<rparr>)"
  let ?st3 = "tell (px_prop_func x) (\<lambda>f. PropFunc f p name (Some [v]) (px_prop_data x)) ?st2"
  have s2: "same_shape (st\<lparr>attempts := n\<rparr>) ?st2" by (rule same_shape_props) (simp add: x)
  have s3: "same_shape st ?st3"
    by (rule same_shape_trans[OF same_shape_trans[OF same_shape_attempts s2] same_shape_tell])
  have step: "add_property E p name [DVariant s [v]] send st =
      (case px_client x of None \<Rightarrow> Some ?st3
       | Some c \<Rightarrow> if send then tell_changed c p name (Some [v]) ?st3 else Some ?st3)"
    using x n e(1) by (simp add: add_property_def r_def[symmetric] split_beta Let_def)
  have px: "proxies ?st3 = (proxies st)(p \<mapsto> x\<lparr>px_props := ?props\<rparr>)" by (simp add: set_proxy_def)
  have val: "stored_value (x\<lparr>px_props := ?props\<rparr>) = (stored_value x)(name \<mapsto> [v])"
    using e(2) by (simp add: stored_value_def fun_eq_iff)
  have prog: "program ?st3 = program st @ told p x None name (Some [v])"
    by (simp add: told_def tell_def set_proxy_def split: option.split)
  show ?thesis
  proof (cases "px_client x \<noteq> None \<and> send")
    case False
    with step have "add_property E p name [DVariant s [v]] send st = Some ?st3" by (auto split: option.split)
    moreover from False cl have "client = None" by (auto split: option.splits)
    ultimately show ?thesis using s3 px val prog by (intro that) auto
  next
    case True
    then obtain c where c: "px_client x = Some c" and send by blast
    with cl obtain cl' where cl': "clients st c = Some cl'" "client = Some cl'" by auto
    let ?st4 = "tell (gc_property_changed cl') (\<lambda>f. PropertyChanged f p name (Some [v]) (gc_user_data cl')) ?st3"
    have "clients ?st3 c = Some cl'" using cl' by (simp add: set_proxy_def)
    with step c \<open>send\<close> have "add_property E p name [DVariant s [v]] send st = Some ?st4"
      by (simp add: tell_changed_def)
    moreover have "program ?st4 = program st @ told p x client name (Some [v])"
      using cl'(2) by (simp add: told_def tell_def set_proxy_def split: option.split)
    ultimately show ?thesis
      using px val by (intro that[OF _ same_shape_trans[OF s3 same_shape_tell]]) simp_all
  qed
qed

lemma sv_entry:
  assumes "wt_item (DArray ''{sv}'' (e # dict))"
  obtains n s v where "e = DDictEntry [Basic (DString n), DVariant s [v]]" "wt_item v" "wt_item (DArray ''{sv}'' dict)"
proof -
  from assms have wt: "wt_item e" "item_sig e = ''{sv}''" and rest: "wt_item (DArray ''{sv}'' dict)" by simp_all
  then obtain items where e: "e = DDictEntry items" by (cases e) simp_all
  with wt(1) obtain b val where items: "items = [Basic b, val]" and val: "wt_item val"
    by (auto split: list.splits)
  from wt(2) have sig: "type_code b = CHR ''s''" "item_sig val = ''v''" by (simp_all add: e items)
  then obtain n where b: "b = DString n" by (cases b) simp_all
  from sig(2) obtain s vs where v: "val = DVariant s vs" by (cases val) simp_all
  with val obtain v where "vs = [v]" "wt_item v" by (auto split: list.splits)
  with e items b v rest show ?thesis by (intro that) simp_all
qed

lemma update_loop_value:
  assumes "plenty E" and "wt_item (DArray ''{sv}'' dict)" and "proxies st p = Some x"
    and "case px_client x of None \<Rightarrow> client = None
      | Some c \<Rightarrow> if send then client \<noteq> None \<and> clients st c = client else client = None"
  shows "\<exists>st' props. update_loop E p send dict st = Some st' \<and> same_shape st st'
    \<and> proxies st' = (proxies st)(p \<mapsto> x\<lparr>px_props := props\<rparr>)
    \<and> stored_value (x\<lparr>px_props := props\<rparr>) = changes (dict_values dict) (stored_value x)
    \<and> program st' = program st @ concat (map (\<lambda>(n, v). told p x client n (Some [v])) (dict_values dict))"
  using assms(2-)
proof (induction dict arbitrary: st x)
  case Nil
  then show ?case by (intro exI[of _ st] exI[of _ "px_props x"]) (simp add: changes_def fun_upd_idem)
next
  case (Cons e dict)
  from sv_entry[OF Cons.prems(1)] obtain n s v where e: "e = DDictEntry [Basic (DString n), DVariant s [v]]"
    and v: "wt_item v" and dict: "wt_item (DArray ''{sv}'' dict)" .
  from add_property_value[OF assms(1) v Cons.prems(2,3), of n s] obtain st1 props1 where
    st1: "add_property E p n [DVariant s [v]] send st = Some st1" and s1: "same_shape st st1"
    and x1: "proxies st1 = (proxies st)(p \<mapsto> x\<lparr>px_props := props1\<rparr>)"
    and val1: "stored_value (x\<lparr>px_props := props1\<rparr>) = (stored_value x)(n \<mapsto> [v])"
    and prog1: "program st1 = program st @ told p x client n (Some [v])" .
  have cl1: "case px_client (x\<lparr>px_props := props1\<rparr>) of None \<Rightarrow> client = None
      | Some c \<Rightarrow> if send then client \<noteq> None \<and> clients st1 c = client else client = None"
    using Cons.prems(3) s1 by (cases "px_client x") (simp_all add: same_shape_def)
  have p1: "proxies st1 p = Some (x\<lparr>px_props := props1\<rparr>)" by (simp add: x1)
  from Cons.IH[OF dict p1 cl1] obtain st' props where
    "update_loop E p send dict st1 = Some st'" and s2: "same_shape st1 st'"
    and x2: "proxies st' = (proxies st1)(p \<mapsto> x\<lparr>px_props := props1\<rparr>\<lparr>px_props := props\<rparr>)"
    and val2: "stored_value (x\<lparr>px_props := props1\<rparr>\<lparr>px_props := props\<rparr>)
      = changes (dict_values dict) (stored_value (x\<lparr>px_props := props1\<rparr>))"
    and prog2: "program st' = program st1
      @ concat (map (\<lambda>(n, v). told p (x\<lparr>px_props := props1\<rparr>) client n (Some [v])) (dict_values dict))" by blast
  then have "update_loop E p send (e # dict) st = Some st'" using e st1 by simp
  with same_shape_trans[OF s1 s2] x1 x2 val1 val2 prog1 prog2 show ?case
    by (intro exI[of _ st'] exI[of _ props]) (simp add: e changes_def)
qed

lemma ss_entry:
  assumes "wt_item (DArray ''s'' (e # names))"
  obtains n where "e = Basic (DString n)" "wt_item (DArray ''s'' names)"
proof -
  from assms have "item_sig e = ''s''" "wt_item (DArray ''s'' names)" by simp_all
  moreover from this(1) obtain b where b: "e = Basic b" "type_code b = CHR ''s''" by (cases e) simp_all
  moreover from b(2) obtain n where "b = DString n" by (cases b) simp_all
  ultimately show ?thesis using that by blast
qed

lemma invalidate_loop_value:
  assumes "wt_item (DArray ''s'' names)" and "proxies st p = Some x" and "px_client x = Some c" and "clients st c = Some cl"
  shows "\<exists>st' props. invalidate_loop p names st = Some st' \<and> same_shape st st'
    \<and> proxies st' = (proxies st)(p \<mapsto> x\<lparr>px_props := props\<rparr>)
    \<and> stored_value (x\<lparr>px_props := props\<rparr>) = removals (strings_of names) (stored_value x)
    \<and> program st' = program st @ concat (map (\<lambda>n. told p x (Some cl) n None) (strings_of names))"
  using assms
proof (induction names arbitrary: st x)
  case Nil
  then show ?case by (intro exI[of _ st] exI[of _ "px_props x"]) (simp add: removals_def fun_upd_idem)
next
  case (Cons e names)
  from ss_entry[OF Cons.prems(1)] obtain n where e: "e = Basic (DString n)" and names: "wt_item (DArray ''s'' names)" .
  let ?x = "x\<lparr>px_props := gh_remove n (px_props x)\<rparr>"
  let ?st1 = "tell (px_prop_func x) (\<lambda>f. PropFunc f p n None (px_prop_data x)) (set_proxy p ?x st)"
  let ?st2 = "tell (gc_property_changed cl) (\<lambda>f. PropertyChanged f p n None (gc_user_data cl)) ?st1"
  have s: "same_shape st ?st2" using same_shape_props[OF Cons.prems(2)] by (meson same_shape_tell same_shape_trans)
  have tc: "tell_changed c p n None ?st1 = Some ?st2"
    using Cons.prems(4) by (simp add: tell_changed_def set_proxy_def)
  have val: "stored_value ?x = (stored_value x)(n := None)" by (simp add: stored_value_def fun_eq_iff)
  have prog: "program ?st2 = program st @ told p x (Some cl) n None"
    by (simp add: told_def tell_def set_proxy_def split: option.split)
  have "proxies ?st2 p = Some ?x" "px_client ?x = Some c" "clients ?st2 c = Some cl"
    using Cons.prems by (simp_all add: set_proxy_def)
  from Cons.IH[OF names this] obtain st' props where
    "invalidate_loop p names ?st2 = Some st'" and s2: "same_shape ?st2 st'"
    and x2: "proxies st' = (proxies ?st2)(p \<mapsto> ?x\<lparr>px_props := props\<rparr>)"
    and val2: "stored_value (?x\<lparr>px_props := props\<rparr>) = removals (strings_of names) (stored_value ?x)"
    and prog2: "program st' = program ?st2 @ concat (map (\<lambda>n. told p ?x (Some cl) n None) (strings_of names))" by blast
  then have "invalidate_loop p (e # names) st = Some st'" using e Cons.prems tc by (simp add: Let_def)
  with same_shape_trans[OF s s2] x2 val val2 prog prog2 show ?case
    by (intro exI[of _ st'] exI[of _ props]) (simp add: e removals_def set_proxy_def)
qed

lemma properties_changed_value:
  assumes E: "plenty E" and x: "proxies st p = Some x" and c: "px_client x = Some c" and cl: "clients st c = Some cl"
    and dict: "wt_item (DArray ''{sv}'' dict)" and names: "wt_item (DArray ''s'' names)"
  shows "\<exists>st' props. properties_changed E p [Basic (DString interface), DArray ''{sv}'' dict, DArray ''s'' names] st = Some st'
    \<and> same_shape st st' \<and> proxies st' = (proxies st)(p \<mapsto> x\<lparr>px_props := props\<rparr>)
    \<and> table st' p = removals (strings_of names) (changes (dict_values dict) (table st p))
    \<and> program st' = program st @ concat (map (\<lambda>(n, v). told p x (Some cl) n (Some [v])) (dict_values dict))
        @ concat (map (\<lambda>n. told p x (Some cl) n None) (strings_of names))"
proof -
  have "case px_client x of None \<Rightarrow> Some cl = None | Some c \<Rightarrow> if True then Some cl \<noteq> None \<and> clients st c = Some cl else Some cl = None"
    using c cl by simp
  from update_loop_value[OF E dict x this] obtain st1 props1 where
    st1: "update_loop E p True dict st = Some st1" and s1: "same_shape st st1"
    and x1: "proxies st1 = (proxies st)(p \<mapsto> x\<lparr>px_props := props1\<rparr>)"
    and val1: "stored_value (x\<lparr>px_props := props1\<rparr>) = changes (dict_values dict) (stored_value x)"
    and prog1: "program st1 = program st @ concat (map (\<lambda>(n, v). told p x (Some cl) n (Some [v])) (dict_values dict))" by blast
  let ?x1 = "x\<lparr>px_props := props1\<rparr>"
  have "proxies st1 p = Some ?x1" "px_client ?x1 = Some c" "clients st1 c = Some cl"
    using x1 c cl s1 by (simp_all add: same_shape_def)
  from invalidate_loop_value[OF names this] obtain st' props where
    "invalidate_loop p names st1 = Some st'" and s2: "same_shape st1 st'"
    and x2: "proxies st' = (proxies st1)(p \<mapsto> ?x1\<lparr>px_props := props\<rparr>)"
    and val2: "stored_value (?x1\<lparr>px_props := props\<rparr>) = removals (strings_of names) (stored_value ?x1)"
    and prog2: "program st' = program st1 @ concat (map (\<lambda>n. told p ?x1 (Some cl) n None) (strings_of names))" by blast
  with st1 x have run: "properties_changed E p [Basic (DString interface), DArray ''{sv}'' dict, DArray ''s'' names] st = Some st'"
    by (simp add: properties_changed_def update_properties_def)
  have "table st' p = removals (strings_of names) (changes (dict_values dict) (table st p))"
  proof -
    have "table st p = stored_value x" "table st' p = stored_value (?x1\<lparr>px_props := props\<rparr>)"
      using x x2 by (simp_all add: table_def fun_eq_iff)
    with val1 val2 show ?thesis by simp
  qed
  with run same_shape_trans[OF s1 s2] x1 x2 prog1 prog2 show ?thesis
    by (intro exI[of _ st'] exI[of _ props]) simp
qed

text \<open>
  C35. A signal PropertiesChanged changes the table of its proxy as it says, the changed
  properties first and then the invalidated ones, so that \<open>g_dbus_proxy_get_property\<close> gives
  exactly the values sent; the program is told of each change once, in order, and nothing else
  is touched. Memory does not fail, and the message has the types of the interface.
\<close>

theorem properties_changed_exact:
  assumes "plenty E" and "proxies st p = Some x" and "px_client x = Some c" and "clients st c = Some cl"
    and "wt_item (DArray ''{sv}'' dict)" and "wt_item (DArray ''s'' names)"
  shows "\<exists>st'. properties_changed E p [Basic (DString interface), DArray ''{sv}'' dict, DArray ''s'' names] st = Some st'
    \<and> same_shape st st' \<and> (\<forall>q. q \<noteq> p \<longrightarrow> proxies st' q = proxies st q)
    \<and> (\<forall>n. g_dbus_proxy_get_property (Some p) (Some n) st'
          = Some (removals (strings_of names) (changes (dict_values dict) (table st p)) n))
    \<and> program st' = program st @ concat (map (\<lambda>(n, v). told p x (Some cl) n (Some [v])) (dict_values dict))
        @ concat (map (\<lambda>n. told p x (Some cl) n None) (strings_of names))"
proof -
  from properties_changed_value[OF assms, of interface] obtain st' props where st':
    "properties_changed E p [Basic (DString interface), DArray ''{sv}'' dict, DArray ''s'' names] st = Some st'"
    "same_shape st st'" "proxies st' = (proxies st)(p \<mapsto> x\<lparr>px_props := props\<rparr>)"
    "table st' p = removals (strings_of names) (changes (dict_values dict) (table st p))"
    "program st' = program st @ concat (map (\<lambda>(n, v). told p x (Some cl) n (Some [v])) (dict_values dict))
        @ concat (map (\<lambda>n. told p x (Some cl) n None) (strings_of names))" by blast
  have "g_dbus_proxy_get_property (Some p) (Some n) st' = Some (table st' p n)" for n
    by (simp add: g_dbus_proxy_get_property_def table_def st'(3))
  with st' show ?thesis by (intro exI[of _ st']) simp
qed

definition demo_client_env :: client_env where
  "demo_client_env =
     \<lparr>try_fails = (\<lambda>_. False), reply_outcome = (\<lambda>_. SentCall), watching = demo_watch_env, setup_items = (\<lambda>_ _. [])\<rparr>"

definition demo_proxy :: gproxy where
  "demo_proxy =
     \<lparr>px_refs = 1, px_client = Some 0, px_path = ''/wifi'', px_interface = ''net.connman.Service'',
      px_props = [(''Name'', \<lparr>pe_type = Some (CHR ''s''), pe_msg = Some [Basic (DString ''home'')]\<rparr>)], px_watch = 4,
      px_prop_func = Some 7, px_prop_data = 0, px_removed_func = None, px_removed_data = 0\<rparr>"

definition demo_client :: gclient where
  "demo_client =
     \<lparr>gc_refs = 1, gc_conn = 1, gc_service = ''net.connman'', gc_base_path = ''/'', gc_watch = 1, gc_added_watch = 2,
      gc_removed_watch = 3, gc_match_rules = [], gc_pending_call = None, gc_get_objects_call = None, gc_connect_func = None,
      gc_connect_data = 0, gc_disconn_func = None, gc_disconn_data = 0, gc_signal_func = None, gc_signal_data = 0,
      gc_proxy_added = None, gc_proxy_removed = None, gc_property_changed = Some 8, gc_user_data = 0, gc_proxy_list = [0]\<rparr>"

definition demo_dict :: "ditem list" where
  "demo_dict = [DDictEntry [Basic (DString ''State''), DVariant ''s'' [Basic (DString ''online'')]]]"

lemma demo_client_env_fine: "plenty demo_client_env"
  by (simp add: plenty_def demo_client_env_def)

theorem properties_changed_exact_witness:
  "\<exists>st'. properties_changed demo_client_env 0
       [Basic (DString ''net.connman.Service''), DArray ''{sv}'' demo_dict, DArray ''s'' [Basic (DString ''Name'')]]
       (set_client 0 demo_client (set_proxy 0 demo_proxy client_start)) = Some st'
    \<and> g_dbus_proxy_get_property (Some 0) (Some ''State'') st' = Some (Some [Basic (DString ''online'')])
    \<and> g_dbus_proxy_get_property (Some 0) (Some ''Name'') st' = Some None"
proof -
  let ?st = "set_client 0 demo_client (set_proxy 0 demo_proxy client_start)"
  have facts: "proxies ?st 0 = Some demo_proxy" "px_client demo_proxy = Some 0" "clients ?st 0 = Some demo_client"
    by (simp_all add: set_client_def set_proxy_def demo_proxy_def)
  have wt: "wt_item (DArray ''{sv}'' demo_dict)" "wt_item (DArray ''s'' [Basic (DString ''Name'')])"
    by (simp_all add: demo_dict_def)
  from properties_changed_exact[OF demo_client_env_fine facts wt, of "''net.connman.Service''"]
  show ?thesis by (auto simp: demo_dict_def changes_def removals_def)
qed

end
