(* ===== verification/Gdbus_Client_Refs.thy ===== *)
theory Gdbus_Client_Refs
  imports Gdbus_Client_Props
begin

text \<open>
  References, watches and pending calls of \<open>gdbus/client.c\<close>: the invariant that ties clients,
  proxies and the registry of watches together, and its preservation by each operation. The
  references the program holds are counted by two functions beside the state.
\<close>

section \<open>The invariant\<close>

definition attached :: "client_state \<Rightarrow> nat \<Rightarrow> nat set" where
  "attached st c = {p. \<exists>y. bare st p = Some y \<and> px_client y = Some c}"

fun asks_for :: "client_state \<Rightarrow> nat \<Rightarrow> reply_to \<Rightarrow> bool" where
  "asks_for st c (GetAllReply p) \<longleftrightarrow> p \<in> attached st c"
| "asks_for st c _ \<longleftrightarrow> False"

definition getalls :: "nat \<Rightarrow> client_state \<Rightarrow> nat" where
  "getalls c st = length (filter (\<lambda>(i, r). asks_for st c r) (awaited st))"

text \<open>
  \<open>hc\<close> and \<open>hp\<close> count the references the program holds to clients and proxies. A client that is
  being freed is in \<open>D\<close>.
\<close>

definition clients_ok :: "(nat \<Rightarrow> nat) \<Rightarrow> nat set \<Rightarrow> client_state \<Rightarrow> bool" where
  "clients_ok hc D st \<longleftrightarrow> (\<forall>c. clients st c = None \<longrightarrow> hc c = 0)
     \<and> (\<forall>c x. clients st c = Some x \<longrightarrow> c < next_client st \<and> gc_pending_call x = None
          \<and> (if c \<in> D then hc c = 0 else 0 < gc_refs x \<and> hc c + getalls c st \<le> gc_refs x))"

definition proxies_ok :: "(nat \<Rightarrow> nat) \<Rightarrow> client_state \<Rightarrow> bool" where
  "proxies_ok hp st \<longleftrightarrow> (\<forall>p. bare st p = None \<longrightarrow> hp p = 0)
     \<and> (\<forall>p y. bare st p = Some y \<longrightarrow> p < next_proxy st \<and> 0 < px_refs y
          \<and> px_refs y = hp p + (if px_client y = None then 0 else 1)
          \<and> (\<forall>c. px_client y = Some c \<longrightarrow> clients st c \<noteq> None))"

text \<open>The proxies whose properties have been asked for.\<close>

definition getting :: "client_state \<Rightarrow> nat set" where
  "getting st = {p. GetAllReply p \<in> snd ` set (awaited st)}"

definition calls_ok :: "nat set \<Rightarrow> client_state \<Rightarrow> bool" where
  "calls_ok D st \<longleftrightarrow> distinct (map fst (awaited st)) \<and> (\<forall>(i, r)\<in>set (awaited st). i < next_call st)
     \<and> (\<forall>p\<in>getting st. p < next_proxy st)
     \<and> (\<forall>i c. (i, ObjectsReply c) \<in> set (awaited st)
          \<longleftrightarrow> c \<notin> D \<and> (\<exists>x. clients st c = Some x \<and> gc_get_objects_call x = Some i))"

definition filters_ok :: "nat set \<Rightarrow> client_state \<Rightarrow> bool" where
  "filters_ok D st \<longleftrightarrow> distinct (client_filters st)
     \<and> set (client_filters st) = {(gc_conn x, c) |c x. clients st c = Some x \<and> c \<notin> D}"

text \<open>Exactly the watches of the clients and of the proxies that have a client are registered.\<close>

definition client_watches :: "nat \<Rightarrow> gclient \<Rightarrow> filter_callback set" where
  "client_watches c x =
     {callback_for (Some service_connect_fn) (Some service_disconnect_fn) None None c (gc_watch x),
      callback_for None None (Some interfaces_added_fn) None c (gc_added_watch x),
      callback_for None None (Some interfaces_removed_fn) None c (gc_removed_watch x)}"

definition proxy_watch :: "nat \<Rightarrow> gproxy \<Rightarrow> filter_callback" where
  "proxy_watch p y = callback_for None None (Some properties_changed_fn) None p (px_watch y)"

definition owned :: "client_state \<Rightarrow> filter_callback set" where
  "owned st = {cb. \<exists>c x. clients st c = Some x \<and> cb \<in> client_watches c x}
     \<union> {cb. \<exists>p y. bare st p = Some y \<and> px_client y \<noteq> None \<and> cb = proxy_watch p y}"

definition watches_ok :: "client_env \<Rightarrow> client_state \<Rightarrow> bool" where
  "watches_ok E st \<longleftrightarrow> registry_ok (registry st) \<and> adding_fine (watching E) \<and> removing_fine (watching E)
     \<and> set_mset (watches (registry st)) = owned st"

definition core_ok :: "client_env \<Rightarrow> (nat \<Rightarrow> nat) \<Rightarrow> (nat \<Rightarrow> nat) \<Rightarrow> nat set \<Rightarrow> client_state \<Rightarrow> bool" where
  "core_ok E hc hp D st \<longleftrightarrow>
     clients_ok hc D st \<and> proxies_ok hp st \<and> calls_ok D st \<and> filters_ok D st \<and> watches_ok E st"

text \<open>The lists hold the proxies of their client, but for those whose first reply is awaited.\<close>

definition lists_ok :: "client_state \<Rightarrow> bool" where
  "lists_ok st \<longleftrightarrow> (\<forall>c x. clients st c = Some x \<longrightarrow> distinct (gc_proxy_list x)
     \<and> set (gc_proxy_list x) \<subseteq> attached st c \<and> attached st c \<subseteq> set (gc_proxy_list x) \<union> getting st)"

definition client_ok :: "client_env \<Rightarrow> (nat \<Rightarrow> nat) \<Rightarrow> (nat \<Rightarrow> nat) \<Rightarrow> client_state \<Rightarrow> bool" where
  "client_ok E hc hp st \<longleftrightarrow> core_ok E hc hp {} st \<and> lists_ok st"

lemma asks_for_cong: "attached st' c = attached st c \<Longrightarrow> asks_for st' c r = asks_for st c r"
  by (cases r) simp_all

lemma getalls_cong:
  "attached st' c = attached st c \<Longrightarrow> awaited st' = awaited st \<Longrightarrow> getalls c st' = getalls c st"
  using asks_for_cong[of st' c st] by (simp add: getalls_def)

lemma bare_attached: "bare st' = bare st \<Longrightarrow> attached st' c = attached st c"
  by (simp add: attached_def)

text \<open>A state of the same shape.\<close>

lemma shape_core:
  assumes s: "same_shape st st'"
  shows "core_ok E hc hp D st' = core_ok E hc hp D st" and "lists_ok st' = lists_ok st"
    and "attached st' = attached st" and "getting st' = getting st" and "getalls c st' = getalls c st"
proof -
  from s have f: "clients st' = clients st" "bare st' = bare st" "registry st' = registry st" "awaited st' = awaited st"
    "next_client st' = next_client st" "next_proxy st' = next_proxy st" "next_call st' = next_call st"
    "client_filters st' = client_filters st" by (simp_all add: same_shape_def)
  show a: "attached st' = attached st" by (simp add: attached_def f fun_eq_iff)
  have g: "getalls c st' = getalls c st" for c by (rule getalls_cong) (simp_all add: a f)
  show "getting st' = getting st" by (simp add: getting_def f)
  show "getalls c st' = getalls c st" by (rule g)
  have "owned st' = owned st" by (simp add: owned_def f)
  then show "core_ok E hc hp D st' = core_ok E hc hp D st"
    by (simp add: core_ok_def clients_ok_def proxies_ok_def calls_ok_def filters_ok_def watches_ok_def getting_def f g)
  show "lists_ok st' = lists_ok st" by (simp add: lists_ok_def f a getting_def)
qed

section \<open>Clients\<close>

lemma set_client_simps [simp]:
  "proxies (set_client c x st) = proxies st" "bare (set_client c x st) = bare st" "registry (set_client c x st) = registry st"
  "awaited (set_client c x st) = awaited st" "next_call (set_client c x st) = next_call st"
  "next_client (set_client c x st) = next_client st" "next_proxy (set_client c x st) = next_proxy st"
  "client_filters (set_client c x st) = client_filters st" "clients (set_client c x st) = (clients st)(c \<mapsto> x)"
  "attached (set_client c x st) = attached st" "getting (set_client c x st) = getting st"
  "program (set_client c x st) = program st" "attempts (set_client c x st) = attempts st"
  by (simp_all add: set_client_def bare_def fun_eq_iff attached_def getting_def)

lemma proxies_ok_cong:
  assumes "bare st' = bare st" and "next_proxy st' = next_proxy st" and "\<forall>c. (clients st' c = None) = (clients st c = None)"
  shows "proxies_ok hp st' = proxies_ok hp st"
  unfolding proxies_ok_def by (simp only: assms(1,2) assms(3)[rule_format])

text \<open>A change of a client that keeps its calls, its watches and its connection.\<close>

lemma update_client:
  assumes ok: "core_ok E hc hp D st" and x: "clients st c = Some x"
    and same: "gc_conn x' = gc_conn x" "gc_watch x' = gc_watch x" "gc_added_watch x' = gc_added_watch x"
      "gc_removed_watch x' = gc_removed_watch x" "gc_pending_call x' = gc_pending_call x"
      "gc_get_objects_call x' = gc_get_objects_call x"
    and refs: "if c \<in> D then hc' c = 0 else 0 < gc_refs x' \<and> hc' c + getalls c st \<le> gc_refs x'"
    and hc: "\<forall>d. d \<noteq> c \<longrightarrow> hc' d = hc d"
  shows "core_ok E hc' hp D (set_client c x' st)"
proof -
  have g: "getalls d (set_client c x' st) = getalls d st" for d by (rule getalls_cong) simp_all
  have w: "client_watches c x' = client_watches c x" by (simp add: client_watches_def same)
  have "(\<exists>d y. ((clients st)(c \<mapsto> x')) d = Some y \<and> cb \<in> client_watches d y)
      \<longleftrightarrow> (\<exists>d y. clients st d = Some y \<and> cb \<in> client_watches d y)" for cb
    using x w by (metis fun_upd_apply option.inject)
  then have "owned (set_client c x' st) = owned st" by (simp add: owned_def)
  moreover have "clients_ok hc' D (set_client c x' st)"
    using ok x refs hc unfolding core_ok_def clients_ok_def by (auto simp: g same)
  moreover have "proxies_ok hp (set_client c x' st)"
    using ok x proxies_ok_cong[of "set_client c x' st" st hp] unfolding core_ok_def by simp
  moreover have "calls_ok D (set_client c x' st)"
    using ok x unfolding core_ok_def calls_ok_def by (simp add: same)
  moreover have "filters_ok D (set_client c x' st)"
  proof -
    have "{(gc_conn y, d) |d y. ((clients st)(c \<mapsto> x')) d = Some y \<and> d \<notin> D}
        = {(gc_conn y, d) |d y. clients st d = Some y \<and> d \<notin> D}"
      using x same(1) by (auto split: if_splits) (metis option.inject)+
    then show ?thesis using ok by (simp add: core_ok_def filters_ok_def)
  qed
  ultimately show ?thesis using ok by (simp add: core_ok_def watches_ok_def)
qed

lemma core_client:
  assumes "core_ok E hc hp {} st" and "clients st c = Some x"
  shows "0 < gc_refs x" and "hc c + getalls c st \<le> gc_refs x" and "gc_pending_call x = None"
  using assms unfolding core_ok_def clients_ok_def by auto

lemma core_proxy:
  assumes "core_ok E hc hp D st" and "bare st p = Some y"
  shows "p < next_proxy st" and "0 < px_refs y" and "px_refs y = hp p + (if px_client y = None then 0 else 1)"
    and "px_client y = Some c \<Longrightarrow> clients st c \<noteq> None"
  using assms unfolding core_ok_def proxies_ok_def by blast+

lemma held_live: "core_ok E hc hp D st \<Longrightarrow> 0 < hc c \<Longrightarrow> clients st c \<noteq> None"
  unfolding core_ok_def clients_ok_def by (metis less_irrefl)

lemma held_proxy_live: "core_ok E hc hp D st \<Longrightarrow> 0 < hp p \<Longrightarrow> proxies st p \<noteq> None"
  unfolding core_ok_def proxies_ok_def bare_def by (metis less_irrefl option.simps(8))

definition proxy_watches :: "(nat \<Rightarrow> gproxy option) \<Rightarrow> filter_callback set" where
  "proxy_watches B = {cb. \<exists>p y. B p = Some y \<and> px_client y \<noteq> None \<and> cb = proxy_watch p y}"

lemma owned_eq: "owned st = {cb. \<exists>c x. clients st c = Some x \<and> cb \<in> client_watches c x} \<union> proxy_watches (bare st)"
  by (simp add: owned_def proxy_watches_def)

lemma proxy_watches_new:
  assumes "B p = None" and "px_client y \<noteq> None"
  shows "proxy_watches (B(p \<mapsto> y)) = insert (proxy_watch p y) (proxy_watches B)"
proof (intro set_eqI iffI)
  fix cb assume "cb \<in> proxy_watches (B(p \<mapsto> y))"
  then obtain q z where "(B(p \<mapsto> y)) q = Some z" "px_client z \<noteq> None" "cb = proxy_watch q z" by (auto simp: proxy_watches_def)
  then show "cb \<in> insert (proxy_watch p y) (proxy_watches B)" by (cases "q = p") (auto simp: proxy_watches_def)
next
  fix cb assume "cb \<in> insert (proxy_watch p y) (proxy_watches B)"
  then consider "cb = proxy_watch p y" | q z where "B q = Some z" "px_client z \<noteq> None" "cb = proxy_watch q z"
    by (auto simp: proxy_watches_def)
  then show "cb \<in> proxy_watches (B(p \<mapsto> y))"
  proof cases
    case 1
    with assms show ?thesis unfolding proxy_watches_def by (intro CollectI exI[of _ p] exI[of _ y]) simp
  next
    case (2 q z)
    with assms show ?thesis unfolding proxy_watches_def by (intro CollectI exI[of _ q] exI[of _ z]) auto
  qed
qed

text \<open>A function that works on a client holds a reference meanwhile, like the program.\<close>

lemma client_ref_ok:
  assumes ok: "core_ok E hc hp {} st" and x: "clients st c = Some x"
  obtains x' where "g_dbus_client_ref c st = Some (set_client c x' st)" "x' = x\<lparr>gc_refs := gc_refs x + 1\<rparr>"
    "core_ok E (hc(c := hc c + 1)) hp {} (set_client c x' st)"
proof -
  let ?x' = "x\<lparr>gc_refs := gc_refs x + 1\<rparr>"
  have "core_ok E (hc(c := hc c + 1)) hp {} (set_client c ?x' st)"
    by (rule update_client[OF ok x]) (use core_client[OF ok x] in simp_all)
  with x that show ?thesis by (simp add: g_dbus_client_ref_def)
qed

lemma lists_same_client:
  assumes "lists_ok st" and "clients st c = Some x" and "gc_proxy_list x' = gc_proxy_list x"
  shows "lists_ok (set_client c x' st)"
  using assms unfolding lists_ok_def by auto

section \<open>Pending calls\<close>

lemma await_simps [simp]:
  "clients (await r st) = clients st" "proxies (await r st) = proxies st" "bare (await r st) = bare st"
  "registry (await r st) = registry st" "next_client (await r st) = next_client st" "next_proxy (await r st) = next_proxy st"
  "client_filters (await r st) = client_filters st" "attached (await r st) = attached st"
  "awaited (await r st) = awaited st @ [(next_call st, r)]" "next_call (await r st) = Suc (next_call st)"
  "program (await r st) = program st" "attempts (await r st) = attempts st"
  by (simp_all add: await_def bare_def fun_eq_iff attached_def)

lemma getting_await: "getting st \<subseteq> getting (await r st)"
  by (auto simp: getting_def)

lemma getalls_await: "getalls c (await r st) = getalls c st + (if asks_for st c r then 1 else 0)"
proof -
  have "asks_for (await r st) c = asks_for st c" by (rule ext) (rule asks_for_cong, simp)
  then show ?thesis by (simp add: getalls_def)
qed

lemma core_parts:
  "core_ok E hc hp D st \<Longrightarrow> clients_ok hc D st" "core_ok E hc hp D st \<Longrightarrow> proxies_ok hp st"
  "core_ok E hc hp D st \<Longrightarrow> calls_ok D st" "core_ok E hc hp D st \<Longrightarrow> filters_ok D st"
  "core_ok E hc hp D st \<Longrightarrow> watches_ok E st"
  by (simp_all add: core_ok_def)

lemma owned_cong: "clients st' = clients st \<Longrightarrow> bare st' = bare st \<Longrightarrow> owned st' = owned st"
  by (simp add: owned_def)

lemma await_ok:
  assumes ok: "core_ok E hc hp D st" and r: "\<forall>c. r \<noteq> ObjectsReply c" "\<forall>p. r = GetAllReply p \<longrightarrow> p < next_proxy st"
    and room: "\<forall>c x. clients st c = Some x \<longrightarrow> c \<notin> D \<longrightarrow> asks_for st c r \<longrightarrow> hc c + getalls c st < gc_refs x"
  shows "core_ok E hc hp D (await r st)"
proof -
  have "clients_ok hc D (await r st)"
    using core_parts(1)[OF ok] room unfolding clients_ok_def by (auto simp: getalls_await Suc_le_eq)
  moreover have "proxies_ok hp (await r st)"
    using core_parts(2)[OF ok] proxies_ok_cong[of "await r st" st hp] by simp
  moreover have "calls_ok D (await r st)"
    using core_parts(3)[OF ok] r unfolding calls_ok_def by (auto simp: less_Suc_eq getting_def)
  moreover have "filters_ok D (await r st)" using core_parts(4)[OF ok] by (simp add: filters_ok_def)
  moreover have "watches_ok E (await r st)" using core_parts(5)[OF ok] by (simp add: watches_ok_def owned_def)
  ultimately show ?thesis by (simp add: core_ok_def)
qed

lemma lists_await: "lists_ok st \<Longrightarrow> lists_ok (await r st)"
  using getting_await[of st r] unfolding lists_ok_def by fastforce

text \<open>A message that is sent, or not.\<close>

lemma send_call_shape:
  "core_ok E hc hp D (snd (send_call E' msg st)) = core_ok E hc hp D st"
  "lists_ok (snd (send_call E' msg st)) = lists_ok st" "clients (snd (send_call E' msg st)) = clients st"
  "proxies (snd (send_call E' msg st)) = proxies st" "bare (snd (send_call E' msg st)) = bare st"
  "attached (snd (send_call E' msg st)) = attached st" "getting (snd (send_call E' msg st)) = getting st"
  "getalls c (snd (send_call E' msg st)) = getalls c st" "registry (snd (send_call E' msg st)) = registry st"
  "awaited (snd (send_call E' msg st)) = awaited st" "next_call (snd (send_call E' msg st)) = next_call st"
  "client_filters (snd (send_call E' msg st)) = client_filters st"
  "next_client (snd (send_call E' msg st)) = next_client st" "next_proxy (snd (send_call E' msg st)) = next_proxy st"
proof -
  have f: "clients (snd (send_call E' msg st)) = clients st" "bare (snd (send_call E' msg st)) = bare st"
    "registry (snd (send_call E' msg st)) = registry st" "awaited (snd (send_call E' msg st)) = awaited st"
    "next_client (snd (send_call E' msg st)) = next_client st" "next_proxy (snd (send_call E' msg st)) = next_proxy st"
    "next_call (snd (send_call E' msg st)) = next_call st" "client_filters (snd (send_call E' msg st)) = client_filters st"
    "proxies (snd (send_call E' msg st)) = proxies st"
    by (simp_all add: send_call_def Let_def bare_def fun_eq_iff)
  have a: "attached (snd (send_call E' msg st)) = attached st" by (simp add: attached_def f fun_eq_iff)
  have g: "getalls c (snd (send_call E' msg st)) = getalls c st" for c by (rule getalls_cong) (simp_all add: a f)
  have "owned (snd (send_call E' msg st)) = owned st" by (simp add: owned_def f)
  then show "core_ok E hc hp D (snd (send_call E' msg st)) = core_ok E hc hp D st"
    by (simp add: core_ok_def clients_ok_def proxies_ok_def calls_ok_def filters_ok_def watches_ok_def getting_def f g)
  show "getting (snd (send_call E' msg st)) = getting st" by (simp add: getting_def f)
  then show "lists_ok (snd (send_call E' msg st)) = lists_ok st" by (simp add: lists_ok_def f a)
  show "getalls c (snd (send_call E' msg st)) = getalls c st" by (rule g)
qed (simp_all add: send_call_def Let_def bare_def fun_eq_iff attached_def)

lemma modify_matches_ok:
  assumes "core_ok E hc hp D st"
  shows "core_ok E hc hp D (modify_matches E' member rules st)
    \<and> clients (modify_matches E' member rules st) = clients st \<and> bare (modify_matches E' member rules st) = bare st
    \<and> registry (modify_matches E' member rules st) = registry st \<and> getting (modify_matches E' member rules st) = getting st
    \<and> client_filters (modify_matches E' member rules st) = client_filters st
    \<and> next_client (modify_matches E' member rules st) = next_client st
    \<and> next_proxy (modify_matches E' member rules st) = next_proxy st
    \<and> getalls c (modify_matches E' member rules st) = getalls c st"
  using assms
proof (induction rules arbitrary: st)
  case (Cons rule rules)
  let ?st = "snd (modify_match E' member rule st)"
  have "core_ok E hc hp D (await ModifyMatchReply (snd (send_call E' msg st)))" for msg
    by (rule await_ok) (simp_all add: send_call_shape Cons.prems)
  then have "core_ok E hc hp D ?st \<and> clients ?st = clients st \<and> bare ?st = bare st \<and> registry ?st = registry st
      \<and> getting ?st = getting st \<and> client_filters ?st = client_filters st
      \<and> next_client ?st = next_client st \<and> next_proxy ?st = next_proxy st \<and> getalls c ?st = getalls c st"
    using Cons.prems getalls_await[of c ModifyMatchReply "snd (send_call E' (bus_msg member rule) st)"]
    by (simp add: modify_match_def split_beta Let_def send_call_shape getting_def)
  with Cons.IH[of ?st] show ?case by (simp add: modify_matches_def)
qed (simp add: modify_matches_def)

section \<open>Proxies\<close>

lemma watch_unique:
  assumes ok: "registry_ok w" and a: "a \<in># watches w" and b: "b \<in># watches w" and same: "cb_id a = cb_id b"
  shows "a = b"
proof -
  let ?M = "filter_mset (\<lambda>cb. cb_id cb = cb_id a) (callbacks_of w)"
  from a b same obtain a' b' where ab: "a = a'\<lparr>cb_data := None\<rparr>" "b = b'\<lparr>cb_data := None\<rparr>" "a' \<in># ?M" "b' \<in># ?M"
    by (auto simp: watches_def)
  from ok have "size ?M \<le> 1" unfolding registry_ok_def callbacks_ok_def by blast
  moreover obtain N where "?M = add_mset a' N" using multi_member_split[OF ab(3)] by blast
  ultimately show ?thesis using ab by simp
qed

definition used :: "client_state \<Rightarrow> nat" where
  "used st = unat (listener_id (registry st))"

definition proxy_fits :: "string \<Rightarrow> string \<Rightarrow> string \<Rightarrow> bool" where
  "proxy_fits service path interface \<longleftrightarrow>
     request_fits (PropertiesRequest 0 (Some service) (Some path) (Some interface) properties_changed_fn 0 None)"

lemma try_new_shape: "same_shape st (snd (try_new E st))"
  by (simp add: try_new_def)

definition new_proxy :: "nat \<Rightarrow> string \<Rightarrow> string \<Rightarrow> 32 word \<Rightarrow> gproxy" where
  "new_proxy c path interface w =
     \<lparr>px_refs = 1, px_client = Some c, px_path = path, px_interface = interface, px_props = [], px_watch = w,
      px_prop_func = None, px_prop_data = 0, px_removed_func = None, px_removed_data = 0\<rparr>"

lemma proxy_new_ok:
  assumes ok: "core_ok E hc hp {} st" and cl: "clients st c = Some cl"
    and fit: "proxy_fits (gc_service cl) path interface" and room: "used st + 2 < 2 ^ 32"
  obtains (failed) st' where "proxy_new E c path interface st = Some (None, st')" "same_shape st st'"
      "proxies st' = proxies st" "program st' = program st" "try_fails E (attempts st)"
  | (made) w st' where "proxy_new E c path interface st = Some (Some (next_proxy st), st')"
      "core_ok E hc hp {} st'" "clients st' = clients st"
      "proxies st' = (proxies st)(next_proxy st \<mapsto> new_proxy c path interface w)"
      "bare st' = (bare st)(next_proxy st \<mapsto> new_proxy c path interface w)" "awaited st' = awaited st"
      "program st' = program st" "used st \<le> used st'" "used st' \<le> used st + 2"
proof (cases "try_fails E (attempts st)")
  case True
  then have "proxy_new E c path interface st = Some (None, st\<lparr>attempts := Suc (attempts st)\<rparr>)"
    by (simp add: proxy_new_def try_new_def)
  then show ?thesis by (rule failed) (simp_all add: True)
next
  case False
  define p where "p = next_proxy st"
  define r where "r = PropertiesRequest (gc_conn cl) (Some (gc_service cl)) (Some path) (Some interface)
    properties_changed_fn p None"
  have fits: "request_fits r" using fit by (simp add: r_def proxy_fits_def)
  have reg: "registry_ok (registry st) \<and> adding_fine (watching E) \<and> removing_fine (watching E)"
    and own: "set_mset (watches (registry st)) = owned st"
    using core_parts(5)[OF ok] by (simp_all add: watches_ok_def)
  from wr.request_served[OF reg fits] room obtain w reg' where
    w: "request_watch (watching E) r (registry st) = Some (w, reg')" and reg': "registry_ok reg'"
    and ws: "watches reg' = add_mset (watch_of r w) (watches (registry st))"
    and lid: "used st \<le> unat (listener_id reg')" "unat (listener_id reg') \<le> used st + 2"
    unfolding used_def by fastforce
  define y where "y = new_proxy c path interface w"
  define st' where "st' = st\<lparr>attempts := Suc (attempts st), next_proxy := Suc p, registry := reg',
    proxies := (proxies st)(p \<mapsto> y)\<rparr>"
  have run: "proxy_new E c path interface st = Some (Some p, st')"
    using False cl w
    by (simp add: proxy_new_def try_new_def r_def p_def st'_def y_def new_proxy_def g_dbus_proxy_ref_def set_proxy_def Let_def)
  have f: "clients st' = clients st" "awaited st' = awaited st" "next_client st' = next_client st"
    "next_call st' = next_call st" "client_filters st' = client_filters st" "registry st' = reg'"
    "proxies st' = (proxies st)(p \<mapsto> y)" "next_proxy st' = Suc p" "program st' = program st" by (simp_all add: st'_def)
  have y: "px_client y = Some c" "px_refs y = 1" "y\<lparr>px_props := []\<rparr> = y" "px_watch y = w"
    by (simp_all add: y_def new_proxy_def)
  have b: "bare st' = (bare st)(p \<mapsto> y)" by (simp add: bare_def f y fun_eq_iff)
  have po: "\<forall>p. bare st p = None \<longrightarrow> hp p = 0" "\<forall>q z. bare st q = Some z \<longrightarrow> q < p" "\<forall>q z. bare st q = Some z \<longrightarrow> 0 < px_refs z
      \<and> px_refs z = hp q + (if px_client z = None then 0 else 1) \<and> (\<forall>c. px_client z = Some c \<longrightarrow> clients st c \<noteq> None)"
    using core_parts(2)[OF ok] unfolding proxies_ok_def p_def by blast+
  then have free: "bare st p = None" by (metis less_irrefl option.exhaust)
  have "bare st' q = Some z \<longrightarrow> q < Suc p \<and> 0 < px_refs z \<and> px_refs z = hp q + (if px_client z = None then 0 else 1)
      \<and> (\<forall>c. px_client z = Some c \<longrightarrow> clients st c \<noteq> None)" for q z
  proof (cases "q = p")
    case True
    have "hp p = 0" using po(1) free by blast
    moreover have "bare st' q = Some y" by (simp add: True b)
    ultimately show ?thesis using True y cl by auto
  next
    case False
    with po show ?thesis unfolding b by (metis fun_upd_other less_SucI)
  qed
  moreover have "bare st' q = None \<longrightarrow> hp q = 0" for q using po(1) by (simp add: b)
  ultimately have "proxies_ok hp st'" unfolding proxies_ok_def f by blast
  moreover have "clients_ok hc {} st'"
  proof -
    have "asks_for st' d a = (asks_for st d a \<or> d = c \<and> a = GetAllReply p)" for d a
      using free by (cases a) (auto simp: attached_def b y)
    moreover have "a \<noteq> GetAllReply p" if "(i, a) \<in> set (awaited st)" for i a
      using core_parts(3)[OF ok] that unfolding calls_ok_def getting_def p_def by force
    ultimately have "filter (\<lambda>(i, a). asks_for st' d a) (awaited st) = filter (\<lambda>(i, a). asks_for st d a) (awaited st)" for d
      by (intro filter_cong) auto
    then have "getalls d st' = getalls d st" for d by (simp add: getalls_def f)
    then show ?thesis using core_parts(1)[OF ok] by (simp add: clients_ok_def f)
  qed
  moreover have "calls_ok {} st'" "filters_ok {} st'"
    using core_parts(3,4)[OF ok] by (auto simp: calls_ok_def filters_ok_def getting_def f p_def less_SucI)
  moreover have "watches_ok E st'"
  proof -
    have "owned st' = insert (proxy_watch p y) (owned st)"
      using proxy_watches_new[of "bare st" p y] free y(1) by (simp add: owned_eq f b)
    moreover have "watch_of r w = proxy_watch p y" by (simp add: r_def proxy_watch_def y)
    ultimately show ?thesis using reg reg' own ws by (simp add: watches_ok_def f)
  qed
  ultimately have "core_ok E hc hp {} st'" by (simp add: core_ok_def)
  with run f b lid show ?thesis unfolding p_def y_def by (intro made[of st' w]) (simp_all add: used_def)
qed

lemma proxy_watches_drop:
  assumes "B p = Some y" and "px_client y \<noteq> None" and "z = None \<or> (\<exists>z'. z = Some z' \<and> px_client z' = None)"
    and other: "\<And>q y'. B q = Some y' \<Longrightarrow> px_client y' \<noteq> None \<Longrightarrow> px_watch y' = px_watch y \<Longrightarrow> q = p"
  shows "proxy_watches (B(p := z)) = {cb \<in> proxy_watches B. cb_id cb \<noteq> px_watch y}"
proof (intro set_eqI iffI)
  fix cb assume "cb \<in> proxy_watches (B(p := z))"
  then obtain q y' where q: "(B(p := z)) q = Some y'" "px_client y' \<noteq> None" "cb = proxy_watch q y'"
    by (auto simp: proxy_watches_def)
  with assms(3) have "q \<noteq> p" by auto
  with q have "B q = Some y'" by simp
  moreover from this q other \<open>q \<noteq> p\<close> have "px_watch y' \<noteq> px_watch y" by blast
  ultimately show "cb \<in> {cb \<in> proxy_watches B. cb_id cb \<noteq> px_watch y}"
    using q by (auto simp: proxy_watches_def proxy_watch_def)
next
  fix cb assume "cb \<in> {cb \<in> proxy_watches B. cb_id cb \<noteq> px_watch y}"
  then obtain q y' where q: "B q = Some y'" "px_client y' \<noteq> None" "cb = proxy_watch q y'" "px_watch y' \<noteq> px_watch y"
    by (auto simp: proxy_watches_def proxy_watch_def)
  with assms(1) have "(B(p := z)) q = Some y'" by auto
  with q show "cb \<in> proxy_watches (B(p := z))" unfolding proxy_watches_def by blast
qed

lemma owned_unique:
  assumes "watches_ok E st" and "a \<in> owned st" and "b \<in> owned st" and "cb_id a = cb_id b"
  shows "a = b"
  using assms watch_unique[of "registry st" a b] by (simp add: watches_ok_def)

lemma owned_without:
  assumes ok: "watches_ok E st" and y: "bare st p = Some y" and c: "px_client y \<noteq> None"
    and z: "z = None \<or> (\<exists>z'. z = Some z' \<and> px_client z' = None)"
    and st': "clients st' = clients st" "bare st' = (bare st)(p := z)"
  shows "owned st' = {cb \<in> owned st. cb_id cb \<noteq> px_watch y}"
proof -
  have mine: "proxy_watch p y \<in> owned st" using y c unfolding owned_eq proxy_watches_def by blast
  have id: "cb_id (proxy_watch p y) = px_watch y" by (simp add: proxy_watch_def)
  note unique = owned_unique[OF ok _ mine]
  have "cb_id cb \<noteq> px_watch y" if "clients st d = Some v" "cb \<in> client_watches d v" for d v cb
  proof
    assume "cb_id cb = px_watch y"
    moreover have "cb \<in> owned st" using that by (auto simp: owned_eq)
    ultimately have "cb = proxy_watch p y" using unique id by simp
    with that(2) show False by (auto simp: client_watches_def proxy_watch_def)
  qed
  then have cw: "{cb. \<exists>d v. clients st d = Some v \<and> cb \<in> client_watches d v}
      = {cb \<in> {cb. \<exists>d v. clients st d = Some v \<and> cb \<in> client_watches d v}. cb_id cb \<noteq> px_watch y}" by blast
  have other: "q = p" if "bare st q = Some y'" "px_client y' \<noteq> None" "px_watch y' = px_watch y" for q y'
  proof -
    have "proxy_watch q y' \<in> owned st" using that unfolding owned_eq proxy_watches_def by blast
    moreover have "cb_id (proxy_watch q y') = px_watch y" using that(3) by (simp add: proxy_watch_def)
    ultimately have "proxy_watch q y' = proxy_watch p y" using unique id by simp
    then show ?thesis by (simp add: proxy_watch_def)
  qed
  have "proxy_watches (bare st') = {cb \<in> proxy_watches (bare st). cb_id cb \<noteq> px_watch y}"
    unfolding st' by (rule proxy_watches_drop[of "bare st" p y z, OF y c z other])
  then show ?thesis unfolding owned_eq st'(1) by (subst cw) auto
qed

lemma proxies_ok_without:
  assumes ok: "proxies_ok hp st" and y: "bare st p = Some y"
    and z: "z = None \<and> hp p = 0 \<or> (\<exists>z'. z = Some z' \<and> px_client z' = None \<and> px_refs z' = hp p \<and> 0 < hp p)"
    and st': "clients st' = clients st" "bare st' = (bare st)(p := z)" "next_proxy st' = next_proxy st"
  shows "proxies_ok hp st'"
proof -
  have "bare st' q = Some y' \<longrightarrow> q < next_proxy st' \<and> 0 < px_refs y'
      \<and> px_refs y' = hp q + (if px_client y' = None then 0 else 1) \<and> (\<forall>c. px_client y' = Some c \<longrightarrow> clients st' c \<noteq> None)" for q y'
  proof (cases "q = p")
    case True
    have "p < next_proxy st" using ok y unfolding proxies_ok_def by blast
    with True z show ?thesis by (auto simp: st')
  next
    case False
    then have "((bare st)(p := z)) q = bare st q" by simp
    with ok show ?thesis unfolding proxies_ok_def st' by metis
  qed
  moreover have "bare st' q = None \<longrightarrow> hp q = 0" for q
    using ok z unfolding proxies_ok_def st' by auto
  ultimately show ?thesis unfolding proxies_ok_def by blast
qed

text \<open>\<open>proxy_free\<close> on a proxy that has a client.\<close>

definition freed_proxy :: "nat \<Rightarrow> gproxy \<Rightarrow> gproxy option" where
  "freed_proxy held y = (if held = 0 then None else Some (y\<lparr>px_props := [], px_client := None, px_refs := held\<rparr>))"

lemma proxy_free_ok:
  assumes ok: "core_ok E hc hp D st" and x: "proxies st p = Some x" and c: "px_client x = Some c"
  obtains st' cl where "proxy_free E p st = Some st'" "core_ok E hc hp D st'" "clients st' = clients st"
    "proxies st' = (proxies st)(p := freed_proxy (hp p) x)" "attached st' = (\<lambda>d. attached st d - {p})"
    "awaited st' = awaited st" "getalls d st' \<le> getalls d st" "used st' = used st" "clients st c = Some cl"
    "next_client st' = next_client st" "client_filters st' = client_filters st"
    "program st' = program st
      @ (case gc_proxy_removed cl of None \<Rightarrow> [] | Some f \<Rightarrow> [ProxyRemoved f p (gc_user_data cl)])
      @ (case px_removed_func x of None \<Rightarrow> [] | Some f \<Rightarrow> [RemovedFunc f p (px_removed_data x)])"
proof -
  have y: "bare st p = Some (x\<lparr>px_props := []\<rparr>)" by (simp add: bare_def x)
  have po: "px_refs x = hp p + 1" "clients st c \<noteq> None"
    using core_proxy(3,4)[OF ok y] c by simp_all
  then obtain cl where cl: "clients st c = Some cl" by blast
  let ?t = "tell (gc_proxy_removed cl) (\<lambda>f. ProxyRemoved f p (gc_user_data cl)) st"
  have reg: "registry_ok (registry st) \<and> adding_fine (watching E) \<and> removing_fine (watching E)"
    and own: "set_mset (watches (registry st)) = owned st"
    using core_parts(5)[OF ok] by (simp_all add: watches_ok_def)
  from wr.removed[OF reg, of "px_watch x"] obtain b reg' where
    rem: "g_dbus_remove_watch (watching E) (px_watch x) (registry st) = Some (b, reg')" and reg': "registry_ok reg'"
    and ws: "watches reg' = filter_mset (\<lambda>cb. cb_id cb \<noteq> px_watch x) (watches (registry st))"
    and lid: "unat (listener_id reg') = unat (listener_id (registry st))" by blast
  define st1 where "st1 = set_proxy p (x\<lparr>px_props := [], px_client := None\<rparr>) (?t\<lparr>registry := reg'\<rparr>)"
  have det: "detach_proxy E p st = Some st1"
    using x c cl rem by (simp add: detach_proxy_def unwatch_def st1_def)
  define st2 where "st2 = tell (px_removed_func x) (\<lambda>f. RemovedFunc f p (px_removed_data x)) st1"
  define st' where "st' = st2\<lparr>proxies := (proxies st)(p := freed_proxy (hp p) x)\<rparr>"
  have px2: "proxies st2 = (proxies st)(p \<mapsto> x\<lparr>px_props := [], px_client := None\<rparr>)"
    by (simp add: st2_def st1_def set_proxy_def)
  have "g_dbus_proxy_unref p st2 = Some st'"
    using po(1) by (cases "hp p = 0") (simp_all add: g_dbus_proxy_unref_def st'_def freed_proxy_def set_proxy_def px2)
  then have run: "proxy_free E p st = Some st'" using x det by (simp add: proxy_free_def st2_def)
  have f: "clients st' = clients st" "awaited st' = awaited st" "next_client st' = next_client st" "next_proxy st' = next_proxy st"
    "next_call st' = next_call st" "client_filters st' = client_filters st" "registry st' = reg'"
    "proxies st' = (proxies st)(p := freed_proxy (hp p) x)"
    by (simp_all add: st'_def st2_def st1_def set_proxy_def)
  define z where "z = map_option (\<lambda>x. x\<lparr>px_props := []\<rparr>) (freed_proxy (hp p) x)"
  have bz: "bare st' = (bare st)(p := z)" by (simp add: bare_def f z_def fun_eq_iff)
  have z: "z = None \<and> hp p = 0 \<or> (\<exists>z'. z = Some z' \<and> px_client z' = None \<and> px_refs z' = hp p \<and> 0 < hp p)"
    by (auto simp: z_def freed_proxy_def)
  have att: "attached st' = (\<lambda>d. attached st d - {p})" using z by (auto simp: attached_def bz fun_eq_iff)
  have ga: "getalls d st' \<le> getalls d st" for d
  proof -
    have "asks_for st' d r \<Longrightarrow> asks_for st d r" for r using att by (cases r) (auto simp: fun_eq_iff)
    then have "length (filter (\<lambda>(i, r). asks_for st' d r) A) \<le> length (filter (\<lambda>(i, r). asks_for st d r) A)" for A
      by (induction A) auto
    then show ?thesis by (simp add: getalls_def f)
  qed
  have "clients_ok hc D st'"
    using core_parts(1)[OF ok] ga unfolding clients_ok_def f by (meson add_left_mono order_trans)
  moreover have "proxies_ok hp st'" by (rule proxies_ok_without[OF core_parts(2)[OF ok] y z f(1) bz f(4)])
  moreover have "calls_ok D st'" "filters_ok D st'"
    using core_parts(3,4)[OF ok] by (simp_all add: calls_ok_def filters_ok_def getting_def f)
  moreover have "watches_ok E st'"
  proof -
    have "z = None \<or> (\<exists>z'. z = Some z' \<and> px_client z' = None)" using z by blast
    from owned_without[OF core_parts(5)[OF ok] y _ this f(1) bz] c
    have "owned st' = {cb \<in> owned st. cb_id cb \<noteq> px_watch x}" by simp
    then show ?thesis using reg reg' own ws by (simp add: watches_ok_def f)
  qed
  ultimately have core: "core_ok E hc hp D st'" by (simp add: core_ok_def)
  have "program st' = program st
      @ (case gc_proxy_removed cl of None \<Rightarrow> [] | Some f \<Rightarrow> [ProxyRemoved f p (gc_user_data cl)])
      @ (case px_removed_func x of None \<Rightarrow> [] | Some f \<Rightarrow> [RemovedFunc f p (px_removed_data x)])"
    by (simp add: st'_def st2_def st1_def set_proxy_def tell_def split: option.split)
  with run core f att ga cl lid show ?thesis by (intro that[of st' cl]) (simp_all add: used_def)
qed

lemma attachedI: "proxies st p = Some x \<Longrightarrow> px_client x = Some c \<Longrightarrow> p \<in> attached st c"
  by (simp add: attached_def bare_def)

lemma attachedD: "p \<in> attached st c \<Longrightarrow> \<exists>x. proxies st p = Some x \<and> px_client x = Some c"
  by (auto simp: attached_def bare_def)

lemma attached_disjoint: "p \<in> attached st c \<Longrightarrow> p \<in> attached st d \<Longrightarrow> c = d"
  by (auto simp: attached_def)

lemma free_proxies_ok:
  assumes "core_ok E hc hp D st" and "distinct ps" and "set ps \<subseteq> attached st c"
  shows "\<exists>st'. free_proxies E ps st = Some st' \<and> core_ok E hc hp D st' \<and> clients st' = clients st
    \<and> attached st' = (\<lambda>d. attached st d - set ps) \<and> awaited st' = awaited st \<and> used st' = used st
    \<and> proxies st' = (\<lambda>p. if p \<in> set ps then Option.bind (proxies st p) (freed_proxy (hp p)) else proxies st p)
    \<and> getalls d st' \<le> getalls d st \<and> next_client st' = next_client st \<and> client_filters st' = client_filters st"
  using assms
proof (induction ps arbitrary: st)
  case Nil
  then show ?case by (intro exI[of _ st]) simp
next
  case (Cons p ps)
  then obtain x where x: "proxies st p = Some x" "px_client x = Some c" using attachedD[of p st c] by auto
  from proxy_free_ok[OF Cons.prems(1) x, of d] obtain st1 where st1: "proxy_free E p st = Some st1" "core_ok E hc hp D st1"
    "clients st1 = clients st" "proxies st1 = (proxies st)(p := freed_proxy (hp p) x)"
    "attached st1 = (\<lambda>d. attached st d - {p})" "awaited st1 = awaited st" "getalls d st1 \<le> getalls d st" "used st1 = used st"
    "next_client st1 = next_client st" "client_filters st1 = client_filters st" by (rule proxy_free_ok[OF Cons.prems(1) x, of d])
  have "set ps \<subseteq> attached st1 c" "distinct ps" using Cons.prems(2,3) st1(5) by auto
  note ih = Cons.IH[OF st1(2) this(2,1)]
  then obtain st' where st': "free_proxies E ps st1 = Some st'" "core_ok E hc hp D st'"
    "clients st' = clients st1" "attached st' = (\<lambda>d. attached st1 d - set ps)" "awaited st' = awaited st1" "used st' = used st1"
    "proxies st' = (\<lambda>p. if p \<in> set ps then Option.bind (proxies st1 p) (freed_proxy (hp p)) else proxies st1 p)"
    "getalls d st' \<le> getalls d st1" "next_client st' = next_client st1" "client_filters st' = client_filters st1"
    by (elim exE conjE) (rule that)
  have "proxies st' = (\<lambda>q. if q \<in> set (p # ps) then Option.bind (proxies st q) (freed_proxy (hp q)) else proxies st q)"
    using Cons.prems(2) x by (auto simp: st'(7) st1(4) fun_eq_iff)
  moreover have "attached st' = (\<lambda>d. attached st d - set (p # ps))" by (auto simp: st'(4) st1(5) fun_eq_iff)
  ultimately show ?case using st' st1 by (intro exI[of _ st']) simp
qed

text \<open>The name of the service disappears.\<close>

lemma service_disconnect_ok:
  assumes ok: "client_ok E hc hp st" and cl: "clients st c = Some cl"
  obtains st' where "service_disconnect E c st = Some st'" "client_ok E hc hp st'"
    "clients st' = (clients st)(c \<mapsto> cl\<lparr>gc_proxy_list := []\<rparr>)"
    "proxies st' = (\<lambda>p. if p \<in> set (gc_proxy_list cl) then Option.bind (proxies st p) (freed_proxy (hp p)) else proxies st p)"
    "used st' = used st" "awaited st' = awaited st"
proof -
  from ok have core: "core_ok E hc hp {} st" and lists: "lists_ok st" by (simp_all add: client_ok_def)
  from lists cl have l: "distinct (gc_proxy_list cl)" "set (gc_proxy_list cl) \<subseteq> attached st c"
    "attached st c \<subseteq> set (gc_proxy_list cl) \<union> getting st" unfolding lists_ok_def by blast+
  from free_proxies_ok[OF core l(1,2), of c] obtain st1 where st1: "free_proxies E (gc_proxy_list cl) st = Some st1"
    and core1: "core_ok E hc hp {} st1" and c1: "clients st1 = clients st"
    and a1: "attached st1 = (\<lambda>d. attached st d - set (gc_proxy_list cl))" and aw: "awaited st1 = awaited st" and u: "used st1 = used st"
    and p1: "proxies st1 = (\<lambda>p. if p \<in> set (gc_proxy_list cl) then Option.bind (proxies st p) (freed_proxy (hp p)) else proxies st p)"
    by blast
  let ?cl = "cl\<lparr>gc_proxy_list := []\<rparr>"
  let ?st2 = "set_client c ?cl st1"
  let ?st' = "tell (gc_disconn_func cl) (\<lambda>f. DisconnFunc f (gc_conn cl) (gc_disconn_data cl)) ?st2"
  have cl1: "clients st1 c = Some cl" using cl c1 by simp
  have "core_ok E hc hp {} ?st2"
    by (rule update_client[OF core1 cl1]) (use core_client[OF core1 cl1] in simp_all)
  moreover have "lists_ok ?st2"
    unfolding lists_ok_def
  proof (intro allI impI)
    fix d y assume d: "clients ?st2 d = Some y"
    have g: "getting ?st2 = getting st" by (simp add: getting_def aw)
    show "distinct (gc_proxy_list y) \<and> set (gc_proxy_list y) \<subseteq> attached ?st2 d
        \<and> attached ?st2 d \<subseteq> set (gc_proxy_list y) \<union> getting ?st2"
    proof (cases "d = c")
      case True
      with d l g a1 show ?thesis by auto
    next
      case False
      with d c1 have y: "clients st d = Some y" by simp
      have "attached st d \<inter> set (gc_proxy_list cl) = {}" using l(2) attached_disjoint[of _ st c d] False by blast
      then have "attached ?st2 d = attached st d" using a1 by auto
      with lists y g show ?thesis unfolding lists_ok_def by simp
    qed
  qed
  ultimately have "client_ok E hc hp ?st'"
    using shape_core(1)[OF same_shape_tell] shape_core(2)[OF same_shape_tell] by (simp add: client_ok_def)
  moreover have "service_disconnect E c st = Some ?st'"
    using cl st1 cl1 by (simp add: service_disconnect_def)
  ultimately show ?thesis using c1 p1 u aw by (intro that[of ?st']) (simp_all add: used_def)
qed

section \<open>The end of a client\<close>

lemma modify_matches_filters:
  "modify_matches E m rules (st\<lparr>client_filters := F\<rparr>) = (modify_matches E m rules st)\<lparr>client_filters := F\<rparr>"
proof (induction rules arbitrary: st)
  case (Cons rule rules)
  have "snd (modify_match E m rule (st\<lparr>client_filters := F\<rparr>)) = (snd (modify_match E m rule st))\<lparr>client_filters := F\<rparr>"
    by (rule client_state.equality) (simp_all add: modify_match_def send_call_def await_def Let_def)
  with Cons show ?case by (simp add: modify_matches_def)
qed (simp add: modify_matches_def)

lemma modify_matches_lists:
  "attached (modify_matches E m rules st) = attached st \<and> used (modify_matches E m rules st) = used st
   \<and> proxies (modify_matches E m rules st) = proxies st \<and> client_filters (modify_matches E m rules st) = client_filters st"
proof -
  have "attached (snd (modify_match E m rule st)) = attached st \<and> used (snd (modify_match E m rule st)) = used st
      \<and> proxies (snd (modify_match E m rule st)) = proxies st
      \<and> client_filters (snd (modify_match E m rule st)) = client_filters st" for rule st
    by (simp add: modify_match_def split_beta Let_def send_call_shape used_def)
  then show ?thesis by (induction rules arbitrary: st) (simp_all add: modify_matches_def)
qed

text \<open>The client without references, calls and filter.\<close>

definition dying :: "nat \<Rightarrow> gclient \<Rightarrow> client_state \<Rightarrow> client_state" where
  "dying c x st = (cancel_call (gc_get_objects_call x) (set_client c (x\<lparr>gc_refs := 0\<rparr>) st))
     \<lparr>client_filters := remove1 (gc_conn x, c) (client_filters st)\<rparr>"

lemma dying_fields:
  "clients (dying c x st) = (clients st)(c \<mapsto> x\<lparr>gc_refs := 0\<rparr>)" "bare (dying c x st) = bare st"
  "proxies (dying c x st) = proxies st" "registry (dying c x st) = registry st" "next_client (dying c x st) = next_client st"
  "next_proxy (dying c x st) = next_proxy st" "next_call (dying c x st) = next_call st"
  "awaited (dying c x st) = filter (\<lambda>(j, _). gc_get_objects_call x \<noteq> Some j) (awaited st)"
  "client_filters (dying c x st) = remove1 (gc_conn x, c) (client_filters st)" "attached (dying c x st) = attached st"
  "used (dying c x st) = used st"
proof -
  show "awaited (dying c x st) = filter (\<lambda>(j, _). gc_get_objects_call x \<noteq> Some j) (awaited st)"
    by (cases "gc_get_objects_call x") (auto simp: dying_def cancel_call_def intro!: filter_cong)
qed (simp_all add: dying_def cancel_call_def bare_def attached_def used_def set_client_def fun_eq_iff split: option.split)

lemma dying_ok:
  assumes ok: "core_ok E hc hp {} st" and x: "clients st c = Some x" and none: "hc c = 1"
  shows "core_ok E (hc(c := 0)) hp {c} (dying c x st)" and "getting (dying c x st) = getting st"
proof -
  let ?A = "awaited st" and ?j = "gc_get_objects_call x"
  have co: "distinct (map fst ?A)" "\<forall>(i, r)\<in>set ?A. i < next_call st" "\<forall>p\<in>getting st. p < next_proxy st"
    "\<And>i d. (i, ObjectsReply d) \<in> set ?A \<longleftrightarrow> (\<exists>y. clients st d = Some y \<and> gc_get_objects_call y = Some i)"
    using core_parts(3)[OF ok] by (simp_all add: calls_ok_def)
  have mem: "(i, r) \<in> set (awaited (dying c x st)) \<longleftrightarrow> (i, r) \<in> set ?A \<and> r \<noteq> ObjectsReply c" for i r
  proof
    assume "(i, r) \<in> set (awaited (dying c x st))"
    then have "(i, r) \<in> set ?A" "?j \<noteq> Some i" by (auto simp: dying_fields)
    with co(4)[of i c] x show "(i, r) \<in> set ?A \<and> r \<noteq> ObjectsReply c" by auto
  next
    assume r: "(i, r) \<in> set ?A \<and> r \<noteq> ObjectsReply c"
    have "?j \<noteq> Some i"
    proof
      assume "?j = Some i"
      with co(4)[of i c] x have "(i, ObjectsReply c) \<in> set ?A" by auto
      with r co(1) have "r = ObjectsReply c" by (metis eq_key_imp_eq_value)
      with r show False by simp
    qed
    with r show "(i, r) \<in> set (awaited (dying c x st))" by (simp add: dying_fields)
  qed
  show g: "getting (dying c x st) = getting st"
    using mem by (auto simp: getting_def image_iff)
  have ga: "getalls d (dying c x st) \<le> getalls d st" for d
  proof -
    have "asks_for (dying c x st) d = asks_for st d" by (rule ext) (rule asks_for_cong, simp add: dying_fields)
    moreover have "length (filter P (filter Q A)) \<le> length (filter P A)" for P Q and A :: "(nat \<times> reply_to) list"
      by (induction A) auto
    ultimately show ?thesis by (simp add: getalls_def dying_fields)
  qed
  have "clients_ok (hc(c := 0)) {c} (dying c x st)"
    using core_parts(1)[OF ok] x unfolding clients_ok_def
    by (auto simp: dying_fields intro: order_trans[OF add_left_mono[OF ga]])
  moreover have "proxies_ok hp (dying c x st)"
    using core_parts(2)[OF ok] x proxies_ok_cong[of "dying c x st" st hp] by (simp add: dying_fields)
  moreover have "calls_ok {c} (dying c x st)"
  proof -
    have "distinct (map fst (awaited (dying c x st)))" using co(1) by (simp add: dying_fields distinct_map_filter)
    moreover have "(i, ObjectsReply d) \<in> set (awaited (dying c x st))
        \<longleftrightarrow> d \<notin> {c} \<and> (\<exists>y. clients (dying c x st) d = Some y \<and> gc_get_objects_call y = Some i)" for i d
      using mem[of i "ObjectsReply d"] co(4)[of i d] by (auto simp: dying_fields(1))
    moreover have "\<forall>(i, r)\<in>set (awaited (dying c x st)). i < next_call (dying c x st)"
      using co(2) mem by (auto simp: dying_fields(7))
    ultimately show ?thesis using co(3) g by (simp add: calls_ok_def dying_fields(6))
  qed
  moreover have "filters_ok {c} (dying c x st)"
  proof -
    have "{(gc_conn y, d) |d y. ((clients st)(c \<mapsto> x\<lparr>gc_refs := 0\<rparr>)) d = Some y \<and> d \<notin> {c}}
        = {(gc_conn y, d) |d y. clients st d = Some y \<and> d \<notin> {}} - {(gc_conn x, c)}"
    proof (rule set_eqI)
      fix vd :: "nat \<times> nat"
      obtain v d where "vd = (v, d)" by (cases vd)
      then show "vd \<in> {(gc_conn y, d) |d y. ((clients st)(c \<mapsto> x\<lparr>gc_refs := 0\<rparr>)) d = Some y \<and> d \<notin> {c}}
          \<longleftrightarrow> vd \<in> {(gc_conn y, d) |d y. clients st d = Some y \<and> d \<notin> {}} - {(gc_conn x, c)}"
        by (cases "d = c") (use x in auto)
    qed
    with core_parts(4)[OF ok] show ?thesis unfolding filters_ok_def dying_fields by simp
  qed
  moreover have "owned (dying c x st) = owned st"
  proof -
    have "client_watches c (x\<lparr>gc_refs := 0\<rparr>) = client_watches c x" by (simp add: client_watches_def)
    then have "(\<exists>d y. ((clients st)(c \<mapsto> x\<lparr>gc_refs := 0\<rparr>)) d = Some y \<and> cb \<in> client_watches d y)
      \<longleftrightarrow> (\<exists>d y. clients st d = Some y \<and> cb \<in> client_watches d y)" for cb
      using x by (metis fun_upd_apply option.inject)
    then show ?thesis by (simp add: owned_def dying_fields)
  qed
  ultimately show "core_ok E (hc(c := 0)) hp {c} (dying c x st)"
    using core_parts(5)[OF ok] by (simp add: core_ok_def watches_ok_def dying_fields)
qed

lemma unwatch_three:
  assumes "registry_ok (registry st) \<and> adding_fine (watching E) \<and> removing_fine (watching E)"
  obtains w1 w2 w where "unwatch E a st = Some (st\<lparr>registry := w1\<rparr>)"
    "unwatch E b (st\<lparr>registry := w1\<rparr>) = Some (st\<lparr>registry := w2\<rparr>)"
    "unwatch E d (st\<lparr>registry := w2\<rparr>) = Some (st\<lparr>registry := w\<rparr>)"
    "registry_ok w" "watches w = filter_mset (\<lambda>cb. cb_id cb \<notin> {a, b, d}) (watches (registry st))"
    "unat (listener_id w) = unat (listener_id (registry st))"
proof -
  from wr.removed[OF assms, of a] obtain b1 w1 where w1: "g_dbus_remove_watch (watching E) a (registry st) = Some (b1, w1)"
    "registry_ok w1 \<and> adding_fine (watching E) \<and> removing_fine (watching E)"
    "watches w1 = filter_mset (\<lambda>cb. cb_id cb \<noteq> a) (watches (registry st))"
    "unat (listener_id w1) = unat (listener_id (registry st))" by blast
  from wr.removed[OF w1(2), of b] obtain b2 w2 where w2: "g_dbus_remove_watch (watching E) b w1 = Some (b2, w2)"
    "registry_ok w2 \<and> adding_fine (watching E) \<and> removing_fine (watching E)"
    "watches w2 = filter_mset (\<lambda>cb. cb_id cb \<noteq> b) (watches w1)" "unat (listener_id w2) = unat (listener_id w1)" by blast
  from wr.removed[OF w2(2), of d] obtain b3 w3 where w3: "g_dbus_remove_watch (watching E) d w2 = Some (b3, w3)"
    "registry_ok w3 \<and> adding_fine (watching E) \<and> removing_fine (watching E)"
    "watches w3 = filter_mset (\<lambda>cb. cb_id cb \<noteq> d) (watches w2)" "unat (listener_id w3) = unat (listener_id w2)" by blast
  have "unwatch E a st = Some (st\<lparr>registry := w1\<rparr>)" "unwatch E b (st\<lparr>registry := w1\<rparr>) = Some (st\<lparr>registry := w2\<rparr>)"
    "unwatch E d (st\<lparr>registry := w2\<rparr>) = Some (st\<lparr>registry := w3\<rparr>)"
    using w1(1) w2(1) w3(1) by (simp_all add: unwatch_def)
  moreover have "watches w3 = filter_mset (\<lambda>cb. cb_id cb \<notin> {a, b, d}) (watches (registry st))"
    unfolding w3(3) w2(3) w1(3) filter_filter_mset by (rule filter_mset_cong) auto
  ultimately show ?thesis using w3 w2(4) w1(4) by (intro that[of w1 w2 w3]) simp_all
qed

lemma client_watches_ids:
  assumes ok: "watches_ok E st" and x: "clients st c = Some x"
  shows "{cb \<in> owned st. cb_id cb \<notin> {gc_watch x, gc_added_watch x, gc_removed_watch x}} = owned st - client_watches c x"
proof -
  have mine: "client_watches c x \<subseteq> owned st" using x by (auto simp: owned_eq)
  have "cb \<in> client_watches c x" if "cb \<in> owned st" "cb_id cb \<in> {gc_watch x, gc_added_watch x, gc_removed_watch x}" for cb
  proof -
    have "{gc_watch x, gc_added_watch x, gc_removed_watch x} = cb_id ` client_watches c x" by (simp add: client_watches_def)
    with that(2) obtain cb' where "cb' \<in> client_watches c x" "cb_id cb = cb_id cb'" by blast
    with owned_unique[OF ok that(1), of cb'] mine show ?thesis by blast
  qed
  moreover have "cb_id cb \<in> {gc_watch x, gc_added_watch x, gc_removed_watch x}" if "cb \<in> client_watches c x" for cb
    using that by (auto simp: client_watches_def)
  ultimately show ?thesis by blast
qed

lemma client_watches_apart:
  "d \<noteq> c \<Longrightarrow> client_watches d y \<inter> client_watches c x = {}" "proxy_watches B \<inter> client_watches c x = {}"
  by (auto simp: client_watches_def proxy_watches_def proxy_watch_def)

lemma client_gone:
  assumes core: "core_ok E hc hp {c} s5" and x: "clients s5 c = Some x" and att: "attached s5 c = {}"
    and w: "registry_ok w" "watches w = filter_mset (\<lambda>cb. cb_id cb \<notin> {gc_watch x, gc_added_watch x, gc_removed_watch x})
      (watches (registry s5))"
    and f: "clients s7 = (clients s5)(c := None)" "bare s7 = bare s5" "awaited s7 = awaited s5" "attached s7 = attached s5"
      "next_client s7 = next_client s5" "next_proxy s7 = next_proxy s5" "next_call s7 = next_call s5"
      "client_filters s7 = client_filters s5" "registry s7 = w" "getting s7 = getting s5"
  shows "core_ok E hc hp {} s7"
proof -
  have ga: "getalls d s7 = getalls d s5" for d by (rule getalls_cong) (simp_all add: f)
  have "clients_ok hc {} s7"
    using core_parts(1)[OF core] x unfolding clients_ok_def f ga by (auto split: if_splits)
  moreover have "proxies_ok hp s7"
  proof -
    have "px_client y \<noteq> Some c" if "bare s5 p = Some y" for p y using that att by (auto simp: attached_def)
    with core_proxy(4)[OF core] have "((clients s5)(c := None)) d \<noteq> None" if "bare s5 p = Some y" "px_client y = Some d" for p y d
      using that by (metis fun_upd_apply)
    moreover have "\<forall>p. bare s5 p = None \<longrightarrow> hp p = 0" using core_parts(2)[OF core] by (simp add: proxies_ok_def)
    ultimately show ?thesis unfolding proxies_ok_def f using core_proxy(1-3)[OF core] by blast
  qed
  moreover have "calls_ok {} s7"
  proof -
    have "(\<exists>y. ((clients s5)(c := None)) d = Some y \<and> gc_get_objects_call y = Some i)
        \<longleftrightarrow> d \<notin> {c} \<and> (\<exists>y. clients s5 d = Some y \<and> gc_get_objects_call y = Some i)" for d i
      by (cases "d = c") simp_all
    with core_parts(3)[OF core] show ?thesis by (simp add: calls_ok_def f)
  qed
  moreover have "filters_ok {} s7" using core_parts(4)[OF core] by (auto simp: filters_ok_def f split: if_splits)
  moreover have "watches_ok E s7"
  proof -
    have "owned s7 = owned s5 - client_watches c x"
    proof (rule set_eqI)
      fix cb
      have "(\<exists>v. ((clients s5)(c := None)) d = Some v \<and> cb \<in> client_watches d v)
          \<longleftrightarrow> (\<exists>v. clients s5 d = Some v \<and> cb \<in> client_watches d v) \<and> cb \<notin> client_watches c x" for d
        using client_watches_apart(1)[of d c _ x] x by (cases "d = c") auto
      moreover have "cb \<in> proxy_watches (bare s5) \<Longrightarrow> cb \<notin> client_watches c x"
        using client_watches_apart(2)[of "bare s5" c x] by blast
      ultimately show "cb \<in> owned s7 \<longleftrightarrow> cb \<in> owned s5 - client_watches c x" unfolding owned_eq f by blast
    qed
    also have "\<dots> = {cb \<in> owned s5. cb_id cb \<notin> {gc_watch x, gc_added_watch x, gc_removed_watch x}}"
      by (rule client_watches_ids[OF core_parts(5)[OF core] x, symmetric])
    finally show ?thesis using w core_parts(5)[OF core] by (simp add: watches_ok_def f)
  qed
  ultimately show ?thesis by (simp add: core_ok_def)
qed

lemma free_client_ok:
  assumes ok: "client_ok E hc hp st" and x: "clients st c = Some x" and held: "hc c = 1" and last: "gc_refs x = 1"
  shows "\<exists>st'. free_client E c x (set_client c (x\<lparr>gc_refs := 0\<rparr>) st) = Some st' \<and> client_ok E (hc(c := 0)) hp st'
    \<and> clients st' = (clients st)(c := None) \<and> attached st' c = {} \<and> used st' = used st
    \<and> (gc_proxy_list x = [] \<longrightarrow> bare st' = bare st)"
proof -
  from ok have core: "core_ok E hc hp {} st" and lists: "lists_ok st" by (simp_all add: client_ok_def)
  from lists x have l: "distinct (gc_proxy_list x)" "set (gc_proxy_list x) \<subseteq> attached st c"
    "attached st c \<subseteq> set (gc_proxy_list x) \<union> getting st" unfolding lists_ok_def by blast+
  have pend: "gc_pending_call x = None" "getalls c st = 0"
    using core_client[OF core x] held last by simp_all
  have "p \<notin> attached st c" if "p \<in> getting st" for p
  proof
    assume "p \<in> attached st c"
    moreover from that obtain i where "(i, GetAllReply p) \<in> set (awaited st)" by (auto simp: getting_def)
    ultimately have "(i, GetAllReply p) \<in> set (filter (\<lambda>(i, r). asks_for st c r) (awaited st))" by simp
    with pend(2) show False by (simp add: getalls_def)
  qed
  with l have att: "attached st c = set (gc_proxy_list x)" by blast
  define s3 where "s3 = modify_matches E ''RemoveMatch'' (gc_match_rules x) (dying c x st)"
  note dok = dying_ok[OF core x held]
  note m = modify_matches_ok[OF dok(1), of E "''RemoveMatch''" "gc_match_rules x", folded s3_def]
  have s3: "core_ok E (hc(c := 0)) hp {c} s3" "clients s3 = (clients st)(c \<mapsto> x\<lparr>gc_refs := 0\<rparr>)" "attached s3 = attached st"
    "getting s3 = getting st" "used s3 = used st"
    using m dok(2) by (simp_all add: dying_fields modify_matches_lists s3_def)
  from l(2) s3(3) have "set (gc_proxy_list x) \<subseteq> attached s3 c" by simp
  from free_proxies_ok[OF s3(1) l(1) this] obtain s4 where s4: "free_proxies E (gc_proxy_list x) s3 = Some s4"
    "core_ok E (hc(c := 0)) hp {c} s4" "clients s4 = clients s3" "attached s4 = (\<lambda>d. attached s3 d - set (gc_proxy_list x))"
    "awaited s4 = awaited s3" "used s4 = used s3" by blast
  define s5 where "s5 = tell (gc_disconn_func x) (\<lambda>f. DisconnFunc f (gc_conn x) (gc_disconn_data x)) s4"
  have s5: "core_ok E (hc(c := 0)) hp {c} s5" "attached s5 = attached s4" "getting s5 = getting st"
    using s4 s3(4) shape_core(1,3,4)[OF same_shape_tell] by (simp_all add: s5_def getting_def)
  have c5: "clients s5 = (clients st)(c \<mapsto> x\<lparr>gc_refs := 0\<rparr>)" using s4(3) s3(2) by (simp add: s5_def)
  have a5: "attached s5 c = {}" "attached s5 = (\<lambda>d. attached st d - set (gc_proxy_list x))"
    using s5(2) s4(4) s3(3) att by (simp_all add: fun_eq_iff)
  from core_parts(5)[OF s5(1)] have reg: "registry_ok (registry s5) \<and> adding_fine (watching E) \<and> removing_fine (watching E)"
    and own: "set_mset (watches (registry s5)) = owned s5" by (simp_all add: watches_ok_def)
  from unwatch_three[OF reg, of "gc_watch x" "gc_added_watch x" "gc_removed_watch x"] obtain w1 w2 w where
    un: "unwatch E (gc_watch x) s5 = Some (s5\<lparr>registry := w1\<rparr>)"
      "unwatch E (gc_added_watch x) (s5\<lparr>registry := w1\<rparr>) = Some (s5\<lparr>registry := w2\<rparr>)"
      "unwatch E (gc_removed_watch x) (s5\<lparr>registry := w2\<rparr>) = Some (s5\<lparr>registry := w\<rparr>)" and w: "registry_ok w"
    "watches w = filter_mset (\<lambda>cb. cb_id cb \<notin> {gc_watch x, gc_added_watch x, gc_removed_watch x}) (watches (registry s5))"
    "unat (listener_id w) = unat (listener_id (registry s5))" .
  define s7 where "s7 = s5\<lparr>registry := w, conn_refs := (conn_refs s5)(gc_conn x := conn_refs s5 (gc_conn x) - 1),
    clients := (clients s5)(c := None)\<rparr>"
  have run: "free_client E c x (set_client c (x\<lparr>gc_refs := 0\<rparr>) st) = Some s7"
  proof -
    let ?s1 = "cancel_call (gc_get_objects_call x) (set_client c (x\<lparr>gc_refs := 0\<rparr>) st)"
    have "client_filters ?s1 = client_filters st" by (simp add: cancel_call_def split: option.split)
    then have "(modify_matches E ''RemoveMatch'' (gc_match_rules x) ?s1)\<lparr>client_filters :=
        remove1 (gc_conn x, c) (client_filters (modify_matches E ''RemoveMatch'' (gc_match_rules x) ?s1))\<rparr> = s3"
      unfolding s3_def dying_def modify_matches_filters by (simp add: modify_matches_lists)
    then show ?thesis
      using s4(1) un pend(1)
      by (simp add: free_client_def Let_def cancel_call_def[of None] s5_def[symmetric] s7_def bind_assoc)
  qed
  have f: "clients s7 = (clients st)(c := None)" "bare s7 = bare s5" "awaited s7 = awaited s5" "attached s7 = attached s5"
    "next_client s7 = next_client s5" "next_proxy s7 = next_proxy s5" "next_call s7 = next_call s5"
    "client_filters s7 = client_filters s5" "registry s7 = w" "getting s7 = getting s5"
    by (simp_all add: s7_def c5 bare_def attached_def getting_def fun_eq_iff)
  have x5: "clients s5 c = Some (x\<lparr>gc_refs := 0\<rparr>)" "clients s7 = (clients s5)(c := None)" by (simp_all add: c5 f(1))
  have core7: "core_ok E (hc(c := 0)) hp {} s7"
    by (rule client_gone[OF s5(1) x5(1) a5(1) w(1) _ x5(2) f(2-10)]) (simp add: w(2))
  have "lists_ok s7"
    unfolding lists_ok_def
  proof (intro allI impI)
    fix d y assume "clients s7 d = Some y"
    then have d: "d \<noteq> c" "clients st d = Some y" by (auto simp: f split: if_splits)
    have "attached st d \<inter> set (gc_proxy_list x) = {}" using l(2) attached_disjoint[of _ st c d] d(1) by blast
    then have "attached s7 d = attached st d" by (auto simp: f a5(2))
    with lists d(2) show "distinct (gc_proxy_list y) \<and> set (gc_proxy_list y) \<subseteq> attached s7 d
        \<and> attached s7 d \<subseteq> set (gc_proxy_list y) \<union> getting s7"
      using f(10) s5(3) unfolding lists_ok_def by simp
  qed
  moreover have "bare s7 = bare st" if "gc_proxy_list x = []"
  proof -
    have "bare s3 = bare st" using m by (simp add: dying_fields)
    moreover have "bare s5 = bare s4" unfolding s5_def using same_shape_tell unfolding same_shape_def by blast
    ultimately show ?thesis using s4(1) that by (simp add: f(2))
  qed
  ultimately show ?thesis using run core7 f a5 w(3) s4(6) s3(5)
    by (intro exI[of _ s7]) (simp add: client_ok_def used_def s5_def)
qed

text \<open>A reference to a client is given back, by the program or by a function that held it meanwhile.\<close>

lemma client_unref_ok:
  assumes ok: "client_ok E hc hp st" and held: "0 < hc c"
  obtains st' where "g_dbus_client_unref E c st = Some st'" "client_ok E (hc(c := hc c - 1)) hp st'"
    "used st' = used st" "\<forall>d. d \<noteq> c \<longrightarrow> clients st' d = clients st d"
    "\<forall>x. clients st c = Some x \<longrightarrow> 1 < gc_refs x \<longrightarrow> st' = set_client c (x\<lparr>gc_refs := gc_refs x - 1\<rparr>) st"
proof -
  from ok have core: "core_ok E hc hp {} st" and lists: "lists_ok st" by (simp_all add: client_ok_def)
  from held_live[OF core held] obtain x where x: "clients st c = Some x" by blast
  note cc = core_client[OF core x]
  show ?thesis
  proof (cases "gc_refs x - 1 > 0")
    case True
    let ?st' = "set_client c (x\<lparr>gc_refs := gc_refs x - 1\<rparr>) st"
    have "core_ok E (hc(c := hc c - 1)) hp {} ?st'"
      by (rule update_client[OF core x]) (use cc True held in auto)
    moreover have "lists_ok ?st'" by (rule lists_same_client[OF lists x]) simp
    ultimately have "client_ok E (hc(c := hc c - 1)) hp ?st'" by (simp add: client_ok_def)
    moreover have "g_dbus_client_unref E c st = Some ?st'" using x True by (simp add: g_dbus_client_unref_def)
    ultimately show ?thesis using x by (intro that[of ?st']) (simp_all add: used_def)
  next
    case False
    with cc(1) have last: "gc_refs x = 1" by simp
    with cc(2) held have one: "hc c = 1" by simp
    from free_client_ok[OF ok x one last] obtain st' where "free_client E c x (set_client c (x\<lparr>gc_refs := 0\<rparr>) st) = Some st'"
      "client_ok E (hc(c := 0)) hp st'" "clients st' = (clients st)(c := None)" "used st' = used st" by blast
    with x last one show ?thesis by (intro that[of st']) (simp_all add: g_dbus_client_unref_def)
  qed
qed

section \<open>Asking for all properties\<close>

text \<open>The connection is open: no pending call is NULL.\<close>

definition open_connection :: "client_env \<Rightarrow> bool" where
  "open_connection E \<longleftrightarrow> (\<forall>n. reply_outcome E n \<noteq> NoPendingCall)"

lemma get_all_properties_ok:
  assumes ok: "core_ok E hc hp {} st" and op: "open_connection E" and x: "proxies st p = Some x" and c: "px_client x = Some c"
  obtains st' y y' where "get_all_properties E p st = Some st'" "core_ok E hc hp {} st'" "clients st c = Some y"
    "clients st' = (clients st)(c \<mapsto> y')" "gc_proxy_list y' = gc_proxy_list y" "proxies st' = proxies st" "bare st' = bare st"
    "used st' = used st" "getting st \<subseteq> getting st'" "reply_outcome E (attempts st) = SentCall \<longrightarrow> p \<in> getting st'"
    "program st' = program st" "y' = y\<lparr>gc_refs := gc_refs y'\<rparr>"
proof -
  have b: "bare st p = Some (x\<lparr>px_props := []\<rparr>)" by (simp add: bare_def x)
  from core_proxy(1)[OF ok b] core_proxy(4)[OF ok b, of c] c obtain y where y: "clients st c = Some y" and less: "p < next_proxy st" by auto
  define r where "r = send_call E (proxy_msg y x ''GetAll'' [Basic (DString (px_interface x))]) st"
  have out: "fst r = reply_outcome E (attempts st)" by (simp add: r_def send_call_def Let_def)
  have core1: "core_ok E hc hp {} (snd r)" and s: "clients (snd r) = clients st" "proxies (snd r) = proxies st"
    "bare (snd r) = bare st" "getting (snd r) = getting st" "registry (snd r) = registry st" "attached (snd r) = attached st"
    "next_proxy (snd r) = next_proxy st"
    using ok by (simp_all add: r_def send_call_shape)
  have prog: "program (snd r) = program st" by (simp add: r_def send_call_def Let_def)
  show ?thesis
  proof (cases "reply_outcome E (attempts st) = SentCall")
    case False
    moreover have "reply_outcome E (attempts st) \<noteq> NoPendingCall" using op by (simp add: open_connection_def)
    ultimately have "get_all_properties E p st = Some (snd r)"
      using x c y out by (cases "reply_outcome E (attempts st)")
        (simp_all add: get_all_properties_def r_def[symmetric] split_beta)
    with core1 s y prog False show ?thesis by (intro that[of "snd r" y y]) (simp_all add: used_def fun_upd_idem)
  next
    case True
    let ?y = "y\<lparr>gc_refs := gc_refs y + 1\<rparr>"
    let ?st2 = "set_client c ?y (snd r)"
    have y1: "clients (snd r) c = Some y" using y s by simp
    have core2: "core_ok E hc hp {} ?st2"
      by (rule update_client[OF core1 y1]) (use core_client[OF core1 y1] in simp_all)
    have g: "getalls c ?st2 = getalls c (snd r)" by (rule getalls_cong) simp_all
    have "core_ok E hc hp {} (await (GetAllReply p) ?st2)"
    proof (rule await_ok[OF core2])
      show "\<forall>d z. clients ?st2 d = Some z \<longrightarrow> d \<notin> {} \<longrightarrow> asks_for ?st2 d (GetAllReply p) \<longrightarrow> hc d + getalls d ?st2 < gc_refs z"
      proof (intro allI impI)
        fix d z assume d: "clients ?st2 d = Some z" "asks_for ?st2 d (GetAllReply p)"
        then have "p \<in> attached st d" using s(6) by simp
        with attachedI[OF x c] have "d = c" using attached_disjoint[of p st d c] by simp
        with d core_client(2)[OF core1 y1] g show "hc d + getalls d ?st2 < gc_refs z" by auto
      qed
    qed (use less s in simp_all)
    moreover have "get_all_properties E p st = Some (await (GetAllReply p) ?st2)"
      using x c y out True y1 by (simp add: get_all_properties_def r_def[symmetric] split_beta g_dbus_client_ref_def)
    moreover have "getting (await (GetAllReply p) ?st2) = insert p (getting st)"
      using s(4) by (auto simp: getting_def)
    ultimately show ?thesis using s y prog
      by (intro that[of "await (GetAllReply p) ?st2" y ?y]) (auto simp: used_def)
  qed
qed

section \<open>A new client\<close>

lemma client_start_ok:
  assumes "adding_fine (watching E)" and "removing_fine (watching E)"
  shows "client_ok E (\<lambda>_. 0) (\<lambda>_. 0) client_start"
proof -
  have b: "bare client_start = Map.empty" by (simp add: bare_def client_start_def fun_eq_iff)
  have "owned client_start = {}" by (simp add: owned_def b) (simp add: client_start_def)
  moreover have "watches watch_start = {#}" by (simp add: watch_start_def watches_def callbacks_of_def)
  ultimately show ?thesis
    using assms registry_start
    by (simp add: client_ok_def core_ok_def clients_ok_def proxies_ok_def calls_ok_def filters_ok_def watches_ok_def lists_ok_def
        getting_def b) (simp add: client_start_def)
qed

definition service_fits :: "string \<Rightarrow> bool" where
  "service_fits service \<longleftrightarrow> request_fits (ServiceRequest 0 service (Some service_connect_fn) (Some service_disconnect_fn) 0 None)
     \<and> request_fits (SignalRequest 0 (Some service) (Some ''/'') (Some object_manager_interface) (Some ''InterfacesAdded'')
          interfaces_added_fn 0 None)
     \<and> request_fits (SignalRequest 0 (Some service) (Some ''/'') (Some object_manager_interface) (Some ''InterfacesRemoved'')
          interfaces_removed_fn 0 None)"

definition fresh_client :: "nat \<Rightarrow> string \<Rightarrow> string \<Rightarrow> 32 word \<Rightarrow> 32 word \<Rightarrow> 32 word \<Rightarrow> gclient" where
  "fresh_client conn service path w1 w2 w3 =
     \<lparr>gc_refs = 0, gc_conn = conn, gc_service = service, gc_base_path = path, gc_watch = w1,
      gc_added_watch = w2, gc_removed_watch = w3, gc_match_rules = [client_rule service path], gc_pending_call = None,
      gc_get_objects_call = None, gc_connect_func = None, gc_connect_data = 0, gc_disconn_func = None,
      gc_disconn_data = 0, gc_signal_func = None, gc_signal_data = 0, gc_proxy_added = None,
      gc_proxy_removed = None, gc_property_changed = None, gc_user_data = 0, gc_proxy_list = []\<rparr>"

lemma three_watches:
  assumes reg: "registry_ok w \<and> adding_fine W \<and> removing_fine W" and fit: "service_fits service"
    and room: "unat (listener_id w) + 6 < 2 ^ 32"
  obtains w1 r1 w2 r2 w3 r3 where
    "g_dbus_add_service_watch W conn (Some service) (Some service_connect_fn) (Some service_disconnect_fn) c None w = Some (w1, r1)"
    "g_dbus_add_signal_watch W conn (Some service) (Some ''/'') (Some object_manager_interface) (Some ''InterfacesAdded'')
       (Some interfaces_added_fn) c None r1 = Some (w2, r2)"
    "g_dbus_add_signal_watch W conn (Some service) (Some ''/'') (Some object_manager_interface) (Some ''InterfacesRemoved'')
       (Some interfaces_removed_fn) c None r2 = Some (w3, r3)"
    "registry_ok r3" "unat (listener_id w) \<le> unat (listener_id r3)" "unat (listener_id r3) \<le> unat (listener_id w) + 6"
    "set_mset (watches r3) = set_mset (watches w) \<union> client_watches c (fresh_client conn service path w1 w2 w3)"
proof -
  let ?a = "ServiceRequest conn service (Some service_connect_fn) (Some service_disconnect_fn) c None"
  let ?b = "SignalRequest conn (Some service) (Some ''/'') (Some object_manager_interface) (Some ''InterfacesAdded'')
    interfaces_added_fn c None"
  let ?d = "SignalRequest conn (Some service) (Some ''/'') (Some object_manager_interface) (Some ''InterfacesRemoved'')
    interfaces_removed_fn c None"
  have fits: "request_fits ?a" "request_fits ?b" "request_fits ?d" using fit by (simp_all add: service_fits_def)
  from wr.request_served[OF reg fits(1)] room obtain w1 r1 where r1: "request_watch W ?a w = Some (w1, r1)"
    "registry_ok r1 \<and> adding_fine W \<and> removing_fine W" "watches r1 = add_mset (watch_of ?a w1) (watches w)"
    "unat (listener_id w) \<le> unat (listener_id r1)" "unat (listener_id r1) \<le> unat (listener_id w) + 2" by fastforce
  from wr.request_served[OF r1(2) fits(2)] room r1(5) obtain w2 r2 where r2: "request_watch W ?b r1 = Some (w2, r2)"
    "registry_ok r2 \<and> adding_fine W \<and> removing_fine W" "watches r2 = add_mset (watch_of ?b w2) (watches r1)"
    "unat (listener_id r1) \<le> unat (listener_id r2)" "unat (listener_id r2) \<le> unat (listener_id r1) + 2" by fastforce
  from wr.request_served[OF r2(2) fits(3)] room r1(5) r2(5) obtain w3 r3 where r3: "request_watch W ?d r2 = Some (w3, r3)"
    "registry_ok r3 \<and> adding_fine W \<and> removing_fine W" "watches r3 = add_mset (watch_of ?d w3) (watches r2)"
    "unat (listener_id r2) \<le> unat (listener_id r3)" "unat (listener_id r3) \<le> unat (listener_id r2) + 2" by fastforce
  have "set_mset (watches r3) = set_mset (watches w) \<union> client_watches c (fresh_client conn service path w1 w2 w3)"
    by (auto simp: r3(3) r2(3) r1(3) client_watches_def fresh_client_def)
  with r1 r2 r3 show ?thesis by (intro that[of w1 r1 w2 r2 w3 r3]) simp_all
qed

text \<open>The three watches of a client that does not hold a reference yet are there.\<close>

lemma client_made:
  assumes core: "core_ok E hc hp {} st" and new: "clients st c = None" and c: "c = next_client st"
    and cl: "gc_get_objects_call cl = None" "gc_pending_call cl = None"
    and f0: "clients s0 = (clients st)(c \<mapsto> cl)" "bare s0 = bare st" "awaited s0 = awaited st" "next_client s0 = Suc c"
      "next_proxy s0 = next_proxy st" "next_call s0 = next_call st" "client_filters s0 = client_filters st"
      "attached s0 = attached st" "getting s0 = getting st"
    and reg: "registry_ok (registry s0)" "set_mset (watches (registry s0)) = set_mset (watches (registry st)) \<union> client_watches c cl"
  shows "core_ok E hc hp {c} s0"
proof -
  have hc: "hc c = 0" using core_parts(1)[OF core] new unfolding clients_ok_def by blast
  have g0: "getalls d s0 = getalls d st" for d by (rule getalls_cong) (simp_all add: f0)
  have "clients_ok hc {c} s0"
    using core_parts(1)[OF core] hc cl unfolding clients_ok_def f0 g0 by (auto simp: c less_SucI)
  moreover have "proxies_ok hp s0"
  proof -
    have "((clients st)(c \<mapsto> cl)) d \<noteq> None" if "clients st d \<noteq> None" for d using that by simp
    with core_parts(2)[OF core] show ?thesis unfolding proxies_ok_def f0 by blast
  qed
  moreover have "calls_ok {c} s0"
  proof -
    have "d \<notin> {c} \<and> (\<exists>x. ((clients st)(c \<mapsto> cl)) d = Some x \<and> gc_get_objects_call x = Some i)
        \<longleftrightarrow> d \<notin> {} \<and> (\<exists>x. clients st d = Some x \<and> gc_get_objects_call x = Some i)" for d i
      using new by (cases "d = c") simp_all
    with core_parts(3)[OF core] show ?thesis unfolding calls_ok_def f0 by simp
  qed
  moreover have "filters_ok {c} s0"
  proof -
    have "(\<exists>x. ((clients st)(c \<mapsto> cl)) d = Some x \<and> d \<notin> {c} \<and> v = gc_conn x)
        \<longleftrightarrow> (\<exists>x. clients st d = Some x \<and> d \<notin> {} \<and> v = gc_conn x)" for v d
      using new by (cases "d = c") simp_all
    then have "{(gc_conn x, d) |d x. ((clients st)(c \<mapsto> cl)) d = Some x \<and> d \<notin> {c}}
        = {(gc_conn x, d) |d x. clients st d = Some x \<and> d \<notin> {}}" by blast
    with core_parts(4)[OF core] show ?thesis unfolding filters_ok_def f0 by simp
  qed
  moreover have "watches_ok E s0"
  proof -
    have "(\<exists>d x. ((clients st)(c \<mapsto> cl)) d = Some x \<and> cb \<in> client_watches d x)
        \<longleftrightarrow> (\<exists>d x. clients st d = Some x \<and> cb \<in> client_watches d x) \<or> cb \<in> client_watches c cl" for cb
      using new by (metis fun_upd_apply option.discI option.inject)
    then have "owned s0 = owned st \<union> client_watches c cl" unfolding owned_eq f0 by blast
    with core_parts(5)[OF core] reg show ?thesis by (simp add: watches_ok_def)
  qed
  ultimately show ?thesis by (simp add: core_ok_def)
qed

text \<open>It gets its first reference and its filter.\<close>

lemma client_ready:
  assumes core: "core_ok E hc hp {c} s1" and cl: "clients s1 c = Some cl"
    and calls: "gc_get_objects_call cl = None" and none: "getalls c s1 = 0"
    and f: "clients st' = (clients s1)(c \<mapsto> cl\<lparr>gc_refs := 1\<rparr>)" "bare st' = bare s1" "registry st' = registry s1"
      "attached st' = attached s1" "getting st' = getting s1" "client_filters st' = client_filters s1 @ [(gc_conn cl, c)]"
      "awaited st' = awaited s1" "next_call st' = next_call s1" "next_client st' = next_client s1" "next_proxy st' = next_proxy s1"
  shows "core_ok E (hc(c := 1)) hp {} st'"
proof -
  have g: "getalls d st' = getalls d s1" for d by (rule getalls_cong) (simp_all add: f)
  have "clients_ok (hc(c := 1)) {} st'"
    using core_parts(1)[OF core] cl none unfolding clients_ok_def f g by (auto split: if_splits)
  moreover have "proxies_ok (hp) st'"
  proof -
    have "((clients s1)(c \<mapsto> cl\<lparr>gc_refs := 1\<rparr>)) d \<noteq> None" if "clients s1 d \<noteq> None" for d using that by simp
    with core_parts(2)[OF core] show ?thesis unfolding proxies_ok_def f by blast
  qed
  moreover have "calls_ok {} st'"
  proof -
    have "d \<notin> {} \<and> (\<exists>x. ((clients s1)(c \<mapsto> cl\<lparr>gc_refs := 1\<rparr>)) d = Some x \<and> gc_get_objects_call x = Some i)
        \<longleftrightarrow> d \<notin> {c} \<and> (\<exists>x. clients s1 d = Some x \<and> gc_get_objects_call x = Some i)" for d i
      using calls by (cases "d = c") simp_all
    with core_parts(3)[OF core] show ?thesis unfolding calls_ok_def f by simp
  qed
  moreover have "filters_ok {} st'"
  proof -
    have "(\<exists>x. ((clients s1)(c \<mapsto> cl\<lparr>gc_refs := 1\<rparr>)) d = Some x \<and> d \<notin> {} \<and> v = gc_conn x)
        \<longleftrightarrow> (v, d) = (gc_conn cl, c) \<or> (\<exists>x. clients s1 d = Some x \<and> d \<notin> {c} \<and> v = gc_conn x)" for v d
      by (cases "d = c") simp_all
    then have "{(gc_conn x, d) |d x. ((clients s1)(c \<mapsto> cl\<lparr>gc_refs := 1\<rparr>)) d = Some x \<and> d \<notin> {}}
        = insert (gc_conn cl, c) {(gc_conn x, d) |d x. clients s1 d = Some x \<and> d \<notin> {c}}" by blast
    with core_parts(4)[OF core] show ?thesis unfolding filters_ok_def f by auto
  qed
  moreover have "watches_ok E st'"
  proof -
    have "client_watches c (cl\<lparr>gc_refs := 1\<rparr>) = client_watches c cl" by (simp add: client_watches_def)
    then have "(\<exists>d x. ((clients s1)(c \<mapsto> cl\<lparr>gc_refs := 1\<rparr>)) d = Some x \<and> cb \<in> client_watches d x)
        \<longleftrightarrow> (\<exists>d x. clients s1 d = Some x \<and> cb \<in> client_watches d x)" for cb
      using cl by (metis fun_upd_apply option.inject)
    then have "owned st' = owned s1" unfolding owned_eq f by simp
    with core_parts(5)[OF core] show ?thesis by (simp add: watches_ok_def f)
  qed
  ultimately show ?thesis by (simp add: core_ok_def)
qed

lemma client_new_ok:
  assumes ok: "client_ok E hc hp st" and E: "plenty E" and fit: "service_fits service" and room: "used st + 6 < 2 ^ 32"
  obtains st' w1 w2 w3 where
    "g_dbus_client_new E (Some conn) service path st = Some (Some (next_client st), st')"
    "clients st (next_client st) = None"
    "client_ok E (hc(next_client st := 1)) hp st'"
    "clients st' = (clients st)(next_client st \<mapsto> (fresh_client conn service path w1 w2 w3)\<lparr>gc_refs := 1\<rparr>)"
    "proxies st' = proxies st" "used st' \<le> used st + 6"
proof -
  from ok have core: "core_ok E hc hp {} st" and lists: "lists_ok st" by (simp_all add: client_ok_def)
  define c where "c = next_client st"
  have less: "d < c" if "clients st d \<noteq> None" for d
    using core_parts(1)[OF core] that unfolding clients_ok_def c_def by blast
  have new: "clients st c = None" using less[of c] by (metis less_irrefl)
  have hc: "hc c = 0" using core_parts(1)[OF core] new unfolding clients_ok_def by blast
  have natt: "attached st c = {}" using core_proxy(4)[OF core] new unfolding attached_def by blast
  have reg: "registry_ok (registry st) \<and> adding_fine (watching E) \<and> removing_fine (watching E)"
    and own: "set_mset (watches (registry st)) = owned st" using core_parts(5)[OF core] by (simp_all add: watches_ok_def)
  have "unat (listener_id (registry st)) + 6 < 2 ^ 32" using room by (simp add: used_def)
  from three_watches[OF reg fit this, of conn c path] obtain w1 r1 w2 r2 w3 r3 where
    adds: "g_dbus_add_service_watch (watching E) conn (Some service) (Some service_connect_fn) (Some service_disconnect_fn) c None
        (registry st) = Some (w1, r1)"
      "g_dbus_add_signal_watch (watching E) conn (Some service) (Some ''/'') (Some object_manager_interface) (Some ''InterfacesAdded'')
        (Some interfaces_added_fn) c None r1 = Some (w2, r2)"
      "g_dbus_add_signal_watch (watching E) conn (Some service) (Some ''/'') (Some object_manager_interface) (Some ''InterfacesRemoved'')
        (Some interfaces_removed_fn) c None r2 = Some (w3, r3)"
    and r3: "registry_ok r3" "unat (listener_id r3) \<le> unat (listener_id (registry st)) + 6"
      "set_mset (watches r3) = set_mset (watches (registry st)) \<union> client_watches c (fresh_client conn service path w1 w2 w3)" .
  define cl where "cl = fresh_client conn service path w1 w2 w3"
  define F where "F = client_filters st @ [(conn, c)]"
  define s0 where "s0 = set_client c cl (st\<lparr>attempts := Suc (Suc (attempts st)), next_client := Suc c, registry := r3,
    conn_refs := (conn_refs st)(conn := conn_refs st conn + 1)\<rparr>)"
  define s1 where "s1 = modify_matches E ''AddMatch'' [client_rule service path] s0"
  define st' where "st' = set_client c (cl\<lparr>gc_refs := 1\<rparr>) (s1\<lparr>client_filters := F\<rparr>)"
  have f0: "clients s0 = (clients st)(c \<mapsto> cl)" "bare s0 = bare st" "awaited s0 = awaited st" "next_client s0 = Suc c"
    "next_proxy s0 = next_proxy st" "next_call s0 = next_call st" "client_filters s0 = client_filters st" "registry s0 = r3"
    "attached s0 = attached st" "getting s0 = getting st" "proxies s0 = proxies st"
    by (simp_all add: s0_def bare_def attached_def getting_def fun_eq_iff)
  have g0: "getalls d s0 = getalls d st" for d by (rule getalls_cong) (simp_all add: f0)
  have calls: "gc_get_objects_call cl = None" "gc_pending_call cl = None" "gc_conn cl = conn" "gc_refs cl = 0" "gc_proxy_list cl = []"
    by (simp_all add: cl_def fresh_client_def)
  have core0: "core_ok E hc hp {c} s0"
    by (rule client_made[OF core new c_def calls(1,2)]) (simp_all add: f0 r3 cl_def)
  note m = modify_matches_ok[OF core0, of E "''AddMatch''" "[client_rule service path]", folded s1_def]
  have core1: "core_ok E hc hp {c} s1" and f1: "clients s1 = (clients st)(c \<mapsto> cl)" "bare s1 = bare st" "registry s1 = r3"
    "getting s1 = getting st" "client_filters s1 = client_filters st" "next_client s1 = Suc c"
    and g1: "getalls d s1 = getalls d st" "attached s1 = attached st" "proxies s1 = proxies st" for d
    using m f0 g0[of d] modify_matches_lists[of E "''AddMatch''" "[client_rule service path]" s0]
      modify_matches_ok[OF core0, of E "''AddMatch''" "[client_rule service path]" d, folded s1_def]
    by (simp_all add: s1_def[symmetric])
  have f2: "clients st' = (clients st)(c \<mapsto> cl\<lparr>gc_refs := 1\<rparr>)" "bare st' = bare st" "registry st' = r3" "attached st' = attached st"
    "getting st' = getting st" "client_filters st' = F" "awaited st' = awaited s1" "next_call st' = next_call s1"
    "next_client st' = Suc c" "next_proxy st' = next_proxy s1" "proxies st' = proxies st"
    using f1 g1 by (simp_all add: st'_def bare_def attached_def getting_def fun_eq_iff)
  have g2: "getalls d st' = getalls d st" for d
    using g1(1)[of d] getalls_cong[of st' d s1] f2(4,7) g1(2) by simp
  have gc0: "getalls c st = 0"
  proof -
    have "\<not> asks_for st c r" for r using natt by (cases r) simp_all
    then show ?thesis by (simp add: getalls_def)
  qed
  have core': "core_ok E (hc(c := 1)) hp {} st'"
    by (rule client_ready[OF core1 _ calls(1)]) (simp_all add: f1 f2 g1 gc0 calls(3) F_def)
  have "lists_ok st'"
    unfolding lists_ok_def
  proof (intro allI impI)
    fix d y assume y: "clients st' d = Some y"
    show "distinct (gc_proxy_list y) \<and> set (gc_proxy_list y) \<subseteq> attached st' d
        \<and> attached st' d \<subseteq> set (gc_proxy_list y) \<union> getting st'"
    proof (cases "d = c")
      case True
      with y natt calls(5) show ?thesis by (auto simp: f2)
    next
      case False
      with y lists show ?thesis by (simp add: lists_ok_def f2)
    qed
  qed
  with core' have "client_ok E (hc(c := 1)) hp st'" by (simp add: client_ok_def)
  moreover have "g_dbus_client_new E (Some conn) service path st = Some (Some c, st')"
  proof -
    have e0: "set_client c cl (st\<lparr>attempts := Suc (Suc (attempts st)), next_client := Suc c, registry := r3, client_filters := F,
        conn_refs := (conn_refs st)(conn := conn_refs st conn + 1)\<rparr>) = s0\<lparr>client_filters := F\<rparr>"
      by (rule client_state.equality) (simp_all add: s0_def set_client_def)
    have "clients (s1\<lparr>client_filters := F\<rparr>) c = Some cl" using f1(1) by simp
    then show ?thesis
      using E adds calls(4)
      by (simp add: g_dbus_client_new_def try_new_def plenty_def Let_def c_def[symmetric] F_def[symmetric]
          fresh_client_def[symmetric] cl_def[symmetric] e0 modify_matches_filters s1_def[symmetric] g_dbus_client_ref_def st'_def)
  qed
  moreover have "used st' \<le> used st + 6" using r3(2) by (simp add: used_def f2)
  ultimately show ?thesis using new f2(1,11) unfolding c_def cl_def by (intro that) simp_all
qed

end
