(* ===== verification/Gdbus_Client_View.thy ===== *)
theory Gdbus_Client_View
  imports Gdbus_Client_Refs
begin

text \<open>
  What a client shows of its service: a map from object paths and interfaces to tables of
  properties. The signals and replies of the service are updates of this map.
\<close>

section \<open>The view\<close>

definition key :: "client_state \<Rightarrow> nat \<Rightarrow> (string \<times> string) option" where
  "key st p = map_option (\<lambda>x. (px_path x, px_interface x)) (proxies st p)"

definition view :: "client_state \<Rightarrow> nat \<Rightarrow> string \<times> string \<Rightarrow> (string \<Rightarrow> ditem list option) option" where
  "view st c k = Option.bind (clients st c)
     (\<lambda>cl. map_option (table st) (find (\<lambda>p. key st p = Some k) (gc_proxy_list cl)))"

text \<open>No two proxies of the client's list are of the same path and interface.\<close>

definition keys_ok :: "client_state \<Rightarrow> nat \<Rightarrow> bool" where
  "keys_ok st c \<longleftrightarrow> (\<forall>cl. clients st c = Some cl \<longrightarrow> inj_on (key st) (set (gc_proxy_list cl)))"

definition mirror_ok :: "client_env \<Rightarrow> (nat \<Rightarrow> nat) \<Rightarrow> (nat \<Rightarrow> nat) \<Rightarrow> nat \<Rightarrow> client_state \<Rightarrow> bool" where
  "mirror_ok E hc hp c st \<longleftrightarrow> client_ok E hc hp st \<and> keys_ok st c"

lemma listed_live:
  assumes "client_ok E hc hp st" and "clients st c = Some cl" and "p \<in> set (gc_proxy_list cl)"
  obtains x where "proxies st p = Some x" "px_client x = Some c"
  using assms attachedD[of p st c] unfolding client_ok_def lists_ok_def by blast

lemma listed_live_all:
  "client_ok E hc hp st \<Longrightarrow> clients st c = Some cl \<Longrightarrow> \<forall>p\<in>set (gc_proxy_list cl). proxies st p \<noteq> None"
  by (metis listed_live option.discI)

lemma lookup_loop_find:
  "\<forall>p\<in>set ps. proxies st p \<noteq> None \<Longrightarrow>
     lookup_loop path interface ps st = Some (find (\<lambda>p. key st p = Some (path, interface)) ps)"
  by (induction ps) (auto simp: key_def)

lemma proxy_lookup_find:
  assumes "client_ok E hc hp st" and "clients st c = Some cl"
  shows "proxy_lookup c path interface st = Some (find (\<lambda>p. key st p = Some (path, interface)) (gc_proxy_list cl))"
  using assms listed_live_all[OF assms] by (simp add: proxy_lookup_def lookup_loop_find)

text \<open>With keys that are apart, the proxy of a key is the one that has it.\<close>

lemma find_unique:
  assumes "inj_on f (set xs)" and "x \<in> set xs"
  shows "find (\<lambda>y. f y = f x) xs = Some x"
proof -
  have "find (\<lambda>y. f y = f x) xs \<noteq> None" using assms(2) by (auto simp: find_None_iff)
  then obtain y where y: "find (\<lambda>y. f y = f x) xs = Some y" by blast
  from find_SomeD[OF this] assms have "y = x" by (auto dest: inj_onD)
  with y show ?thesis by simp
qed

lemma view_of:
  assumes "keys_ok st c" and "clients st c = Some cl" and "p \<in> set (gc_proxy_list cl)" and "key st p = Some k"
  shows "view st c k = Some (table st p)"
proof -
  have "inj_on (key st) (set (gc_proxy_list cl))" using assms(1,2) by (simp add: keys_ok_def)
  from find_unique[OF this assms(3)] assms(2,4) show ?thesis by (simp add: view_def)
qed

lemma view_None:
  "clients st c = Some cl \<Longrightarrow> view st c k = None \<longleftrightarrow> (\<forall>p\<in>set (gc_proxy_list cl). key st p \<noteq> Some k)"
  by (auto simp: view_def find_None_iff)

lemma same_key: "same_shape st st' \<Longrightarrow> key st' = key st"
proof (rule ext)
  fix p assume s: "same_shape st st'"
  then have "bare st' p = bare st p" by (simp add: same_shape_def)
  moreover have "key t p = map_option (\<lambda>y. (px_path y, px_interface y)) (bare t p)" for t
    by (cases "proxies t p") (simp_all add: key_def bare_def)
  ultimately show "key st' p = key st p" by simp
qed

text \<open>A change of the table of one listed proxy.\<close>

lemma view_change:
  assumes keys: "keys_ok st c" and cl: "clients st c = Some cl" and p: "p \<in> set (gc_proxy_list cl)" "key st p = Some k"
    and s: "same_shape st st'" and others: "\<forall>q. q \<noteq> p \<longrightarrow> table st' q = table st q"
  shows "keys_ok st' c" and "view st' c = (view st c)(k \<mapsto> table st' p)"
proof -
  have c': "clients st' = clients st" using s by (simp add: same_shape_def)
  show k': "keys_ok st' c" using keys by (simp add: keys_ok_def c' same_key[OF s])
  show "view st' c = (view st c)(k \<mapsto> table st' p)"
  proof (rule ext)
    fix j
    show "view st' c j = ((view st c)(k \<mapsto> table st' p)) j"
    proof (cases "j = k")
      case True
      have "clients st' c = Some cl" "key st' p = Some k" using c' cl p(2) same_key[OF s] by simp_all
      from view_of[OF k' this(1) p(1) this(2)] True show ?thesis by simp
    next
      case False
      have "table st' q = table st q" if "find (\<lambda>p. key st p = Some j) (gc_proxy_list cl) = Some q" for q
      proof -
        have "q \<noteq> p" using find_SomeD[OF that] False p(2) by auto
        with others show ?thesis by blast
      qed
      with False show ?thesis
        by (cases "find (\<lambda>p. key st p = Some j) (gc_proxy_list cl)") (simp_all add: view_def c' cl same_key[OF s])
    qed
  qed
qed

text \<open>A new proxy at the end of the list.\<close>

lemma view_append:
  assumes keys: "keys_ok st c" and cl: "clients st c = Some cl" and new: "key st p = Some k" "view st c k = None"
    and cl': "gc_proxy_list cl' = gc_proxy_list cl @ [p]"
  shows "keys_ok (set_client c cl' st) c" and "view (set_client c cl' st) c = (view st c)(k \<mapsto> table st p)"
    and "\<forall>d. d \<noteq> c \<longrightarrow> view (set_client c cl' st) d = view st d"
proof -
  have key: "key (set_client c cl' st) = key st" "table (set_client c cl' st) = table st"
    by (simp_all add: key_def table_def fun_eq_iff)
  have none: "\<forall>q\<in>set (gc_proxy_list cl). key st q \<noteq> key st p" using new view_None[OF cl] by simp
  have "inj_on (key st) (set (gc_proxy_list cl))" using keys cl by (simp add: keys_ok_def)
  with none show "keys_ok (set_client c cl' st) c" by (auto simp: keys_ok_def key cl')
  show "view (set_client c cl' st) c = (view st c)(k \<mapsto> table st p)"
  proof (rule ext)
    fix j
    show "view (set_client c cl' st) c j = ((view st c)(k \<mapsto> table st p)) j"
    proof (cases "j = k")
      case True
      have "find (\<lambda>q. key st q = Some k) (gc_proxy_list cl) = None" using none new(1) by (simp add: find_None_iff)
      with True new(1) show ?thesis by (simp add: view_def key cl' find_append)
    next
      case False
      with new(1) show ?thesis
        by (cases "find (\<lambda>q. key st q = Some j) (gc_proxy_list cl)") (simp_all add: view_def key cl' cl find_append)
    qed
  qed
  show "\<forall>d. d \<noteq> c \<longrightarrow> view (set_client c cl' st) d = view st d" by (simp add: view_def key fun_eq_iff)
qed

text \<open>A proxy is taken off the list.\<close>

lemma find_remove1:
  assumes "inj_on f (set xs)" and "distinct xs" and "p \<in> set xs"
  shows "find (\<lambda>q. f q = j) (remove1 p xs) = (if f p = j then None else find (\<lambda>q. f q = j) xs)"
  using assms
proof (induction xs)
  case (Cons x xs)
  show ?case
  proof (cases "x = p")
    case True
    have "f p \<notin> f ` set xs" using Cons.prems(1,2) True by auto
    then have "find (\<lambda>q. f q = f p) xs = None" by (simp add: find_None_iff image_iff) metis
    with True show ?thesis by auto
  next
    case False
    with Cons have "inj_on f (set xs)" "distinct xs" "p \<in> set xs" "f x \<noteq> f p" by (auto dest: inj_onD)
    with Cons.IH False show ?thesis by auto
  qed
qed simp

lemma view_remove:
  assumes keys: "keys_ok st c" and cl: "clients st c = Some cl" and dist: "distinct (gc_proxy_list cl)"
    and p: "p \<in> set (gc_proxy_list cl)" "key st p = Some k"
    and cl': "clients st' = (clients st)(c \<mapsto> cl')" "gc_proxy_list cl' = remove1 p (gc_proxy_list cl)"
    and rest: "\<forall>q. q \<noteq> p \<longrightarrow> proxies st' q = proxies st q"
  shows "keys_ok st' c" and "view st' c = (view st c)(k := None)"
proof -
  have inj: "inj_on (key st) (set (gc_proxy_list cl))" using keys cl by (simp add: keys_ok_def)
  have q: "q \<noteq> p \<and> q \<in> set (gc_proxy_list cl)" if "q \<in> set (gc_proxy_list cl')" for q
    using that dist by (simp add: cl'(2))
  have same: "key st' q = key st q" "table st' q = table st q" if "q \<in> set (gc_proxy_list cl')" for q
    using rest q[OF that] by (simp_all add: key_def table_def fun_eq_iff)
  have "inj_on (key st') (set (gc_proxy_list cl')) = inj_on (key st) (set (gc_proxy_list cl'))"
    by (rule inj_on_cong) (rule same)
  moreover have "inj_on (key st) (set (gc_proxy_list cl'))" using inj q by (auto intro: inj_on_subset)
  ultimately show "keys_ok st' c" by (simp add: keys_ok_def cl')
  have "find (\<lambda>q. key st' q = Some j) (gc_proxy_list cl') = find (\<lambda>q. key st q = Some j) (gc_proxy_list cl')" for j
    by (rule find_cong) (simp_all add: same)
  also have "\<dots> j = (if key st p = Some j then None else find (\<lambda>q. key st q = Some j) (gc_proxy_list cl))" for j
    unfolding cl'(2) by (rule find_remove1[OF inj dist p(1)])
  finally have f: "find (\<lambda>q. key st' q = Some j) (gc_proxy_list cl')
      = (if k = j then None else find (\<lambda>q. key st q = Some j) (gc_proxy_list cl))" for j using p(2) by simp
  have "table st' q = table st q" if "find (\<lambda>q. key st q = Some j) (gc_proxy_list cl) = Some q" "k \<noteq> j" for j q
  proof -
    from find_SomeD[OF that(1)] p(2) that(2) have "q \<noteq> p" by auto
    with rest show ?thesis by (simp add: table_def fun_eq_iff)
  qed
  note tab = this
  show "view st' c = (view st c)(k := None)"
  proof (rule ext)
    fix j
    show "view st' c j = ((view st c)(k := None)) j"
      using tab[of j] by (cases "find (\<lambda>q. key st q = Some j) (gc_proxy_list cl)") (auto simp: view_def cl'(1) cl f)
  qed
qed

section \<open>One interface of one object\<close>

definition skipped :: "string \<Rightarrow> bool" where
  "skipped interface \<longleftrightarrow> interface = introspectable_interface \<or> interface = properties_interface"

definition entry_added ::
  "string \<Rightarrow> string \<times> ditem list \<Rightarrow> (string \<times> string \<Rightarrow> (string \<Rightarrow> ditem list option) option)
     \<Rightarrow> string \<times> string \<Rightarrow> (string \<Rightarrow> ditem list option) option"
where
  "entry_added path e v =
     (if skipped (fst e) then v
      else v((path, fst e) \<mapsto> changes (dict_values (snd e))
               (case v (path, fst e) of None \<Rightarrow> Map.empty | Some m \<Rightarrow> m)))"

text \<open>The other clients, and what the client keeps.\<close>

definition keeps :: "nat \<Rightarrow> client_state \<Rightarrow> client_state \<Rightarrow> bool" where
  "keeps c st st' \<longleftrightarrow> (\<forall>d. d \<noteq> c \<longrightarrow> clients st' d = clients st d)
     \<and> (\<forall>cl. clients st c = Some cl \<longrightarrow> (\<exists>cl'. clients st' c = Some cl' \<and> gc_service cl' = gc_service cl
          \<and> gc_refs cl' = gc_refs cl \<and> gc_get_objects_call cl' = gc_get_objects_call cl
          \<and> gc_proxy_added cl' = gc_proxy_added cl \<and> gc_proxy_removed cl' = gc_proxy_removed cl))"

lemma keeps_refl [simp]: "keeps c st st"
  by (simp add: keeps_def)

lemma keeps_trans:
  assumes "keeps c s t" and "keeps c t u"
  shows "keeps c s u"
  unfolding keeps_def
proof (intro conjI allI impI)
  fix d assume "d \<noteq> c"
  with assms show "clients u d = clients s d" by (simp add: keeps_def)
next
  fix cl assume "clients s c = Some cl"
  with assms(1) obtain cl1 where "clients t c = Some cl1" and cl1: "gc_service cl1 = gc_service cl" "gc_refs cl1 = gc_refs cl"
    "gc_get_objects_call cl1 = gc_get_objects_call cl" "gc_proxy_added cl1 = gc_proxy_added cl"
    "gc_proxy_removed cl1 = gc_proxy_removed cl" unfolding keeps_def by blast
  with assms(2) show "\<exists>cl'. clients u c = Some cl' \<and> gc_service cl' = gc_service cl \<and> gc_refs cl' = gc_refs cl
      \<and> gc_get_objects_call cl' = gc_get_objects_call cl \<and> gc_proxy_added cl' = gc_proxy_added cl
      \<and> gc_proxy_removed cl' = gc_proxy_removed cl" unfolding keeps_def cl1[symmetric] by blast
qed

lemma keeps_same: "clients st' = clients st \<Longrightarrow> keeps c st st'"
  by (simp add: keeps_def)

lemma shape_client: "same_shape st st' \<Longrightarrow> client_ok E hc hp st' = client_ok E hc hp st"
  using shape_core(1)[of st st' E hc hp "{}"] shape_core(2)[of st st'] by (simp add: client_ok_def)

lemma shape_used: "same_shape st st' \<Longrightarrow> used st' = used st"
  by (simp add: same_shape_def used_def)

lemma table_of: "proxies st p = Some x \<Longrightarrow> table st p = stored_value x"
  by (simp add: table_def fun_eq_iff)

lemma update_properties_value:
  assumes E: "plenty E" and dict: "wt_item (DArray ''{sv}'' dict)" and x: "proxies st p = Some x"
  obtains st' where "update_properties E p [DArray ''{sv}'' dict] False st = Some st'" "same_shape st st'"
    "\<forall>q. q \<noteq> p \<longrightarrow> proxies st' q = proxies st q" "table st' p = changes (dict_values dict) (table st p)"
proof -
  have "case px_client x of None \<Rightarrow> None = None | Some c \<Rightarrow> if False then None \<noteq> None \<and> clients st c = None else None = None"
    by (simp split: option.split)
  from update_loop_value[OF E dict x this] obtain st' props where "update_loop E p False dict st = Some st'" "same_shape st st'"
    "proxies st' = (proxies st)(p \<mapsto> x\<lparr>px_props := props\<rparr>)"
    "stored_value (x\<lparr>px_props := props\<rparr>) = changes (dict_values dict) (stored_value x)" by blast
  with table_of[OF x] table_of[of st' p] show ?thesis by (intro that[of st']) (simp_all add: update_properties_def)
qed

lemma parse_known:
  assumes m: "mirror_ok E hc hp c st" and E: "plenty E" and cl: "clients st c = Some cl"
    and dict: "wt_item (DArray ''{sv}'' dict)" and i: "\<not> skipped i"
    and p: "p \<in> set (gc_proxy_list cl)" "key st p = Some (path, i)"
  shows "\<exists>st'. parse_properties E c path i [DArray ''{sv}'' dict] st = Some st' \<and> mirror_ok E hc hp c st'
    \<and> view st' c = entry_added path (i, dict) (view st c) \<and> used st' = used st \<and> keeps c st st'"
proof -
  from m have ok: "client_ok E hc hp st" and keys: "keys_ok st c" by (simp_all add: mirror_ok_def)
  from listed_live[OF ok cl p(1)] obtain x where x: "proxies st p = Some x" by blast
  have inj: "inj_on (key st) (set (gc_proxy_list cl))" using keys cl by (simp add: keys_ok_def)
  have look: "proxy_lookup c path i st = Some (Some p)"
    using proxy_lookup_find[OF ok cl, of path i] find_unique[OF inj p(1)] p(2) by simp
  from update_properties_value[OF E dict x] obtain st' where
    st': "update_properties E p [DArray ''{sv}'' dict] False st = Some st'" and s: "same_shape st st'"
    and q: "\<forall>q. q \<noteq> p \<longrightarrow> proxies st' q = proxies st q" and t: "table st' p = changes (dict_values dict) (table st p)" .
  have "\<forall>q. q \<noteq> p \<longrightarrow> table st' q = table st q" using q by (simp add: table_def fun_eq_iff)
  note v = view_change[OF keys cl p s this]
  have "view st c (path, i) = Some (table st p)" by (rule view_of[OF keys cl p])
  then have "view st' c = entry_added path (i, dict) (view st c)" using v(2) i t by (simp add: entry_added_def)
  moreover have "parse_properties E c path i [DArray ''{sv}'' dict] st = Some st'"
    using look st' i by (simp add: parse_properties_def skipped_def)
  moreover have "keeps c st st'" using s by (intro keeps_same) (simp add: same_shape_def)
  ultimately show ?thesis using v(1) ok shape_client[OF s] shape_used[OF s] by (simp add: mirror_ok_def)
qed

text \<open>A proxy that has just been made is listed.\<close>

lemma list_proxy:
  assumes core: "core_ok E hc hp {} st" and cl: "clients st c = Some cl" and dist: "distinct (gc_proxy_list cl)" "p \<notin> set (gc_proxy_list cl)"
    and sub: "set (gc_proxy_list cl) \<subseteq> attached st c" "p \<in> attached st c" "attached st c \<subseteq> insert p (set (gc_proxy_list cl)) \<union> getting st"
    and others: "\<forall>d y. clients st d = Some y \<longrightarrow> d \<noteq> c \<longrightarrow> distinct (gc_proxy_list y)
      \<and> set (gc_proxy_list y) \<subseteq> attached st d \<and> attached st d \<subseteq> set (gc_proxy_list y) \<union> getting st"
  shows "client_ok E hc hp (set_client c (cl\<lparr>gc_proxy_list := gc_proxy_list cl @ [p]\<rparr>) st)"
proof -
  have "core_ok E hc hp {} (set_client c (cl\<lparr>gc_proxy_list := gc_proxy_list cl @ [p]\<rparr>) st)"
    by (rule update_client[OF core cl]) (use core_client[OF core cl] in simp_all)
  moreover have "lists_ok (set_client c (cl\<lparr>gc_proxy_list := gc_proxy_list cl @ [p]\<rparr>) st)"
    unfolding lists_ok_def
  proof (intro allI impI)
    fix d y assume y: "clients (set_client c (cl\<lparr>gc_proxy_list := gc_proxy_list cl @ [p]\<rparr>) st) d = Some y"
    show "distinct (gc_proxy_list y) \<and> set (gc_proxy_list y) \<subseteq> attached (set_client c (cl\<lparr>gc_proxy_list := gc_proxy_list cl @ [p]\<rparr>) st) d
        \<and> attached (set_client c (cl\<lparr>gc_proxy_list := gc_proxy_list cl @ [p]\<rparr>) st) d
          \<subseteq> set (gc_proxy_list y) \<union> getting (set_client c (cl\<lparr>gc_proxy_list := gc_proxy_list cl @ [p]\<rparr>) st)"
    proof (cases "d = c")
      case True
      with y dist sub show ?thesis by auto
    next
      case False
      with y others show ?thesis by simp
    qed
  qed
  ultimately show ?thesis by (simp add: client_ok_def)
qed

lemma parse_unknown:
  assumes m: "mirror_ok E hc hp c st" and E: "plenty E" and cl: "clients st c = Some cl"
    and dict: "wt_item (DArray ''{sv}'' dict)" and i: "\<not> skipped i" and none: "view st c (path, i) = None"
    and fit: "proxy_fits (gc_service cl) path i" and room: "used st + 2 < 2 ^ 32"
  shows "\<exists>st'. parse_properties E c path i [DArray ''{sv}'' dict] st = Some st' \<and> mirror_ok E hc hp c st'
    \<and> view st' c = entry_added path (i, dict) (view st c) \<and> used st' \<le> used st + 2 \<and> keeps c st st'"
proof -
  from m have ok: "client_ok E hc hp st" and keys: "keys_ok st c" by (simp_all add: mirror_ok_def)
  from ok have core: "core_ok E hc hp {} st" and lists: "lists_ok st" by (simp_all add: client_ok_def)
  have look: "proxy_lookup c path i st = Some None"
    using proxy_lookup_find[OF ok cl, of path i] none cl by (simp add: view_def)
  define p where "p = next_proxy st"
  obtain w st1 where new: "proxy_new E c path i st = Some (Some p, st1)" and core1: "core_ok E hc hp {} st1"
    and c1: "clients st1 = clients st" and x1: "proxies st1 = (proxies st)(p \<mapsto> new_proxy c path i w)"
    and b1: "bare st1 = (bare st)(p \<mapsto> new_proxy c path i w)" and aw: "awaited st1 = awaited st"
    and u1: "used st \<le> used st1" "used st1 \<le> used st + 2"
  proof (rule proxy_new_ok[OF core cl fit room])
    assume "try_fails E (attempts st)"
    with E show thesis by (simp add: plenty_def)
  next
    fix w st1
    assume "proxy_new E c path i st = Some (Some (next_proxy st), st1)" "core_ok E hc hp {} st1" "clients st1 = clients st"
      "proxies st1 = (proxies st)(next_proxy st \<mapsto> new_proxy c path i w)"
      "bare st1 = (bare st)(next_proxy st \<mapsto> new_proxy c path i w)" "awaited st1 = awaited st"
      "used st \<le> used st1" "used st1 \<le> used st + 2"
    then show thesis by (intro that[of st1 w]) (simp_all add: p_def)
  qed
  have fresh: "p \<notin> attached st d" for d
    using core_proxy(1)[OF core, of p] unfolding attached_def p_def by auto
  have old: "q \<noteq> p" if "q \<in> set (gc_proxy_list y)" "clients st d = Some y" for q d y
    using lists that fresh[of d] unfolding lists_ok_def by blast
  have px: "proxies st1 p = Some (new_proxy c path i w)" by (simp add: x1)
  from update_properties_value[OF E dict px] obtain st2 where
    st2: "update_properties E p [DArray ''{sv}'' dict] False st1 = Some st2" and s: "same_shape st1 st2"
    and q2: "\<forall>q. q \<noteq> p \<longrightarrow> proxies st2 q = proxies st1 q" and t2: "table st2 p = changes (dict_values dict) (table st1 p)" .
  have emp: "table st1 p = Map.empty" using table_of[OF px] by (simp add: new_proxy_def stored_value_def fun_eq_iff)
  have c2: "clients st2 = clients st" and k2: "key st2 = key st1" and a2: "attached st2 = attached st1" and g2: "getting st2 = getting st"
    using s c1 aw same_key[OF s] shape_core(3,4)[OF s] by (simp_all add: same_shape_def getting_def)
  define t where "t = tell (gc_proxy_added cl) (\<lambda>f. ProxyAdded f p (gc_user_data cl)) st2"
  have tf: "clients t = clients st" "proxies t = proxies st2" "attached t = attached st1" "getting t = getting st"
    "key t = key st2" "table t = table st2" "used t = used st1" "core_ok E hc hp {} t"
    using c2 a2 g2 core1 shape_core(1)[OF s] shape_core(1,3,4)[OF same_shape_tell] shape_used[OF s]
    by (simp_all add: t_def key_def table_def fun_eq_iff used_def)
  define st' where "st' = set_client c (cl\<lparr>gc_proxy_list := gc_proxy_list cl @ [p]\<rparr>) t"
  have run: "parse_properties E c path i [DArray ''{sv}'' dict] st = Some st'"
    using look new st2 i cl c2 by (simp add: parse_properties_def skipped_def st'_def t_def)
  have att: "attached st1 d = (if d = c then insert p (attached st d) else attached st d)" for d
    using fresh[of d] by (auto simp: attached_def b1 new_proxy_def)
  have tcl: "clients t c = Some cl" using cl tf(1) by simp
  have "client_ok E hc hp st'"
    unfolding st'_def
  proof (rule list_proxy[OF tf(8) tcl])
    show "\<forall>d y. clients t d = Some y \<longrightarrow> d \<noteq> c \<longrightarrow> distinct (gc_proxy_list y) \<and> set (gc_proxy_list y) \<subseteq> attached t d
        \<and> attached t d \<subseteq> set (gc_proxy_list y) \<union> getting t"
      using lists unfolding lists_ok_def tf(1,3,4) att by simp
    show "p \<notin> set (gc_proxy_list cl)" using old[OF _ cl] by blast
  qed (use lists cl in \<open>auto simp: lists_ok_def tf att\<close>)
  moreover have "\<forall>q. q \<noteq> p \<longrightarrow> key t q = key st q \<and> table t q = table st q"
    using q2 x1 by (simp add: tf(5,6) key_def table_def fun_eq_iff)
  then have same: "key t q = key st q" "table t q = table st q" if "q \<in> set (gc_proxy_list y)" "clients st d = Some y" for q d y
    using old[OF that] by blast+
  have kt: "keys_ok t c"
    using keys same[OF _ cl] inj_on_cong[of "set (gc_proxy_list cl)" "key t" "key st"] by (simp add: keys_ok_def tf(1) cl)
  have vt: "view t d = view st d" for d
  proof (rule ext)
    fix j
    show "view t d j = view st d j"
    proof (cases "clients st d")
      case (Some y)
      have f: "find (\<lambda>q. key t q = Some j) (gc_proxy_list y) = find (\<lambda>q. key st q = Some j) (gc_proxy_list y)"
        by (rule find_cong) (simp_all add: same[OF _ Some])
      have "table t q = table st q" if "find (\<lambda>q. key st q = Some j) (gc_proxy_list y) = Some q" for q
        using find_SomeD[OF that] same[OF _ Some] by blast
      with f Some show ?thesis
        by (cases "find (\<lambda>q. key st q = Some j) (gc_proxy_list y)") (simp_all add: view_def tf(1))
    qed (simp add: view_def tf(1))
  qed
  have "key t p = Some (path, i)"
    unfolding tf(5) k2 by (simp add: key_def px new_proxy_def)
  moreover have "view t c (path, i) = None" by (simp add: vt none)
  ultimately have v: "keys_ok st' c" "view st' c = (view t c)((path, i) \<mapsto> table t p)"
    using view_append[OF kt tcl] by (simp_all add: st'_def)
  have "view st' c = entry_added path (i, dict) (view st c)"
    unfolding v(2) vt tf(6) t2 emp using i none by (simp add: entry_added_def)
  moreover have "keeps c st st'" using cl by (auto simp: keeps_def st'_def tf(1))
  moreover have "used st' = used st1" by (simp add: st'_def used_def tf(7)[unfolded used_def])
  ultimately show ?thesis using run \<open>client_ok E hc hp st'\<close> v(1) u1 by (intro exI[of _ st']) (simp add: mirror_ok_def)
qed

lemma parse_properties_mirror:
  assumes m: "mirror_ok E hc hp c st" and E: "plenty E" and cl: "clients st c = Some cl"
    and dict: "wt_item (DArray ''{sv}'' dict)" and fit: "\<not> skipped i \<longrightarrow> proxy_fits (gc_service cl) path i"
    and room: "used st + 2 < 2 ^ 32"
  shows "\<exists>st'. parse_properties E c path i [DArray ''{sv}'' dict] st = Some st' \<and> mirror_ok E hc hp c st'
    \<and> view st' c = entry_added path (i, dict) (view st c) \<and> used st' \<le> used st + 2 \<and> keeps c st st'"
proof (cases "skipped i")
  case True
  then have "parse_properties E c path i [DArray ''{sv}'' dict] st = Some st"
    by (auto simp: parse_properties_def skipped_def)
  with m True show ?thesis by (intro exI[of _ st]) (simp add: entry_added_def)
next
  case i: False
  show ?thesis
  proof (cases "view st c (path, i)")
    case None
    from parse_unknown[OF m E cl dict i None _ room] fit i show ?thesis by blast
  next
    case (Some t)
    with cl obtain p where p: "p \<in> set (gc_proxy_list cl)" "key st p = Some (path, i)"
      using view_None[OF cl, of "(path, i)"] by auto
    from parse_known[OF m E cl dict i p] show ?thesis by (metis le_add1)
  qed
qed

section \<open>The messages of the service\<close>

fun interfaces_of :: "ditem list \<Rightarrow> (string \<times> ditem list) list" where
  "interfaces_of (DDictEntry [Basic (DString i), DArray s dict] # entries) = (i, dict) # interfaces_of entries"
| "interfaces_of _ = []"

lemma interface_entry:
  assumes "wt_item (DArray ''{sa{sv}}'' (e # entries))"
  obtains i dict where "e = DDictEntry [Basic (DString i), DArray ''{sv}'' dict]" "wt_item (DArray ''{sv}'' dict)"
    "wt_item (DArray ''{sa{sv}}'' entries)"
proof -
  from assms have wt: "wt_item e" "item_sig e = ''{sa{sv}}''" and rest: "wt_item (DArray ''{sa{sv}}'' entries)" by simp_all
  then obtain items where e: "e = DDictEntry items" by (cases e) simp_all
  with wt(1) obtain b val where items: "items = [Basic b, val]" and val: "wt_item val"
    by (auto split: list.splits)
  from wt(2) have sig: "type_code b = CHR ''s''" "item_sig val = ''a{sv}''" by (simp_all add: e items)
  then obtain i where b: "b = DString i" by (cases b) simp_all
  from sig(2) obtain dict where "val = DArray ''{sv}'' dict" by (cases val) auto
  with val e items b rest show ?thesis by (intro that) simp_all
qed

lemma interfaces_loop_mirror:
  assumes "mirror_ok E hc hp c st" and "plenty E" and "clients st c = Some cl" and "wt_item (DArray ''{sa{sv}}'' entries)"
    and "\<forall>(i, dict)\<in>set (interfaces_of entries). \<not> skipped i \<longrightarrow> proxy_fits (gc_service cl) path i"
    and "used st + 2 * length entries < 2 ^ 32"
  shows "\<exists>st'. interfaces_loop E c path entries st = Some st' \<and> mirror_ok E hc hp c st'
    \<and> view st' c = fold (entry_added path) (interfaces_of entries) (view st c)
    \<and> used st' \<le> used st + 2 * length entries \<and> keeps c st st'"
  using assms
proof (induction entries arbitrary: st cl)
  case Nil
  then show ?case by (intro exI[of _ st]) simp
next
  case (Cons e entries)
  from interface_entry[OF Cons.prems(4)] obtain i dict where e: "e = DDictEntry [Basic (DString i), DArray ''{sv}'' dict]"
    and dict: "wt_item (DArray ''{sv}'' dict)" and wt: "wt_item (DArray ''{sa{sv}}'' entries)" .
  have fit: "\<not> skipped i \<longrightarrow> proxy_fits (gc_service cl) path i" and room: "used st + 2 < 2 ^ 32"
    using Cons.prems(5,6) by (simp_all add: e)
  from parse_properties_mirror[OF Cons.prems(1-3) dict fit room] obtain st1 where
    st1: "parse_properties E c path i [DArray ''{sv}'' dict] st = Some st1" "mirror_ok E hc hp c st1"
      "view st1 c = entry_added path (i, dict) (view st c)" "used st1 \<le> used st + 2" "keeps c st st1" by blast
  from st1(5) Cons.prems(3) obtain cl1 where cl1: "clients st1 c = Some cl1" "gc_service cl1 = gc_service cl"
    by (auto simp: keeps_def)
  have "\<forall>(i, dict)\<in>set (interfaces_of entries). \<not> skipped i \<longrightarrow> proxy_fits (gc_service cl1) path i"
    "used st1 + 2 * length entries < 2 ^ 32"
    using Cons.prems(5,6) cl1(2) st1(4) by (simp_all add: e)
  from Cons.IH[OF st1(2) Cons.prems(2) cl1(1) wt this] obtain st' where
    st': "interfaces_loop E c path entries st1 = Some st'" "mirror_ok E hc hp c st'"
    "view st' c = fold (entry_added path) (interfaces_of entries) (view st1 c)"
    "used st' \<le> used st1 + 2 * length entries" "keeps c st1 st'" by blast
  with st1 show ?case
    by (intro exI[of _ st']) (simp add: e keeps_trans[OF st1(5)])
qed

text \<open>A change of the references of a client does not show.\<close>

lemma view_refs:
  assumes "clients st c = Some x" and "gc_proxy_list x' = gc_proxy_list x"
  shows "view (set_client c x' st) = view st" and "keys_ok (set_client c x' st) d = keys_ok st d"
proof -
  have k: "key (set_client c x' st) = key st" "table (set_client c x' st) = table st"
    by (simp_all add: key_def table_def fun_eq_iff)
  show "view (set_client c x' st) = view st" using assms by (auto simp: view_def k fun_eq_iff)
  show "keys_ok (set_client c x' st) d = keys_ok st d" using assms by (auto simp: keys_ok_def k)
qed

text \<open>What is done while a function holds a reference to the client.\<close>

lemma with_reference:
  assumes m: "mirror_ok E hc hp c st" and cl: "clients st c = Some cl"
    and body: "\<And>st1. mirror_ok E (hc(c := hc c + 1)) hp c st1 \<Longrightarrow> view st1 = view st \<Longrightarrow> used st1 = used st \<Longrightarrow>
      clients st1 c = Some (cl\<lparr>gc_refs := gc_refs cl + 1\<rparr>) \<Longrightarrow> key st1 = key st \<Longrightarrow>
      \<exists>st2. f st1 = Some st2 \<and> mirror_ok E (hc(c := hc c + 1)) hp c st2 \<and> view st2 c = v \<and> used st2 \<le> n \<and> keeps c st1 st2"
  shows "\<exists>st'. Option.bind (Option.bind (g_dbus_client_ref c st) f) (g_dbus_client_unref E c) = Some st'
    \<and> mirror_ok E hc hp c st' \<and> view st' c = v \<and> used st' \<le> n \<and> keeps c st st'"
proof -
  let ?cl = "cl\<lparr>gc_refs := gc_refs cl + 1\<rparr>" and ?hc = "hc(c := hc c + 1)"
  from m have core: "core_ok E hc hp {} st" and lists: "lists_ok st" and keys: "keys_ok st c"
    by (simp_all add: mirror_ok_def client_ok_def)
  from client_ref_ok[OF core cl] have r: "g_dbus_client_ref c st = Some (set_client c ?cl st)"
    "core_ok E ?hc hp {} (set_client c ?cl st)" by blast+
  have m1: "mirror_ok E ?hc hp c (set_client c ?cl st)"
    using r(2) lists_same_client[OF lists cl, of ?cl] view_refs(2)[OF cl, of ?cl] keys by (simp add: mirror_ok_def client_ok_def)
  have k1: "key (set_client c ?cl st) = key st" by (simp add: key_def fun_eq_iff)
  from body[OF m1] view_refs(1)[OF cl, of ?cl] k1 obtain st2 where st2: "f (set_client c ?cl st) = Some st2" "mirror_ok E ?hc hp c st2"
    "view st2 c = v" "used st2 \<le> n" "keeps c (set_client c ?cl st) st2" by (auto simp: used_def)
  from st2(2) have ok2: "client_ok E ?hc hp st2" by (simp add: mirror_ok_def)
  from st2(5) obtain cl2 where cl2: "clients st2 c = Some cl2" "gc_service cl2 = gc_service cl" "gc_refs cl2 = gc_refs cl + 1"
    by (auto simp: keeps_def)
  have "0 < ?hc c" by simp
  from client_unref_ok[OF ok2 this] obtain st' where st': "g_dbus_client_unref E c st2 = Some st'"
    "client_ok E (?hc(c := ?hc c - 1)) hp st'" "used st' = used st2"
    "\<forall>x. clients st2 c = Some x \<longrightarrow> 1 < gc_refs x \<longrightarrow> st' = set_client c (x\<lparr>gc_refs := gc_refs x - 1\<rparr>) st2" by blast
  have "1 < gc_refs cl2" using core_client(1)[OF core cl] cl2(3) by simp
  with st'(4) cl2(1) have eq: "st' = set_client c (cl2\<lparr>gc_refs := gc_refs cl2 - 1\<rparr>) st2" by blast
  have "view st' = view st2" "keys_ok st' c = keys_ok st2 c"
    unfolding eq by (rule view_refs[OF cl2(1)], simp)+
  moreover have "keeps c st st'" using st2(5) cl2 cl by (auto simp: keeps_def eq)
  moreover have "?hc(c := ?hc c - 1) = hc" by simp
  ultimately show ?thesis
    using r(1) st2 st'(1,2,3) by (intro exI[of _ st']) (simp add: mirror_ok_def)
qed

lemma interfaces_added_mirror:
  assumes m: "mirror_ok E hc hp c st" and E: "plenty E" and cl: "clients st c = Some cl"
    and wt: "wt_item (DArray ''{sa{sv}}'' entries)"
    and fit: "\<forall>(i, dict)\<in>set (interfaces_of entries). \<not> skipped i \<longrightarrow> proxy_fits (gc_service cl) path i"
    and room: "used st + 2 * length entries < 2 ^ 32"
  shows "\<exists>st'. interfaces_added E c [Basic (DObjectPath path), DArray ''{sa{sv}}'' entries] st = Some st'
    \<and> mirror_ok E hc hp c st' \<and> view st' c = fold (entry_added path) (interfaces_of entries) (view st c)
    \<and> used st' \<le> used st + 2 * length entries \<and> keeps c st st'"
proof -
  have "\<exists>st'. Option.bind (Option.bind (g_dbus_client_ref c st) (parse_interfaces E c path [DArray ''{sa{sv}}'' entries]))
      (g_dbus_client_unref E c) = Some st' \<and> mirror_ok E hc hp c st'
    \<and> view st' c = fold (entry_added path) (interfaces_of entries) (view st c)
    \<and> used st' \<le> used st + 2 * length entries \<and> keeps c st st'"
  proof (rule with_reference[OF m cl])
    fix st1
    assume "mirror_ok E (hc(c := hc c + 1)) hp c st1" "view st1 = view st" "used st1 = used st"
      "clients st1 c = Some (cl\<lparr>gc_refs := gc_refs cl + 1\<rparr>)"
    with interfaces_loop_mirror[OF this(1) E this(4) wt, of path] fit room
    show "\<exists>st2. parse_interfaces E c path [DArray ''{sa{sv}}'' entries] st1 = Some st2
      \<and> mirror_ok E (hc(c := hc c + 1)) hp c st2 \<and> view st2 c = fold (entry_added path) (interfaces_of entries) (view st c)
      \<and> used st2 \<le> used st + 2 * length entries \<and> keeps c st1 st2"
      by (simp add: parse_interfaces_def)
  qed
  then show ?thesis by (simp add: interfaces_added_def bind_assoc)
qed

section \<open>Objects and interfaces disappear\<close>

lemma proxy_remove_mirror:
  assumes m: "mirror_ok E hc hp c st" and cl: "clients st c = Some cl"
  shows "\<exists>st'. proxy_remove E c path i st = Some st' \<and> mirror_ok E hc hp c st'
    \<and> view st' c = (view st c)((path, i) := None) \<and> used st' = used st \<and> keeps c st st'"
proof -
  from m have ok: "client_ok E hc hp st" and keys: "keys_ok st c" by (simp_all add: mirror_ok_def)
  from ok have core: "core_ok E hc hp {} st" and lists: "lists_ok st" by (simp_all add: client_ok_def)
  note look = proxy_lookup_find[OF ok cl, of path i]
  show ?thesis
  proof (cases "find (\<lambda>p. key st p = Some (path, i)) (gc_proxy_list cl)")
    case None
    then have "view st c (path, i) = None" by (simp add: view_def cl)
    then have "(view st c)((path, i) := None) = view st c" by (simp add: fun_upd_idem)
    with m look None cl show ?thesis by (intro exI[of _ st]) (simp add: proxy_remove_def)
  next
    case (Some p)
    from find_SomeD[OF Some] have p: "key st p = Some (path, i)" "p \<in> set (gc_proxy_list cl)" by simp_all
    from lists cl have l: "distinct (gc_proxy_list cl)" "set (gc_proxy_list cl) \<subseteq> attached st c"
      "attached st c \<subseteq> set (gc_proxy_list cl) \<union> getting st" unfolding lists_ok_def by blast+
    from listed_live[OF ok cl p(2)] obtain x where x: "proxies st p = Some x" "px_client x = Some c" .
    let ?cl = "cl\<lparr>gc_proxy_list := remove1 p (gc_proxy_list cl)\<rparr>"
    let ?st1 = "set_client c ?cl st"
    have core1: "core_ok E hc hp {} ?st1"
      by (rule update_client[OF core cl]) (use core_client[OF core cl] in simp_all)
    have "proxies ?st1 p = Some x" using x by simp
    from proxy_free_ok[OF core1 this x(2), of c] obtain st' where st': "proxy_free E p ?st1 = Some st'" "core_ok E hc hp {} st'"
      "clients st' = clients ?st1" "proxies st' = (proxies ?st1)(p := freed_proxy (hp p) x)"
      "attached st' = (\<lambda>d. attached ?st1 d - {p})" "awaited st' = awaited ?st1" "used st' = used ?st1"
      by (rule proxy_free_ok[OF core1 \<open>proxies ?st1 p = Some x\<close> x(2), of c])
    have "lists_ok st'"
      unfolding lists_ok_def
    proof (intro allI impI)
      fix d y assume y: "clients st' d = Some y"
      have g: "getting st' = getting st" by (simp add: getting_def st'(6))
      show "distinct (gc_proxy_list y) \<and> set (gc_proxy_list y) \<subseteq> attached st' d
          \<and> attached st' d \<subseteq> set (gc_proxy_list y) \<union> getting st'"
      proof (cases "d = c")
        case True
        with y l g st'(3,5) show ?thesis by auto
      next
        case False
        with attached_disjoint[of p st c d] l(2) p(2) have "p \<notin> attached st d" by auto
        then have "attached st' d = attached st d" by (simp add: st'(5))
        with False y lists g st'(3) show ?thesis unfolding lists_ok_def by simp
      qed
    qed
    with st'(2) have ok': "client_ok E hc hp st'" by (simp add: client_ok_def)
    have "clients st' = (clients st)(c \<mapsto> ?cl)" "\<forall>q. q \<noteq> p \<longrightarrow> proxies st' q = proxies st q" using st'(3,4) by simp_all
    from view_remove[OF keys cl l(1) p(2,1) this(1) _ this(2)] have v: "keys_ok st' c" "view st' c = (view st c)((path, i) := None)"
      by simp_all
    have "proxy_remove E c path i st = Some st'" using look Some cl st'(1) by (simp add: proxy_remove_def)
    moreover have "keeps c st st'" using cl st'(3) by (auto simp: keeps_def)
    moreover have "used st' = used st" using st'(7) by (simp add: used_def)
    ultimately show ?thesis using ok' v by (intro exI[of _ st']) (simp add: mirror_ok_def)
  qed
qed

definition removed :: "string \<Rightarrow> string list \<Rightarrow> (string \<times> string \<Rightarrow> 'v option) \<Rightarrow> string \<times> string \<Rightarrow> 'v option" where
  "removed path is v = fold (\<lambda>i v. v((path, i) := None)) is v"

lemma remove_loop_mirror:
  assumes "mirror_ok E hc hp c st" and "clients st c = Some cl" and "wt_item (DArray ''s'' names)"
  shows "\<exists>st'. remove_loop E c path names st = Some st' \<and> mirror_ok E hc hp c st'
    \<and> view st' c = removed path (strings_of names) (view st c) \<and> used st' = used st \<and> keeps c st st'"
  using assms
proof (induction names arbitrary: st cl)
  case Nil
  then show ?case by (intro exI[of _ st]) (simp add: removed_def)
next
  case (Cons e names)
  from ss_entry[OF Cons.prems(3)] obtain i where e: "e = Basic (DString i)" and names: "wt_item (DArray ''s'' names)" .
  from proxy_remove_mirror[OF Cons.prems(1,2), of path i] obtain st1 where st1: "proxy_remove E c path i st = Some st1"
    "mirror_ok E hc hp c st1" "view st1 c = (view st c)((path, i) := None)" "used st1 = used st" "keeps c st st1" by blast
  from st1(5) Cons.prems(2) obtain cl1 where "clients st1 c = Some cl1" by (auto simp: keeps_def)
  from Cons.IH[OF st1(2) this names] obtain st' where "remove_loop E c path names st1 = Some st'" "mirror_ok E hc hp c st'"
    "view st' c = removed path (strings_of names) (view st1 c)" "used st' = used st1" "keeps c st1 st'" by blast
  with st1 show ?case by (intro exI[of _ st']) (simp add: e removed_def keeps_trans[OF st1(5)])
qed

lemma interfaces_removed_mirror:
  assumes m: "mirror_ok E hc hp c st" and cl: "clients st c = Some cl" and wt: "wt_item (DArray ''s'' names)"
  shows "\<exists>st'. interfaces_removed E c [Basic (DObjectPath path), DArray ''s'' names] st = Some st'
    \<and> mirror_ok E hc hp c st' \<and> view st' c = removed path (strings_of names) (view st c)
    \<and> used st' \<le> used st \<and> keeps c st st'"
proof -
  have "\<exists>st'. Option.bind (Option.bind (g_dbus_client_ref c st) (remove_loop E c path names))
      (g_dbus_client_unref E c) = Some st' \<and> mirror_ok E hc hp c st'
    \<and> view st' c = removed path (strings_of names) (view st c) \<and> used st' \<le> used st \<and> keeps c st st'"
  proof (rule with_reference[OF m cl])
    fix st1
    assume "mirror_ok E (hc(c := hc c + 1)) hp c st1" "view st1 = view st" "used st1 = used st"
      "clients st1 c = Some (cl\<lparr>gc_refs := gc_refs cl + 1\<rparr>)"
    with remove_loop_mirror[OF this(1,4) wt, of path]
    show "\<exists>st2. remove_loop E c path names st1 = Some st2 \<and> mirror_ok E (hc(c := hc c + 1)) hp c st2
      \<and> view st2 c = removed path (strings_of names) (view st c) \<and> used st2 \<le> used st \<and> keeps c st1 st2"
      by fastforce
  qed
  then show ?thesis by (simp add: interfaces_removed_def bind_assoc)
qed

section \<open>Properties change\<close>

lemma properties_changed_mirror:
  assumes m: "mirror_ok E hc hp c st" and E: "plenty E" and cl: "clients st c = Some cl"
    and p: "p \<in> set (gc_proxy_list cl)" "key st p = Some (path, i)"
    and dict: "wt_item (DArray ''{sv}'' dict)" and names: "wt_item (DArray ''s'' names)"
  shows "\<exists>st'. properties_changed E p [Basic (DString i), DArray ''{sv}'' dict, DArray ''s'' names] st = Some st'
    \<and> mirror_ok E hc hp c st' \<and> used st' \<le> used st \<and> keeps c st st'
    \<and> view st' c = (view st c)((path, i) \<mapsto> removals (strings_of names) (changes (dict_values dict) (table st p)))"
proof -
  from m have ok: "client_ok E hc hp st" and keys: "keys_ok st c" by (simp_all add: mirror_ok_def)
  from listed_live[OF ok cl p(1)] obtain x where x: "proxies st p = Some x" "px_client x = Some c" .
  from properties_changed_value[OF E x cl dict names, of i] obtain st' props where
    st': "properties_changed E p [Basic (DString i), DArray ''{sv}'' dict, DArray ''s'' names] st = Some st'"
    and s: "same_shape st st'" and x': "proxies st' = (proxies st)(p \<mapsto> x\<lparr>px_props := props\<rparr>)"
    and t: "table st' p = removals (strings_of names) (changes (dict_values dict) (table st p))" by blast
  have "\<forall>q. q \<noteq> p \<longrightarrow> table st' q = table st q" by (simp add: table_def x' fun_eq_iff)
  note v = view_change[OF keys cl p s this]
  have "keeps c st st'" using s by (intro keeps_same) (simp add: same_shape_def)
  with st' v ok t shape_client[OF s] shape_used[OF s] show ?thesis by (intro exI[of _ st']) (simp add: mirror_ok_def)
qed

end
