(* ===== verification/Gdbus_Client_Run.thy ===== *)
theory Gdbus_Client_Run
  imports Gdbus_Client_View
begin

text \<open>
  The life of a client of \<open>gdbus/client.c\<close>: the reply to GetManagedObjects, the service that goes
  and comes back, and the refinement that ties every sequence of messages to what they say.
\<close>

section \<open>Pending calls beside the work\<close>

text \<open>What the messages of a service make the code do does not depend on the pending calls.\<close>

definition waiting :: "(nat \<times> reply_to) list \<Rightarrow> client_state \<Rightarrow> client_state" where
  "waiting A st = st\<lparr>awaited := A\<rparr>"

lemma waiting_fields [simp]:
  "clients (waiting A st) = clients st" "proxies (waiting A st) = proxies st" "registry (waiting A st) = registry st"
  "next_proxy (waiting A st) = next_proxy st" "next_client (waiting A st) = next_client st" "attempts (waiting A st) = attempts st"
  "awaited (waiting A st) = A" "next_call (waiting A st) = next_call st" "client_filters (waiting A st) = client_filters st"
  "bare (waiting A st) = bare st" "waiting B (waiting A st) = waiting B st" "waiting (awaited st) st = st"
  by (simp_all add: waiting_def bare_def fun_eq_iff)

lemma waiting_moves [simp]:
  "set_proxy p x (waiting A st) = waiting A (set_proxy p x st)"
  "set_client c y (waiting A st) = waiting A (set_client c y st)"
  "tell f how (waiting A st) = waiting A (tell f how st)"
  by (cases st; simp add: set_proxy_def set_client_def tell_def waiting_def split: option.split)+

lemma try_new_waiting: "try_new E (waiting A st) = apsnd (waiting A) (try_new E st)"
  by (cases st) (simp add: try_new_def waiting_def)

lemma prop_entry_update_waiting:
  "prop_entry_update E prop iter (waiting A st) = apsnd (waiting A) (prop_entry_update E prop iter st)"
  by (simp add: prop_entry_update_def try_new_waiting split_beta Let_def)

lemma prop_entry_new_waiting:
  "prop_entry_new E iter (waiting A st) = apsnd (waiting A) (prop_entry_new E iter st)"
  by (simp add: prop_entry_new_def try_new_waiting prop_entry_update_waiting split_beta Let_def)

lemma store_entry_waiting:
  "store_entry E e val (waiting A st) = apsnd (waiting A) (store_entry E e val st)"
  by (cases e) (simp_all add: store_entry_def prop_entry_update_waiting prop_entry_new_waiting split_beta Let_def)

lemma tell_changed_waiting:
  "tell_changed c p name val (waiting A st) = map_option (waiting A) (tell_changed c p name val st)"
  by (cases "clients st c") (simp_all add: tell_changed_def)

lemma add_property_waiting:
  "add_property E p name iter send (waiting A st) = map_option (waiting A) (add_property E p name iter send st)"
  by (cases "proxies st p"; cases "variant_at iter")
    (simp_all add: add_property_def store_entry_waiting tell_changed_waiting split_beta Let_def split: option.split)

lemma map_option_bind_waiting:
  assumes "\<And>s. g (waiting A s) = map_option (waiting A) (g s)"
  shows "Option.bind (map_option (waiting A) m) g = map_option (waiting A) (Option.bind m g)"
  using assms by (cases m) simp_all

lemma update_loop_waiting:
  "update_loop E p send dict (waiting A st) = map_option (waiting A) (update_loop E p send dict st)"
  by (induction E p send dict st rule: update_loop.induct)
    (simp_all add: add_property_waiting split: option.split, (fastforce split: bind_splits)?)

lemma update_properties_waiting:
  "update_properties E p iter send (waiting A st) = map_option (waiting A) (update_properties E p iter send st)"
  by (simp add: update_properties_def update_loop_waiting split: option.split)

lemma lookup_loop_waiting: "lookup_loop path i ps (waiting A st) = lookup_loop path i ps st"
  by (induction ps) (simp_all split: Option.bind_split)

lemma proxy_ref_waiting: "g_dbus_proxy_ref p (waiting A st) = map_option (waiting A) (g_dbus_proxy_ref p st)"
  by (cases "proxies st p") (simp_all add: g_dbus_proxy_ref_def)

lemma next_waiting:
  "(waiting A st)\<lparr>next_proxy := n, registry := w\<rparr> = waiting A (st\<lparr>next_proxy := n, registry := w\<rparr>)"
  by (cases st) (simp add: waiting_def)

lemma proxy_new_waiting:
  "proxy_new E c path i (waiting A st) = map_option (apsnd (waiting A)) (proxy_new E c path i st)"
proof -
  obtain n s1 where new: "try_new E st = (n, s1)" by (cases "try_new E st")
  have wait: "try_new E (waiting A st) = (n, waiting A s1)" by (simp add: try_new_waiting new)
  have there: "proxies (set_proxy p x s) p = Some x" for p x s by (simp add: set_proxy_def)
  show ?thesis
  proof (cases "clients st c")
    case (Some cl)
    then show ?thesis
      by (cases "g_dbus_add_properties_watch (watching E) (gc_conn cl) (Some (gc_service cl)) (Some path) (Some i)
          (Some properties_changed_fn) (next_proxy st) None (registry st)")
        (auto simp: proxy_new_def Let_def new wait next_waiting proxy_ref_waiting g_dbus_proxy_ref_def there)
  qed (simp add: proxy_new_def Let_def new wait)
qed

lemma parse_properties_waiting:
  "parse_properties E c path i iter (waiting A st) = map_option (waiting A) (parse_properties E c path i iter st)"
proof (cases "proxy_lookup c path i st")
  case None
  then show ?thesis by (simp add: parse_properties_def proxy_lookup_def lookup_loop_waiting)
next
  case (Some found)
  have look: "proxy_lookup c path i (waiting A st) = Some found" using Some by (simp add: proxy_lookup_def lookup_loop_waiting)
  show ?thesis
    using Some look
    by (auto simp: parse_properties_def update_properties_waiting proxy_new_waiting split: option.split Option.bind_splits)
qed

lemma interfaces_loop_waiting:
  "interfaces_loop E c path dict (waiting A st) = map_option (waiting A) (interfaces_loop E c path dict st)"
  by (induction E c path dict st rule: interfaces_loop.induct)
    (simp_all add: parse_properties_waiting split: option.split, (fastforce split: bind_splits)?)

lemma parse_interfaces_waiting:
  "parse_interfaces E c path iter (waiting A st) = map_option (waiting A) (parse_interfaces E c path iter st)"
  by (simp add: parse_interfaces_def interfaces_loop_waiting split: option.split)

lemma objects_loop_waiting:
  "objects_loop E c dict (waiting A st) = map_option (waiting A) (objects_loop E c dict st)"
  by (induction E c dict st rule: objects_loop.induct)
    (simp_all add: parse_interfaces_waiting split: option.split, (fastforce split: bind_splits)?)

section \<open>All objects at once\<close>

fun objects_of :: "ditem list \<Rightarrow> (string \<times> ditem list) list" where
  "objects_of (DDictEntry [Basic (DObjectPath path), DArray s entries] # objs) = (path, entries) # objects_of objs"
| "objects_of _ = []"

definition object_added ::
  "string \<times> ditem list \<Rightarrow> (string \<times> string \<Rightarrow> (string \<Rightarrow> ditem list option) option)
     \<Rightarrow> string \<times> string \<Rightarrow> (string \<Rightarrow> ditem list option) option"
where
  "object_added obj v = fold (entry_added (fst obj)) (interfaces_of (snd obj)) v"

definition object_fits :: "string \<Rightarrow> string \<times> ditem list \<Rightarrow> bool" where
  "object_fits service obj \<longleftrightarrow>
     (\<forall>(i, dict)\<in>set (interfaces_of (snd obj)). \<not> skipped i \<longrightarrow> proxy_fits service (fst obj) i)"

definition object_ids :: "ditem list \<Rightarrow> nat" where
  "object_ids objs = sum_list (map (\<lambda>obj. 2 * length (snd obj)) (objects_of objs))"

lemma object_entry:
  assumes "wt_item (DArray ''{oa{sa{sv}}}'' (e # objs))"
  obtains path entries where "e = DDictEntry [Basic (DObjectPath path), DArray ''{sa{sv}}'' entries]"
    "wt_item (DArray ''{sa{sv}}'' entries)" "wt_item (DArray ''{oa{sa{sv}}}'' objs)"
proof -
  from assms have wt: "wt_item e" "item_sig e = ''{oa{sa{sv}}}''" and rest: "wt_item (DArray ''{oa{sa{sv}}}'' objs)" by simp_all
  then obtain items where e: "e = DDictEntry items" by (cases e) simp_all
  with wt(1) obtain b val where items: "items = [Basic b, val]" and val: "wt_item val"
    by (auto split: list.splits)
  from wt(2) have sig: "type_code b = CHR ''o''" "item_sig val = ''a{sa{sv}}''" by (simp_all add: e items)
  then obtain path where b: "b = DObjectPath path" by (cases b) simp_all
  from sig(2) obtain entries where "val = DArray ''{sa{sv}}'' entries" by (cases val) auto
  with val e items b rest show ?thesis by (intro that) simp_all
qed

lemma objects_loop_mirror:
  assumes "mirror_ok E hc hp c st" and "plenty E" and "clients st c = Some cl" and "wt_item (DArray ''{oa{sa{sv}}}'' objs)"
    and "\<forall>obj\<in>set (objects_of objs). object_fits (gc_service cl) obj" and "used st + object_ids objs < 2 ^ 32"
  shows "\<exists>st'. objects_loop E c objs st = Some st' \<and> mirror_ok E hc hp c st'
    \<and> view st' c = fold object_added (objects_of objs) (view st c)
    \<and> used st' \<le> used st + object_ids objs \<and> keeps c st st'"
  using assms
proof (induction objs arbitrary: st cl)
  case Nil
  then show ?case by (intro exI[of _ st]) simp
next
  case (Cons e objs)
  from object_entry[OF Cons.prems(4)] obtain path entries where
    e: "e = DDictEntry [Basic (DObjectPath path), DArray ''{sa{sv}}'' entries]"
    and wt: "wt_item (DArray ''{sa{sv}}'' entries)" "wt_item (DArray ''{oa{sa{sv}}}'' objs)" .
  have ids: "object_ids (e # objs) = 2 * length entries + object_ids objs" by (simp add: e object_ids_def)
  have fit: "\<forall>(i, dict)\<in>set (interfaces_of entries). \<not> skipped i \<longrightarrow> proxy_fits (gc_service cl) path i"
    and room: "used st + 2 * length entries < 2 ^ 32"
    using Cons.prems(5,6) ids by (simp_all add: e object_fits_def)
  from interfaces_loop_mirror[OF Cons.prems(1-3) wt(1) fit room] obtain st1 where
    st1: "interfaces_loop E c path entries st = Some st1" "mirror_ok E hc hp c st1"
      "view st1 c = fold (entry_added path) (interfaces_of entries) (view st c)"
      "used st1 \<le> used st + 2 * length entries" "keeps c st st1" by blast
  from st1(5) Cons.prems(3) obtain cl1 where cl1: "clients st1 c = Some cl1" "gc_service cl1 = gc_service cl"
    by (auto simp: keeps_def)
  have "\<forall>obj\<in>set (objects_of objs). object_fits (gc_service cl1) obj" "used st1 + object_ids objs < 2 ^ 32"
    using Cons.prems(5,6) cl1(2) st1(4) ids by (simp_all add: e)
  from Cons.IH[OF st1(2) Cons.prems(2) cl1(1) wt(2) this] obtain st' where
    st': "objects_loop E c objs st1 = Some st'" "mirror_ok E hc hp c st'"
    "view st' c = fold object_added (objects_of objs) (view st1 c)"
    "used st' \<le> used st1 + object_ids objs" "keeps c st1 st'" by blast
  with st1 ids show ?case
    by (intro exI[of _ st']) (simp add: e parse_interfaces_def object_added_def[of "(path, entries)"] keeps_trans[OF st1(5)])
qed

text \<open>A client that changes only its pending call keeps its filter and its watches.\<close>

lemma same_filter_and_watches:
  assumes x: "clients st c = Some x" and st': "clients st' = (clients st)(c \<mapsto> x\<lparr>gc_get_objects_call := call\<rparr>)"
    and same: "client_filters st' = client_filters st" "bare st' = bare st"
  shows "filters_ok {} st' = filters_ok {} st" and "owned st' = owned st"
proof -
  let ?x' = "x\<lparr>gc_get_objects_call := call\<rparr>"
  have "(\<exists>y. ((clients st)(c \<mapsto> ?x')) d = Some y \<and> v = gc_conn y) \<longleftrightarrow> (\<exists>y. clients st d = Some y \<and> v = gc_conn y)" for v d
    using x by (cases "d = c") simp_all
  then have "{(gc_conn y, d) |d y. ((clients st)(c \<mapsto> ?x')) d = Some y \<and> d \<notin> {}}
      = {(gc_conn y, d) |d y. clients st d = Some y \<and> d \<notin> {}}" by blast
  then show "filters_ok {} st' = filters_ok {} st" unfolding filters_ok_def st' same by simp
  have "client_watches c ?x' = client_watches c x" by (simp add: client_watches_def)
  then have "(\<exists>d y. ((clients st)(c \<mapsto> ?x')) d = Some y \<and> cb \<in> client_watches d y)
    \<longleftrightarrow> (\<exists>d y. clients st d = Some y \<and> cb \<in> client_watches d y)" for cb
    using x by (metis fun_upd_apply option.inject)
  then show "owned st' = owned st" unfolding owned_def st' same by simp
qed

text \<open>The pending call of a client is over.\<close>

definition others :: "nat \<Rightarrow> client_state \<Rightarrow> (nat \<times> reply_to) list" where
  "others i st = filter (\<lambda>(j, _). j \<noteq> i) (awaited st)"

definition reply_taken :: "nat \<Rightarrow> gclient \<Rightarrow> nat \<Rightarrow> client_state \<Rightarrow> client_state" where
  "reply_taken c x i st = set_client c (x\<lparr>gc_get_objects_call := None\<rparr>) (waiting (others i st) st)"

lemma reply_taken_ok:
  assumes ok: "client_ok E hc hp st" and x: "clients st c = Some x" and call: "gc_get_objects_call x = Some i"
  shows "client_ok E hc hp (reply_taken c x i st)"
proof -
  let ?A = "awaited st" and ?st' = "reply_taken c x i st" and ?x' = "x\<lparr>gc_get_objects_call := None\<rparr>"
  from ok have core: "core_ok E hc hp {} st" and lists: "lists_ok st" by (simp_all add: client_ok_def)
  have co: "distinct (map fst ?A)" "\<forall>(i, r)\<in>set ?A. i < next_call st" "\<forall>p\<in>getting st. p < next_proxy st"
    "\<And>i d. (i, ObjectsReply d) \<in> set ?A \<longleftrightarrow> (\<exists>y. clients st d = Some y \<and> gc_get_objects_call y = Some i)"
    using core_parts(3)[OF core] by (simp_all add: calls_ok_def)
  have f: "clients ?st' = (clients st)(c \<mapsto> ?x')" "bare ?st' = bare st" "attached ?st' = attached st" "registry ?st' = registry st"
    "awaited ?st' = others i st" "next_call ?st' = next_call st" "next_client ?st' = next_client st" "next_proxy ?st' = next_proxy st"
    "client_filters ?st' = client_filters st"
    by (simp_all add: reply_taken_def attached_def fun_eq_iff)
  have it: "(i, ObjectsReply c) \<in> set ?A" using co(4)[of i c] x call by blast
  have mem: "(j, r) \<in> set (others i st) \<longleftrightarrow> (j, r) \<in> set ?A \<and> r \<noteq> ObjectsReply c" for j r
  proof (cases "j = i")
    case True
    with it co(1) have "(j, r) \<in> set ?A \<Longrightarrow> r = ObjectsReply c" by (metis eq_key_imp_eq_value)
    with True show ?thesis by (auto simp: others_def)
  next
    case False
    with co(4)[of j c] x call have "(j, ObjectsReply c) \<notin> set ?A" by auto
    with False show ?thesis by (auto simp: others_def)
  qed
  have g: "getting ?st' = getting st" using mem by (auto simp: getting_def image_iff f)
  have ga: "getalls d ?st' \<le> getalls d st" for d
  proof -
    have "asks_for ?st' d = asks_for st d" by (rule ext) (rule asks_for_cong, simp add: f)
    moreover have "length (filter P (filter Q A)) \<le> length (filter P A)" for P Q and A :: "(nat \<times> reply_to) list"
      by (induction A) auto
    ultimately show ?thesis by (simp add: getalls_def f others_def)
  qed
  have "clients_ok hc {} ?st'"
    using core_parts(1)[OF core] x unfolding clients_ok_def
    by (auto simp: f intro: order_trans[OF add_left_mono[OF ga]])
  moreover have "proxies_ok hp ?st'"
    using core_parts(2)[OF core] x proxies_ok_cong[of ?st' st hp] by (simp add: f)
  moreover have "calls_ok {} ?st'"
  proof -
    have "distinct (map fst (others i st))" using co(1) by (simp add: others_def distinct_map_filter)
    moreover have "(j, ObjectsReply d) \<in> set (others i st)
        \<longleftrightarrow> (\<exists>y. ((clients st)(c \<mapsto> ?x')) d = Some y \<and> gc_get_objects_call y = Some j)" for j d
      using mem[of j "ObjectsReply d"] co(4)[of j d] by auto
    moreover have "\<forall>(j, r)\<in>set (others i st). j < next_call st" using co(2) mem by auto
    ultimately show ?thesis using co(3) g by (simp add: calls_ok_def f)
  qed
  moreover have "filters_ok {} ?st'" "owned ?st' = owned st"
    using same_filter_and_watches[OF x f(1,9,2)] core_parts(4)[OF core] by simp_all
  ultimately have "core_ok E hc hp {} ?st'"
    using core_parts(5)[OF core] by (simp add: core_ok_def watches_ok_def f)
  moreover have "lists_ok ?st'" using lists x by (auto simp: lists_ok_def f g)
  ultimately show ?thesis by (simp add: client_ok_def)
qed

text \<open>What the client keeps over everything that may happen to its service.\<close>

definition lasts :: "nat \<Rightarrow> bool \<Rightarrow> client_state \<Rightarrow> client_state \<Rightarrow> bool" where
  "lasts c call st st' \<longleftrightarrow> (\<forall>cl. clients st c = Some cl \<longrightarrow> (\<exists>cl'. clients st' c = Some cl' \<and> gc_service cl' = gc_service cl
     \<and> gc_proxy_added cl' = gc_proxy_added cl \<and> gc_proxy_removed cl' = gc_proxy_removed cl
     \<and> (gc_get_objects_call cl' \<noteq> None) = call))"

lemma with_reply:
  assumes m: "mirror_ok E hc hp c st" and cl: "clients st c = Some cl" and call: "gc_get_objects_call cl = Some i"
    and commutes: "\<And>A s. f (waiting A s) = map_option (waiting A) (f s)"
    and body: "\<And>st1. mirror_ok E (hc(c := hc c + 1)) hp c st1 \<Longrightarrow> view st1 = view st \<Longrightarrow> used st1 = used st \<Longrightarrow>
      clients st1 c = Some (cl\<lparr>gc_refs := gc_refs cl + 1\<rparr>) \<Longrightarrow>
      \<exists>st2. f st1 = Some st2 \<and> mirror_ok E (hc(c := hc c + 1)) hp c st2 \<and> view st2 c = v \<and> used st2 \<le> n \<and> keeps c st1 st2"
  shows "\<exists>st'. do {
      st1 \<leftarrow> g_dbus_client_ref c (waiting (others i st) st);
      st2 \<leftarrow> f st1;
      y \<leftarrow> clients st2 c;
      g_dbus_client_unref E c (set_client c (y\<lparr>gc_get_objects_call := None\<rparr>) st2)
    } = Some st' \<and> mirror_ok E hc hp c st' \<and> view st' c = v \<and> used st' \<le> n \<and> lasts c False st st'"
proof -
  let ?cl = "cl\<lparr>gc_refs := gc_refs cl + 1\<rparr>" and ?hc = "hc(c := hc c + 1)"
  let ?st1 = "set_client c ?cl st"
  from m have core: "core_ok E hc hp {} st" and lists: "lists_ok st" and keys: "keys_ok st c"
    by (simp_all add: mirror_ok_def client_ok_def)
  have "core_ok E ?hc hp {} ?st1"
    by (rule update_client[OF core cl]) (use core_client[OF core cl] in simp_all)
  then have m1: "mirror_ok E ?hc hp c ?st1"
    using lists_same_client[OF lists cl, of ?cl] view_refs(2)[OF cl, of ?cl] keys by (simp add: mirror_ok_def client_ok_def)
  from body[OF m1] view_refs(1)[OF cl, of ?cl] obtain st2 where st2: "f ?st1 = Some st2" "mirror_ok E ?hc hp c st2"
    "view st2 c = v" "used st2 \<le> n" "keeps c ?st1 st2" by (auto simp: used_def)
  from st2(2) have ok2: "client_ok E ?hc hp st2" and keys2: "keys_ok st2 c" by (simp_all add: mirror_ok_def)
  from st2(5) obtain y where y: "clients st2 c = Some y" "gc_service y = gc_service cl" "gc_refs y = gc_refs cl + 1"
    "gc_get_objects_call y = Some i" "gc_proxy_added y = gc_proxy_added cl" "gc_proxy_removed y = gc_proxy_removed cl"
    using call by (auto simp: keeps_def)
  have "Some st2 = map_option (waiting (awaited st)) (Some st2)"
    using commutes[of "awaited st" ?st1] st2(1) waiting_fields(12)[of ?st1] by simp
  then have aw: "awaited st2 = awaited st" by (metis option.inject option.simps(9) waiting_fields(7))
  have run: "f (waiting (others i st) ?st1) = Some (waiting (others i st) st2)" using commutes st2(1) by simp
  define st3 where "st3 = reply_taken c y i st2"
  have st3: "set_client c (y\<lparr>gc_get_objects_call := None\<rparr>) (waiting (others i st) st2) = st3"
    by (simp add: st3_def reply_taken_def others_def aw)
  have ok3: "client_ok E ?hc hp st3" unfolding st3_def by (rule reply_taken_ok[OF ok2 y(1,4)])
  have y3: "clients st3 c = Some (y\<lparr>gc_get_objects_call := None\<rparr>)" by (simp add: st3_def reply_taken_def)
  have kt: "key (waiting A s) = key s" "table (waiting A s) = table s" for A s
    by (simp_all add: key_def table_def fun_eq_iff)
  have "view (waiting A s) = view s" "keys_ok (waiting A s) d = keys_ok s d" for A s d
    by (simp_all add: view_def[abs_def] keys_ok_def kt)
  then have v3: "view st3 = view st2" "keys_ok st3 c = keys_ok st2 c"
    using view_refs[of "waiting (others i st2) st2" c y] y(1) by (simp_all add: st3_def reply_taken_def)
  have u3: "used st3 = used st2" by (simp add: st3_def reply_taken_def used_def)
  have "0 < ?hc c" by simp
  from client_unref_ok[OF ok3 this] obtain st' where st': "g_dbus_client_unref E c st3 = Some st'"
    "client_ok E (?hc(c := ?hc c - 1)) hp st'" "used st' = used st3"
    "\<forall>x. clients st3 c = Some x \<longrightarrow> 1 < gc_refs x \<longrightarrow> st' = set_client c (x\<lparr>gc_refs := gc_refs x - 1\<rparr>) st3" by blast
  let ?y = "y\<lparr>gc_get_objects_call := None, gc_refs := gc_refs y - 1\<rparr>"
  have "1 < gc_refs y" using core_client(1)[OF core cl] y(3) by simp
  with st'(4) y3 have eq: "st' = set_client c ?y st3" by auto
  have v': "view st' = view st3" "keys_ok st' c = keys_ok st3 c"
    unfolding eq by (rule view_refs[OF y3], simp)+
  have "lasts c False st st'" using y cl by (simp add: lasts_def eq)
  moreover have "?hc(c := ?hc c - 1) = hc" by simp
  moreover have "g_dbus_client_ref c (waiting (others i st) st) = Some (waiting (others i st) ?st1)"
    using cl by (simp add: g_dbus_client_ref_def)
  ultimately show ?thesis
    using run y(1) st3 st2(3,4) st'(1-3) v' v3 u3 keys2 by (intro exI[of _ st']) (simp add: mirror_ok_def)
qed

definition objects_reply :: "ditem list option \<Rightarrow> dmessage" where
  "objects_reply r =
     (case r of
        None \<Rightarrow> \<lparr>msg_error = True, msg_body = []\<rparr>
      | Some objs \<Rightarrow> \<lparr>msg_error = False, msg_body = [DArray ''{oa{sa{sv}}}'' objs]\<rparr>)"

lemma objects_reply_mirror:
  assumes m: "mirror_ok E hc hp c st" and E: "plenty E" and cl: "clients st c = Some cl" and call: "gc_get_objects_call cl = Some i"
    and wt: "\<forall>objs. r = Some objs \<longrightarrow> wt_item (DArray ''{oa{sa{sv}}}'' objs)
      \<and> (\<forall>obj\<in>set (objects_of objs). object_fits (gc_service cl) obj) \<and> used st + object_ids objs < 2 ^ 32"
  shows "\<exists>st'. reply_arrives E i (objects_reply r) st = Some st' \<and> mirror_ok E hc hp c st'
    \<and> view st' c = (case r of None \<Rightarrow> view st c | Some objs \<Rightarrow> fold object_added (objects_of objs) (view st c))
    \<and> used st' \<le> used st + (case r of None \<Rightarrow> 0 | Some objs \<Rightarrow> object_ids objs) \<and> lasts c False st st'"
proof -
  let ?f = "case r of None \<Rightarrow> Some | Some objs \<Rightarrow> objects_loop E c objs"
  have "(i, ObjectsReply c) \<in> set (awaited st)" and "distinct (map fst (awaited st))"
    using m cl call core_parts(3)[of E hc hp "{}" st] by (auto simp: mirror_ok_def client_ok_def calls_ok_def)
  then have "map_of (awaited st) i = Some (ObjectsReply c)" by simp
  then have "reply_arrives E i (objects_reply r) st = do {
      st1 \<leftarrow> g_dbus_client_ref c (waiting (others i st) st);
      st2 \<leftarrow> ?f st1;
      y \<leftarrow> clients st2 c;
      g_dbus_client_unref E c (set_client c (y\<lparr>gc_get_objects_call := None\<rparr>) st2)
    }"
    by (simp add: reply_arrives_def run_reply_def get_managed_objects_reply_def objects_reply_def parse_managed_objects_def
        waiting_def others_def split: option.split)
  moreover have "\<exists>st'. do {
      st1 \<leftarrow> g_dbus_client_ref c (waiting (others i st) st);
      st2 \<leftarrow> ?f st1;
      y \<leftarrow> clients st2 c;
      g_dbus_client_unref E c (set_client c (y\<lparr>gc_get_objects_call := None\<rparr>) st2)
    } = Some st' \<and> mirror_ok E hc hp c st'
    \<and> view st' c = (case r of None \<Rightarrow> view st c | Some objs \<Rightarrow> fold object_added (objects_of objs) (view st c))
    \<and> used st' \<le> used st + (case r of None \<Rightarrow> 0 | Some objs \<Rightarrow> object_ids objs) \<and> lasts c False st st'"
  proof (rule with_reply[OF m cl call])
    show "?f (waiting A s) = map_option (waiting A) (?f s)" for A s
      by (simp add: objects_loop_waiting split: option.split)
  next
    fix st1
    assume "mirror_ok E (hc(c := hc c + 1)) hp c st1" "view st1 = view st" "used st1 = used st"
      "clients st1 c = Some (cl\<lparr>gc_refs := gc_refs cl + 1\<rparr>)"
    with objects_loop_mirror[OF this(1) E this(4)] wt
    show "\<exists>st2. ?f st1 = Some st2 \<and> mirror_ok E (hc(c := hc c + 1)) hp c st2
      \<and> view st2 c = (case r of None \<Rightarrow> view st c | Some objs \<Rightarrow> fold object_added (objects_of objs) (view st c))
      \<and> used st2 \<le> used st + (case r of None \<Rightarrow> 0 | Some objs \<Rightarrow> object_ids objs) \<and> keeps c st1 st2"
      by (cases r) simp_all
  qed
  ultimately show ?thesis by simp
qed

section \<open>The service goes and comes back\<close>

lemma service_disconnect_mirror:
  assumes m: "mirror_ok E hc hp c st" and cl: "clients st c = Some cl"
  shows "\<exists>st'. service_disconnect E c st = Some st' \<and> mirror_ok E hc hp c st' \<and> view st' c = Map.empty
    \<and> used st' = used st \<and> lasts c (gc_get_objects_call cl \<noteq> None) st st'"
proof -
  from m have "client_ok E hc hp st" by (simp add: mirror_ok_def)
  from service_disconnect_ok[OF this cl] obtain st' where st': "service_disconnect E c st = Some st'" "client_ok E hc hp st'"
    "clients st' = (clients st)(c \<mapsto> cl\<lparr>gc_proxy_list := []\<rparr>)" "used st' = used st" .
  then show ?thesis using cl
    by (intro exI[of _ st']) (simp add: mirror_ok_def keys_ok_def view_def lasts_def fun_eq_iff)
qed

lemma objects_asked_ok:
  assumes ok: "client_ok E hc hp st" and x: "clients st c = Some x" and call: "gc_get_objects_call x = None"
  shows "client_ok E hc hp (await (ObjectsReply c) (set_client c (x\<lparr>gc_get_objects_call := Some (next_call st)\<rparr>) st))"
proof -
  let ?x' = "x\<lparr>gc_get_objects_call := Some (next_call st)\<rparr>"
  let ?st' = "await (ObjectsReply c) (set_client c ?x' st)"
  from ok have core: "core_ok E hc hp {} st" and lists: "lists_ok st" by (simp_all add: client_ok_def)
  have co: "distinct (map fst (awaited st))" "\<forall>(i, r)\<in>set (awaited st). i < next_call st" "\<forall>p\<in>getting st. p < next_proxy st"
    "\<And>i d. (i, ObjectsReply d) \<in> set (awaited st) \<longleftrightarrow> (\<exists>y. clients st d = Some y \<and> gc_get_objects_call y = Some i)"
    using core_parts(3)[OF core] by (simp_all add: calls_ok_def)
  have f: "clients ?st' = (clients st)(c \<mapsto> ?x')" "bare ?st' = bare st" "attached ?st' = attached st" "registry ?st' = registry st"
    "awaited ?st' = awaited st @ [(next_call st, ObjectsReply c)]" "next_call ?st' = Suc (next_call st)"
    "next_client ?st' = next_client st" "next_proxy ?st' = next_proxy st" "client_filters ?st' = client_filters st"
    by simp_all
  have g: "getting ?st' = getting st" by (auto simp: getting_def)
  have ga: "getalls d ?st' = getalls d st" for d
  proof -
    have "asks_for ?st' d = asks_for st d" by (rule ext) (rule asks_for_cong, simp)
    then show ?thesis by (simp add: getalls_def)
  qed
  have "clients_ok hc {} ?st'"
    using core_parts(1)[OF core] x unfolding clients_ok_def ga f by auto
  moreover have "proxies_ok hp ?st'"
    using core_parts(2)[OF core] x proxies_ok_cong[of ?st' st hp] by simp
  moreover have "calls_ok {} ?st'"
  proof -
    have less: "i < next_call st" if "(i, r) \<in> set (awaited st)" for i r using co(2) that by blast
    then have "distinct (map fst (awaited ?st'))" using co(1) by (fastforce simp: f)
    moreover have "(j, ObjectsReply d) \<in> set (awaited ?st')
        \<longleftrightarrow> (\<exists>y. ((clients st)(c \<mapsto> ?x')) d = Some y \<and> gc_get_objects_call y = Some j)" for j d
      using co(4)[of j d] x call by (auto simp: f)
    moreover have "\<forall>(j, r)\<in>set (awaited ?st'). j < next_call ?st'" using less by (auto simp: f less_SucI)
    ultimately show ?thesis using co(3) g unfolding calls_ok_def f by simp
  qed
  moreover have "filters_ok {} ?st'" "owned ?st' = owned st"
    using same_filter_and_watches[OF x f(1,9,2)] core_parts(4)[OF core] by simp_all
  ultimately have "core_ok E hc hp {} ?st'"
    using core_parts(5)[OF core] by (simp add: core_ok_def watches_ok_def)
  moreover have "lists_ok ?st'" using lists x unfolding lists_ok_def f g by auto
  ultimately show ?thesis by (simp add: client_ok_def)
qed

definition sending :: "client_env \<Rightarrow> bool" where
  "sending E \<longleftrightarrow> (\<forall>n. reply_outcome E n = SentCall)"

text \<open>A client whose program wants to hear of proxies asks for all objects, once at a time.\<close>

definition wants :: "gclient \<Rightarrow> bool" where
  "wants cl \<longleftrightarrow> gc_proxy_added cl \<noteq> None \<or> gc_proxy_removed cl \<noteq> None"

lemma get_managed_objects_mirror:
  assumes m: "mirror_ok E hc hp c st" and E: "sending E" and cl: "clients st c = Some cl" and w: "wants cl"
  obtains st' i where "get_managed_objects E c st = Some st'" "mirror_ok E hc hp c st'" "view st' = view st" "used st' = used st"
    "clients st' = (clients st)(c \<mapsto> cl\<lparr>gc_get_objects_call := Some i\<rparr>)"
proof (cases "gc_get_objects_call cl")
  case (Some i)
  then have "clients st = (clients st)(c \<mapsto> cl\<lparr>gc_get_objects_call := Some i\<rparr>)" using cl by (auto simp: fun_eq_iff)
  moreover have "get_managed_objects E c st = Some st" using cl w Some by (auto simp: get_managed_objects_def wants_def)
  ultimately show ?thesis using m by (intro that[of st i]) simp_all
next
  case None
  define r where "r = send_call E (objects_msg cl) st"
  have out: "fst r = SentCall" using E by (simp add: r_def send_call_def Let_def sending_def)
  let ?cl' = "cl\<lparr>gc_get_objects_call := Some (next_call (snd r))\<rparr>"
  define st' where "st' = await (ObjectsReply c) (set_client c ?cl' (snd r))"
  from m have ok: "client_ok E hc hp st" and keys: "keys_ok st c" by (simp_all add: mirror_ok_def)
  have ok1: "client_ok E hc hp (snd r)" and c1: "clients (snd r) = clients st" and p1: "proxies (snd r) = proxies st"
    using ok by (simp_all add: r_def client_ok_def send_call_shape)
  from cl c1 have "clients (snd r) c = Some cl" by simp
  from objects_asked_ok[OF ok1 this None] have ok': "client_ok E hc hp st'" unfolding st'_def .
  have kt: "key st' = key st" "table st' = table st" by (simp_all add: st'_def key_def table_def p1 fun_eq_iff)
  have cl': "clients st' = (clients st)(c \<mapsto> ?cl')" by (simp add: st'_def c1)
  have "view st' = view st" using cl by (auto simp: view_def[abs_def] kt cl' fun_eq_iff)
  moreover have "keys_ok st' c" using keys cl by (simp add: keys_ok_def kt cl')
  moreover have "get_managed_objects E c st = Some st'"
    using cl w None out by (auto simp: get_managed_objects_def wants_def r_def[symmetric] split_beta Let_def st'_def)
  moreover have "used st' = used st" by (simp add: st'_def used_def r_def send_call_shape)
  ultimately show ?thesis using ok' cl' by (intro that[of st' "next_call (snd r)"]) (simp_all add: mirror_ok_def)
qed

lemma service_connect_mirror:
  assumes m: "mirror_ok E hc hp c st" and E: "sending E" and cl: "clients st c = Some cl" and w: "wants cl"
  shows "\<exists>st'. service_connect E c st = Some st' \<and> mirror_ok E hc hp c st' \<and> view st' c = view st c
    \<and> used st' = used st \<and> lasts c True st st'"
proof -
  let ?cl = "cl\<lparr>gc_refs := gc_refs cl + 1\<rparr>" and ?hc = "hc(c := hc c + 1)"
  define st1 where "st1 = tell (gc_connect_func cl) (\<lambda>f. ConnectFunc f (gc_conn cl) (gc_connect_data cl)) (set_client c ?cl st)"
  from m have core: "core_ok E hc hp {} st" and lists: "lists_ok st" and keys: "keys_ok st c"
    by (simp_all add: mirror_ok_def client_ok_def)
  have "core_ok E ?hc hp {} (set_client c ?cl st)"
    by (rule update_client[OF core cl]) (use core_client[OF core cl] in simp_all)
  then have "client_ok E ?hc hp (set_client c ?cl st)"
    using lists_same_client[OF lists cl, of ?cl] by (simp add: client_ok_def)
  then have ok1: "client_ok E ?hc hp st1" unfolding st1_def using shape_client[OF same_shape_tell] by blast
  have kt: "key st1 = key st" "table st1 = table st" by (simp_all add: st1_def key_def table_def fun_eq_iff)
  have c1: "clients st1 = (clients st)(c \<mapsto> ?cl)" by (simp add: st1_def)
  have v1: "view st1 = view st" "keys_ok st1 c"
    using cl keys by (auto simp: view_def[abs_def] keys_ok_def kt c1 fun_eq_iff)
  have m1: "mirror_ok E ?hc hp c st1" using ok1 v1(2) by (simp add: mirror_ok_def)
  have u1: "used st1 = used st" by (simp add: st1_def used_def)
  have "clients st1 c = Some ?cl" "wants ?cl" using c1 w by (simp_all add: wants_def)
  from get_managed_objects_mirror[OF m1 E this] obtain st2 i where st2: "get_managed_objects E c st1 = Some st2"
    "mirror_ok E ?hc hp c st2" "view st2 = view st1" "used st2 = used st1"
    "clients st2 = (clients st1)(c \<mapsto> ?cl\<lparr>gc_get_objects_call := Some i\<rparr>)" .
  let ?cl2 = "?cl\<lparr>gc_get_objects_call := Some i\<rparr>"
  from st2(2) have ok2: "client_ok E ?hc hp st2" and keys2: "keys_ok st2 c" by (simp_all add: mirror_ok_def)
  have cl2: "clients st2 c = Some ?cl2" by (simp add: st2(5))
  have "0 < ?hc c" by simp
  from client_unref_ok[OF ok2 this] obtain st' where st': "g_dbus_client_unref E c st2 = Some st'"
    "client_ok E (?hc(c := ?hc c - 1)) hp st'" "used st' = used st2"
    "\<forall>x. clients st2 c = Some x \<longrightarrow> 1 < gc_refs x \<longrightarrow> st' = set_client c (x\<lparr>gc_refs := gc_refs x - 1\<rparr>) st2" by blast
  have eq: "st' = set_client c (?cl2\<lparr>gc_refs := gc_refs ?cl2 - 1\<rparr>) st2"
    using st'(4) cl2 core_client(1)[OF core cl] by simp
  have v': "view st' = view st2" "keys_ok st' c = keys_ok st2 c"
    unfolding eq by (rule view_refs[OF cl2], simp)+
  have "service_connect E c st = Some st'"
    using cl st2(1) st'(1) by (simp add: service_connect_def g_dbus_client_ref_def st1_def)
  moreover have "lasts c True st st'" using cl by (simp add: lasts_def eq)
  moreover have "?hc(c := ?hc c - 1) = hc" by simp
  ultimately show ?thesis
    using st'(2,3) v' keys2 st2(3,4) v1(1) u1 by (intro exI[of _ st']) (simp add: mirror_ok_def)
qed

section \<open>A client follows its service\<close>

text \<open>
  What a client hears of its service: three signals, the reply to GetManagedObjects (\<open>None\<close> for an
  error), and the name of the service that goes and comes back. A signal PropertiesChanged
  reaches the proxy whose watch it matches; a reply comes only where one is awaited.
\<close>

datatype service_msg =
    InterfacesAdded string "ditem list"
  | InterfacesRemoved string "ditem list"
  | PropertiesChanged string string "ditem list" "ditem list"
  | ObjectsReplied "ditem list option"
  | ServiceGone
  | ServiceBack

text \<open>
  The handlers are called directly for the message they are registered for. The loop of \<open>watch.c\<close>
  that finds them, and that locks a listener while they run, is verified for itself
  (\<open>Gdbus_Watch_Props\<close>); a handler that adds or removes watches enters that file again there, which
  is not composed here.
\<close>

fun hear :: "client_env \<Rightarrow> nat \<Rightarrow> service_msg \<Rightarrow> client_state \<Rightarrow> client_state option" where
  "hear E c (InterfacesAdded path entries) st =
     interfaces_added E c [Basic (DObjectPath path), DArray ''{sa{sv}}'' entries] st"
| "hear E c (InterfacesRemoved path names) st =
     interfaces_removed E c [Basic (DObjectPath path), DArray ''s'' names] st"
| "hear E c (PropertiesChanged path i dict names) st =
     Option.bind (proxy_lookup c path i st) (\<lambda>found.
       case found of
         None \<Rightarrow> Some st
       | Some p \<Rightarrow> properties_changed E p [Basic (DString i), DArray ''{sv}'' dict, DArray ''s'' names] st)"
| "hear E c (ObjectsReplied r) st =
     Option.bind (clients st c) (\<lambda>cl.
       case gc_get_objects_call cl of None \<Rightarrow> Some st | Some call \<Rightarrow> reply_arrives E call (objects_reply r) st)"
| "hear E c ServiceGone st = service_disconnect E c st"
| "hear E c ServiceBack st = service_connect E c st"

fun hear_all :: "client_env \<Rightarrow> nat \<Rightarrow> service_msg list \<Rightarrow> client_state \<Rightarrow> client_state option" where
  "hear_all E c [] st = Some st"
| "hear_all E c (m # ms) st = Option.bind (hear E c m st) (hear_all E c ms)"

text \<open>The specification: whether all objects have been asked for, and what has been said of each.\<close>

type_synonym seen = "bool \<times> (string \<times> string \<Rightarrow> (string \<Rightarrow> ditem list option) option)"

fun says :: "service_msg \<Rightarrow> seen \<Rightarrow> seen" where
  "says (InterfacesAdded path entries) (asked, v) = (asked, fold (entry_added path) (interfaces_of entries) v)"
| "says (InterfacesRemoved path names) (asked, v) = (asked, removed path (strings_of names) v)"
| "says (PropertiesChanged path i dict names) (asked, v) =
     (asked, case v (path, i) of
        None \<Rightarrow> v
      | Some m \<Rightarrow> v((path, i) \<mapsto> removals (strings_of names) (changes (dict_values dict) m)))"
| "says (ObjectsReplied r) (asked, v) =
     (False, case r of None \<Rightarrow> v | Some objs \<Rightarrow> if asked then fold object_added (objects_of objs) v else v)"
| "says ServiceGone (asked, v) = (asked, Map.empty)"
| "says ServiceBack (asked, v) = (True, v)"

definition sees :: "client_state \<Rightarrow> nat \<Rightarrow> seen" where
  "sees st c = (\<exists>cl. clients st c = Some cl \<and> gc_get_objects_call cl \<noteq> None, view st c)"

text \<open>The messages are typed as the interface of the service says, and name it within the buffers.\<close>

fun msg_ok :: "string \<Rightarrow> service_msg \<Rightarrow> bool" where
  "msg_ok service (InterfacesAdded path entries) \<longleftrightarrow>
     wt_item (DArray ''{sa{sv}}'' entries) \<and> object_fits service (path, entries)"
| "msg_ok service (InterfacesRemoved path names) \<longleftrightarrow> wt_item (DArray ''s'' names)"
| "msg_ok service (PropertiesChanged path i dict names) \<longleftrightarrow>
     wt_item (DArray ''{sv}'' dict) \<and> wt_item (DArray ''s'' names)"
| "msg_ok service (ObjectsReplied (Some objs)) \<longleftrightarrow>
     wt_item (DArray ''{oa{sa{sv}}}'' objs) \<and> (\<forall>obj\<in>set (objects_of objs). object_fits service obj)"
| "msg_ok service _ \<longleftrightarrow> True"

fun msg_ids :: "service_msg \<Rightarrow> nat" where
  "msg_ids (InterfacesAdded path entries) = 2 * length entries"
| "msg_ids (ObjectsReplied (Some objs)) = object_ids objs"
| "msg_ids _ = 0"

lemma keeps_lasts:
  assumes "keeps c st st'" and "clients st c = Some cl"
  shows "lasts c (gc_get_objects_call cl \<noteq> None) st st'"
  using assms by (auto simp: keeps_def lasts_def)

lemma hear_signal:
  assumes m: "mirror_ok E hc hp c st" and E: "plenty E" and cl: "clients st c = Some cl" and sent: "sending E" "wants cl"
    and ok: "msg_ok (gc_service cl) msg" and room: "used st + msg_ids msg < 2 ^ 32"
  shows "\<exists>st'. hear E c msg st = Some st' \<and> mirror_ok E hc hp c st' \<and> view st' c = snd (says msg (sees st c))
    \<and> used st' \<le> used st + msg_ids msg \<and> lasts c (fst (says msg (sees st c))) st st'"
proof (cases msg)
  case (InterfacesAdded path entries)
  with interfaces_added_mirror[OF m E cl, of entries path] ok room keeps_lasts[OF _ cl]
  show ?thesis by (auto simp: sees_def object_fits_def cl)
next
  case (InterfacesRemoved path names)
  with interfaces_removed_mirror[OF m cl, of names path] ok keeps_lasts[OF _ cl]
  show ?thesis by (auto simp: sees_def cl)
next
  case (PropertiesChanged path i dict names)
  from m have okc: "client_ok E hc hp st" and keys: "keys_ok st c" by (simp_all add: mirror_ok_def)
  note look = proxy_lookup_find[OF okc cl, of path i]
  show ?thesis
  proof (cases "find (\<lambda>p. key st p = Some (path, i)) (gc_proxy_list cl)")
    case None
    then have "view st c (path, i) = None" by (simp add: view_def cl)
    with None look m PropertiesChanged keeps_lasts[OF keeps_refl cl] show ?thesis
      by (intro exI[of _ st]) (simp add: sees_def cl)
  next
    case (Some p)
    from find_SomeD[OF Some] have p: "p \<in> set (gc_proxy_list cl)" "key st p = Some (path, i)" by simp_all
    have "view st c (path, i) = Some (table st p)" by (rule view_of[OF keys cl p])
    with properties_changed_mirror[OF m E cl p, of dict names] ok look Some PropertiesChanged keeps_lasts[OF _ cl]
    show ?thesis by (auto simp: sees_def cl)
  qed
next
  case (ObjectsReplied r)
  show ?thesis
  proof (cases "gc_get_objects_call cl")
    case None
    with keeps_lasts[OF keeps_refl cl] m ObjectsReplied show ?thesis
      by (intro exI[of _ st]) (simp add: sees_def cl split: option.split)
  next
    case (Some i)
    with objects_reply_mirror[OF m E cl Some, of r] ok room ObjectsReplied show ?thesis
      by (cases r) (auto simp: sees_def cl)
  qed
next
  case ServiceGone
  with service_disconnect_mirror[OF m cl] show ?thesis by (auto simp: sees_def cl)
next
  case ServiceBack
  with service_connect_mirror[OF m sent(1) cl sent(2)] show ?thesis by (auto simp: sees_def cl)
qed

lemma hear_mirror:
  assumes m: "mirror_ok E hc hp c st" and E: "plenty E" "sending E" and cl: "clients st c = Some cl" "wants cl"
    and ok: "msg_ok (gc_service cl) msg" and room: "used st + msg_ids msg < 2 ^ 32"
  obtains st' cl' where "hear E c msg st = Some st'" "mirror_ok E hc hp c st'" "sees st' c = says msg (sees st c)"
    "used st' \<le> used st + msg_ids msg" "clients st' c = Some cl'" "wants cl'" "gc_service cl' = gc_service cl"
proof -
  from hear_signal[OF m E(1) cl(1) E(2) cl(2) ok room] obtain st' where st': "hear E c msg st = Some st'" "mirror_ok E hc hp c st'"
    "view st' c = snd (says msg (sees st c))" "used st' \<le> used st + msg_ids msg" "lasts c (fst (says msg (sees st c))) st st'"
    by blast
  from st'(5) cl obtain cl' where cl': "clients st' c = Some cl'" "gc_service cl' = gc_service cl"
    "gc_proxy_added cl' = gc_proxy_added cl" "gc_proxy_removed cl' = gc_proxy_removed cl"
    "(gc_get_objects_call cl' \<noteq> None) = fst (says msg (sees st c))" by (auto simp: lasts_def)
  have "sees st' c = says msg (sees st c)" by (rule prod_eqI) (use st'(3) cl'(1,5) in \<open>simp_all add: sees_def\<close>)
  with st' cl' cl(2) show ?thesis by (intro that[of st' cl']) (simp_all add: wants_def)
qed

lemma hear_all_mirror:
  assumes "mirror_ok E hc hp c st" and "plenty E" and "sending E" and "clients st c = Some cl" and "wants cl"
    and "\<forall>m\<in>set msgs. msg_ok (gc_service cl) m" and "used st + sum_list (map msg_ids msgs) < 2 ^ 32"
  shows "\<exists>st'. hear_all E c msgs st = Some st' \<and> mirror_ok E hc hp c st' \<and> sees st' c = fold says msgs (sees st c)"
  using assms
proof (induction msgs arbitrary: st cl)
  case Nil
  then show ?case by (intro exI[of _ st]) simp
next
  case (Cons m ms)
  have "msg_ok (gc_service cl) m" "used st + msg_ids m < 2 ^ 32" using Cons.prems(6,7) by simp_all
  from hear_mirror[OF Cons.prems(1-5) this] obtain st1 cl1 where st1: "hear E c m st = Some st1" "mirror_ok E hc hp c st1"
    "sees st1 c = says m (sees st c)" "used st1 \<le> used st + msg_ids m" and cl1: "clients st1 c = Some cl1" "wants cl1"
    "gc_service cl1 = gc_service cl" .
  have "\<forall>m\<in>set ms. msg_ok (gc_service cl1) m" "used st1 + sum_list (map msg_ids ms) < 2 ^ 32"
    using Cons.prems(6,7) st1(4) cl1(3) by simp_all
  from Cons.IH[OF st1(2) Cons.prems(2,3) cl1(1,2) this] obtain st' where "hear_all E c ms st1 = Some st'"
    "mirror_ok E hc hp c st'" "sees st' c = fold says ms (sees st1 c)" by blast
  with st1 show ?case by (intro exI[of _ st']) simp
qed

lemma new_client_asks:
  assumes ok: "client_ok E hc hp st" and E: "plenty E" "sending E" and fit: "service_fits service"
    and w: "f_added \<noteq> None \<or> f_removed \<noteq> None" and room: "used st + 6 < 2 ^ 32"
  obtains st1 st2 cl where "g_dbus_client_new E (Some conn) service path st = Some (Some (next_client st), st1)"
    "g_dbus_client_set_proxy_handlers E (Some (next_client st)) f_added f_removed changed data st1 = Some (True, st2)"
    "mirror_ok E (hc(next_client st := 1)) hp (next_client st) st2" "sees st2 (next_client st) = (True, Map.empty)"
    "used st2 \<le> used st + 6" "clients st2 (next_client st) = Some cl" "wants cl" "gc_service cl = service"
proof -
  let ?c = "next_client st" and ?hc = "hc(next_client st := 1)"
  obtain st1 w1 w2 w3 where st1: "g_dbus_client_new E (Some conn) service path st = Some (Some ?c, st1)"
    "clients st ?c = None" "client_ok E ?hc hp st1"
    "clients st1 = (clients st)(?c \<mapsto> (fresh_client conn service path w1 w2 w3)\<lparr>gc_refs := 1\<rparr>)"
    "proxies st1 = proxies st" "used st1 \<le> used st + 6"
    by (rule client_new_ok[OF ok E(1) fit room, of conn path])
  define x where "x = (fresh_client conn service path w1 w2 w3)\<lparr>gc_refs := 1\<rparr>"
  let ?y = "x\<lparr>gc_proxy_added := f_added, gc_proxy_removed := f_removed, gc_property_changed := changed, gc_user_data := data\<rparr>"
  have x: "clients st1 ?c = Some x" by (simp add: st1(4) x_def)
  have xf: "gc_proxy_list x = []" "gc_service x = service" by (simp_all add: x_def fresh_client_def)
  from st1(3) have core: "core_ok E ?hc hp {} st1" and lists: "lists_ok st1" by (simp_all add: client_ok_def)
  have "core_ok E ?hc hp {} (set_client ?c ?y st1)"
    by (rule update_client[OF core x]) (use core_client[OF core x] in simp_all)
  moreover have "lists_ok (set_client ?c ?y st1)" by (rule lists_same_client[OF lists x]) simp
  ultimately have m: "mirror_ok E ?hc hp ?c (set_client ?c ?y st1)"
    by (simp add: mirror_ok_def client_ok_def keys_ok_def xf)
  have "clients (set_client ?c ?y st1) ?c = Some ?y" "wants ?y" using w by (simp_all add: wants_def)
  from get_managed_objects_mirror[OF m E(2) this] obtain st2 i where st2: "get_managed_objects E ?c (set_client ?c ?y st1) = Some st2"
    "mirror_ok E ?hc hp ?c st2" "view st2 = view (set_client ?c ?y st1)" "used st2 = used (set_client ?c ?y st1)"
    "clients st2 = (clients (set_client ?c ?y st1))(?c \<mapsto> ?y\<lparr>gc_get_objects_call := Some i\<rparr>)" .
  have "view st2 ?c = Map.empty" by (simp add: st2(3) view_def xf fun_eq_iff)
  then have "sees st2 ?c = (True, Map.empty)" by (simp add: sees_def st2(5))
  moreover have "g_dbus_client_set_proxy_handlers E (Some ?c) f_added f_removed changed data st1 = Some (True, st2)"
    using x st2(1) by (simp add: g_dbus_client_set_proxy_handlers_def)
  moreover have "used st2 \<le> used st + 6" using st1(6) st2(4) by (simp add: used_def)
  ultimately show ?thesis
    using st1(1) st2(2,5) w by (intro that[of st1 st2 "?y\<lparr>gc_get_objects_call := Some i\<rparr>"]) (simp_all add: wants_def xf)
qed

text \<open>
  C32. A client mirrors its service. In any state the library can be in, a new client whose
  program set functions for proxies asks for all objects; whatever sequence of signals and
  replies it then receives, typed as the interface of the service says, in whatever order, with
  the service leaving and returning, nothing freed is touched and the proxies with their tables
  are exactly what the messages said so far. Messages can be allocated and sent, the paths fit
  their match rules, fewer than 2^32 watch ids are used, and the handlers are called as \<open>hear\<close>
  calls them (C36 and C37 are failures this leaves out).
\<close>

theorem client_mirrors_service:
  assumes "client_ok E hc hp st" and "plenty E" and "sending E" and "service_fits service"
    and "f_added \<noteq> None \<or> f_removed \<noteq> None" and "\<forall>m\<in>set msgs. msg_ok service m"
    and "used st + 6 + sum_list (map msg_ids msgs) < 2 ^ 32"
  shows "\<exists>c st1 st2 st'. g_dbus_client_new E (Some conn) service path st = Some (Some c, st1)
    \<and> g_dbus_client_set_proxy_handlers E (Some c) f_added f_removed changed data st1 = Some (True, st2)
    \<and> hear_all E c msgs st2 = Some st' \<and> client_ok E (hc(c := 1)) hp st'
    \<and> sees st' c = fold says msgs (True, Map.empty)"
proof -
  let ?c = "next_client st"
  have "used st + 6 < 2 ^ 32" using assms(7) by simp
  from new_client_asks[OF assms(1-5) this, of conn path changed data] obtain st1 st2 cl where
    new: "g_dbus_client_new E (Some conn) service path st = Some (Some ?c, st1)"
    "g_dbus_client_set_proxy_handlers E (Some ?c) f_added f_removed changed data st1 = Some (True, st2)"
    and m: "mirror_ok E (hc(?c := 1)) hp ?c st2" "sees st2 ?c = (True, Map.empty)" "used st2 \<le> used st + 6"
    and cl: "clients st2 ?c = Some cl" "wants cl" "gc_service cl = service" .
  have "\<forall>m\<in>set msgs. msg_ok (gc_service cl) m" "used st2 + sum_list (map msg_ids msgs) < 2 ^ 32"
    using assms(6,7) cl(3) m(3) by simp_all
  from hear_all_mirror[OF m(1) assms(2,3) cl(1,2) this] new m(2) show ?thesis
    unfolding mirror_ok_def by metis
qed

definition demo_objects :: "ditem list" where
  "demo_objects =
     [DDictEntry [Basic (DObjectPath ''/wifi''), DArray ''{sa{sv}}''
       [DDictEntry [Basic (DString ''net.connman.Service''), DArray ''{sv}'' demo_dict]]]]"

definition demo_messages :: "service_msg list" where
  "demo_messages =
     [ObjectsReplied (Some demo_objects), PropertiesChanged ''/wifi'' ''net.connman.Service'' [] [Basic (DString ''State'')],
      ServiceGone, ServiceBack, ObjectsReplied (Some demo_objects)]"

lemma demo_service_fits:
  "service_fits ''net.connman''" "proxy_fits ''net.connman'' ''/wifi'' ''net.connman.Service''"
proof -
  have "name_fits ''net.connman''"
    "rule_fits (Some ''net.connman'') (Some ''/'') (Some object_manager_interface) (Some ''InterfacesAdded'') None"
    "rule_fits (Some ''net.connman'') (Some ''/'') (Some object_manager_interface) (Some ''InterfacesRemoved'') None"
    "rule_fits (Some ''net.connman'') (Some ''/wifi'') (Some properties_interface) (Some ''PropertiesChanged'')
       (Some ''net.connman.Service'')" by code_simp+
  then show "service_fits ''net.connman''" "proxy_fits ''net.connman'' ''/wifi'' ''net.connman.Service''"
    by (simp_all add: service_fits_def proxy_fits_def sender_fits_def)
qed

lemma demo_messages_ok: "\<forall>m\<in>set demo_messages. msg_ok ''net.connman'' m"
  using demo_service_fits(2) by (simp add: demo_messages_def demo_objects_def demo_dict_def object_fits_def)

theorem client_mirrors_service_witness:
  "\<exists>c st1 st2 st'. g_dbus_client_new demo_client_env (Some 1) ''net.connman'' ''/'' client_start = Some (Some c, st1)
    \<and> g_dbus_client_set_proxy_handlers demo_client_env (Some c) (Some 7) None None 0 st1 = Some (True, st2)
    \<and> hear_all demo_client_env c demo_messages st2 = Some st'
    \<and> (\<exists>m. view st' c (''/wifi'', ''net.connman.Service'') = Some m \<and> m ''State'' = Some [Basic (DString ''online'')])"
proof -
  have E: "adding_fine (watching demo_client_env)" "removing_fine (watching demo_client_env)" "sending demo_client_env"
    by (simp_all add: demo_client_env_def sending_def adding_fine_def removing_fine_def demo_watch_env_def)
  have f: "(Some 7 :: client_fn option) \<noteq> None \<or> (None :: client_fn option) \<noteq> None" by simp
  have room: "used client_start + 6 + sum_list (map msg_ids demo_messages) < 2 ^ 32"
    by (simp add: used_def client_start_def watch_start_def demo_messages_def demo_objects_def object_ids_def)
  from client_mirrors_service[OF client_start_ok[OF E(1,2)] demo_client_env_fine E(3) demo_service_fits(1) f demo_messages_ok room,
      of 1 "''/''" None 0]
  obtain c st1 st2 st' where run: "g_dbus_client_new demo_client_env (Some 1) ''net.connman'' ''/'' client_start = Some (Some c, st1)"
    "g_dbus_client_set_proxy_handlers demo_client_env (Some c) (Some 7) None None 0 st1 = Some (True, st2)"
    "hear_all demo_client_env c demo_messages st2 = Some st'" "sees st' c = fold says demo_messages (True, Map.empty)" by metis
  have "fold says demo_messages (True, Map.empty)
      = (False, [(''/wifi'', ''net.connman.Service'') \<mapsto> [''State'' \<mapsto> [Basic (DString ''online'')]]])"
    by (simp add: demo_messages_def demo_objects_def demo_dict_def object_added_def entry_added_def skipped_def changes_def)
  with run show ?thesis by (intro exI[of _ c] exI[of _ st1] exI[of _ st2] exI[of _ st']) (simp add: sees_def)
qed

section \<open>A client made and released\<close>

lemma owned_watches: "client_ok E hc hp st \<Longrightarrow> set_mset (watches (registry st)) = owned st"
  using core_parts(5)[of E hc hp "{}" st] by (simp add: client_ok_def watches_ok_def)

lemma filters_of: "client_ok E hc hp st \<Longrightarrow> set (client_filters st) = {(gc_conn x, c) |c x. clients st c = Some x}"
  using core_parts(4)[of E hc hp "{}" st] by (simp add: client_ok_def filters_ok_def)

text \<open>
  C34. Making a client and giving its reference back restores the clients, the proxies, the
  watches registered and the filters of the connections, in any state the library can be in,
  and nothing freed is touched on the way. Messages can be allocated and the name and path of the
  service fit their match rules.
\<close>

theorem client_new_unref:
  assumes "client_ok E hc hp st" and "plenty E" and "service_fits service" and "used st + 6 < 2 ^ 32"
  shows "\<exists>c st1 st2. g_dbus_client_new E (Some conn) service path st = Some (Some c, st1)
    \<and> clients st c = None \<and> clients st1 c \<noteq> None \<and> g_dbus_client_unref E c st1 = Some st2
    \<and> client_ok E hc hp st2 \<and> clients st2 = clients st \<and> bare st2 = bare st
    \<and> set_mset (watches (registry st2)) = set_mset (watches (registry st))
    \<and> set (client_filters st2) = set (client_filters st)"
proof -
  let ?c = "next_client st"
  obtain st1 w1 w2 w3 where new: "g_dbus_client_new E (Some conn) service path st = Some (Some ?c, st1)"
    "clients st ?c = None" "client_ok E (hc(?c := 1)) hp st1"
    "clients st1 = (clients st)(?c \<mapsto> (fresh_client conn service path w1 w2 w3)\<lparr>gc_refs := 1\<rparr>)"
    "proxies st1 = proxies st" "used st1 \<le> used st + 6"
    by (rule client_new_ok[OF assms])
  define x where "x = (fresh_client conn service path w1 w2 w3)\<lparr>gc_refs := 1\<rparr>"
  have x: "clients st1 ?c = Some x" "gc_refs x = 1" "gc_proxy_list x = []" by (simp_all add: new(4) x_def fresh_client_def)
  have one: "(hc(?c := 1)) ?c = 1" by simp
  from free_client_ok[OF new(3) x(1) one x(2)] obtain st2 where st2:
    "free_client E ?c x (set_client ?c (x\<lparr>gc_refs := 0\<rparr>) st1) = Some st2" "client_ok E ((hc(?c := 1))(?c := 0)) hp st2"
    "clients st2 = (clients st1)(?c := None)" "gc_proxy_list x = [] \<longrightarrow> bare st2 = bare st1" by blast
  have core: "core_ok E hc hp {} st" using assms(1) by (simp add: client_ok_def)
  have "hc ?c = 0" using core_parts(1)[OF core] new(2) unfolding clients_ok_def by blast
  then have ok2: "client_ok E hc hp st2" using st2(2) by (simp add: fun_upd_idem)
  have c2: "clients st2 = clients st" using st2(3) new(2) by (simp add: new(4) fun_upd_idem)
  have b2: "bare st2 = bare st" using st2(4) x(3) new(5) by (simp add: bare_def fun_eq_iff)
  have "set_mset (watches (registry st2)) = set_mset (watches (registry st))"
    using owned_watches[OF ok2] owned_watches[OF assms(1)] owned_cong[OF c2 b2] by simp
  moreover have "set (client_filters st2) = set (client_filters st)"
    using filters_of[OF ok2] filters_of[OF assms(1)] c2 by simp
  moreover have "g_dbus_client_unref E ?c st1 = Some st2" using x st2(1) by (simp add: g_dbus_client_unref_def)
  ultimately show ?thesis using new(1,2) x(1) ok2 c2 b2 by (metis option.discI)
qed

theorem client_new_unref_witness:
  "\<exists>c st1 st2. g_dbus_client_new demo_client_env (Some 1) ''net.connman'' ''/'' client_start = Some (Some c, st1)
    \<and> g_dbus_client_unref demo_client_env c st1 = Some st2 \<and> clients st2 c = None \<and> watches (registry st2) = {#}"
proof -
  have E: "adding_fine (watching demo_client_env)" "removing_fine (watching demo_client_env)"
    by (simp_all add: demo_client_env_def adding_fine_def removing_fine_def demo_watch_env_def)
  have room: "used client_start + 6 < 2 ^ 32" by (simp add: used_def client_start_def watch_start_def)
  from client_new_unref[OF client_start_ok[OF E] demo_client_env_fine demo_service_fits(1) room, of 1 "''/''"]
  obtain c st1 st2 where run: "g_dbus_client_new demo_client_env (Some 1) ''net.connman'' ''/'' client_start = Some (Some c, st1)"
    "g_dbus_client_unref demo_client_env c st1 = Some st2" "clients st2 = clients client_start"
    "set_mset (watches (registry st2)) = set_mset (watches (registry client_start))" by metis
  have "set_mset (watches (registry client_start)) = {}" "clients client_start c = None"
    by (simp_all add: client_start_def watch_start_def watches_def callbacks_of_def)
  with run show ?thesis by (metis set_mset_eq_empty_iff)
qed

end
