(* ===== verification/Gdbus_Client_Calls.thy ===== *)
theory Gdbus_Client_Calls
  imports Gdbus_Client_Run
begin

text \<open>
  The calls of \<open>GetAll\<close> in \<open>gdbus/client.c\<close>: a proxy the program makes itself asks for its
  properties, and is listed and announced when the reply comes.
\<close>

section \<open>A call for all properties\<close>

lemma reply_of:
  assumes "client_ok E hc hp st" and "(i, r) \<in> set (awaited st)"
  shows "map_of (awaited st) i = Some r"
  using assms core_parts(3)[of E hc hp "{}" st] by (simp add: client_ok_def calls_ok_def)

text \<open>A reference to a proxy.\<close>

lemma proxy_ref_ok:
  assumes ok: "client_ok E hc hp st" and x: "proxies st p = Some x"
  shows "client_ok E hc (hp(p := Suc (hp p))) (set_proxy p (x\<lparr>px_refs := Suc (px_refs x)\<rparr>) st)"
proof -
  let ?x' = "x\<lparr>px_refs := Suc (px_refs x)\<rparr>" and ?hp = "hp(p := Suc (hp p))"
  let ?st' = "set_proxy p ?x' st"
  from ok have core: "core_ok E hc hp {} st" and lists: "lists_ok st" by (simp_all add: client_ok_def)
  define y where "y = x\<lparr>px_props := []\<rparr>"
  have y: "bare st p = Some y" by (simp add: bare_def x y_def)
  have b: "bare ?st' = (bare st)(p \<mapsto> y\<lparr>px_refs := Suc (px_refs y)\<rparr>)"
    by (simp add: bare_def set_proxy_def fun_eq_iff y_def)
  have f: "clients ?st' = clients st" "awaited ?st' = awaited st" "registry ?st' = registry st" "next_call ?st' = next_call st"
    "next_client ?st' = next_client st" "next_proxy ?st' = next_proxy st" "client_filters ?st' = client_filters st"
    by (simp_all add: set_proxy_def)
  have "(\<exists>z. ((bare st)(p \<mapsto> y\<lparr>px_refs := Suc (px_refs y)\<rparr>)) q = Some z \<and> px_client z = Some c)
      \<longleftrightarrow> (\<exists>z. bare st q = Some z \<and> px_client z = Some c)" for q c
    using y by (cases "q = p") simp_all
  then have at: "attached ?st' = attached st" unfolding attached_def b by simp
  have g: "getting ?st' = getting st" by (simp add: getting_def f)
  have ga: "getalls d ?st' = getalls d st" for d by (rule getalls_cong) (simp_all add: at f)
  have "proxies_ok ?hp ?st'"
  proof -
    have old: "\<And>q. bare st q = None \<Longrightarrow> hp q = 0" "\<And>q z. bare st q = Some z \<Longrightarrow> q < next_proxy st \<and> 0 < px_refs z
        \<and> px_refs z = hp q + (if px_client z = None then 0 else 1) \<and> (\<forall>c. px_client z = Some c \<longrightarrow> clients st c \<noteq> None)"
      using core_parts(2)[OF core] unfolding proxies_ok_def by blast+
    show ?thesis unfolding proxies_ok_def b f
    proof (intro conjI allI impI)
      fix q z assume z: "((bare st)(p \<mapsto> y\<lparr>px_refs := Suc (px_refs y)\<rparr>)) q = Some z"
      show "q < next_proxy st" "0 < px_refs z" "px_refs z = ?hp q + (if px_client z = None then 0 else 1)"
        using z old(2)[OF y] old(2)[of q z] by (cases "q = p"; auto)+
      show "clients st c \<noteq> None" if "px_client z = Some c" for c
        using z that old(2)[OF y] old(2)[of q z] by (cases "q = p") auto
    qed (use old(1) in \<open>simp split: if_splits\<close>)
  qed
  moreover have "owned ?st' = owned st"
  proof -
    have "(\<exists>z. ((bare st)(p \<mapsto> y\<lparr>px_refs := Suc (px_refs y)\<rparr>)) q = Some z \<and> px_client z \<noteq> None \<and> cb = proxy_watch q z)
        \<longleftrightarrow> (\<exists>z. bare st q = Some z \<and> px_client z \<noteq> None \<and> cb = proxy_watch q z)" for q cb
      using y by (cases "q = p") (simp_all add: proxy_watch_def)
    then show ?thesis unfolding owned_def f b by simp
  qed
  ultimately have "core_ok E hc ?hp {} ?st'"
    using core by (simp add: core_ok_def clients_ok_def calls_ok_def filters_ok_def watches_ok_def f g ga)
  moreover have "lists_ok ?st'" using lists by (simp add: lists_ok_def f at g)
  ultimately show ?thesis by (simp add: client_ok_def)
qed

text \<open>The call is over; the reference it held to the client is free.\<close>

lemma one_less:
  assumes "distinct (map fst A)" and "(i, r) \<in> set A" and "P (i, r)"
  shows "Suc (length (filter P (filter (\<lambda>(j, _). j \<noteq> i) A))) = length (filter P A)"
  using assms(1,2)
proof (induction A)
  case (Cons a A)
  obtain j q where a: "a = (j, q)" by (cases a)
  show ?case
  proof (cases "j = i")
    case True
    then have "i \<notin> fst ` set A" using Cons.prems(1) a by simp
    then have "filter (\<lambda>(j, _). j \<noteq> i) A = A" by (induction A) auto
    moreover have "q = r" using Cons.prems a True \<open>i \<notin> fst ` set A\<close> by (force)
    ultimately show ?thesis using a True assms(3) by simp
  next
    case False
    with Cons a show ?thesis by auto
  qed
qed simp

lemma call_over:
  assumes ok: "client_ok E hc hp st" and call: "(i, GetAllReply p) \<in> set (awaited st)" and att: "p \<in> attached st c"
    and cl: "clients st c = Some cl" and listed: "p \<in> set (gc_proxy_list cl)"
  shows "client_ok E (hc(c := hc c + 1)) hp (waiting (others i st) st)"
proof -
  let ?st' = "waiting (others i st) st" and ?hc = "hc(c := hc c + 1)"
  from ok have core: "core_ok E hc hp {} st" and lists: "lists_ok st" by (simp_all add: client_ok_def)
  have co: "distinct (map fst (awaited st))" "\<forall>(i, r)\<in>set (awaited st). i < next_call st" "\<forall>p\<in>getting st. p < next_proxy st"
    "\<And>i d. (i, ObjectsReply d) \<in> set (awaited st) \<longleftrightarrow> (\<exists>y. clients st d = Some y \<and> gc_get_objects_call y = Some i)"
    using core_parts(3)[OF core] by (simp_all add: calls_ok_def)
  have uniq: "r = GetAllReply p" if "(i, r) \<in> set (awaited st)" for r
    using co(1) call that by (metis eq_key_imp_eq_value)
  have mem: "(j, r) \<in> set (others i st) \<longleftrightarrow> (j, r) \<in> set (awaited st) \<and> j \<noteq> i" for j r by (auto simp: others_def)
  have at: "attached ?st' = attached st" by (simp add: attached_def fun_eq_iff)
  have ask: "asks_for ?st' d = asks_for st d" for d by (rule ext) (rule asks_for_cong, simp add: at)
  have gl: "getalls d ?st' = length (filter (\<lambda>(j, r). asks_for st d r) (others i st))" for d
    by (simp add: getalls_def ask)
  have ga: "?hc d + getalls d ?st' \<le> hc d + getalls d st" for d
  proof (cases "d = c")
    case True
    have "Suc (getalls c ?st') = getalls c st"
      using one_less[OF co(1) call, of "\<lambda>(j, r). asks_for st c r"] att
      unfolding gl by (simp add: others_def getalls_def)
    with True show ?thesis by simp
  next
    case False
    have "length (filter P (filter Q A)) \<le> length (filter P A)" for P Q and A :: "(nat \<times> reply_to) list"
      by (induction A) auto
    with False show ?thesis unfolding gl by (simp add: others_def getalls_def)
  qed
  have g: "getting st \<subseteq> insert p (getting ?st')" "getting ?st' \<subseteq> getting st"
    using mem uniq by (force simp: getting_def image_iff)+
  have "clients_ok ?hc {} ?st'"
  proof -
    have "?hc d + getalls d ?st' \<le> gc_refs y" if "clients st d = Some y" for d y
      using core_client(2)[OF core that] ga[of d] by (rule order_trans[rotated])
    then show ?thesis using core_parts(1)[OF core] cl unfolding clients_ok_def by simp
  qed
  moreover have "proxies_ok hp ?st'" using core_parts(2)[OF core] proxies_ok_cong[of ?st' st hp] by simp
  moreover have "calls_ok {} ?st'"
  proof -
    have "distinct (map fst (others i st))" using co(1) by (simp add: others_def distinct_map_filter)
    moreover have "(j, ObjectsReply d) \<in> set (others i st) \<longleftrightarrow> (j, ObjectsReply d) \<in> set (awaited st)" for j d
      using mem uniq by blast
    moreover have "\<forall>(j, r)\<in>set (others i st). j < next_call st" using co(2) mem by auto
    ultimately show ?thesis using co(3,4) g(2) by (auto simp: calls_ok_def)
  qed
  moreover have "filters_ok {} ?st'" "watches_ok E ?st'"
    using core_parts(4,5)[OF core] by (simp_all add: filters_ok_def watches_ok_def owned_def)
  ultimately have "core_ok E ?hc hp {} ?st'" by (simp add: core_ok_def)
  moreover have "lists_ok ?st'"
    unfolding lists_ok_def
  proof (intro allI impI)
    fix d y assume "clients ?st' d = Some y"
    then have y: "clients st d = Some y" by simp
    have l: "distinct (gc_proxy_list y)" "set (gc_proxy_list y) \<subseteq> attached st d"
      "attached st d \<subseteq> set (gc_proxy_list y) \<union> getting st" using lists y unfolding lists_ok_def by blast+
    have "p \<in> attached st d \<Longrightarrow> p \<in> set (gc_proxy_list y)"
      using attached_disjoint[OF att] listed cl y by auto
    with l g(1) show "distinct (gc_proxy_list y) \<and> set (gc_proxy_list y) \<subseteq> attached ?st' d
        \<and> attached ?st' d \<subseteq> set (gc_proxy_list y) \<union> getting ?st'" unfolding at by blast
  qed
  ultimately show ?thesis by (simp add: client_ok_def)
qed

text \<open>The reply is taken over, and the proxy is listed and announced.\<close>

definition listing :: "nat \<Rightarrow> nat list \<Rightarrow> nat list" where
  "listing p ps = (if p \<in> set ps then ps else ps @ [p])"

definition announced :: "nat \<Rightarrow> gclient \<Rightarrow> program_call list" where
  "announced p cl =
     (if p \<in> set (gc_proxy_list cl) then []
      else (case gc_proxy_added cl of None \<Rightarrow> [] | Some f \<Rightarrow> [ProxyAdded f p (gc_user_data cl)]))"

definition list_it :: "nat \<Rightarrow> nat \<Rightarrow> gclient \<Rightarrow> client_state \<Rightarrow> client_state" where
  "list_it p c cl st =
     (if p \<in> set (gc_proxy_list cl) then st
      else set_client c (cl\<lparr>gc_proxy_list := gc_proxy_list cl @ [p]\<rparr>)
             (tell (gc_proxy_added cl) (\<lambda>f. ProxyAdded f p (gc_user_data cl)) st))"

lemma list_it_ok:
  assumes ok: "client_ok E hc hp st" and cl: "clients st c = Some cl" and att: "p \<in> attached st c"
  shows "client_ok E hc hp (list_it p c cl st)"
    and "clients (list_it p c cl st) = (clients st)(c \<mapsto> cl\<lparr>gc_proxy_list := listing p (gc_proxy_list cl)\<rparr>)"
    and "proxies (list_it p c cl st) = proxies st" and "program (list_it p c cl st) = program st @ announced p cl"
    and "awaited (list_it p c cl st) = awaited st" and "attached (list_it p c cl st) = attached st"
proof -
  let ?t = "tell (gc_proxy_added cl) (\<lambda>f. ProxyAdded f p (gc_user_data cl)) st"
  show "client_ok E hc hp (list_it p c cl st)"
  proof (cases "p \<in> set (gc_proxy_list cl)")
    case False
    have t: "client_ok E hc hp ?t" "attached ?t = attached st" "getting ?t = getting st"
      using ok shape_client[OF same_shape_tell] shape_core(3,4)[OF same_shape_tell] by blast+
    from t(1) have core: "core_ok E hc hp {} ?t" and lists: "lists_ok ?t" by (simp_all add: client_ok_def)
    have tcl: "clients ?t c = Some cl" using cl by simp
    then have l: "distinct (gc_proxy_list cl)" "set (gc_proxy_list cl) \<subseteq> attached ?t c"
      "attached ?t c \<subseteq> set (gc_proxy_list cl) \<union> getting ?t" using lists unfolding lists_ok_def by blast+
    have "client_ok E hc hp (set_client c (cl\<lparr>gc_proxy_list := gc_proxy_list cl @ [p]\<rparr>) ?t)"
      by (rule list_proxy[OF core tcl l(1) False l(2)]) (use att t(2) l(3) lists in \<open>auto simp: lists_ok_def\<close>)
    with False show ?thesis by (simp add: list_it_def)
  qed (simp add: list_it_def ok)
  show "clients (list_it p c cl st) = (clients st)(c \<mapsto> cl\<lparr>gc_proxy_list := listing p (gc_proxy_list cl)\<rparr>)"
    using cl by (auto simp: list_it_def listing_def fun_eq_iff)
  show "program (list_it p c cl st) = program st @ announced p cl"
    by (auto simp: list_it_def announced_def tell_def split: option.split)
  show "attached (list_it p c cl st) = attached st"
    using shape_core(3)[OF same_shape_tell] by (simp add: list_it_def)
qed (simp_all add: list_it_def)

lemma list_it_waiting: "list_it p c cl (waiting A st) = waiting A (list_it p c cl st)"
  by (simp add: list_it_def)

lemma get_all_reply_ok:
  assumes ok: "client_ok E hc hp st" and E: "plenty E" and call: "(i, GetAllReply p) \<in> set (awaited st)"
    and x: "proxies st p = Some x" and c: "px_client x = Some c" and cl: "clients st c = Some cl" and held: "0 < hc c"
    and wt: "wt_item (DArray ''{sv}'' dict)"
  obtains st' props cl' where "reply_arrives E i \<lparr>msg_error = False, msg_body = [DArray ''{sv}'' dict]\<rparr> st = Some st'"
    "client_ok E hc hp st'" "proxies st' = (proxies st)(p \<mapsto> x\<lparr>px_props := props\<rparr>)"
    "stored_value (x\<lparr>px_props := props\<rparr>) = changes (dict_values dict) (stored_value x)"
    "clients st' = (clients st)(c \<mapsto> cl')" "gc_proxy_list cl' = listing p (gc_proxy_list cl)"
    "program st' = program st @ concat (map (\<lambda>(n, v). told p x None n (Some [v])) (dict_values dict)) @ announced p cl"
proof -
  have "case px_client x of None \<Rightarrow> None = None | Some c \<Rightarrow> if False then None \<noteq> None \<and> clients st c = None else None = None"
    by (simp split: option.split)
  from update_loop_value[OF E wt x this] obtain st1 props where run1: "update_loop E p False dict st = Some st1"
    and s: "same_shape st st1" and x1: "proxies st1 = (proxies st)(p \<mapsto> x\<lparr>px_props := props\<rparr>)"
    and val: "stored_value (x\<lparr>px_props := props\<rparr>) = changes (dict_values dict) (stored_value x)"
    and prog1: "program st1 = program st @ concat (map (\<lambda>(n, v). told p x None n (Some [v])) (dict_values dict))" by blast
  have c1: "clients st1 = clients st" "awaited st1 = awaited st" using s by (simp_all add: same_shape_def)
  have ok1: "client_ok E hc hp st1" using ok shape_client[OF s] by simp
  have cl1: "clients st1 c = Some cl" using cl c1 by simp
  have att1: "p \<in> attached st1 c" using attachedI[OF x c] shape_core(3)[OF s] by simp
  note l = list_it_ok[OF ok1 cl1 att1]
  define st2 where "st2 = list_it p c cl st1"
  let ?cl2 = "cl\<lparr>gc_proxy_list := listing p (gc_proxy_list cl)\<rparr>"
  have st2: "client_ok E hc hp st2" "clients st2 c = Some ?cl2" "p \<in> attached st2 c" "(i, GetAllReply p) \<in> set (awaited st2)"
    using l call att1 c1 by (simp_all add: st2_def)
  have "p \<in> set (gc_proxy_list ?cl2)" by (simp add: listing_def)
  note over = call_over[OF st2(1,4,3,2) this]
  define st3 where "st3 = waiting (others i st2) st2"
  define hc' where "hc' = hc(c := hc c + 1)"
  have over': "client_ok E hc' hp st3" using over by (simp add: hc'_def st3_def)
  have "0 < hc' c" by (simp add: hc'_def)
  from client_unref_ok[OF over' this] obtain st' where st': "g_dbus_client_unref E c st3 = Some st'"
    "client_ok E (hc'(c := hc' c - 1)) hp st'" "used st' = used st3" "\<forall>d. d \<noteq> c \<longrightarrow> clients st' d = clients st3 d"
    "\<forall>y. clients st3 c = Some y \<longrightarrow> 1 < gc_refs y \<longrightarrow> st' = set_client c (y\<lparr>gc_refs := gc_refs y - 1\<rparr>) st3" .
  have cl3: "clients st3 c = Some ?cl2" using st2(2) by (simp add: st3_def)
  have "core_ok E hc' hp {} st3" using over' by (simp add: client_ok_def)
  from core_client(2)[OF this cl3] have "hc c + 1 + getalls c st3 \<le> gc_refs ?cl2" by (simp add: hc'_def)
  with held have "1 < gc_refs ?cl2" by linarith
  with st'(5) cl3 have eq: "st' = set_client c (?cl2\<lparr>gc_refs := gc_refs ?cl2 - 1\<rparr>) st3" by blast
  have aw: "others i st2 = others i st" using l(5) c1 by (simp add: st2_def others_def)
  have arrives: "reply_arrives E i \<lparr>msg_error = False, msg_body = [DArray ''{sv}'' dict]\<rparr> st = Some st'"
  proof -
    have st0: "st\<lparr>awaited := filter (\<lambda>(j, _). j \<noteq> i) (awaited st)\<rparr> = waiting (others i st) st"
      by (simp add: waiting_def others_def)
    have "update_properties E p [DArray ''{sv}'' dict] False (waiting (others i st) st) = Some (waiting (others i st) st1)"
      using run1 by (simp add: update_properties_def update_loop_waiting)
    then have "get_all_properties_reply E p \<lparr>msg_error = False, msg_body = [DArray ''{sv}'' dict]\<rparr> (waiting (others i st) st)
        = g_dbus_client_unref E c (list_it p c cl (waiting (others i st) st1))"
      using x c cl1 by (simp add: get_all_properties_reply_def list_it_def)
    also have "list_it p c cl (waiting (others i st) st1) = st3" unfolding list_it_waiting st3_def aw by (simp only: st2_def)
    finally show ?thesis using reply_of[OF ok call] st'(1) by (simp add: reply_arrives_def run_reply_def st0)
  qed
  let ?cl' = "?cl2\<lparr>gc_refs := gc_refs ?cl2 - 1\<rparr>"
  have f: "proxies st' = (proxies st)(p \<mapsto> x\<lparr>px_props := props\<rparr>)" "clients st' = (clients st)(c \<mapsto> ?cl')"
    using l(2,3) x1 c1 by (simp_all add: eq st3_def st2_def)
  have prog: "program st' = program st @ concat (map (\<lambda>(n, v). told p x None n (Some [v])) (dict_values dict)) @ announced p cl"
    using l(4) prog1 by (simp add: eq st3_def st2_def waiting_def)
  have ok': "client_ok E hc hp st'" using st'(2) by (simp add: hc'_def)
  have list: "gc_proxy_list ?cl' = listing p (gc_proxy_list cl)" by simp
  show ?thesis by (rule that[OF arrives ok' f(1) val f(2) list prog])
qed

section \<open>A proxy the program makes\<close>

lemma proxy_made:
  assumes ok: "client_ok E hc hp st" and E: "plenty E" "sending E" and cl: "clients st c = Some cl"
    and none: "view st c (path, i) = None" and fit: "proxy_fits (gc_service cl) path i" and room: "used st + 2 < 2 ^ 32"
  obtains st1 p x cl1 where "g_dbus_proxy_new E (Some c) path i st = Some (Some p, st1)" "proxies st p = None"
    "client_ok E hc (hp(p := 1)) st1" "proxies st1 = (proxies st)(p \<mapsto> x)" "px_client x = Some c" "px_path x = path"
    "px_interface x = i" "px_props x = []" "px_prop_func x = None" "p \<in> getting st1" "clients st1 = (clients st)(c \<mapsto> cl1)"
    "gc_proxy_list cl1 = gc_proxy_list cl" "gc_proxy_added cl1 = gc_proxy_added cl" "gc_user_data cl1 = gc_user_data cl"
    "gc_service cl1 = gc_service cl" "p \<notin> set (gc_proxy_list cl)" "program st1 = program st" "used st1 \<le> used st + 2"
proof -
  from ok have core: "core_ok E hc hp {} st" and lists: "lists_ok st" by (simp_all add: client_ok_def)
  have look: "proxy_lookup c path i st = Some None"
    using proxy_lookup_find[OF ok cl, of path i] none cl by (simp add: view_def)
  define p where "p = next_proxy st"
  have fresh: "bare st p = None" using core_proxy(1)[OF core, of p] by (cases "bare st p") (auto simp: p_def)
  then have gone: "proxies st p = None" by (cases "proxies st p") (simp_all add: bare_def)
  have hp: "hp p = 0" using core_parts(2)[OF core] fresh by (simp add: proxies_ok_def)
  obtain w sa where new: "proxy_new E c path i st = Some (Some p, sa)" and corea: "core_ok E hc hp {} sa"
    and ca: "clients sa = clients st" and xa: "proxies sa = (proxies st)(p \<mapsto> new_proxy c path i w)"
    and ba: "bare sa = (bare st)(p \<mapsto> new_proxy c path i w)" and aw: "awaited sa = awaited st" and pa: "program sa = program st"
    and ua: "used sa \<le> used st + 2"
  proof (rule proxy_new_ok[OF core cl fit room])
    assume "try_fails E (attempts st)"
    with E(1) show thesis by (simp add: plenty_def)
  next
    fix w st1
    assume "proxy_new E c path i st = Some (Some (next_proxy st), st1)" "core_ok E hc hp {} st1" "clients st1 = clients st"
      "proxies st1 = (proxies st)(next_proxy st \<mapsto> new_proxy c path i w)"
      "bare st1 = (bare st)(next_proxy st \<mapsto> new_proxy c path i w)" "awaited st1 = awaited st" "program st1 = program st"
      "used st \<le> used st1" "used st1 \<le> used st + 2"
    then show thesis by (intro that[of st1 w]) (simp_all add: p_def)
  qed
  have op: "open_connection E" using E(2) by (simp add: open_connection_def sending_def)
  have pxa: "proxies sa p = Some (new_proxy c path i w)" "px_client (new_proxy c path i w) = Some c"
    by (simp_all add: xa new_proxy_def)
  from get_all_properties_ok[OF corea op pxa] obtain sb y y' where sb: "get_all_properties E p sa = Some sb" "core_ok E hc hp {} sb"
    "clients sa c = Some y" "clients sb = (clients sa)(c \<mapsto> y')" "gc_proxy_list y' = gc_proxy_list y" "proxies sb = proxies sa"
    "bare sb = bare sa" "used sb = used sa" "getting sa \<subseteq> getting sb" "reply_outcome E (attempts sa) = SentCall \<longrightarrow> p \<in> getting sb"
    "program sb = program sa" "y' = y\<lparr>gc_refs := gc_refs y'\<rparr>" .
  have y: "y = cl" using sb(3) ca cl by simp
  have asked: "p \<in> getting sb" using sb(10) E(2) by (simp add: sending_def)
  have at: "attached sb d = (if d = c then insert p (attached st d) else attached st d)" for d
    using fresh by (auto simp: attached_def sb(7) ba new_proxy_def)
  have "lists_ok sb"
    unfolding lists_ok_def
  proof (intro allI impI)
    fix d z assume z: "clients sb d = Some z"
    obtain z0 where z0: "clients st d = Some z0" "gc_proxy_list z = gc_proxy_list z0"
      using z cl sb(4,5) ca y by (cases "d = c") auto
    then have "distinct (gc_proxy_list z)" "set (gc_proxy_list z) \<subseteq> attached st d"
      "attached st d \<subseteq> set (gc_proxy_list z) \<union> getting st" using lists unfolding lists_ok_def by auto
    moreover have "getting st \<subseteq> getting sb" using sb(9) aw by (simp add: getting_def)
    ultimately show "distinct (gc_proxy_list z) \<and> set (gc_proxy_list z) \<subseteq> attached sb d
        \<and> attached sb d \<subseteq> set (gc_proxy_list z) \<union> getting sb" using asked at by auto
  qed
  with sb(2) have okb: "client_ok E hc hp sb" by (simp add: client_ok_def)
  have pxb: "proxies sb p = Some (new_proxy c path i w)" by (simp add: sb(6) xa)
  let ?x = "(new_proxy c path i w)\<lparr>px_refs := Suc (px_refs (new_proxy c path i w))\<rparr>"
  define st1 where "st1 = set_proxy p ?x sb"
  have ok1: "client_ok E hc (hp(p := 1)) st1" using proxy_ref_ok[OF okb pxb] hp by (simp add: st1_def)
  have run: "g_dbus_proxy_new E (Some c) path i st = Some (Some p, st1)"
    using look new sb(1) pxb by (simp add: g_dbus_proxy_new_def g_dbus_proxy_ref_def st1_def)
  have f: "proxies st1 = (proxies st)(p \<mapsto> ?x)" "p \<in> getting st1" "clients st1 = (clients st)(c \<mapsto> y')" "program st1 = program st"
    "used st1 \<le> used st + 2"
    using asked sb pa ua by (simp_all add: st1_def set_proxy_def sb(6) xa getting_def ca used_def)
  have x: "px_client ?x = Some c" "px_path ?x = path" "px_interface ?x = i" "px_props ?x = []" "px_prop_func ?x = None"
    by (simp_all add: new_proxy_def)
  have "gc_proxy_added y' = gc_proxy_added (y\<lparr>gc_refs := gc_refs y'\<rparr>)" "gc_user_data y' = gc_user_data (y\<lparr>gc_refs := gc_refs y'\<rparr>)"
    "gc_service y' = gc_service (y\<lparr>gc_refs := gc_refs y'\<rparr>)" using sb(12) by metis+
  then have y': "gc_proxy_list y' = gc_proxy_list cl" "gc_proxy_added y' = gc_proxy_added cl" "gc_user_data y' = gc_user_data cl"
    "gc_service y' = gc_service cl" using sb(5) y by simp_all
  have "p \<notin> attached st c" using fresh by (simp add: attached_def)
  then have "p \<notin> set (gc_proxy_list cl)" using lists cl unfolding lists_ok_def by blast
  then show ?thesis by (rule that[OF run gone ok1 f(1) x f(2,3) y' _ f(4,5)])
qed

text \<open>
  C33. A proxy the program makes for an object the client does not list asks for the properties
  of its interface. When they arrive, the proxy is listed and announced once, the program reads
  exactly the values sent, and the reference the call held to the client is given back. Messages
  can be allocated and sent, and the path fits its match rule.
\<close>

theorem proxy_gets_properties:
  assumes "client_ok E hc hp st" and "plenty E" and "sending E" and "clients st c = Some cl" and "0 < hc c"
    and "view st c (path, interface) = None" and "proxy_fits (gc_service cl) path interface" and "used st + 2 < 2 ^ 32"
    and "wt_item (DArray ''{sv}'' dict)"
  shows "\<exists>p st1 i st2. g_dbus_proxy_new E (Some c) path interface st = Some (Some p, st1) \<and> proxies st p = None
    \<and> (i, GetAllReply p) \<in> set (awaited st1)
    \<and> reply_arrives E i \<lparr>msg_error = False, msg_body = [DArray ''{sv}'' dict]\<rparr> st1 = Some st2
    \<and> client_ok E hc (hp(p := 1)) st2
    \<and> g_dbus_proxy_get_path (Some p) st2 = Some (Some path) \<and> g_dbus_proxy_get_interface (Some p) st2 = Some (Some interface)
    \<and> (\<forall>n. g_dbus_proxy_get_property (Some p) (Some n) st2 = Some (changes (dict_values dict) Map.empty n))
    \<and> (\<exists>cl2. clients st2 c = Some cl2 \<and> gc_proxy_list cl2 = gc_proxy_list cl @ [p])
    \<and> program st2 = program st @ (case gc_proxy_added cl of None \<Rightarrow> [] | Some f \<Rightarrow> [ProxyAdded f p (gc_user_data cl)])"
proof -
  obtain st1 p x cl1 where new: "g_dbus_proxy_new E (Some c) path interface st = Some (Some p, st1)" "proxies st p = None"
    "client_ok E hc (hp(p := 1)) st1" "proxies st1 = (proxies st)(p \<mapsto> x)" "px_client x = Some c" "px_path x = path"
    "px_interface x = interface" "px_props x = []" "px_prop_func x = None" "p \<in> getting st1" "clients st1 = (clients st)(c \<mapsto> cl1)"
    "gc_proxy_list cl1 = gc_proxy_list cl" "gc_proxy_added cl1 = gc_proxy_added cl" "gc_user_data cl1 = gc_user_data cl"
    "gc_service cl1 = gc_service cl" "p \<notin> set (gc_proxy_list cl)" "program st1 = program st" "used st1 \<le> used st + 2"
    by (rule proxy_made[OF assms(1-4,6-8)])
  from new(10) obtain i where call: "(i, GetAllReply p) \<in> set (awaited st1)" by (auto simp: getting_def)
  have x: "proxies st1 p = Some x" and cl1: "clients st1 c = Some cl1" by (simp_all add: new(4,11))
  obtain st2 props cl2 where arrives: "reply_arrives E i \<lparr>msg_error = False, msg_body = [DArray ''{sv}'' dict]\<rparr> st1 = Some st2"
    and ok2: "client_ok E hc (hp(p := 1)) st2" and x2: "proxies st2 = (proxies st1)(p \<mapsto> x\<lparr>px_props := props\<rparr>)"
    and val: "stored_value (x\<lparr>px_props := props\<rparr>) = changes (dict_values dict) (stored_value x)"
    and c2: "clients st2 = (clients st1)(c \<mapsto> cl2)" and list: "gc_proxy_list cl2 = listing p (gc_proxy_list cl1)"
    and prog: "program st2 = program st1 @ concat (map (\<lambda>(n, v). told p x None n (Some [v])) (dict_values dict)) @ announced p cl1"
    by (rule get_all_reply_ok[OF new(3) assms(2) call x new(5) cl1 assms(5,9)])
  have empty: "stored_value x = Map.empty" by (simp add: stored_value_def new(8) fun_eq_iff)
  have p2: "proxies st2 p = Some (x\<lparr>px_props := props\<rparr>)" by (simp add: x2)
  have reads: "g_dbus_proxy_get_path (Some p) st2 = Some (Some path)" "g_dbus_proxy_get_interface (Some p) st2 = Some (Some interface)"
    "g_dbus_proxy_get_property (Some p) (Some n) st2 = Some (changes (dict_values dict) Map.empty n)" for n
    using p2 new(6,7) val empty
    by (simp_all add: g_dbus_proxy_get_path_def g_dbus_proxy_get_interface_def g_dbus_proxy_get_property_def)
  have "concat (map (\<lambda>(n, v). told p x None n (Some [v])) kvs) = []" for kvs by (simp add: told_def new(9) split_beta)
  then have "program st2 = program st @ (case gc_proxy_added cl of None \<Rightarrow> [] | Some f \<Rightarrow> [ProxyAdded f p (gc_user_data cl)])"
    using prog new(12-14,16,17) by (simp add: announced_def split: option.split)
  moreover have "clients st2 c = Some cl2" "gc_proxy_list cl2 = gc_proxy_list cl @ [p]"
    using c2 list new(12,16) by (simp_all add: listing_def)
  ultimately show ?thesis using new(1,2) call arrives ok2 reads by blast
qed

text \<open>A new client, whose program set no functions.\<close>

lemma demo_env: "adding_fine (watching demo_client_env)" "removing_fine (watching demo_client_env)" "sending demo_client_env"
  by (simp_all add: demo_client_env_def sending_def adding_fine_def removing_fine_def demo_watch_env_def)

lemma demo_new_client:
  obtains st1 cl where "g_dbus_client_new demo_client_env (Some 1) ''net.connman'' ''/'' client_start = Some (Some 0, st1)"
    "mirror_ok demo_client_env ((\<lambda>_. 0)(0 := 1)) (\<lambda>_. 0) 0 st1" "clients st1 0 = Some cl" "gc_service cl = ''net.connman''"
    "view st1 0 = Map.empty" "used st1 \<le> 6"
proof -
  have start: "next_client client_start = 0" "used client_start = 0"
    by (simp_all add: client_start_def used_def watch_start_def)
  then have room: "used client_start + 6 < 2 ^ 32" by simp
  obtain st1 w1 w2 w3 where st1: "g_dbus_client_new demo_client_env (Some 1) ''net.connman'' ''/'' client_start
      = Some (Some (next_client client_start), st1)"
    "clients client_start (next_client client_start) = None"
    "client_ok demo_client_env ((\<lambda>_. 0)(next_client client_start := 1)) (\<lambda>_. 0) st1"
    "clients st1 = (clients client_start)(next_client client_start
       \<mapsto> (fresh_client 1 ''net.connman'' ''/'' w1 w2 w3)\<lparr>gc_refs := 1\<rparr>)"
    "proxies st1 = proxies client_start" "used st1 \<le> used client_start + 6"
    by (rule client_new_ok[OF client_start_ok[OF demo_env(1,2)] demo_client_env_fine demo_service_fits(1) room])
  let ?cl = "(fresh_client 1 ''net.connman'' ''/'' w1 w2 w3)\<lparr>gc_refs := 1\<rparr>"
  have cl: "clients st1 0 = Some ?cl" "gc_service ?cl = ''net.connman''" "gc_proxy_list ?cl = []"
    by (simp_all add: st1(4) start(1) fresh_client_def)
  have "view st1 0 = Map.empty" "keys_ok st1 0" using cl(1,3) by (simp_all add: view_def keys_ok_def fun_eq_iff)
  with st1 start cl show ?thesis by (intro that[of st1 ?cl]) (simp_all add: mirror_ok_def)
qed

theorem proxy_gets_properties_witness:
  "\<exists>st1 p st2 i st3. g_dbus_client_new demo_client_env (Some 1) ''net.connman'' ''/'' client_start = Some (Some 0, st1)
    \<and> g_dbus_proxy_new demo_client_env (Some 0) ''/wifi'' ''net.connman.Service'' st1 = Some (Some p, st2)
    \<and> reply_arrives demo_client_env i \<lparr>msg_error = False, msg_body = [DArray ''{sv}'' demo_dict]\<rparr> st2 = Some st3
    \<and> g_dbus_proxy_get_property (Some p) (Some ''State'') st3 = Some (Some [Basic (DString ''online'')])"
proof -
  from demo_new_client obtain st1 cl where new: "g_dbus_client_new demo_client_env (Some 1) ''net.connman'' ''/'' client_start = Some (Some 0, st1)"
    and m: "mirror_ok demo_client_env ((\<lambda>_. 0)(0 := 1)) (\<lambda>_. 0) 0 st1" and cl: "clients st1 0 = Some cl" "gc_service cl = ''net.connman''"
    and v: "view st1 0 = Map.empty" and u: "used st1 \<le> 6" .
  have ok: "client_ok demo_client_env ((\<lambda>_. 0)(0 := 1)) (\<lambda>_. 0) st1" using m by (simp add: mirror_ok_def)
  have "(0::nat) < ((\<lambda>_. 0)(0 := 1)) (0::nat)" "view st1 0 (''/wifi'', ''net.connman.Service'') = None"
    "proxy_fits (gc_service cl) ''/wifi'' ''net.connman.Service''" "used st1 + 2 < 2 ^ 32" "wt_item (DArray ''{sv}'' demo_dict)"
    using demo_service_fits(2) u by (simp_all add: v cl(2) demo_dict_def)
  from proxy_gets_properties[OF ok demo_client_env_fine demo_env(3) cl(1) this] obtain p st2 i st3 where
    "g_dbus_proxy_new demo_client_env (Some 0) ''/wifi'' ''net.connman.Service'' st1 = Some (Some p, st2)"
    "reply_arrives demo_client_env i \<lparr>msg_error = False, msg_body = [DArray ''{sv}'' demo_dict]\<rparr> st2 = Some st3"
    "\<forall>n. g_dbus_proxy_get_property (Some p) (Some n) st3 = Some (changes (dict_values demo_dict) Map.empty n)" by blast
  with new show ?thesis
    by (intro exI[of _ st1] exI[of _ p] exI[of _ st2] exI[of _ i] exI[of _ st3]) (simp add: demo_dict_def changes_def)
qed

text \<open>
  Before the reply the proxy is not listed, so a second request for the same object makes a
  second proxy of the same path and interface.
\<close>

lemma proxy_made_twice:
  assumes ok: "client_ok E hc hp st" and E: "plenty E" "sending E" and cl: "clients st c = Some cl"
    and none: "view st c (path, i) = None" and fit: "proxy_fits (gc_service cl) path i" and room: "used st + 4 < 2 ^ 32"
  shows "\<exists>p q st1 st2. g_dbus_proxy_new E (Some c) path i st = Some (Some p, st1)
    \<and> g_dbus_proxy_new E (Some c) path i st1 = Some (Some q, st2) \<and> p \<noteq> q
    \<and> key st2 p = Some (path, i) \<and> key st2 q = Some (path, i)"
proof -
  have room1: "used st + 2 < 2 ^ 32" using room by simp
  obtain st1 p x cl1 where new: "g_dbus_proxy_new E (Some c) path i st = Some (Some p, st1)" "proxies st p = None"
    "client_ok E hc (hp(p := 1)) st1" "proxies st1 = (proxies st)(p \<mapsto> x)" "px_client x = Some c" "px_path x = path"
    "px_interface x = i" "px_props x = []" "px_prop_func x = None" "p \<in> getting st1" "clients st1 = (clients st)(c \<mapsto> cl1)"
    "gc_proxy_list cl1 = gc_proxy_list cl" "gc_proxy_added cl1 = gc_proxy_added cl" "gc_user_data cl1 = gc_user_data cl"
    "gc_service cl1 = gc_service cl" "p \<notin> set (gc_proxy_list cl)" "program st1 = program st" "used st1 \<le> used st + 2"
    by (rule proxy_made[OF ok E cl none fit room1])
  have cl1: "clients st1 c = Some cl1" by (simp add: new(11))
  have "key st1 q = key st q" if "q \<in> set (gc_proxy_list cl)" for q
    using that new(16) by (auto simp: key_def new(4))
  then have none1: "view st1 c (path, i) = None"
    using none view_None[OF cl, of "(path, i)"] view_None[OF cl1, of "(path, i)"] new(12) by simp
  have fit1: "proxy_fits (gc_service cl1) path i" using fit new(15) by simp
  have room2: "used st1 + 2 < 2 ^ 32" using room new(18) by linarith
  obtain st2 q y cl2 where new2: "g_dbus_proxy_new E (Some c) path i st1 = Some (Some q, st2)" "proxies st1 q = None"
    "client_ok E hc (hp(p := 1, q := 1)) st2" "proxies st2 = (proxies st1)(q \<mapsto> y)" "px_client y = Some c" "px_path y = path"
    "px_interface y = i" "px_props y = []" "px_prop_func y = None" "q \<in> getting st2" "clients st2 = (clients st1)(c \<mapsto> cl2)"
    "gc_proxy_list cl2 = gc_proxy_list cl1" "gc_proxy_added cl2 = gc_proxy_added cl1" "gc_user_data cl2 = gc_user_data cl1"
    "gc_service cl2 = gc_service cl1" "q \<notin> set (gc_proxy_list cl1)" "program st2 = program st1" "used st2 \<le> used st1 + 2"
    by (rule proxy_made[OF new(3) E cl1 none1 fit1 room2])
  have "p \<noteq> q" using new2(2) by (auto simp: new(4))
  with new(1,6,7) new2(1,6,7) show ?thesis
    by (intro exI[of _ p] exI[of _ q] exI[of _ st1] exI[of _ st2]) (simp add: key_def new(4) new2(4))
qed

end
