(* ===== verification/Gdbus_Client_Errors.thy ===== *)
theory Gdbus_Client_Errors
  imports Gdbus_Client_Calls
begin

text \<open>
  Where \<open>gdbus/client.c\<close> fails: the reply for a proxy that has gone, and a path that does not fit
  the buffer of a match rule.
\<close>

section \<open>A reply after the service has gone\<close>

lemma late_reply:
  assumes ok: "client_ok E hc hp st" and cl: "clients st c = Some cl" and p: "p \<in> set (gc_proxy_list cl)"
    and call: "(i, GetAllReply p) \<in> set (awaited st)"
  shows "\<exists>st'. service_disconnect E c st = Some st' \<and> client_ok E hc hp st' \<and> (\<forall>reply. reply_arrives E i reply st' = None)"
proof -
  from listed_live[OF ok cl p] obtain x where x: "proxies st p = Some x" .
  from service_disconnect_ok[OF ok cl] obtain st' where st': "service_disconnect E c st = Some st'" "client_ok E hc hp st'"
    "proxies st' = (\<lambda>p. if p \<in> set (gc_proxy_list cl) then Option.bind (proxies st p) (freed_proxy (hp p)) else proxies st p)"
    "awaited st' = awaited st" .
  from reply_of[OF st'(2)] call st'(4) have "map_of (awaited st') i = Some (GetAllReply p)" by simp
  moreover have "proxies st' p = None \<or> (\<exists>y. proxies st' p = Some y \<and> px_client y = None)"
    using p x by (simp add: st'(3) freed_proxy_def)
  ultimately have "reply_arrives E i reply st' = None" for reply
    by (auto simp: reply_arrives_def run_reply_def get_all_properties_reply_def)
  with st'(1,2) show ?thesis by blast
qed

section \<open>A path that is too long\<close>

lemma path_in_rule:
  assumes "fd_path d = Some path"
  shows "length path < length (full_rule d)"
  using assms by (simp add: full_rule_def rule_parts_def rule_part_def)

lemma long_path_rule:
  assumes "1024 \<le> length path" and "fd_path d = Some path" and "fd_interface d = Some i" and "fd_argument d = Some arg"
  shows "format_rule d 1024 = None"
proof -
  have "1024 < length (concat (butlast (rule_head # rule_parts d)))"
    using assms by (simp add: rule_parts_def rule_part_def rule_head_def butlast_append split: option.split)
  with format_parts_None[of 1024 0 "[]" "rule_head # rule_parts d"] show ?thesis by (simp add: format_rule_def)
qed

lemma long_path_watch:
  assumes ok: "registry_ok w" and fine: "adding_fine W" and long: "1024 \<le> length path"
  shows "g_dbus_add_properties_watch W conn sender (Some path) (Some i) f u destroy w = None"
proof -
  have new: "filter_data_find_match w' conn' name own (Some path) (Some j) (Some mem) arg = None"
    if "listeners w' = listeners w" for w' conn' name own j mem arg
  proof -
    have "fd_path d \<noteq> Some path" if d: "d \<in> set (listeners w)" for d
    proof
      assume "fd_path d = Some path"
      then have "length path < length (full_rule d)" by (rule path_in_rule)
      moreover have "length (full_rule d) < 1024" using ok d by (simp add: registry_ok_def listener_ok_def)
      ultimately show False using long by simp
    qed
    then show ?thesis unfolding filter_data_find_match_def find_None_iff that by blast
  qed
  have fails: "add_match W d h w' = None" if "fd_path d = Some path" "fd_interface d = Some j" "fd_argument d = Some i" for d h w' j
    using long_path_rule[OF long that] by (simp add: add_match_def)
  have filter: "\<not> add_filter_fails W" using fine by (simp add: adding_fine_def)
  have "filter_data_get W conn h sender (Some path) (Some j) (Some mem) (Some i) w = None" for h j mem
    unfolding filter_data_get_def Let_def using filter new[OF refl] new[of "w\<lparr>filters := filters w @ [conn]\<rparr>"] fails
    by simp
  then show ?thesis unfolding g_dbus_add_properties_watch_def by simp
qed

lemma long_path_added:
  assumes ok: "client_ok E hc hp st" and E: "plenty E" and cl: "clients st c = Some cl"
    and none: "view st c (path, i) = None" and i: "\<not> skipped i" and long: "1024 \<le> length path"
  shows "interfaces_added E c [Basic (DObjectPath path), DArray ''{sa{sv}}'' (DDictEntry (Basic (DString i) # val) # entries)] st = None"
proof -
  let ?st1 = "set_client c (cl\<lparr>gc_refs := gc_refs cl + 1\<rparr>) st"
  have "core_ok E hc hp {} st" using ok by (simp add: client_ok_def)
  from core_parts(5)[OF this] have reg: "registry_ok (registry st)" "adding_fine (watching E)" by (simp_all add: watches_ok_def)
  have "lookup_loop path i (gc_proxy_list cl) st = Some None"
    using proxy_lookup_find[OF ok cl, of path i] none cl by (simp add: proxy_lookup_def view_def)
  moreover have "lookup_loop path i ps ?st1 = lookup_loop path i ps st" for ps
    by (induction ps) (simp_all split: Option.bind_split)
  ultimately have "proxy_lookup c path i ?st1 = Some None" by (simp add: proxy_lookup_def)
  moreover have "proxy_new E c path i ?st1 = None"
    using E by (simp add: proxy_new_def try_new_def plenty_def Let_def long_path_watch[OF reg long])
  ultimately have "parse_properties E c path i val ?st1 = None"
    using i by (simp add: parse_properties_def skipped_def)
  then show ?thesis using cl by (simp add: interfaces_added_def g_dbus_client_ref_def parse_interfaces_def)
qed

section \<open>What this comes to\<close>

text \<open>
  C36. The reply to GetAll is not cancelled with its proxy. If the service leaves the bus while the
  properties of a listed proxy have been asked for, whatever arrives as the reply (libdbus makes
  one up if there is none) makes \<open>get_all_properties_reply\<close> read the freed proxy, or dereference
  the client it no longer has.
\<close>

theorem late_reply_use_after_free:
  assumes "client_ok E hc hp st" and "clients st c = Some cl" and "p \<in> set (gc_proxy_list cl)"
    and "(i, GetAllReply p) \<in> set (awaited st)"
  shows "\<exists>st'. service_disconnect E c st = Some st' \<and> client_ok E hc hp st' \<and> (\<forall>reply. reply_arrives E i reply st' = None)"
  using assms by (rule late_reply)

lemma get_all_client_ok:
  assumes ok: "client_ok E hc hp st" and E: "sending E" and x: "proxies st p = Some x" and c: "px_client x = Some c"
    and cl: "clients st c = Some cl"
  obtains st' cl' where "get_all_properties E p st = Some st'" "client_ok E hc hp st'" "clients st' c = Some cl'"
    "gc_proxy_list cl' = gc_proxy_list cl" "p \<in> getting st'"
proof -
  from ok have core: "core_ok E hc hp {} st" and lists: "lists_ok st" by (simp_all add: client_ok_def)
  have op: "open_connection E" using E by (simp add: open_connection_def sending_def)
  from get_all_properties_ok[OF core op x c] obtain st' y y' where st': "get_all_properties E p st = Some st'"
    "core_ok E hc hp {} st'" "clients st c = Some y" "clients st' = (clients st)(c \<mapsto> y')" "gc_proxy_list y' = gc_proxy_list y"
    "proxies st' = proxies st" "bare st' = bare st" "used st' = used st" "getting st \<subseteq> getting st'"
    "reply_outcome E (attempts st) = SentCall \<longrightarrow> p \<in> getting st'" "program st' = program st" "y' = y\<lparr>gc_refs := gc_refs y'\<rparr>" .
  have "lists_ok st'"
    unfolding lists_ok_def
  proof (intro allI impI)
    fix d z assume z: "clients st' d = Some z"
    obtain z0 where "clients st d = Some z0" "gc_proxy_list z = gc_proxy_list z0"
      using z st'(3-5) by (cases "d = c") auto
    with lists st'(9) bare_attached[OF st'(7)] show "distinct (gc_proxy_list z) \<and> set (gc_proxy_list z) \<subseteq> attached st' d
        \<and> attached st' d \<subseteq> set (gc_proxy_list z) \<union> getting st'" unfolding lists_ok_def by fastforce
  qed
  with st' E cl show ?thesis by (intro that[of st' y']) (simp_all add: client_ok_def sending_def)
qed

text \<open>A service with one object.\<close>

definition demo_entries :: "ditem list" where
  "demo_entries = [DDictEntry [Basic (DString ''net.connman.Service''), DArray ''{sv}'' demo_dict]]"

lemma demo_listed:
  obtains st1 st2 cl p x where "g_dbus_client_new demo_client_env (Some 1) ''net.connman'' ''/'' client_start = Some (Some 0, st1)"
    "interfaces_added demo_client_env 0 [Basic (DObjectPath ''/wifi''), DArray ''{sa{sv}}'' demo_entries] st1 = Some st2"
    "client_ok demo_client_env ((\<lambda>_. 0)(0 := 1)) (\<lambda>_. 0) st2" "clients st2 0 = Some cl" "p \<in> set (gc_proxy_list cl)"
    "proxies st2 p = Some x" "px_client x = Some 0"
proof -
  let ?hc = "((\<lambda>_. 0)(0 := 1)) :: nat \<Rightarrow> nat"
  from demo_new_client obtain st1 cl1 where new: "g_dbus_client_new demo_client_env (Some 1) ''net.connman'' ''/'' client_start = Some (Some 0, st1)"
    and m: "mirror_ok demo_client_env ?hc (\<lambda>_. 0) 0 st1" and cl1: "clients st1 0 = Some cl1" "gc_service cl1 = ''net.connman''"
    and v: "view st1 0 = Map.empty" and u: "used st1 \<le> 6" .
  have wt: "wt_item (DArray ''{sa{sv}}'' demo_entries)" by (simp add: demo_entries_def demo_dict_def)
  have fit: "\<forall>(i, dict)\<in>set (interfaces_of demo_entries). \<not> skipped i \<longrightarrow> proxy_fits (gc_service cl1) ''/wifi'' i"
    using demo_service_fits(2) by (simp add: demo_entries_def cl1(2))
  have room: "used st1 + 2 * length demo_entries < 2 ^ 32" using u by (simp add: demo_entries_def)
  from interfaces_added_mirror[OF m demo_client_env_fine cl1(1) wt fit room] obtain st2 where
    run: "interfaces_added demo_client_env 0 [Basic (DObjectPath ''/wifi''), DArray ''{sa{sv}}'' demo_entries] st1 = Some st2"
    and m2: "mirror_ok demo_client_env ?hc (\<lambda>_. 0) 0 st2"
    and v2: "view st2 0 = fold (entry_added ''/wifi'') (interfaces_of demo_entries) (view st1 0)" and k: "keeps 0 st1 st2" by blast
  from k cl1(1) obtain cl where cl: "clients st2 0 = Some cl" by (auto simp: keeps_def)
  have "view st2 0 (''/wifi'', ''net.connman.Service'') \<noteq> None"
    unfolding v2 v by (simp add: demo_entries_def entry_added_def skipped_def)
  then obtain p where p: "p \<in> set (gc_proxy_list cl)" using view_None[OF cl, of "(''/wifi'', ''net.connman.Service'')"] by auto
  have ok: "client_ok demo_client_env ?hc (\<lambda>_. 0) st2" using m2 by (simp add: mirror_ok_def)
  from listed_live[OF ok cl p] obtain x where "proxies st2 p = Some x" "px_client x = Some 0" .
  from that[OF new run ok cl p this] show ?thesis .
qed

theorem late_reply_use_after_free_witness:
  "\<exists>st1 st2 st3 st4 p i. g_dbus_client_new demo_client_env (Some 1) ''net.connman'' ''/'' client_start = Some (Some 0, st1)
    \<and> interfaces_added demo_client_env 0 [Basic (DObjectPath ''/wifi''), DArray ''{sa{sv}}'' demo_entries] st1 = Some st2
    \<and> get_all_properties demo_client_env p st2 = Some st3 \<and> service_disconnect demo_client_env 0 st3 = Some st4
    \<and> (\<forall>reply. reply_arrives demo_client_env i reply st4 = None)"
proof -
  from demo_listed obtain st1 st2 cl p x where
    run: "g_dbus_client_new demo_client_env (Some 1) ''net.connman'' ''/'' client_start = Some (Some 0, st1)"
    "interfaces_added demo_client_env 0 [Basic (DObjectPath ''/wifi''), DArray ''{sa{sv}}'' demo_entries] st1 = Some st2"
    and ok: "client_ok demo_client_env ((\<lambda>_. 0)(0 := 1)) (\<lambda>_. 0) st2" and cl: "clients st2 0 = Some cl"
    and p: "p \<in> set (gc_proxy_list cl)" and x: "proxies st2 p = Some x" "px_client x = Some 0" .
  from get_all_client_ok[OF ok demo_env(3) x cl] obtain st3 cl3 where
    st3: "get_all_properties demo_client_env p st2 = Some st3" "client_ok demo_client_env ((\<lambda>_. 0)(0 := 1)) (\<lambda>_. 0) st3"
    "clients st3 0 = Some cl3" "gc_proxy_list cl3 = gc_proxy_list cl" "p \<in> getting st3" .
  from st3(5) obtain i where "(i, GetAllReply p) \<in> set (awaited st3)" by (auto simp: getting_def)
  from late_reply_use_after_free[OF st3(2,3) _ this] p st3(4) obtain st4 where
    "service_disconnect demo_client_env 0 st3 = Some st4" "\<forall>reply. reply_arrives demo_client_env i reply st4 = None" by auto
  with run st3(1) show ?thesis by blast
qed

text \<open>
  C37. A service can make its client write behind a buffer on the stack: an object path of 1024
  bytes or more that is new to the client makes the handler of InterfacesAdded write the match
  rule of its proxy behind the buffer, whatever else the message holds, if the first interface it
  names is one the client makes proxies for (not Introspectable or Properties).
\<close>

theorem long_path_overflows:
  assumes "client_ok E hc hp st" and "plenty E" and "clients st c = Some cl" and "view st c (path, interface) = None"
    and "\<not> skipped interface" and "1024 \<le> length path"
  shows "interfaces_added E c [Basic (DObjectPath path),
      DArray ''{sa{sv}}'' (DDictEntry (Basic (DString interface) # properties) # entries)] st = None"
  using assms by (rule long_path_added)

theorem long_path_overflows_witness:
  "\<exists>st1. g_dbus_client_new demo_client_env (Some 1) ''net.connman'' ''/'' client_start = Some (Some 0, st1)
    \<and> interfaces_added demo_client_env 0 [Basic (DObjectPath (CHR ''/'' # replicate 1023 (CHR ''a''))),
        DArray ''{sa{sv}}'' demo_entries] st1 = None"
proof -
  from demo_new_client obtain st1 cl where new: "g_dbus_client_new demo_client_env (Some 1) ''net.connman'' ''/'' client_start = Some (Some 0, st1)"
    and m: "mirror_ok demo_client_env ((\<lambda>_. 0)(0 := 1)) (\<lambda>_. 0) 0 st1" and cl: "clients st1 0 = Some cl" and v: "view st1 0 = Map.empty" .
  have ok: "client_ok demo_client_env ((\<lambda>_. 0)(0 := 1)) (\<lambda>_. 0) st1" using m by (simp add: mirror_ok_def)
  have "view st1 0 (CHR ''/'' # replicate 1023 (CHR ''a''), ''net.connman.Service'') = None" by (simp add: v)
  from long_path_overflows[OF ok demo_client_env_fine cl this, of "[DArray ''{sv}'' demo_dict]" "[]"] new
  show ?thesis by (auto simp: demo_entries_def skipped_def)
qed

end
