(* ===== verification/Polkit.thy ===== *)
theory Polkit
  imports Fdo_Dbus "HOL-Library.Word"
begin

text \<open>
  \<open>gdbus/polkit.c\<close>: the question whether a client may do something, which \<open>gdbus/object.c\<close> asks
  for methods that are guarded by polkit. The function waiting for the answer is a number, its
  user data another; the unique name of the connection, memory and sending are arguments.
\<close>

unbundle bit_operations_syntax

section \<open>The question\<close>

definition add_dict_with_string_value :: "string \<Rightarrow> string \<Rightarrow> ditem" where
  "add_dict_with_string_value key str =
     DArray ''{sv}'' [DDictEntry [Basic (DString key), DVariant ''s'' [Basic (DString str)]]]"

definition add_empty_string_dict :: ditem where
  "add_empty_string_dict = DArray ''{ss}'' []"

definition add_arguments :: "string \<Rightarrow> string \<Rightarrow> 32 word \<Rightarrow> ditem list" where
  "add_arguments busname action flags =
     [DStruct [Basic (DString ''system-bus-name''), add_dict_with_string_value ''name'' busname],
      Basic (DString action), add_empty_string_dict, Basic (DUint32 flags), Basic (DString [])]"

record authorization_data =
  auth_function :: "nat option"
  auth_user_data :: nat

record polkit_call =
  pk_destination :: string
  pk_path :: string
  pk_interface :: string
  pk_member :: string
  pk_body :: "ditem list"
  pk_timeout :: int
  pk_data :: authorization_data

text \<open>
  The outer option is undefined behaviour: libdbus does not append a NULL string, which the
  name of the connection is before it is registered. The inner one is the call that is
  waiting.
\<close>

definition polkit_check_authorization ::
  "bool \<Rightarrow> send_outcome \<Rightarrow> nat option \<Rightarrow> string option \<Rightarrow> string option \<Rightarrow> bool \<Rightarrow> nat option \<Rightarrow> nat \<Rightarrow> int
     \<Rightarrow> (int \<times> polkit_call option) option"
where
  "polkit_check_authorization no_memory outcome conn busname action interaction function user_data timeout =
     (if conn = None then Some (- EINVAL, None)
      else if no_memory then Some (- ENOMEM, None)
      else if outcome = NoMessage then Some (- ENOMEM, None)
      else
        let flags = (if interaction then 0 OR 1 else 0);
            action = (case action of None \<Rightarrow> ''org.freedesktop.policykit.exec'' | Some a \<Rightarrow> a)
        in (case busname of
              None \<Rightarrow> None
            | Some name \<Rightarrow>
                (if outcome = SendFailed then Some (- EIO, None)
                 else if outcome = NoPendingCall then Some (- EIO, None)
                 else Some (0, Some \<lparr>pk_destination = ''org.freedesktop.PolicyKit1'',
                        pk_path = ''/org/freedesktop/PolicyKit1/Authority'',
                        pk_interface = ''org.freedesktop.PolicyKit1.Authority'',
                        pk_member = ''CheckAuthorization'', pk_body = add_arguments name action flags,
                        pk_timeout = timeout,
                        pk_data = \<lparr>auth_function = function, auth_user_data = user_data\<rparr>\<rparr>))))"

section \<open>The answer\<close>

fun iter_get_boolean :: "ditem list \<Rightarrow> bool option" where
  "iter_get_boolean (Basic (DBoolean b) # _) = Some b"
| "iter_get_boolean _ = None"

text \<open>The second value is read from the place of the first: the iterator is not advanced.\<close>

definition parse_result :: "ditem list \<Rightarrow> bool option" where
  "parse_result iter =
     (let result = iter_recurse iter in
      case iter_get_boolean result of
        None \<Rightarrow> None
      | Some authorized \<Rightarrow>
          (case iter_get_boolean result of
             None \<Rightarrow> None
           | Some challenge \<Rightarrow> Some authorized))"

text \<open>The call that is made, if any.\<close>

definition authorization_reply :: "authorization_data \<Rightarrow> dmessage \<Rightarrow> (nat \<times> bool \<times> nat) option option" where
  "authorization_reply data reply =
     map_option (\<lambda>authorized. map_option (\<lambda>f. (f, authorized, auth_user_data data)) (auth_function data))
       (if msg_error reply then Some False
        else if \<not> has_signature reply ''(bba{ss})'' then Some False
        else parse_result (msg_body reply))"

end
