(* ===== verification/Polkit_Props.thy ===== *)
theory Polkit_Props
  imports Polkit Gdbus_Object_Run
begin

text \<open>
  polkit and the object tree together: a guarded method runs only if the answer grants it.
\<close>

lemma arguments_typed:
  "wt_body (add_arguments name action flags)"
  "items_sig (add_arguments name action flags) = ''(sa{sv})sa{ss}us''"
  by (simp_all add: wt_body_def add_arguments_def add_dict_with_string_value_def add_empty_string_dict_def)

text \<open>The answers that grant: of the declared type, with TRUE as their first value.\<close>

definition grants :: "dmessage \<Rightarrow> bool" where
  "grants m \<longleftrightarrow> \<not> msg_error m \<and> has_signature m ''(bba{ss})''
     \<and> (\<exists>rest more. msg_body m = DStruct (Basic (DBoolean True) # rest) # more)"

lemma answer_struct:
  assumes "has_signature m ''(bba{ss})''"
  obtains b rest more where "msg_body m = DStruct (Basic (DBoolean b) # rest) # more"
proof -
  from assms obtain i more where m: "msg_body m = i # more" and s: "item_sig i @ items_sig more = ''(bba{ss})''"
    by (cases "msg_body m") (simp_all add: has_signature_def)
  have "type_code b \<noteq> CHR ''(''" for b by (cases b) simp_all
  with s obtain items where i: "i = DStruct items" by (cases i) auto
  with s obtain j rest where items: "items = j # rest" by (cases items) auto
  with s i have "item_sig j @ items_sig rest @ '')'' @ items_sig more = ''bba{ss})''" by simp
  then obtain b where "j = Basic b" "type_code b = CHR ''b''" by (cases j) auto
  then obtain v where "j = Basic (DBoolean v)" by (cases b) auto
  then show ?thesis using that m i items by blast
qed

lemma authorization_reply_eq:
  "authorization_reply data m = Some (map_option (\<lambda>f. (f, grants m, auth_user_data data)) (auth_function data))"
proof (cases "msg_error m \<or> \<not> has_signature m ''(bba{ss})''")
  case True
  then show ?thesis by (auto simp: authorization_reply_def grants_def)
next
  case False
  then obtain b rest more where "msg_body m = DStruct (Basic (DBoolean b) # rest) # more"
    using answer_struct by blast
  with False show ?thesis by (auto simp: authorization_reply_def grants_def parse_result_def)
qed

text \<open>
  C21. A method guarded by polkit is not run when it is called: polkit is asked, with a
  well-typed question of the signature it documents. An answer that grants it makes the method
  run, exactly once, and with nothing else to announce this always succeeds. Any other answer,
  an error or one of another type included, is recognised as a refusal; but no client is ever
  refused: what the code does then is undefined, since \<open>builtin_security_result\<close> hands a NULL
  format to \<open>vsnprintf\<close>, so nothing can be said of the method after that.
\<close>

theorem polkit_decides:
  assumes "heap st r = Some d" and "find_interface (g_interfaces d) (c_interface msg) = Some f"
    and "if_methods f = pre @ m # post" and "\<forall>m'\<in>set pre. passed_over (global_flags st) msg m'"
    and "called (global_flags st) msg m" and "m_function m = Some (ClientMethod k)"
    and "security_tab st = Some t" and "find_security t (m_privilege m) = Some s"
    and "sec_function s = None \<or> flag_set (sec_flags s) SECURITY_FLAG_BUILTIN"
    and "\<not> polkit_fails E (ticks st)" and "next_pending st \<notin> sq_pending ` set (pending_security st)"
    and "\<forall>r. method_answer E k msg (if_user_data f) = Some r \<longrightarrow> as_out r \<noteq> None"
  shows "\<exists>st1 ask call. generic_message E c msg r st = Some (Handled, st1) \<and> outbox st1 = outbox st
    \<and> runs st1 = runs st @ [PolkitAsked (sec_action s) ask (next_pending st)]
    \<and> polkit_check_authorization False SentCall (Some c) (Some name) (Some (sec_action s)) ask (Some fn) data 30000
        = Some (0, Some call)
    \<and> wt_body (pk_body call) \<and> items_sig (pk_body call) = ''(sa{sv})sa{ss}us''
    \<and> (\<forall>answer. authorization_reply (pk_data call) answer = Some (Some (fn, grants answer, data))
         \<and> (if grants answer
            then (pending_data st = [] \<longrightarrow> builtin_security_result E c (next_pending st) True st1 \<noteq> None)
              \<and> (\<forall>st2. builtin_security_result E c (next_pending st) True st1 = Some st2 \<longrightarrow>
                   runs st2 = runs st1 @ [MethodRun k (c_serial msg) (if_user_data f)]
                   \<and> g_dbus_pending_success E c (next_pending st) st2 = Some st2)
            else builtin_security_result E c (next_pending st) False st1 = None))"
proof -
  let ?pid = "next_pending st" and ?ask = "flag_set (sec_flags s) SECURITY_FLAG_ALLOW_INTERACTION"
  let ?entry = "\<lparr>sq_pending = ?pid, sq_message = msg, sq_method = m, sq_user_data = if_user_data f\<rparr>"
  define st1 where "st1 = run_client (PolkitAsked (sec_action s) ?ask ?pid)
    (st\<lparr>next_pending := ?pid + 1, pending_security := ?entry # pending_security st, ticks := Suc (ticks st)\<rparr>)"
  have "check_privilege E c msg m (if_user_data f) st = Some (True, st1)"
    using assms(7-10)
    by (cases "sec_function s"; cases "flag_set (sec_flags s) SECURITY_FLAG_BUILTIN")
      (simp_all add: check_privilege_def builtin_security_function_def st1_def Let_def)
  then have gm: "generic_message E c msg r st = Some (Handled, st1)"
    using assms(1-3) method_loop_called[OF assms(4,5), of E c f post]
    by (simp add: generic_message_def)
  have sec: "pending_security st1 = ?entry # pending_security st"
    and out: "outbox st1 = outbox st" and rn: "runs st1 = runs st @ [PolkitAsked (sec_action s) ?ask ?pid]"
    by (simp_all add: st1_def run_client_def)
  define call where "call = \<lparr>pk_destination = ''org.freedesktop.PolicyKit1'',
    pk_path = ''/org/freedesktop/PolicyKit1/Authority'', pk_interface = ''org.freedesktop.PolicyKit1.Authority'',
    pk_member = ''CheckAuthorization'', pk_body = add_arguments name (sec_action s) (if ?ask then 0 OR 1 else 0),
    pk_timeout = 30000, pk_data = \<lparr>auth_function = Some fn, auth_user_data = data\<rparr>\<rparr>"
  have ask: "polkit_check_authorization False SentCall (Some c) (Some name) (Some (sec_action s)) ?ask (Some fn) data 30000
      = Some (0, Some call)"
    by (simp add: polkit_check_authorization_def call_def Let_def)
  have typed: "wt_body (pk_body call)" "items_sig (pk_body call) = ''(sa{sv})sa{ss}us''"
    unfolding call_def polkit_call.select_convs by (rule arguments_typed)+
  have reply: "authorization_reply (pk_data call) answer = Some (Some (fn, grants answer, data))" for answer
    by (simp add: authorization_reply_eq call_def)
  have refused: "builtin_security_result E c ?pid False st1 = None"
    using refusal_is_undefined[of ?pid st1 E c] sec by simp
  have granted: "builtin_security_result E c ?pid True st1 \<noteq> None" if "pending_data st = []"
  proof -
    have "pending_data st1 = []" using that by (simp add: st1_def run_client_def)
    from pending_success_returns[OF sec _ _ this, of ?pid k E c] assms(6,12) show ?thesis
      by (simp add: builtin_security_result_def)
  qed
  have fin: "runs st2 = runs st1 @ [MethodRun k (c_serial msg) (if_user_data f)]
      \<and> g_dbus_pending_success E c ?pid st2 = Some st2"
    if res: "builtin_security_result E c ?pid True st1 = Some st2" for st2
  proof -
    from res have ok: "g_dbus_pending_success E c ?pid st1 = Some st2" by (simp add: builtin_security_result_def)
    from pending_runs_once[OF sec _ _ ok, of k] assms(6)
    have "runs st2 = runs st1 @ [MethodRun k (c_serial msg) (if_user_data f)]"
      "pending_security st2 = pending_security st" by simp_all
    moreover have "find (\<lambda>s. sq_pending s = ?pid) (pending_security st) = None"
      unfolding find_None_iff using assms(11) by (metis image_eqI)
    ultimately show ?thesis
      by (simp add: g_dbus_pending_success_def take_pending_def)
  qed
  show ?thesis
    by (intro exI[of _ st1] exI[of _ ?ask] exI[of _ call]) (use gm out rn ask typed reply refused granted fin in simp)
qed

definition demo_builtin :: obj_state where
  "demo_builtin = demo_guarded\<lparr>security_tab :=
     Some [\<lparr>sec_privilege = 5, sec_action = ''act'', sec_flags = 0, sec_function = None\<rparr>]\<rparr>"

theorem polkit_decides_witness:
  "\<exists>st1 ask. generic_message demo_obj_env 1 demo_do 0 demo_builtin = Some (Handled, st1)
    \<and> outbox st1 = [] \<and> runs st1 = [PolkitAsked ''act'' ask 1]"
proof -
  let ?d = "(fresh_object demo_obj_env 1 ''/a'')\<lparr>g_interfaces :=
       [(demo_interface 0 ''a.b'')\<lparr>if_methods := [guarded]\<rparr>]\<rparr>"
  let ?f = "(demo_interface 0 ''a.b'')\<lparr>if_methods := [guarded]\<rparr>"
  let ?s = "\<lparr>sec_privilege = 5, sec_action = ''act'', sec_flags = 0, sec_function = None\<rparr>"
  have 1: "heap demo_builtin 0 = Some ?d" "find_interface (g_interfaces ?d) (c_interface demo_do) = Some ?f"
    "if_methods ?f = [] @ guarded # []" "\<forall>m\<in>set []. passed_over (global_flags demo_builtin) demo_do m"
    by (simp_all add: demo_builtin_def demo_guarded_def demo_do_def find_interface_def demo_interface_def)
  have 2: "called (global_flags demo_builtin) demo_do guarded"
    by (simp add: called_def demo_do_def guarded_def demo_methods_def check_experimental_def flag_set_def
        g_dbus_args_have_signature_def)
  have 3: "m_function guarded = Some (ClientMethod 1)" "security_tab demo_builtin = Some [?s]"
    "find_security [?s] (m_privilege guarded) = Some ?s"
    "sec_function ?s = None \<or> flag_set (sec_flags ?s) SECURITY_FLAG_BUILTIN"
    "\<not> polkit_fails demo_obj_env (ticks demo_builtin)"
    "next_pending demo_builtin \<notin> sq_pending ` set (pending_security demo_builtin)"
    "\<forall>r. method_answer demo_obj_env 1 demo_do (if_user_data ?f) = Some r \<longrightarrow> as_out r \<noteq> None"
    by (simp_all add: guarded_def demo_methods_def demo_builtin_def demo_guarded_def demo_changed_def obj_start_def
        demo_obj_env_def)
  have 4: "outbox demo_builtin = []" "runs demo_builtin = []" "next_pending demo_builtin = 1"
    by (simp_all add: demo_builtin_def demo_guarded_def demo_changed_def obj_start_def)
  from polkit_decides[OF 1 2 3, of 1 "'':1.0''" 0 0] 4 show ?thesis by fastforce
qed

end
