(* ===== verification/Session.thy ===== *)
theory Session
  imports Dbus_Common Fdo_Dbus Gdbus_Watch_Props
begin

text \<open>
  \<open>src/session.c\<close>, \<open>src/connman-manager.c\<close> and \<open>src/connman-notification.c\<close>: pold watches
  the bus name of the connection manager and asks it for a session whenever the name appears;
  connman answers with the path of the session and tells pold about changes of its settings
  through an interface pold exports. The three files share the session path and the settings.
  The watch is that of \<open>Gdbus_Watch\<close>; libdbus is asked through \<open>send_outcome\<close>, and
  whether a message can be allocated is an argument. A pointer to a freed string is
  \<open>FreedPtr\<close>; freeing it again makes an operation \<open>None\<close>.
\<close>

section \<open>State\<close>

datatype c_string_ptr = NullPtr | StrPtr string | FreedPtr

definition g_strdup :: "string option \<Rightarrow> c_string_ptr" where
  "g_strdup s = (case s of None \<Rightarrow> NullPtr | Some t \<Rightarrow> StrPtr t)"

record method_call =
  mc_destination :: string
  mc_path :: string
  mc_interface :: string
  mc_member :: string
  mc_body :: "ditem list"

record connman_session =
  manager_connection :: "nat option" \<comment> \<open>\<open>connection\<close> of \<open>connman-manager.c\<close>\<close>
  session_connection :: "nat option" \<comment> \<open>\<open>connection\<close> of \<open>session.c\<close>\<close>
  watch_id :: "32 word"
  session_path :: c_string_ptr
  settings_state :: c_string_ptr
  watches :: watch_state
  create_sent :: "method_call list"
  create_pending :: nat
  attempts :: nat
  null_unrefs :: nat

text \<open>What libdbus answers to the attempts to send, and what the watches need to know.\<close>

record session_env =
  watch_answers :: watch_env
  create_outcome :: "nat \<Rightarrow> send_outcome"

abbreviation (input) CONNMAN_BUS_NAME :: string where "CONNMAN_BUS_NAME \<equiv> ''net.connman''"
abbreviation (input) CONNMAN_MANAGER_PATH :: string where "CONNMAN_MANAGER_PATH \<equiv> ''/''"
abbreviation (input) CONNMAN_MANAGER_INTERFACE :: string where
  "CONNMAN_MANAGER_INTERFACE \<equiv> ''net.connman.Manager''"
abbreviation (input) CONNMAN_NOTIFICATION_INTERFACE :: string where
  "CONNMAN_NOTIFICATION_INTERFACE \<equiv> ''net.connman.Notification''"
abbreviation (input) POLD_BUS_NAME :: string where "POLD_BUS_NAME \<equiv> ''de.bmw.pold1''"
abbreviation (input) POLD_MANAGER_PATH :: string where "POLD_MANAGER_PATH \<equiv> ''/de/bmw/pold1''"
abbreviation (input) POLD_MANAGER_INTERFACE :: string where
  "POLD_MANAGER_INTERFACE \<equiv> ''de.bmw.pold.Manager1''"
abbreviation (input) POLD_NOTIFICATION_PATH :: string where
  "POLD_NOTIFICATION_PATH \<equiv> ''/de/bmw/pold1''"

section \<open>The settings of the session\<close>

definition pold_session_set_path :: "string option \<Rightarrow> connman_session \<Rightarrow> connman_session option" where
  "pold_session_set_path path s =
     (if session_path s = FreedPtr then None else Some (s\<lparr>session_path := g_strdup path\<rparr>))"

definition pold_session_set_state :: "string option \<Rightarrow> connman_session \<Rightarrow> connman_session option" where
  "pold_session_set_state st s =
     (if settings_state s = FreedPtr then None else Some (s\<lparr>settings_state := g_strdup st\<rparr>))"

section \<open>Asking for a session\<close>

definition create_session_cb :: "dmessage \<Rightarrow> connman_session \<Rightarrow> connman_session option" where
  "create_session_cb reply s =
     (let s1 = s\<lparr>create_pending := create_pending s - 1\<rparr> in
      if msg_error reply \<or> \<not> has_signature reply ''o'' then pold_session_set_path None s1
      else (case iter_get_string (msg_body reply) of
              None \<Rightarrow> None
            | Some path \<Rightarrow> pold_session_set_path (Some path) s1))"

text \<open>The dictionary: the bearers by hand, the type of the connection by \<open>dict_append_entry\<close>.\<close>

definition allowed_bearers_entry :: ditem where
  "allowed_bearers_entry =
     DDictEntry [Basic (DString ''AllowedBearers''),
       DVariant ''as'' [DArray ''s'' [Basic (DString ''ethernet''), Basic (DString ''wifi'')]]]"

definition create_session_body :: "ditem list option" where
  "create_session_body =
     map_option (\<lambda>dict. [DArray ''{sv}'' dict, Basic (DObjectPath POLD_NOTIFICATION_PATH)])
       (dict_append_entry [allowed_bearers_entry] ''ConnectionType'' (CHR ''s'')
         (Some (DString ''internet'')))"

text \<open>
  Where there is no message the code jumps to the end all the same, and hands NULL to
  \<open>dbus_message_unref\<close>. libdbus refuses to send without a connection.
\<close>

definition pold_connman_manager_create_session ::
  "session_env \<Rightarrow> connman_session \<Rightarrow> connman_session option"
where
  "pold_connman_manager_create_session E s =
     (let s1 = s\<lparr>attempts := Suc (attempts s)\<rparr>;
          outcome = create_outcome E (attempts s)
      in if outcome = NoMessage then Some (s1\<lparr>null_unrefs := Suc (null_unrefs s)\<rparr>)
         else (case create_session_body of
                 None \<Rightarrow> None
               | Some body \<Rightarrow>
                   (if manager_connection s = None \<or> outcome = SendFailed then Some s1
                    else if outcome = NoPendingCall then Some s1
                    else Some (s1\<lparr>create_sent := create_sent s @
                             [\<lparr>mc_destination = CONNMAN_BUS_NAME, mc_path = CONNMAN_MANAGER_PATH,
                               mc_interface = CONNMAN_MANAGER_INTERFACE,
                               mc_member = ''CreateSession'', mc_body = body\<rparr>],
                           create_pending := Suc (create_pending s)\<rparr>))))"

definition pold_connman_manager_init :: "nat \<Rightarrow> connman_session \<Rightarrow> connman_session" where
  "pold_connman_manager_init conn s = s\<lparr>manager_connection := Some conn\<rparr>"

section \<open>Watching connman\<close>

definition connman_appeared :: "session_env \<Rightarrow> connman_session \<Rightarrow> connman_session option" where
  "connman_appeared E s = pold_connman_manager_create_session E s"

definition connman_disappeared :: "connman_session \<Rightarrow> connman_session option" where
  "connman_disappeared s = Some s"

text \<open>The two functions as the watch knows them, and the calls it has made since.\<close>

abbreviation (input) appeared_fn :: client_fn where "appeared_fn \<equiv> 0"
abbreviation (input) disappeared_fn :: client_fn where "disappeared_fn \<equiv> 1"

fun run_calls :: "session_env \<Rightarrow> client_call list \<Rightarrow> connman_session \<Rightarrow> connman_session option" where
  "run_calls E [] s = Some s"
| "run_calls E (c # cs) s =
     (case (case c of
              ConnCalled f _ \<Rightarrow> if f = appeared_fn then connman_appeared E s else Some s
            | DiscCalled f _ \<Rightarrow> if f = disappeared_fn then connman_disappeared s else Some s
            | _ \<Rightarrow> Some s) of
        None \<Rightarrow> None
      | Some s' \<Rightarrow> run_calls E cs s')"

definition after_watch ::
  "session_env \<Rightarrow> watch_state option \<Rightarrow> connman_session \<Rightarrow> connman_session option"
where
  \<comment> \<open>the watches did something; the functions they called run\<close>
  "after_watch E w s =
     (case w of
        None \<Rightarrow> None
      | Some w' \<Rightarrow> run_calls E (drop (length (calls (watches s))) (calls w')) (s\<lparr>watches := w'\<rparr>))"

definition pold_session_init :: "session_env \<Rightarrow> nat \<Rightarrow> connman_session \<Rightarrow> connman_session option" where
  "pold_session_init E conn s =
     (case g_dbus_add_service_watch (watch_answers E) conn (Some CONNMAN_BUS_NAME)
             (Some appeared_fn) (Some disappeared_fn) 0 None (watches s) of
        None \<Rightarrow> None
      | Some (wid, w) \<Rightarrow>
          Some (s\<lparr>session_connection := Some conn, watch_id := wid, watches := w,
                  settings_state := NullPtr\<rparr>))"

definition pold_session_final :: "session_env \<Rightarrow> connman_session \<Rightarrow> connman_session option" where
  "pold_session_final E s =
     (if settings_state s = FreedPtr then None
      else (case g_dbus_remove_watch (watch_answers E) (watch_id s) (watches s) of
              None \<Rightarrow> None
            | Some (_, w) \<Rightarrow>
                Some (s\<lparr>watches := w,
                  settings_state := (if settings_state s = NullPtr then NullPtr else FreedPtr)\<rparr>)))"

section \<open>The notification interface\<close>

text \<open>
  The functions of the interface: the outer option is undefined behaviour, the inner one the
  reply, an empty method return, or NULL.
\<close>

definition release :: "bool \<Rightarrow> connman_session \<Rightarrow> (ditem list option \<times> connman_session) option" where
  "release reply s =
     (case pold_session_set_path None s of
        None \<Rightarrow> None
      | Some s1 \<Rightarrow> Some (if reply then Some [] else None, s1))"

fun update_loop :: "ditem list \<Rightarrow> connman_session \<Rightarrow> connman_session option" where
  "update_loop (DDictEntry entry # rest) s =
     (case iter_get_string entry of
        None \<Rightarrow> None
      | Some key \<Rightarrow>
          (let val = iter_recurse (iter_next entry) in
           if key = ''State'' then
             (case iter_get_string val of
                None \<Rightarrow> None
              | Some state \<Rightarrow>
                  (case pold_session_set_state (Some state) s of
                     None \<Rightarrow> None
                   | Some s1 \<Rightarrow> update_loop rest s1))
           else update_loop rest s))"
| "update_loop _ s = Some s"

definition update ::
  "bool \<Rightarrow> dmessage \<Rightarrow> connman_session \<Rightarrow> (ditem list option \<times> connman_session) option"
where
  "update reply message s =
     (if \<not> reply then Some (None, s)
      else map_option (\<lambda>s1. (Some [], s1)) (update_loop (msg_body message) s))"

end
