(* ===== verification/Gdbus_Mainloop.thy ===== *)
theory Gdbus_Mainloop
  imports Gdbus_Watch_Props "HOL-Library.Monad_Syntax"
begin

text \<open>
  \<open>gdbus/mainloop.c\<close>: libdbus asks for file descriptors to be polled and for timeouts, and the
  file puts them into the main loop of GLib. A \<open>struct watch_info\<close> and a \<open>struct
  timeout_handler\<close> are references into \<open>infos\<close> and \<open>handlers\<close>, a \<open>DBusConnection\<close> into
  \<open>conns\<close>; freed objects are \<open>None\<close>, and using one makes an operation \<open>None\<close>. libdbus is
  the list of the callbacks it makes (\<open>lib_action\<close>); its watches and timeouts carry the fields
  the callbacks read. A source of GLib is an entry of \<open>sources\<close>; ids are never used twice.
  \<open>g_new0\<close> does not fail.
\<close>

unbundle bit_operations_syntax

section \<open>State\<close>

record dbus_watch =
  dw_enabled :: bool
  dw_fd :: int
  dw_flags :: "32 word"
  dw_conn :: nat
  dw_data :: "nat option"

record dbus_timeout =
  dt_enabled :: bool
  dt_interval :: int
  dt_data :: "nat option"

record dbus_conn =
  dc_refs :: nat
  dc_connected :: bool
  dc_queue :: nat \<comment> \<open>messages received and not yet dispatched\<close>
  dc_private :: bool
  dc_exits :: bool \<comment> \<open>whether libdbus ends the program when the connection is lost\<close>
  dc_hooked :: bool

record watch_info =
  info_id :: nat
  info_watch :: nat
  info_conn :: nat

record timeout_handler =
  th_id :: nat
  th_timeout :: nat

datatype source = WatchSource nat "32 word" int | TimeoutSource nat int | DispatchSource nat

record main_loop =
  ml_watches :: "nat \<Rightarrow> dbus_watch option"
  ml_timeouts :: "nat \<Rightarrow> dbus_timeout option"
  infos :: "nat \<Rightarrow> watch_info option"
  handlers :: "nat \<Rightarrow> timeout_handler option"
  next_alloc :: nat
  sources :: "(nat \<times> source) list"
  next_source :: nat
  conns :: "nat \<Rightarrow> dbus_conn option"
  dispatched :: nat
  handled_watches :: "(nat \<times> 32 word) list"
  handled_timeouts :: "nat list"
  disconnect_data :: "nat \<Rightarrow> (client_fn \<times> nat) option"
  disconnect_calls :: "(client_fn \<times> nat) list"
  unclosed :: nat \<comment> \<open>private connections released without being closed\<close>

abbreviation (input) G_IO_IN :: "32 word" where "G_IO_IN \<equiv> 1"
abbreviation (input) G_IO_OUT :: "32 word" where "G_IO_OUT \<equiv> 4"
abbreviation (input) G_IO_ERR :: "32 word" where "G_IO_ERR \<equiv> 8"
abbreviation (input) G_IO_HUP :: "32 word" where "G_IO_HUP \<equiv> 16"
abbreviation (input) DBUS_WATCH_READABLE :: "32 word" where "DBUS_WATCH_READABLE \<equiv> 1"
abbreviation (input) DBUS_WATCH_WRITABLE :: "32 word" where "DBUS_WATCH_WRITABLE \<equiv> 2"
abbreviation (input) DBUS_WATCH_ERROR :: "32 word" where "DBUS_WATCH_ERROR \<equiv> 4"
abbreviation (input) DBUS_WATCH_HANGUP :: "32 word" where "DBUS_WATCH_HANGUP \<equiv> 8"

text \<open>Before anything is set up; the bus may have connections already.\<close>

definition loop_start :: "(nat \<Rightarrow> dbus_conn option) \<Rightarrow> main_loop" where
  "loop_start cs =
     \<lparr>ml_watches = (\<lambda>_. None), ml_timeouts = (\<lambda>_. None), infos = (\<lambda>_. None), handlers = (\<lambda>_. None),
      next_alloc = 0, sources = [], next_source = 1, conns = cs, dispatched = 0, handled_watches = [],
      handled_timeouts = [], disconnect_data = (\<lambda>_. None), disconnect_calls = [], unclosed = 0\<rparr>"

section \<open>GLib and libdbus\<close>

definition g_source_remove :: "nat \<Rightarrow> main_loop \<Rightarrow> main_loop" where
  "g_source_remove i st = st\<lparr>sources := filter (\<lambda>s. fst s \<noteq> i) (sources st)\<rparr>"

definition add_source :: "source \<Rightarrow> main_loop \<Rightarrow> nat \<times> main_loop" where
  "add_source src st =
     (next_source st,
      st\<lparr>sources := sources st @ [(next_source st, src)], next_source := Suc (next_source st)\<rparr>)"

definition dbus_connection_ref :: "nat \<Rightarrow> main_loop \<Rightarrow> main_loop option" where
  "dbus_connection_ref c st =
     (case conns st c of
        None \<Rightarrow> None
      | Some k \<Rightarrow> Some (st\<lparr>conns := (conns st)(c \<mapsto> k\<lparr>dc_refs := Suc (dc_refs k)\<rparr>)\<rparr>))"

definition dbus_connection_unref :: "nat \<Rightarrow> main_loop \<Rightarrow> main_loop option" where
  \<comment> \<open>libdbus complains when the last reference to an open private connection goes\<close>
  "dbus_connection_unref c st =
     (case conns st c of
        None \<Rightarrow> None
      | Some k \<Rightarrow>
          (if 1 < dc_refs k then Some (st\<lparr>conns := (conns st)(c \<mapsto> k\<lparr>dc_refs := dc_refs k - 1\<rparr>)\<rparr>)
           else Some (st\<lparr>conns := (conns st)(c := None),
                        unclosed := unclosed st + (if dc_private k \<and> dc_connected k then 1 else 0)\<rparr>)))"

section \<open>Dispatching\<close>

text \<open>
  \<open>dbus_connection_dispatch\<close> handles one message and says whether data remains; without
  memory it handles none and the loop of \<open>message_dispatch\<close> ends.
\<close>

fun dispatch_loop :: "bool \<Rightarrow> nat \<Rightarrow> nat \<Rightarrow> nat \<times> nat" where
  "dispatch_loop oom 0 n = (0, n)"
| "dispatch_loop oom (Suc q) n =
     (if oom then (Suc q, n) else if q = 0 then (0, Suc n) else dispatch_loop oom q (Suc n))"

text \<open>
  What libdbus does with a message it dispatches, the handlers of the program included, is a count
  here (\<open>dispatched\<close>): the handlers have their own theories.
\<close>

definition message_dispatch :: "bool \<Rightarrow> nat \<Rightarrow> main_loop \<Rightarrow> main_loop option" where
  "message_dispatch oom c st = do {
     st1 \<leftarrow> dbus_connection_ref c st;
     k \<leftarrow> conns st1 c;
     let (q, n) = dispatch_loop oom (dc_queue k) (dispatched st1);
     dbus_connection_unref c
       (st1\<lparr>conns := (conns st1)(c \<mapsto> k\<lparr>dc_queue := q\<rparr>), dispatched := n\<rparr>)
   }"

text \<open>The status is \<open>DBUS_DISPATCH_DATA_REMAINS\<close> exactly while the queue is not empty.\<close>

definition queue_dispatch :: "nat \<Rightarrow> bool \<Rightarrow> main_loop \<Rightarrow> main_loop" where
  "queue_dispatch c data_remains st =
     (if data_remains then snd (add_source (DispatchSource c) st) else st)"

definition dispatch_status :: "nat \<Rightarrow> main_loop \<Rightarrow> main_loop option" where
  "dispatch_status c st = do {
     k \<leftarrow> conns st c;
     if \<not> dc_connected k then Some st else Some (queue_dispatch c (0 < dc_queue k) st)
   }"

section \<open>Watches\<close>

definition watch_info_free :: "nat \<Rightarrow> main_loop \<Rightarrow> main_loop option" where
  "watch_info_free i st = do {
     nf \<leftarrow> infos st i;
     let st1 = (if 0 < info_id nf then g_source_remove (info_id nf) st else st);
     st2 \<leftarrow> dbus_connection_unref (info_conn nf) st1;
     Some (st2\<lparr>infos := (infos st2)(i := None)\<rparr>)
   }"

definition dbus_watch_set_data :: "nat \<Rightarrow> nat option \<Rightarrow> main_loop \<Rightarrow> main_loop option" where
  \<comment> \<open>libdbus frees the old data with the function it was given for it\<close>
  "dbus_watch_set_data w data st = do {
     dw \<leftarrow> ml_watches st w;
     st1 \<leftarrow> (case dw_data dw of None \<Rightarrow> Some st | Some i \<Rightarrow> watch_info_free i st);
     Some (st1\<lparr>ml_watches := (ml_watches st1)(w \<mapsto> dw\<lparr>dw_data := data\<rparr>)\<rparr>)
   }"

definition poll_condition :: "32 word \<Rightarrow> 32 word" where
  "poll_condition flags =
     (let cond = G_IO_HUP OR G_IO_ERR;
          cond = (if flags AND DBUS_WATCH_READABLE \<noteq> 0 then cond OR G_IO_IN else cond)
      in (if flags AND DBUS_WATCH_WRITABLE \<noteq> 0 then cond OR G_IO_OUT else cond))"

definition add_watch :: "nat \<Rightarrow> main_loop \<Rightarrow> main_loop option" where
  "add_watch w st = do {
     dw \<leftarrow> ml_watches st w;
     if \<not> dw_enabled dw then Some st
     else do {
       let i = next_alloc st;
       st1 \<leftarrow> dbus_connection_ref (dw_conn dw)
         (st\<lparr>next_alloc := Suc i,
             infos := (infos st)(i \<mapsto> \<lparr>info_id = 0, info_watch = w, info_conn = dw_conn dw\<rparr>)\<rparr>);
       st2 \<leftarrow> dbus_watch_set_data w (Some i) st1;
       let (sid, st3) = add_source (WatchSource i (poll_condition (dw_flags dw)) (dw_fd dw)) st2;
       nf \<leftarrow> infos st3 i;
       Some (st3\<lparr>infos := (infos st3)(i \<mapsto> nf\<lparr>info_id := sid\<rparr>)\<rparr>)
     }
   }"

definition remove_watch :: "nat \<Rightarrow> main_loop \<Rightarrow> main_loop option" where
  "remove_watch w st = do {
     dw \<leftarrow> ml_watches st w;
     if dw_enabled dw then Some st else dbus_watch_set_data w None st
   }"

definition watch_toggled :: "nat \<Rightarrow> main_loop \<Rightarrow> main_loop option" where
  "watch_toggled w st = do {
     dw \<leftarrow> ml_watches st w;
     if dw_enabled dw then add_watch w st else remove_watch w st
   }"

section \<open>Timeouts\<close>

definition timeout_handler_free :: "nat \<Rightarrow> main_loop \<Rightarrow> main_loop option" where
  "timeout_handler_free h st = do {
     th \<leftarrow> handlers st h;
     let st1 = (if 0 < th_id th then g_source_remove (th_id th) st else st);
     Some (st1\<lparr>handlers := (handlers st1)(h := None)\<rparr>)
   }"

definition dbus_timeout_set_data :: "nat \<Rightarrow> nat option \<Rightarrow> main_loop \<Rightarrow> main_loop option" where
  "dbus_timeout_set_data t data st = do {
     dt \<leftarrow> ml_timeouts st t;
     st1 \<leftarrow> (case dt_data dt of None \<Rightarrow> Some st | Some h \<Rightarrow> timeout_handler_free h st);
     Some (st1\<lparr>ml_timeouts := (ml_timeouts st1)(t \<mapsto> dt\<lparr>dt_data := data\<rparr>)\<rparr>)
   }"

definition add_timeout :: "nat \<Rightarrow> main_loop \<Rightarrow> main_loop option" where
  "add_timeout t st = do {
     dt \<leftarrow> ml_timeouts st t;
     if \<not> dt_enabled dt then Some st
     else do {
       let h = next_alloc st;
       st1 \<leftarrow> dbus_timeout_set_data t (Some h)
         (st\<lparr>next_alloc := Suc h, handlers := (handlers st)(h \<mapsto> \<lparr>th_id = 0, th_timeout = t\<rparr>)\<rparr>);
       let (sid, st2) = add_source (TimeoutSource h (dt_interval dt)) st1;
       th \<leftarrow> handlers st2 h;
       Some (st2\<lparr>handlers := (handlers st2)(h \<mapsto> th\<lparr>th_id := sid\<rparr>)\<rparr>)
     }
   }"

definition remove_timeout :: "nat \<Rightarrow> main_loop \<Rightarrow> main_loop option" where
  "remove_timeout t st = dbus_timeout_set_data t None st"

definition timeout_toggled :: "nat \<Rightarrow> main_loop \<Rightarrow> main_loop option" where
  "timeout_toggled t st = do {
     dt \<leftarrow> ml_timeouts st t;
     if dt_enabled dt then add_timeout t st else remove_timeout t st
   }"

section \<open>What libdbus does\<close>

datatype lib_action =
    AddWatch nat dbus_watch
  | RemoveWatch nat
  | ToggleWatch nat bool
  | FreeWatch nat
  | AddTimeout nat dbus_timeout
  | RemoveTimeout nat
  | ToggleTimeout nat bool
  | FreeTimeout nat
  | Receive nat nat

text \<open>libdbus reports a toggle only when the watch or timeout changes.\<close>

definition lib_step :: "lib_action \<Rightarrow> main_loop \<Rightarrow> main_loop option" where
  "lib_step a st =
     (case a of
        AddWatch w dw \<Rightarrow> add_watch w (st\<lparr>ml_watches := (ml_watches st)(w \<mapsto> dw)\<rparr>)
      | RemoveWatch w \<Rightarrow> remove_watch w st
      | ToggleWatch w e \<Rightarrow> do {
          dw \<leftarrow> ml_watches st w;
          if dw_enabled dw = e then Some st
          else watch_toggled w (st\<lparr>ml_watches := (ml_watches st)(w \<mapsto> dw\<lparr>dw_enabled := e\<rparr>)\<rparr>)
        }
      | FreeWatch w \<Rightarrow> do {
          st1 \<leftarrow> dbus_watch_set_data w None st;
          Some (st1\<lparr>ml_watches := (ml_watches st1)(w := None)\<rparr>)
        }
      | AddTimeout t dt \<Rightarrow> add_timeout t (st\<lparr>ml_timeouts := (ml_timeouts st)(t \<mapsto> dt)\<rparr>)
      | RemoveTimeout t \<Rightarrow> remove_timeout t st
      | ToggleTimeout t e \<Rightarrow> do {
          dt \<leftarrow> ml_timeouts st t;
          if dt_enabled dt = e then Some st
          else timeout_toggled t (st\<lparr>ml_timeouts := (ml_timeouts st)(t \<mapsto> dt\<lparr>dt_enabled := e\<rparr>)\<rparr>)
        }
      | FreeTimeout t \<Rightarrow> do {
          st1 \<leftarrow> dbus_timeout_set_data t None st;
          Some (st1\<lparr>ml_timeouts := (ml_timeouts st1)(t := None)\<rparr>)
        }
      | Receive c n \<Rightarrow> do {
          k \<leftarrow> conns st c;
          dispatch_status c (st\<lparr>conns := (conns st)(c \<mapsto> k\<lparr>dc_queue := dc_queue k + n\<rparr>)\<rparr>)
        })"

fun lib_run :: "lib_action list \<Rightarrow> main_loop \<Rightarrow> main_loop option" where
  "lib_run [] st = Some st"
| "lib_run (a # as) st = Option.bind (lib_step a st) (lib_run as)"

section \<open>What the main loop calls\<close>

definition watch_flags :: "32 word \<Rightarrow> 32 word" where
  "watch_flags cond =
     (let flags = 0;
          flags = (if cond AND G_IO_IN \<noteq> 0 then flags OR DBUS_WATCH_READABLE else flags);
          flags = (if cond AND G_IO_OUT \<noteq> 0 then flags OR DBUS_WATCH_WRITABLE else flags);
          flags = (if cond AND G_IO_HUP \<noteq> 0 then flags OR DBUS_WATCH_HANGUP else flags)
      in (if cond AND G_IO_ERR \<noteq> 0 then flags OR DBUS_WATCH_ERROR else flags))"

text \<open>The last argument is what libdbus does when it handles the watch or the timeout.\<close>

definition watch_func :: "nat \<Rightarrow> 32 word \<Rightarrow> lib_action list \<Rightarrow> main_loop \<Rightarrow> main_loop option" where
  "watch_func i cond as st = do {
     nf \<leftarrow> infos st i;
     let c = info_conn nf;
     st1 \<leftarrow> dbus_connection_ref c st;
     st2 \<leftarrow> lib_run as
       (st1\<lparr>handled_watches := handled_watches st1 @ [(info_watch nf, watch_flags cond)]\<rparr>);
     k \<leftarrow> conns st2 c;
     dbus_connection_unref c (queue_dispatch c (0 < dc_queue k) st2)
   }"

text \<open>
  The source of a timeout goes when its function returns, which is always FALSE. The function
  clears the id first, so nothing refers to the source while it runs.
\<close>

definition timeout_handler_dispatch :: "nat \<Rightarrow> lib_action list \<Rightarrow> main_loop \<Rightarrow> main_loop option" where
  "timeout_handler_dispatch h as st = do {
     th \<leftarrow> handlers st h;
     let st1 = st\<lparr>handlers := (handlers st)(h \<mapsto> th\<lparr>th_id := 0\<rparr>)\<rparr>;
     dt \<leftarrow> ml_timeouts st1 (th_timeout th);
     if \<not> dt_enabled dt then Some st1
     else lib_run as (st1\<lparr>handled_timeouts := handled_timeouts st1 @ [th_timeout th]\<rparr>)
   }"

section \<open>Setting up a connection\<close>

text \<open>
  What the bus answers: the connection or none, and the result of the request for a name.
  \<open>error\<close> says whether the caller passed an error to fill; then a failure of libdbus sets it.
\<close>

abbreviation (input) PRIMARY_OWNER :: int where "PRIMARY_OWNER \<equiv> 1"

definition g_dbus_request_name :: "bool \<Rightarrow> int \<Rightarrow> bool \<times> bool" where
  \<comment> \<open>the result, and whether the error is set afterwards\<close>
  "g_dbus_request_name error result =
     (if error \<and> result = -1 then (False, True)
      else if result \<noteq> PRIMARY_OWNER then (False, error)
      else (True, False))"

definition setup_dbus_with_main_loop :: "nat \<Rightarrow> lib_action list \<Rightarrow> main_loop \<Rightarrow> main_loop option" where
  \<comment> \<open>libdbus at once adds the watches and timeouts it has already\<close>
  "setup_dbus_with_main_loop c as st = do {
     k \<leftarrow> conns st c;
     lib_run as (st\<lparr>conns := (conns st)(c \<mapsto> k\<lparr>dc_hooked := True\<rparr>)\<rparr>)
   }"

definition setup_bus ::
  "nat \<Rightarrow> string option \<Rightarrow> bool \<Rightarrow> int \<Rightarrow> lib_action list \<Rightarrow> main_loop \<Rightarrow> (bool \<times> main_loop) option"
where
  "setup_bus c name error result as st =
     (if name \<noteq> None \<and> (case g_dbus_request_name error result of
                            (ok, err) \<Rightarrow> (error \<and> err) \<or> \<not> ok)
      then Some (False, st)
      else do {
        st1 \<leftarrow> setup_dbus_with_main_loop c as st;
        k \<leftarrow> conns st1 c;
        Some (True, queue_dispatch c (0 < dc_queue k) st1)
      })"

text \<open>
  \<open>dbus_bus_get\<close> returns a shared connection with a new reference, \<open>dbus_bus_get_private\<close> one
  of its own; both set the error exactly when they return NULL.
\<close>

definition g_dbus_setup_bus ::
  "nat option \<Rightarrow> string option \<Rightarrow> bool \<Rightarrow> int \<Rightarrow> lib_action list \<Rightarrow> main_loop
     \<Rightarrow> (nat option \<times> main_loop) option"
where
  "g_dbus_setup_bus conn name error result as st =
     (case conn of
        None \<Rightarrow> Some (None, st)
      | Some c \<Rightarrow> do {
          (ok, st1) \<leftarrow> setup_bus c name error result as st;
          if \<not> ok then map_option (Pair None) (dbus_connection_unref c st1) else Some (Some c, st1)
        })"

definition g_dbus_setup_private ::
  "nat option \<Rightarrow> string option \<Rightarrow> bool \<Rightarrow> int \<Rightarrow> lib_action list \<Rightarrow> main_loop
     \<Rightarrow> (nat option \<times> main_loop) option"
where
  "g_dbus_setup_private conn name error result as st =
     (case conn of
        None \<Rightarrow> Some (None, st)
      | Some c \<Rightarrow> do {
          (ok, st1) \<leftarrow> setup_bus c name error result as st;
          if \<not> ok then map_option (Pair None) (dbus_connection_unref c st1) else Some (Some c, st1)
        })"

text \<open>
  A \<open>struct disconnect_data\<close> is a reference into \<open>disconnect_data\<close>. The watch for the signal
  frees it with \<open>g_free\<close>; \<open>disconnected_fn\<close> and \<open>free_fn\<close> are the functions as the watch
  knows them.
\<close>

definition disconnected_signal :: "nat \<Rightarrow> nat \<Rightarrow> main_loop \<Rightarrow> (bool \<times> main_loop) option" where
  "disconnected_signal c data st = do {
     (fn, user_data) \<leftarrow> disconnect_data st data;
     st1 \<leftarrow> dbus_connection_unref c (st\<lparr>disconnect_calls := disconnect_calls st @ [(fn, user_data)]\<rparr>);
     Some (True, st1)
   }"

definition g_dbus_set_disconnect_function ::
  "watch_env \<Rightarrow> client_fn \<Rightarrow> client_fn \<Rightarrow> nat \<Rightarrow> client_fn \<Rightarrow> nat \<Rightarrow> main_loop \<Rightarrow> watch_state
     \<Rightarrow> (bool \<times> main_loop \<times> watch_state) option"
where
  "g_dbus_set_disconnect_function E disconnected_fn free_fn c fn user_data st w = do {
     k \<leftarrow> conns st c;
     let d = next_alloc st;
     let st1 = st\<lparr>next_alloc := Suc d, conns := (conns st)(c \<mapsto> k\<lparr>dc_exits := False\<rparr>),
                  disconnect_data := (disconnect_data st)(d \<mapsto> (fn, user_data))\<rparr>;
     (wid, w1) \<leftarrow> g_dbus_add_signal_watch E c None None (Some ''org.freedesktop.DBus.Local'')
                   (Some ''Disconnected'') (Some disconnected_fn) d (Some free_fn) w;
     if wid = 0 then Some (False, st1\<lparr>disconnect_data := (disconnect_data st1)(d := None)\<rparr>, w1)
     else Some (True, st1, w1)
   }"

end
