(* ===== verification/Pold_Main.thy ===== *)
theory Pold_Main
  imports Session Manager Http_Client Gdbus_Object_Run Gdbus_Mainloop
begin

text \<open>
  \<open>src/main.c\<close> and \<open>src/log.c\<close>: the daemon starts its components one after the other, runs the
  main loop, and stops them in reverse order; a component that does not start stops those
  started before it. The state of the daemon holds the states of the components, and the
  functions called are those of their theories. The options of the command line, the bus, libsoup
  and the names of the connection are answers in \<open>main_env\<close>; what happens while the main loop
  runs is an argument of \<open>main\<close>.
\<close>

section \<open>Logging\<close>

text \<open>
  Texts are taken as formatted. Whether there is a systemd journal or a syslog is decided when
  the program is compiled; both take the priority and the text.
\<close>

abbreviation (input) LOG_ERR :: int where "LOG_ERR \<equiv> 3"
abbreviation (input) LOG_INFO :: int where "LOG_INFO \<equiv> 6"
abbreviation (input) LOG_DEBUG :: int where "LOG_DEBUG \<equiv> 7"

datatype log_entry = OnConsole string | InJournal int string

record log_state =
  log_on_console :: bool
  log_debug :: bool
  log_entries :: "log_entry list"

definition log_x :: "int \<Rightarrow> string \<Rightarrow> log_state \<Rightarrow> log_state" where
  "log_x priority args l =
     l\<lparr>log_entries := log_entries l @
       [if log_on_console l then OnConsole (args @ [CHR 0x0A]) else InJournal priority args]\<rparr>"

definition pold_log_debug_no_prefix :: "string \<Rightarrow> log_state \<Rightarrow> log_state" where
  "pold_log_debug_no_prefix args l = (if \<not> log_debug l then l else log_x LOG_DEBUG args l)"

definition pold_log_debug :: "string \<Rightarrow> string \<Rightarrow> string \<Rightarrow> log_state \<Rightarrow> log_state" where
  \<comment> \<open>the macro: file and function first\<close>
  "pold_log_debug file fn args l = pold_log_debug_no_prefix (file @ '':'' @ fn @ ''() '' @ args) l"

definition pold_log_info :: "string \<Rightarrow> log_state \<Rightarrow> log_state" where
  "pold_log_info args l = log_x LOG_INFO args l"

definition pold_log_error :: "string \<Rightarrow> log_state \<Rightarrow> log_state" where
  "pold_log_error args l = log_x LOG_ERR args l"

definition pold_log_set_debug :: "bool \<Rightarrow> log_state \<Rightarrow> log_state" where
  "pold_log_set_debug debug l = l\<lparr>log_on_console := debug, log_debug := debug\<rparr>"

section \<open>The tables of the two interfaces\<close>

text \<open>
  The functions of pold are numbered: 0, 1, 2 are those of \<open>pold-manager.c\<close>, 3 and 4 are
  \<open>release\<close> and \<open>update\<close> of \<open>connman-notification.c\<close>.
\<close>

definition pold_manager_methods :: "method_table list" where
  "pold_manager_methods =
     [\<lparr>m_name = ''GetPolicyConfig'', m_function = Some (ClientMethod 0), m_flags = METHOD_FLAG_ASYNC,
       m_privilege = 0, m_in_args = [\<lparr>arg_name = ''in'', arg_signature = ''s''\<rparr>],
       m_out_args = [\<lparr>arg_name = ''out'', arg_signature = ''a{sv}''\<rparr>]\<rparr>,
      \<lparr>m_name = ''RegisterAgent'', m_function = Some (ClientMethod 1), m_flags = 0, m_privilege = 0,
       m_in_args = [\<lparr>arg_name = ''in'', arg_signature = ''o''\<rparr>], m_out_args = []\<rparr>,
      \<lparr>m_name = ''UnregisterAgent'', m_function = Some (ClientMethod 2), m_flags = 0, m_privilege = 0,
       m_in_args = [\<lparr>arg_name = ''in'', arg_signature = ''o''\<rparr>], m_out_args = []\<rparr>]"

definition notification_methods :: "method_table list" where
  "notification_methods =
     [\<lparr>m_name = ''Release'', m_function = Some (ClientMethod 3), m_flags = 0, m_privilege = 0,
       m_in_args = [], m_out_args = []\<rparr>,
      \<lparr>m_name = ''Update'', m_function = Some (ClientMethod 4), m_flags = 0, m_privilege = 0,
       m_in_args = [\<lparr>arg_name = ''in'', arg_signature = ''a{sv}''\<rparr>], m_out_args = []\<rparr>]"

definition pold_connman_notification_init :: "obj_env \<Rightarrow> nat \<Rightarrow> obj_state \<Rightarrow> (bool \<times> obj_state) option" where
  "pold_connman_notification_init E conn st =
     g_dbus_register_interface E conn POLD_NOTIFICATION_PATH CONNMAN_NOTIFICATION_INTERFACE
       notification_methods [] None (ClientData 0) None st"

section \<open>The daemon\<close>

record daemon =
  d_log :: log_state
  d_conn :: "nat option"
  d_loop :: main_loop
  d_names :: "string list" \<comment> \<open>owned on the bus\<close>
  d_http :: "http_client option"
  d_glib_loop :: bool
  d_signals :: "(nat \<times> nat) list" \<comment> \<open>sources for signals: id and number\<close>
  d_next_signal :: nat
  d_shandlers :: "nat list"
  d_quit :: bool
  d_manager :: manager
  d_objects :: obj_state
  d_session :: connman_session

record main_env =
  me_options :: "bool option" \<comment> \<open>\<open>None\<close> where the options cannot be parsed\<close>
  me_bus :: "nat option"
  me_name_result :: int
  me_bus_actions :: "lib_action list"
  me_soup :: bool
  me_soup_handler :: nat
  me_env :: env
  me_disk :: disk
  me_unique_name :: "string option"
  me_objects :: obj_env
  me_session :: session_env

definition logged :: "(log_state \<Rightarrow> log_state) \<Rightarrow> daemon \<Rightarrow> daemon" where
  "logged f d = d\<lparr>d_log := f (d_log d)\<rparr>"

subsection \<open>Signals of the operating system\<close>

abbreviation (input) SIGHUP :: nat where "SIGHUP \<equiv> 1"
abbreviation (input) SIGINT :: nat where "SIGINT \<equiv> 2"
abbreviation (input) SIGUSR2 :: nat where "SIGUSR2 \<equiv> 12"
abbreviation (input) SIGTERM :: nat where "SIGTERM \<equiv> 15"

definition signal_quit :: "daemon \<Rightarrow> bool \<times> daemon" where
  "signal_quit d = (True, d\<lparr>d_quit := True\<rparr>)"

text \<open>
  \<open>pold_policy_update_from_server (NULL, NULL)\<close>: the answer is the event \<open>SilentAnswer\<close> of the
  manager. Request 0 stands for the callback data with NULL in it.
\<close>

definition signal_update :: "daemon \<Rightarrow> (bool \<times> daemon) option" where
  "signal_update d =
     (let d1 = logged (pold_log_debug ''src/main.c'' ''signal_update''
                 ''Received SIGUSR2 - policy update from server triggered'') d
      in case Option.bind (d_http d1) (pold_http_client_update_policies 0) of
           None \<Rightarrow> None
         | Some h \<Rightarrow> Some (True, d1\<lparr>d_http := Some h\<rparr>))"

definition g_unix_signal_add :: "nat \<Rightarrow> daemon \<Rightarrow> nat \<times> daemon" where
  "g_unix_signal_add sig d =
     (d_next_signal d, d\<lparr>d_signals := d_signals d @ [(d_next_signal d, sig)],
                         d_next_signal := Suc (d_next_signal d)\<rparr>)"

definition install_signal_handlers :: "daemon \<Rightarrow> daemon" where
  "install_signal_handlers d =
     (let (a, d) = g_unix_signal_add SIGINT d;
          (b, d) = g_unix_signal_add SIGTERM d;
          (c, d) = g_unix_signal_add SIGHUP d;
          (e, d) = g_unix_signal_add SIGUSR2 d
      in d\<lparr>d_shandlers := [a, b, c, e]\<rparr>)"

definition remove_signal_handlers :: "daemon \<Rightarrow> daemon" where
  "remove_signal_handlers d =
     d\<lparr>d_signals := fold (\<lambda>i. filter (\<lambda>s. fst s \<noteq> i)) (d_shandlers d) (d_signals d)\<rparr>"

subsection \<open>Starting\<close>

definition parse_options :: "main_env \<Rightarrow> daemon \<Rightarrow> bool \<times> daemon" where
  "parse_options M d =
     (case me_options M of
        None \<Rightarrow> (False, d)
      | Some debug \<Rightarrow> (True, logged (pold_log_set_debug debug) d))"

definition init_dbus :: "main_env \<Rightarrow> daemon \<Rightarrow> (bool \<times> daemon) option" where
  "init_dbus M d =
     (if d_conn d \<noteq> None then Some (True, logged (pold_log_info ''Already initialized'') d)
      else (case g_dbus_setup_bus (me_bus M) (Some POLD_BUS_NAME) False (me_name_result M)
                   (me_bus_actions M) (d_loop d) of
              None \<Rightarrow> None
            | Some (None, l) \<Rightarrow>
                Some (False, logged (pold_log_error ''Error connecting to the D-Bus daemon'')
                               (d\<lparr>d_conn := None, d_loop := l\<rparr>))
            | Some (Some c, l) \<Rightarrow>
                Some (True, d\<lparr>d_conn := Some c, d_loop := l, d_names := d_names d @ [POLD_BUS_NAME]\<rparr>)))"

text \<open>The exits of \<open>main\<close>, by their labels; each falls through to the next.\<close>

datatype label = Out | OutHttpClient | OutSignalHandlers | OutPolicy | OutManager

definition leave :: "daemon \<Rightarrow> daemon" where
  "leave d = logged (pold_log_info ''Exiting Policy Daemon'') d"

definition out_http_client :: "daemon \<Rightarrow> daemon option" where
  "out_http_client d =
     (case (Option.bind (d_http d) pold_http_client_final, d_conn d) of
        (Some h, Some c) \<Rightarrow>
          (case dbus_connection_unref c (d_loop d) of
             None \<Rightarrow> None
           | Some l \<Rightarrow> Some (leave (d\<lparr>d_http := Some h, d_names := remove1 POLD_BUS_NAME (d_names d),
                                      d_loop := l\<rparr>)))
      | _ \<Rightarrow> None)"

definition out_signal_handlers :: "daemon \<Rightarrow> daemon option" where
  "out_signal_handlers d = out_http_client ((remove_signal_handlers d)\<lparr>d_glib_loop := False\<rparr>)"

definition out_policy :: "daemon \<Rightarrow> daemon option" where
  "out_policy d =
     (let m = d_manager d in
      case pold_policy_final (store m) of
        None \<Rightarrow> None
      | Some st \<Rightarrow> out_signal_handlers (d\<lparr>d_manager := m\<lparr>store := st\<rparr>\<rparr>))"

definition out_manager :: "daemon \<Rightarrow> daemon option" where
  "out_manager d = out_policy (d\<lparr>d_manager := pold_manager_final (d_manager d)\<rparr>)"

fun clean_up :: "label \<Rightarrow> daemon \<Rightarrow> daemon option" where
  "clean_up Out d = Some (leave d)"
| "clean_up OutHttpClient d = out_http_client d"
| "clean_up OutSignalHandlers d = out_signal_handlers d"
| "clean_up OutPolicy d = out_policy d"
| "clean_up OutManager d = out_manager d"

datatype start = Failed label daemon | Started daemon

definition start_session :: "main_env \<Rightarrow> nat \<Rightarrow> daemon \<Rightarrow> start option" where
  "start_session M c d =
     map_option (\<lambda>s. Started (logged (pold_log_info ''Entering main loop'') (d\<lparr>d_session := s\<rparr>)))
       (pold_session_init (me_session M) c (pold_connman_manager_init c (d_session d)))"

definition start_notification :: "main_env \<Rightarrow> nat \<Rightarrow> daemon \<Rightarrow> start option" where
  "start_notification M c d =
     (case pold_connman_notification_init (me_objects M) c (d_objects d) of
        None \<Rightarrow> None
      | Some (False, o1) \<Rightarrow>
          Some (Failed OutManager
            (logged (pold_log_error ''Error registering connman notification interface'')
              (d\<lparr>d_objects := o1\<rparr>)))
      | Some (True, o1) \<Rightarrow> start_session M c (d\<lparr>d_objects := o1\<rparr>))"

definition start_manager :: "main_env \<Rightarrow> nat \<Rightarrow> daemon \<Rightarrow> start option" where
  "start_manager M c d =
     (case g_dbus_register_interface (me_objects M) c POLD_MANAGER_PATH POLD_MANAGER_INTERFACE
             pold_manager_methods [] None (ClientData 0) None (d_objects d) of
        None \<Rightarrow> None
      | Some (reg, o1) \<Rightarrow>
          (let (ok, m) = pold_manager_init (me_unique_name M) reg (d_manager d);
               d1 = d\<lparr>d_objects := o1, d_manager := m\<rparr>
           in if \<not> ok then Some (Failed OutPolicy (logged (pold_log_error ''Error registering manager in D-Bus'') d1))
              else start_notification M c d1))"

definition start_policy :: "main_env \<Rightarrow> nat \<Rightarrow> daemon \<Rightarrow> start option" where
  "start_policy M c d =
     (let d1 = install_signal_handlers (d\<lparr>d_glib_loop := True\<rparr>);
          m = d_manager d1
      in case pold_policy_init (env_json (me_env M)) (env_dir (me_env M)) (mdisk m) (store m) of
           None \<Rightarrow> None
         | Some (error, st) \<Rightarrow>
             (let d2 = d1\<lparr>d_manager := m\<lparr>store := st\<rparr>\<rparr>
              in if error < 0 then Some (Failed OutSignalHandlers d2) else start_manager M c d2))"

definition pold_start :: "main_env \<Rightarrow> daemon \<Rightarrow> start option" where
  "pold_start M d =
     (let (parsed, d1) = parse_options M d in
      if \<not> parsed then Some (Failed Out d1)
      else (case init_dbus M (logged (pold_log_info ''Starting Policy Daemon'') d1) of
              None \<Rightarrow> None
            | Some (False, d2) \<Rightarrow> Some (Failed Out d2)
            | Some (True, d2) \<Rightarrow>
                (let (ok, h) = pold_http_client_init (me_soup M) (me_soup_handler M) ''someuser'' ''password'';
                     d3 = d2\<lparr>d_http := Some h\<rparr>
                 in if \<not> ok then Some (Failed OutHttpClient d3)
                    else (case d_conn d3 of None \<Rightarrow> None | Some c \<Rightarrow> start_policy M c d3))))"

subsection \<open>The program\<close>

text \<open>The result is the exit status; \<open>run\<close> is the main loop until a signal ends it.\<close>

definition pold_main :: "main_env \<Rightarrow> (daemon \<Rightarrow> daemon option) \<Rightarrow> daemon \<Rightarrow> (int \<times> daemon) option" where
  "pold_main M run d =
     (case pold_start M d of
        None \<Rightarrow> None
      | Some (Failed lab d1) \<Rightarrow> map_option (Pair 1) (clean_up lab d1)
      | Some (Started d1) \<Rightarrow>
          (case run d1 of
             None \<Rightarrow> None
           | Some d2 \<Rightarrow>
               (case pold_session_final (me_session M) (d_session d2) of
                  None \<Rightarrow> None
                | Some s \<Rightarrow>
                    map_option (Pair 0)
                      (clean_up OutManager
                        (logged (pold_log_info ''Main loop finished'') (d2\<lparr>d_session := s\<rparr>))))))"

text \<open>The static variables of the program before \<open>main\<close>.\<close>

definition session_start :: connman_session where
  "session_start =
     \<lparr>manager_connection = None, session_connection = None, watch_id = 0, session_path = NullPtr,
      settings_state = NullPtr, watches = watch_start, create_sent = [], create_pending = 0,
      attempts = 0, null_unrefs = 0\<rparr>"

definition daemon_start :: "main_env \<Rightarrow> (nat \<Rightarrow> dbus_conn option) \<Rightarrow> bus \<Rightarrow> daemon" where
  "daemon_start M cs b =
     \<lparr>d_log = \<lparr>log_on_console = False, log_debug = False, log_entries = []\<rparr>, d_conn = None,
      d_loop = loop_start cs, d_names = [], d_http = None, d_glib_loop = False, d_signals = [],
      d_next_signal = 1, d_shandlers = [0, 0, 0, 0], d_quit = False,
      d_manager = \<lparr>store = policy_start, bus = b, mdisk = me_disk M, unique_name = None, waiting = [],
                   agent_watches = []\<rparr>,
      d_objects = obj_start, d_session = session_start\<rparr>"

end
