(* ===== verification/Session_Props.thy ===== *)
theory Session_Props
  imports Session
begin

text \<open>
  Properties of the session with connman: what a change of a well-known bus name does to its
  watches, when pold asks for a session, and what becomes of the path and the settings.
\<close>

section \<open>A well-known name changes its owner\<close>

definition name_calls :: "string \<Rightarrow> filter_callback \<Rightarrow> client_call list" where
  "name_calls new cb =
     (if new = [] then (case disc_func cb of None \<Rightarrow> [] | Some f \<Rightarrow> [DiscCalled f (cb_user_data cb)])
      else (case conn_func cb of None \<Rightarrow> [] | Some f \<Rightarrow> [ConnCalled f (cb_user_data cb)]))"

lemma set_listener_twice [simp]:
  "fd_ref d = fd_ref e \<Longrightarrow> set_listener d (set_listener e st) = set_listener d st"
  by (simp add: set_listener_def comp_def)

lemma service_loop_known:
  assumes "take 1 n \<noteq> '':''"
  shows "find_listener r st = Some d \<Longrightarrow> callbacks d = cbs \<Longrightarrow> distinct (map fd_ref (listeners st)) \<Longrightarrow>
    service_loop E r n new cbs st =
      Some ((set_listener (d\<lparr>callbacks := [], processed := processed d @ cbs\<rparr>) st)
              \<lparr>calls := calls st @ concat (map (name_calls new) cbs)\<rparr>)"
proof (induction cbs arbitrary: st d)
  case Nil
  then have "d\<lparr>callbacks := [], processed := processed d @ []\<rparr> = d" by (cases d) simp
  with set_listener_id[OF Nil(3,1)] show ?case by simp
next
  case (Cons cb cbs)
  let ?st = "st\<lparr>calls := calls st @ name_calls new cb\<rparr>"
  let ?d = "d\<lparr>callbacks := cbs, processed := processed d @ [cb]\<rparr>"
  have r: "r \<in> fd_ref ` set (listeners st)" "fd_ref d = r"
    using find_listenerD[OF Cons.prems(1)] by auto
  have called: "(if new = [] then call_client (disc_func cb) DiscCalled (cb_user_data cb) st
                 else call_client (conn_func cb) ConnCalled (cb_user_data cb) st) = ?st"
    by (simp add: call_client_eq name_calls_def)
  have move: "move_to_processed r cb ?st = Some ((set_listener ?d st)\<lparr>calls := calls st @ name_calls new cb\<rparr>)"
    using Cons.prems(1,2) by (simp add: move_to_processed_def set_callbacks_def)
  let ?st2 = "(set_listener ?d st)\<lparr>calls := calls st @ name_calls new cb\<rparr>"
  have "find_listener r ?st2 = Some ?d" using r by (simp add: find_set_listener)
  moreover have "distinct (map fd_ref (listeners ?st2))" using Cons.prems(3) by simp
  ultimately show ?case
    using Cons.IH[of ?st2 ?d] called move assms by simp
qed

text \<open>
  A signal about a well-known name that matches one listener: each of its watches is called,
  in order, with the function for the case, and all watches stay as they were.
\<close>

lemma known_name_changes:
  assumes dist: "distinct (map fd_ref (listeners st))" and split: "listeners st = pre @ d # post"
    and match: "matches conn msg d = Some True"
    and others: "\<forall>e\<in>set (pre @ post). matches conn msg e = Some False"
    and d: "handle_func d = Some ServiceFilter" "fd_argument d = Some n" "processed d = []"
      "\<not> lock d" "callbacks d \<noteq> []"
    and n: "take 1 n \<noteq> '':''" and sender: "sig_sender msg \<noteq> None"
    and args: "sig_args msg = [Some n, Some old, Some new]"
    and names: "\<forall>e\<in>set (listeners st). fd_name e = None"
  shows "message_filter E conn True msg st =
    Some (st\<lparr>calls := calls st @ concat (map (name_calls new) (callbacks d))\<rparr>)"
proof -
  let ?r = "fd_ref d" and ?d = "set_lock True d" and ?st = "set_listener (set_lock True d) st"
  let ?cs = "calls st @ concat (map (name_calls new) (callbacks d))"
  have in_refs: "?r \<in> fd_ref ` set (listeners st)" by (simp add: split)
  then have find: "find_listener ?r ?st = Some ?d" by (simp add: find_set_listener set_lock_def)
  have found: "find_listener (fd_ref e) st = Some e" if "e \<in> set (listeners st)" for e
    using find_listener_in[OF dist that] .
  have "map (\<lambda>e. if fd_name e = Some x then e\<lparr>fd_owner := Some y\<rparr> else e) (listeners ?st) = listeners ?st"
    for x y
    using names split by (intro map_idI) (auto simp: set_listener_def set_lock_def split: if_splits)
  then have cache: "update_name_cache x y ?st = ?st" for x y by (simp add: update_name_cache_def)
  have eq: "?d\<lparr>callbacks := [], processed := processed ?d @ callbacks d\<rparr>
      \<lparr>callbacks := callbacks d, processed := [], lock := False\<rparr> = d"
    using d(3,4) by (cases d) (simp add: set_lock_def)
  have "service_loop E ?r n new (callbacks d) ?st =
      Some ((set_listener (?d\<lparr>callbacks := [], processed := processed ?d @ callbacks d\<rparr>) ?st)
              \<lparr>calls := calls ?st @ concat (map (name_calls new) (callbacks d))\<rparr>)"
    by (rule service_loop_known[OF n find]) (use dist in \<open>simp_all add: set_lock_def\<close>)
  then have serve: "service_filter E msg ?r ?st =
      Some ((set_listener (?d\<lparr>callbacks := [], processed := callbacks d\<rparr>) st)\<lparr>calls := ?cs\<rparr>)"
    using find args d(2,3) by (simp add: service_filter_def cache) (simp add: set_lock_def)
  have "set_listener d st = st" by (rule set_listener_id[OF dist found]) (simp add: split)
  moreover have "(?d\<lparr>callbacks := [], processed := callbacks d\<rparr>)
      \<lparr>callbacks := callbacks d, processed := [], lock := False\<rparr> = d"
    using d(3,4) by (cases d) (simp add: set_lock_def)
  ultimately have handler: "run_handler E msg d st = Some (st\<lparr>calls := ?cs\<rparr>)"
    using serve d(1) in_refs
    by (simp add: run_handler_def Let_def find_set_listener) (simp add: set_lock_def)
  have skip: "filter_loop E conn msg (map fd_ref xs) dl (st\<lparr>calls := cs\<rparr>) = Some (dl, st\<lparr>calls := cs\<rparr>)"
    if "set xs \<subseteq> set (pre @ post)" for xs dl cs
    by (rule filter_loop_skip) (use that others found split in \<open>auto\<close>)
  have same: "st\<lparr>calls := calls st\<rparr> = st" by simp
  have "filter_loop E conn msg (map fd_ref (listeners st)) [] st = Some ([], st\<lparr>calls := ?cs\<rparr>)"
    using skip[of pre "[]" "calls st"] skip[of post "[]" ?cs] match handler found[of d] d(5)
    by (simp add: split filter_loop_append)
  then show ?thesis using sender by (cases "sig_sender msg") (simp_all add: message_filter_def delete_loop_def)
qed

section \<open>Asking for a session\<close>

definition demo_session_env :: session_env where
  "demo_session_env = \<lparr>watch_answers = demo_watch_env, create_outcome = (\<lambda>_. SentCall)\<rparr>"

definition demo_session :: connman_session where
  "demo_session =
     \<lparr>manager_connection = Some 1, session_connection = None, watch_id = 0, session_path = NullPtr,
      settings_state = NullPtr, watches = watch_start, create_sent = [], create_pending = 0,
      attempts = 0, null_unrefs = 0\<rparr>"

text \<open>The call pold makes, and the watch of \<open>session.c\<close> as the watches know it.\<close>

definition create_session_call :: method_call where
  "create_session_call =
     \<lparr>mc_destination = ''net.connman'', mc_path = ''/'', mc_interface = ''net.connman.Manager'',
      mc_member = ''CreateSession'',
      mc_body = [DArray ''{sv}''
         [allowed_bearers_entry,
          DDictEntry [Basic (DString ''ConnectionType''), DVariant ''s'' [Basic (DString ''internet'')]]],
         Basic (DObjectPath ''/de/bmw/pold1'')]\<rparr>"

definition session_watch :: "filter_callback \<Rightarrow> bool" where
  "session_watch cb \<longleftrightarrow> conn_func cb = Some appeared_fn \<and> disc_func cb = Some disappeared_fn"

lemma create_session_body_eq: "create_session_body = Some (mc_body create_session_call)"
  by (simp add: create_session_body_def create_session_call_def dict_append_entry_def
      append_variant_def append_basic_def)

lemma create_session_call_wt: "wt_body (mc_body create_session_call)"
    "items_sig (mc_body create_session_call) = ''a{sv}o''"
  by (simp_all add: create_session_call_def wt_body_def allowed_bearers_entry_def)

lemma create_session_sent:
  assumes "create_outcome E (attempts s) = SentCall" and "manager_connection s \<noteq> None"
  shows "pold_connman_manager_create_session E s =
    Some (s\<lparr>attempts := Suc (attempts s), create_sent := create_sent s @ [create_session_call],
            create_pending := Suc (create_pending s)\<rparr>)"
  using assms
  by (auto simp: pold_connman_manager_create_session_def create_session_body_eq Let_def)
    (simp add: create_session_call_def)

text \<open>
  When connman gets on the bus pold asks it for exactly one session, with a well-typed
  message of the signature connman documents; when connman leaves, nothing is sent. The other
  watches are not called and all watches stay.
\<close>

lemma connman_appears_asks:
  assumes "distinct (map fd_ref (listeners (watches s)))" and "listeners (watches s) = pre @ d # post"
    and "matches conn msg d = Some True"
    and "\<forall>e\<in>set (pre @ post). matches conn msg e = Some False"
    and "handle_func d = Some ServiceFilter" and "fd_argument d = Some ''net.connman''"
    and "processed d = []" and "\<not> lock d" and "callbacks d = [cb]" and "session_watch cb"
    and "sig_sender msg \<noteq> None" and "sig_args msg = [Some ''net.connman'', Some old, Some new]"
    and "\<forall>e\<in>set (listeners (watches s)). fd_name e = None"
    and "create_outcome E (attempts s) = SentCall" and "manager_connection s \<noteq> None"
  shows "\<exists>s'. after_watch E (message_filter (watch_answers E) conn True msg (watches s)) s = Some s'
    \<and> create_sent s' = create_sent s @ (if new = [] then [] else [create_session_call])
    \<and> create_pending s' = create_pending s + (if new = [] then 0 else 1)
    \<and> session_path s' = session_path s \<and> settings_state s' = settings_state s
    \<and> listeners (watches s') = listeners (watches s)
    \<and> wt_body (mc_body create_session_call) \<and> items_sig (mc_body create_session_call) = ''a{sv}o''"
proof -
  note create_session_call_wt [simp]
  let ?w = "watches s" and ?c = "name_calls new cb"
  have filter: "message_filter (watch_answers E) conn True msg ?w = Some (?w\<lparr>calls := calls ?w @ ?c\<rparr>)"
    using known_name_changes[OF assms(1-8) _ _ assms(11-13), where E = "watch_answers E"] assms(9)
    by simp
  show ?thesis
  proof (cases "new = []")
    case True
    with filter assms(10) show ?thesis
      by (simp add: after_watch_def name_calls_def session_watch_def connman_disappeared_def)
  next
    case False
    let ?s = "s\<lparr>watches := ?w\<lparr>calls := calls ?w @ ?c\<rparr>\<rparr>"
    have "pold_connman_manager_create_session E ?s =
        Some (?s\<lparr>attempts := Suc (attempts s), create_sent := create_sent s @ [create_session_call],
                 create_pending := Suc (create_pending s)\<rparr>)"
      using create_session_sent[of E ?s] assms(14,15) by simp
    with False filter assms(10) show ?thesis
      by (simp add: after_watch_def name_calls_def session_watch_def connman_appeared_def)
  qed
qed

section \<open>The first watch of the daemon\<close>

text \<open>The watches after \<open>pold_session_init\<close>, whose question about the owner is under way.\<close>

definition first_callback :: filter_callback where
  "first_callback =
     \<lparr>conn_func = Some appeared_fn, disc_func = Some disappeared_fn, signal_func = None,
      destroy_func = None, cb_data = Some 0, cb_user_data = 0, cb_id = 1\<rparr>"

definition connman_listener :: "nat \<Rightarrow> filter_data" where
  "connman_listener conn = (new_listener 0 conn ''net.connman'')\<lparr>callbacks := [first_callback]\<rparr>"

definition session_watches :: "nat \<Rightarrow> watch_state" where
  "session_watches conn =
     \<lparr>listener_id = 1, listeners = [connman_listener conn], next_ref = 1,
      services = [0 \<mapsto> \<lparr>sd_conn = conn, sd_name = ''net.connman'', sd_owner = NoOwner, sd_call = True,
                       sd_idle = False, sd_callback = 1\<rparr>],
      next_service = 1, match_rules = [(conn, full_rule (new_listener 0 conn ''net.connman''))],
      filters = [conn], calls = []\<rparr>"

definition libdbus_fine :: "watch_env \<Rightarrow> bool" where
  "libdbus_fine E \<longleftrightarrow> \<not> add_filter_fails E \<and> (\<forall>rule. \<not> add_match_fails E rule) \<and> \<not> owner_call_fails E
     \<and> (\<forall>rule. \<not> remove_match_fails E rule)"

lemma connman_rule_length: "length (full_rule (new_listener 0 conn ''net.connman'')) < 1024"
  by (simp add: full_rule_def rule_parts_def rule_part_def rule_head_def new_listener_def)

lemma session_init_start:
  assumes "libdbus_fine (watch_answers E)" and "watches s = watch_start"
  shows "pold_session_init E conn s =
    Some (s\<lparr>session_connection := Some conn, watch_id := 1, watches := session_watches conn,
            settings_state := NullPtr\<rparr>)"
proof -
  let ?E = "watch_answers E" and ?n = "''net.connman''"
  have "filter_data_find_match watch_start conn None None None (Some dbus_interface)
      (Some ''NameOwnerChanged'') (Some ?n) = None"
    by (simp add: filter_data_find_match_def watch_start_def)
  from get_new[OF this _ _ connman_rule_length, of ?E] assms(1)
  have g: "filter_data_get ?E conn ServiceFilter None None (Some dbus_interface)
      (Some ''NameOwnerChanged'') (Some ?n) watch_start =
    Some (Some 0, watch_start\<lparr>filters := [conn], match_rules := [(conn, full_rule (new_listener 0 conn ?n))],
       listeners := [new_listener 0 conn ?n], next_ref := 1\<rparr>)"
    by (simp add: watch_start_def filter_data_find_def libdbus_fine_def)
  have eq: "(new_listener 0 conn ?n)\<lparr>callbacks := [first_callback], processed := []\<rparr> = connman_listener conn"
    by (simp add: new_listener_def connman_listener_def)
  have "g_dbus_add_service_watch ?E conn (Some ?n) (Some appeared_fn) (Some disappeared_fn) 0 None watch_start
      = Some (1, session_watches conn)"
    using assms(1) g
    by (simp add: g_dbus_add_service_watch_def filter_data_add_callback_def find_listener_def
        set_listener_def check_service_def check_name_cache_def on_callbacks_def set_cb_data_def
        watch_start_def Let_def libdbus_fine_def session_watches_def eq[symmetric])
      (simp add: new_listener_def first_callback_def)
  then show ?thesis using assms(2) by (simp add: pold_session_init_def)
qed

definition owner_signal :: "string \<Rightarrow> string \<Rightarrow> signal_msg" where
  "owner_signal old new =
     \<lparr>sig_sender = Some ''org.freedesktop.DBus'', sig_path = Some ''/org/freedesktop/DBus'',
      sig_interface = Some ''org.freedesktop.DBus'', sig_member = Some ''NameOwnerChanged'',
      sig_args = [Some ''net.connman'', Some old, Some new]\<rparr>"

lemma connman_listener_matches: "matches conn (owner_signal old new) (connman_listener conn) = Some True"
  by (simp add: matches_def owner_signal_def connman_listener_def field_matches_def first_string_def
      new_listener_def)

lemma first_signal:
  assumes "watches s = session_watches conn" and "create_outcome E (attempts s) = SentCall"
    and "manager_connection s \<noteq> None"
  shows "\<exists>s'. after_watch E (message_filter (watch_answers E) conn True (owner_signal old (c # cs)) (watches s)) s
      = Some s'
    \<and> create_sent s' = create_sent s @ [create_session_call] \<and> create_pending s' = Suc (create_pending s)
    \<and> manager_connection s' = manager_connection s \<and> attempts s' = Suc (attempts s)
    \<and> watches s' = (session_watches conn)\<lparr>calls := [ConnCalled appeared_fn 0]\<rparr>"
proof -
  let ?w = "session_watches conn" and ?d = "connman_listener conn"
  have l: "listeners ?w = [] @ ?d # []" by (simp add: session_watches_def)
  have cb: "callbacks ?d = [first_callback]" by (simp add: connman_listener_def)
  have f: "message_filter (watch_answers E) conn True (owner_signal old (c # cs)) ?w =
      Some (?w\<lparr>calls := calls ?w @ concat (map (name_calls (c # cs)) (callbacks ?d))\<rparr>)"
    by (rule known_name_changes[OF _ l connman_listener_matches, where n = "''net.connman''"])
      (simp_all add: l connman_listener_def owner_signal_def new_listener_def)
  let ?s = "s\<lparr>watches := ?w\<lparr>calls := [ConnCalled appeared_fn 0]\<rparr>\<rparr>"
  have n: "name_calls (c # cs) first_callback = [ConnCalled appeared_fn 0]"
    by (simp add: name_calls_def first_callback_def)
  have k: "calls ?w = []" by (simp add: session_watches_def)
  show ?thesis
    using create_session_sent[of E ?s] assms f
    by (simp add: cb n k after_watch_def connman_appeared_def)
qed

text \<open>
  A race asks for two sessions: if connman gets on the bus while pold's question about
  the owner of its name is under way, the signal and the answer each create one. No code
  destroys either; the path kept is that of whichever answer comes last.
\<close>

lemma session_created_twice:
  assumes fine: "libdbus_fine (watch_answers E)" and sent: "\<forall>t. create_outcome E t = SentCall"
    and s: "watches s = watch_start" "manager_connection s = Some conn"
  shows "\<exists>s1 s2 s3. pold_session_init E conn s = Some s1
    \<and> after_watch E (message_filter (watch_answers E) conn True (owner_signal [] (c # cs)) (watches s1)) s1
        = Some s2
    \<and> after_watch E (service_reply (Some (c # cs)) 0 (watches s2)) s2 = Some s3
    \<and> create_sent s3 = create_sent s @ [create_session_call, create_session_call]
    \<and> create_pending s3 = create_pending s + 2"
proof -
  let ?s1 = "s\<lparr>session_connection := Some conn, watch_id := 1, watches := session_watches conn,
    settings_state := NullPtr\<rparr>"
  from first_signal[of ?s1 conn E "[]" c cs] s(2) sent obtain s2 where
    s2: "after_watch E (message_filter (watch_answers E) conn True (owner_signal [] (c # cs)) (watches ?s1)) ?s1
        = Some s2"
      "create_sent s2 = create_sent s @ [create_session_call]" "create_pending s2 = Suc (create_pending s)"
      "manager_connection s2 = Some conn"
      "watches s2 = (session_watches conn)\<lparr>calls := [ConnCalled appeared_fn 0]\<rparr>"
    by auto
  have "\<exists>w. service_reply (Some (c # cs)) 0 (watches s2) = Some w
      \<and> calls w = [ConnCalled appeared_fn 0, ConnCalled appeared_fn 0]"
    by (simp add: s2(5) service_reply_def update_service_def update_name_cache_def service_data_free_def
        on_callbacks_def find_cb_def session_watches_def connman_listener_def first_callback_def
        call_client_eq new_listener_def)
  then obtain w where w: "service_reply (Some (c # cs)) 0 (watches s2) = Some w"
    "calls w = [ConnCalled appeared_fn 0, ConnCalled appeared_fn 0]" by blast
  have "calls (watches s2) = [ConnCalled appeared_fn 0]" by (simp add: s2(5))
  then have "after_watch E (service_reply (Some (c # cs)) 0 (watches s2)) s2 =
      pold_connman_manager_create_session E (s2\<lparr>watches := w\<rparr>)"
    by (simp add: after_watch_def w connman_appeared_def split: option.split)
  also have "\<dots> = Some (s2\<lparr>watches := w, attempts := Suc (attempts s2),
      create_sent := create_sent s2 @ [create_session_call], create_pending := Suc (create_pending s2)\<rparr>)"
    using create_session_sent[of E "s2\<lparr>watches := w\<rparr>"] sent s2(4) by simp
  finally show ?thesis
    using session_init_start[OF fine s(1), of conn] s2(1-3) by simp
qed

section \<open>The path and the settings over time\<close>

datatype session_event =
    Appears
  | Disappears
  | Answered dmessage
  | Released bool
  | Updated bool dmessage

definition session_step :: "session_env \<Rightarrow> session_event \<Rightarrow> connman_session \<Rightarrow> connman_session option" where
  "session_step E e s =
     (case e of
        Appears \<Rightarrow> connman_appeared E s
      | Disappears \<Rightarrow> connman_disappeared s
      | Answered m \<Rightarrow> create_session_cb m s
      | Released r \<Rightarrow> map_option snd (release r s)
      | Updated r m \<Rightarrow> map_option snd (update r m s))"

text \<open>
  The conditions under which libdbus and \<open>process_message\<close> make these calls: an answer needs a
  call under way, and the signature of \<open>Update\<close> is checked before the function runs.
\<close>

definition session_event_ok :: "session_event \<Rightarrow> connman_session \<Rightarrow> bool" where
  "session_event_ok e s =
     (case e of
        Answered m \<Rightarrow> 0 < create_pending s \<and> wt_body (msg_body m)
      | Updated r m \<Rightarrow> wt_body (msg_body m) \<and> has_signature m ''a{sv}''
      | _ \<Rightarrow> True)"

inductive session_run :: "session_env \<Rightarrow> connman_session \<Rightarrow> session_event list \<Rightarrow> connman_session \<Rightarrow> bool"
  for E :: session_env where
  start: "session_run E s [] s"
| event: "session_run E s es s1 \<Longrightarrow> session_event_ok e s1 \<Longrightarrow> session_step E e s1 = Some s2 \<Longrightarrow>
    session_run E s (es @ [e]) s2"

text \<open>What the path should be: that of the last answer, unless connman released the session since.\<close>

definition answer_path :: "dmessage \<Rightarrow> string option" where
  "answer_path m =
     (if msg_error m \<or> \<not> has_signature m ''o'' then None else iter_get_string (msg_body m))"

fun next_path :: "session_event \<Rightarrow> string option \<Rightarrow> string option" where
  "next_path (Answered m) p = answer_path m"
| "next_path (Released r) p = None"
| "next_path _ p = p"

fun is_answer :: "session_event \<Rightarrow> bool" where
  "is_answer (Answered m) = True"
| "is_answer _ = False"

lemma item_sig_nonempty [simp]: "item_sig i \<noteq> []"
  by (cases i) auto

lemma items_sig_Nil [simp]: "items_sig items = [] \<longleftrightarrow> items = []"
  by (cases items) simp_all

lemma items_sig_single:
  assumes "items_sig items = [c]"
  obtains i where "items = [i]" "item_sig i = [c]"
proof (cases items)
  case Nil
  with assms show ?thesis by simp
next
  case (Cons i rest)
  with assms have "item_sig i @ items_sig rest = [c]" by simp
  then have "items_sig rest = []" "item_sig i = [c]"
    by (simp_all add: append_eq_Cons_conv)
  with Cons show ?thesis using that by simp
qed

lemma object_path_answer:
  assumes "has_signature m ''o''" and "wt_body (msg_body m)"
  shows "\<exists>p. msg_body m = [Basic (DObjectPath p)]"
proof -
  from assms(1) obtain i where i: "msg_body m = [i]" "item_sig i = ''o''"
    unfolding has_signature_def by (rule items_sig_single)
  from i(2) obtain b where "i = Basic b" "type_code b = CHR ''o''" by (cases i) auto
  with i(1) show ?thesis by (cases b) auto
qed

lemma set_path_strdup [simp]:
  "session_path s = g_strdup p \<Longrightarrow> pold_session_set_path q s = Some (s\<lparr>session_path := g_strdup q\<rparr>)"
  by (simp add: pold_session_set_path_def g_strdup_def split: option.splits)

text \<open>The body of \<open>Update\<close> is an array, so the loop over dictionary entries ends at once.\<close>

lemma update_nothing:
  assumes "has_signature m ''a{sv}''"
  shows "update r m s = Some (if r then Some [] else None, s)"
proof (cases "msg_body m")
  case Nil
  then show ?thesis by (simp add: update_def)
next
  case (Cons i rest)
  with assms have "item_sig i @ items_sig rest = ''a{sv}''" by (simp add: has_signature_def)
  then have "\<not> is_dict_entry i" by (cases i) auto
  then have "update_loop (i # rest) s = Some s" by (cases i) auto
  with Cons show ?thesis by (simp add: update_def)
qed

lemma session_run_spec_core:
  assumes "session_run E s es s'" and "session_path s = g_strdup p" and "settings_state s = NullPtr"
  shows "session_path s' = g_strdup (fold next_path es p) \<and> settings_state s' = NullPtr
    \<and> create_pending s' + length (filter is_answer es) + length (create_sent s)
        = create_pending s + length (create_sent s')
    \<and> (\<forall>e. session_event_ok e s' \<longrightarrow> session_step E e s' \<noteq> None)"
proof -
  have main: "session_path s' = g_strdup (fold next_path es p) \<and> settings_state s' = NullPtr
    \<and> create_pending s' + length (filter is_answer es) + length (create_sent s)
        = create_pending s + length (create_sent s')"
    using assms
  proof induction
    case (start s)
    then show ?case by simp
  next
    case (event s es s1 e s2)
    then have ih: "session_path s1 = g_strdup (fold next_path es p)" "settings_state s1 = NullPtr"
      "create_pending s1 + length (filter is_answer es) + length (create_sent s)
        = create_pending s + length (create_sent s1)" by simp_all
    show ?case
    proof (cases e)
      case Appears
      with event(3) ih show ?thesis
        by (auto simp: session_step_def connman_appeared_def pold_connman_manager_create_session_def
            create_session_body_eq Let_def split: if_splits)
    next
      case Disappears
      with event(3) ih show ?thesis
        by (simp add: session_step_def connman_disappeared_def)
    next
      case (Answered m)
      with event(2) have pos: "0 < create_pending s1" and wt: "wt_body (msg_body m)"
        by (simp_all add: session_event_ok_def)
      let ?s = "s1\<lparr>create_pending := create_pending s1 - 1\<rparr>"
      have "create_session_cb m s1 = Some (?s\<lparr>session_path := g_strdup (answer_path m)\<rparr>)"
      proof (cases "msg_error m \<or> \<not> has_signature m ''o''")
        case True
        with ih(1) show ?thesis by (simp add: create_session_cb_def answer_path_def)
      next
        case False
        with object_path_answer[OF _ wt] obtain q where "msg_body m = [Basic (DObjectPath q)]" by blast
        with False ih(1) show ?thesis by (simp add: create_session_cb_def answer_path_def)
      qed
      with Answered event(3) ih pos show ?thesis by (auto simp: session_step_def)
    next
      case (Released r)
      with event(3) ih show ?thesis
        by (auto simp: session_step_def release_def)
    next
      case (Updated r m)
      with event(2,3) ih show ?thesis
        by (auto simp: session_step_def session_event_ok_def update_nothing)
    qed
  qed
  have "session_step E e s' \<noteq> None" if "session_event_ok e s'" for e
  proof (cases e)
    case (Answered m)
    with that have "0 < create_pending s'" "wt_body (msg_body m)" by (simp_all add: session_event_ok_def)
    with object_path_answer[of m] Answered main show ?thesis
      by (cases "msg_error m \<or> \<not> has_signature m ''o''") (auto simp: session_step_def create_session_cb_def)
  qed (use that main in \<open>auto simp: session_step_def session_event_ok_def update_nothing release_def
        connman_appeared_def pold_connman_manager_create_session_def create_session_body_eq
        connman_disappeared_def Let_def\<close>)
  with main show ?thesis by blast
qed

text \<open>
  C29. The state of the session follows the messages of connman: after any sequence of
  appearances, answers, releases and updates the path is that of the last answer that was
  not released since, every answer was to a call that was made, and the next event is handled
  without touching freed memory. The state of the settings is never set.
\<close>

theorem session_run_spec:
  assumes "session_run E s es s'" and "session_path s = g_strdup p" and "settings_state s = NullPtr"
  shows "session_path s' = g_strdup (fold next_path es p) \<and> settings_state s' = NullPtr
    \<and> create_pending s' + length (filter is_answer es) + length (create_sent s)
        = create_pending s + length (create_sent s')
    \<and> (\<forall>e. session_event_ok e s' \<longrightarrow> session_step E e s' \<noteq> None)"
  by (rule session_run_spec_core[OF assms])

text \<open>
  The state connman reports is thrown away: \<open>update\<close> answers and changes nothing,
  because it never recurses into the array. Started inside the array, the same loop would
  remember the last \<open>State\<close> of the dictionary.
\<close>

definition sv_entries :: "(string \<times> ditem) list \<Rightarrow> ditem list" where
  "sv_entries kvs = map (\<lambda>(k, v). DDictEntry [Basic (DString k), DVariant (item_sig v) [v]]) kvs"

lemma update_loop_entries:
  assumes "\<forall>v. (''State'', v) \<in> set kvs \<longrightarrow> (\<exists>t. v = Basic (DString t))" and "settings_state s \<noteq> FreedPtr"
  shows "update_loop (sv_entries kvs) s =
    Some (case map_of (rev kvs) ''State'' of
            Some (Basic (DString t)) \<Rightarrow> s\<lparr>settings_state := StrPtr t\<rparr> | _ \<Rightarrow> s)"
  using assms
proof (induction kvs arbitrary: s)
  case Nil
  then show ?case by (simp add: sv_entries_def)
next
  case (Cons kv kvs)
  obtain k v where kv: "kv = (k, v)" by (cases kv)
  show ?case
  proof (cases "k = ''State''")
    case True
    with Cons.prems(1) kv obtain t where v: "v = Basic (DString t)" by auto
    let ?s = "s\<lparr>settings_state := StrPtr t\<rparr>"
    from Cons.IH[of ?s] Cons.prems True kv v show ?thesis
      by (auto simp: sv_entries_def pold_session_set_state_def g_strdup_def map_add_def
          split: option.split ditem.split dbasic.split dest!: map_of_SomeD)
  next
    case False
    with Cons.IH[of s] Cons.prems kv show ?thesis
      by (simp add: sv_entries_def map_add_def split: option.split)
  qed
qed

lemma update_ignores_state:
  assumes "msg_body m = [DArray ''{sv}'' (sv_entries kvs)]" and "settings_state s \<noteq> FreedPtr"
    and "\<forall>v. (''State'', v) \<in> set kvs \<longrightarrow> (\<exists>t. v = Basic (DString t))"
    and "map_of (rev kvs) ''State'' = Some (Basic (DString t))"
  shows "update True m s = Some (Some [], s)
    \<and> update_loop (iter_recurse (msg_body m)) s = Some (s\<lparr>settings_state := StrPtr t\<rparr>)"
  using assms update_nothing[of m True s] update_loop_entries[OF assms(3,2)]
  by (simp add: has_signature_def)

theorem session_run_spec_witness:
  "\<exists>s'. session_run demo_session_env demo_session
      [Appears, Answered \<lparr>msg_error = False, msg_body = [Basic (DObjectPath ''/s/1'')]\<rparr>] s'
    \<and> session_path s' = StrPtr ''/s/1''"
proof -
  let ?m = "\<lparr>msg_error = False, msg_body = [Basic (DObjectPath ''/s/1'')]\<rparr>"
  let ?s1 = "demo_session\<lparr>attempts := 1, create_sent := [create_session_call], create_pending := 1\<rparr>"
  have "pold_connman_manager_create_session demo_session_env demo_session = Some ?s1"
    using create_session_sent[of demo_session_env demo_session]
    by (simp add: demo_session_env_def demo_session_def)
  then have "session_run demo_session_env demo_session ([] @ [Appears]) ?s1"
    by (intro session_run.event[OF session_run.start])
      (simp_all add: session_event_ok_def session_step_def connman_appeared_def)
  moreover have "\<exists>s2. session_step demo_session_env (Answered ?m) ?s1 = Some s2"
    by (simp add: session_step_def create_session_cb_def has_signature_def pold_session_set_path_def
        demo_session_def)
  then obtain s2 where "session_step demo_session_env (Answered ?m) ?s1 = Some s2" by blast
  moreover have "session_event_ok (Answered ?m) ?s1"
    by (simp add: session_event_ok_def wt_body_def)
  ultimately have run: "session_run demo_session_env demo_session (([] @ [Appears]) @ [Answered ?m]) s2"
    using session_run.event by blast
  have "session_path demo_session = g_strdup None" "settings_state demo_session = NullPtr"
    by (simp_all add: demo_session_def g_strdup_def)
  from session_run_spec[OF run this] run show ?thesis
    by (intro exI[of _ s2]) (simp add: answer_path_def has_signature_def g_strdup_def)
qed

end
