(* ===== verification/Gdbus_Mainloop_Props.thy ===== *)
theory Gdbus_Mainloop_Props
  imports Gdbus_Mainloop
begin

text \<open>
  The main loop polls exactly the enabled watches of libdbus, and its callbacks touch no freed
  memory as long as no connection is freed while one of its dispatches is queued; what a failed
  set-up leaves behind.
\<close>

section \<open>Well-formed states\<close>

definition sources_wf :: "(nat \<times> source) list \<Rightarrow> nat \<Rightarrow> bool" where
  "sources_wf srcs n \<longleftrightarrow> distinct (map fst srcs) \<and> (\<forall>x\<in>set srcs. 0 < fst x \<and> fst x < n)"

text \<open>
  A watch, its \<open>watch_info\<close> and its source name each other. \<open>slot\<close> is what a watch with data
  should be polled for, by the reference of the data.
\<close>

definition slot :: "(nat \<Rightarrow> dbus_watch option) \<Rightarrow> nat \<Rightarrow> (nat \<times> nat \<times> 32 word \<times> int) option" where
  "slot ws w =
     (case ws w of
        None \<Rightarrow> None
      | Some dw \<Rightarrow> map_option (\<lambda>i. (i, dw_conn dw, poll_condition (dw_flags dw), dw_fd dw)) (dw_data dw))"

definition watches_linked ::
  "(nat \<Rightarrow> (nat \<times> nat \<times> 32 word \<times> int) option) \<Rightarrow> (nat \<Rightarrow> watch_info option)
     \<Rightarrow> (nat \<times> source) list \<Rightarrow> nat \<Rightarrow> bool"
where
  "watches_linked sl is srcs n \<longleftrightarrow>
     (\<forall>i nf. is i = Some nf \<longrightarrow> i < n \<and> 0 < info_id nf
        \<and> (\<exists>cond f. sl (info_watch nf) = Some (i, info_conn nf, cond, f)
             \<and> (info_id nf, WatchSource i cond f) \<in> set srcs))
     \<and> (\<forall>s i cond f. (s, WatchSource i cond f) \<in> set srcs \<longrightarrow> (\<exists>nf. is i = Some nf \<and> info_id nf = s))
     \<and> (\<forall>w i x. sl w = Some (i, x) \<longrightarrow> (\<exists>nf. is i = Some nf \<and> info_watch nf = w))"

definition tslot :: "(nat \<Rightarrow> dbus_timeout option) \<Rightarrow> nat \<Rightarrow> nat option" where
  "tslot ts t = (case ts t of None \<Rightarrow> None | Some dt \<Rightarrow> dt_data dt)"

definition timeouts_linked ::
  "(nat \<Rightarrow> nat option) \<Rightarrow> (nat \<Rightarrow> timeout_handler option) \<Rightarrow> (nat \<times> source) list \<Rightarrow> nat \<Rightarrow> bool"
where
  "timeouts_linked sl hs srcs n \<longleftrightarrow>
     (\<forall>h th. hs h = Some th \<longrightarrow> h < n \<and> sl (th_timeout th) = Some h
        \<and> (0 < th_id th \<longrightarrow> (\<exists>v. (th_id th, TimeoutSource h v) \<in> set srcs)))
     \<and> (\<forall>s h v. (s, TimeoutSource h v) \<in> set srcs \<longrightarrow> (\<exists>th. hs h = Some th \<and> th_id th = s))
     \<and> (\<forall>t h. sl t = Some h \<longrightarrow> (\<exists>th. hs h = Some th \<and> th_timeout th = t))"

text \<open>
  Every \<open>watch_info\<close> holds a reference to its connection, besides the \<open>held\<close> ones of the
  program.
\<close>

definition users :: "(nat \<Rightarrow> watch_info option) \<Rightarrow> nat \<Rightarrow> nat set" where
  "users is c = {i. \<exists>nf. is i = Some nf \<and> info_conn nf = c}"

definition refs :: "(nat \<Rightarrow> dbus_conn option) \<Rightarrow> nat \<Rightarrow> nat" where
  "refs cs c = (case cs c of None \<Rightarrow> 0 | Some k \<Rightarrow> dc_refs k)"

definition conns_held ::
  "(nat \<Rightarrow> nat) \<Rightarrow> (nat \<Rightarrow> watch_info option) \<Rightarrow> (nat \<Rightarrow> dbus_conn option) \<Rightarrow> bool"
where
  "conns_held held is cs \<longleftrightarrow> (\<forall>c. finite (users is c) \<and> card (users is c) + held c \<le> refs cs c)
     \<and> (\<forall>c k. cs c = Some k \<longrightarrow> 0 < dc_refs k)"

definition loop_core :: "(nat \<Rightarrow> nat) \<Rightarrow> main_loop \<Rightarrow> bool" where
  "loop_core held st \<longleftrightarrow> sources_wf (sources st) (next_source st) \<and> 0 < next_source st
     \<and> watches_linked (slot (ml_watches st)) (infos st) (sources st) (next_alloc st)
     \<and> timeouts_linked (tslot (ml_timeouts st)) (handlers st) (sources st) (next_alloc st)
     \<and> conns_held held (infos st) (conns st)"

definition loop_wf :: "(nat \<Rightarrow> nat) \<Rightarrow> main_loop \<Rightarrow> bool" where
  "loop_wf held st \<longleftrightarrow> loop_core held st
     \<and> (\<forall>w dw. ml_watches st w = Some dw \<longrightarrow> (dw_enabled dw \<longleftrightarrow> dw_data dw \<noteq> None))"

lemma source_unique:
  "sources_wf srcs n \<Longrightarrow> (s, x) \<in> set srcs \<Longrightarrow> (s, y) \<in> set srcs \<Longrightarrow> x = y"
  by (auto simp: sources_wf_def dest: eq_key_imp_eq_value)

lemma sources_add:
  "sources_wf srcs n \<Longrightarrow> 0 < n \<Longrightarrow> sources_wf (srcs @ [(n, x)]) (Suc n)"
  by (force simp: sources_wf_def)

lemma sources_remove: "sources_wf srcs n \<Longrightarrow> sources_wf (filter (\<lambda>s. fst s \<noteq> i) srcs) n"
  by (auto simp: sources_wf_def distinct_map inj_on_def)

lemma slot_upd [simp]:
  "slot (ws(w \<mapsto> d)) = (slot ws)(w := map_option
     (\<lambda>i. (i, dw_conn d, poll_condition (dw_flags d), dw_fd d)) (dw_data d))"
  "slot (ws(w := None)) = (slot ws)(w := None)"
  by (auto simp: slot_def fun_eq_iff)

lemma tslot_upd [simp]:
  "tslot (ts(t \<mapsto> d)) = (tslot ts)(t := dt_data d)" "tslot (ts(t := None)) = (tslot ts)(t := None)"
  by (auto simp: tslot_def fun_eq_iff)

lemma slot_cases:
  "ws w = Some dw \<Longrightarrow> slot ws w = map_option
     (\<lambda>i. (i, dw_conn dw, poll_condition (dw_flags dw), dw_fd dw)) (dw_data dw)"
  "ts t = Some dt \<Longrightarrow> tslot ts t = dt_data dt" "ws w = None \<Longrightarrow> slot ws w = None"
  "ts t = None \<Longrightarrow> tslot ts t = None"
  by (simp_all add: slot_def tslot_def)

section \<open>Linking and unlinking\<close>

lemma watch_clear:
  assumes l: "watches_linked sl is srcs n" and src: "sources_wf srcs m"
    and w: "sl w = Some (i, x)" and i: "is i = Some nf"
  shows "watches_linked (sl(w := None)) (is(i := None)) (filter (\<lambda>s. fst s \<noteq> info_id nf) srcs) n"
proof -
  from l i obtain cond0 f0 where own: "sl (info_watch nf) = Some (i, info_conn nf, cond0, f0)"
    "(info_id nf, WatchSource i cond0 f0) \<in> set srcs"
    unfolding watches_linked_def by blast
  from l w obtain e0 where "is i = Some e0" "info_watch e0 = w" unfolding watches_linked_def by blast
  with i have iw: "info_watch nf = w" by simp
  have other: "j < n \<and> 0 < info_id e \<and> (\<exists>cond f. (sl(w := None)) (info_watch e) = Some (j, info_conn e, cond, f)
      \<and> (info_id e, WatchSource j cond f) \<in> set (filter (\<lambda>s. fst s \<noteq> info_id nf) srcs))"
    if e: "(is(i := None)) j = Some e" for j e
  proof -
    from e have ji: "j \<noteq> i" and ej: "is j = Some e" by (auto split: if_splits)
    from l ej obtain cond f where d: "j < n" "0 < info_id e" "sl (info_watch e) = Some (j, info_conn e, cond, f)"
      "(info_id e, WatchSource j cond f) \<in> set srcs"
      unfolding watches_linked_def by blast
    have "info_watch e \<noteq> w" using d(3) w ji by auto
    moreover have "info_id e \<noteq> info_id nf"
    proof
      assume "info_id e = info_id nf"
      with source_unique[OF src] d(4) own(2) ji show False by (metis source.inject(1))
    qed
    ultimately show ?thesis using d by (intro conjI exI[of _ cond] exI[of _ f]) simp_all
  qed
  have srcs: "\<exists>e. (is(i := None)) j = Some e \<and> info_id e = s"
    if "(s, WatchSource j c f) \<in> set (filter (\<lambda>s. fst s \<noteq> info_id nf) srcs)" for s j c f
  proof -
    from that have "(s, WatchSource j c f) \<in> set srcs" and s: "s \<noteq> info_id nf" by auto
    with l obtain e where "is j = Some e" "info_id e = s" unfolding watches_linked_def by blast
    with s i show ?thesis by (cases "j = i") auto
  qed
  have data: "\<exists>e. (is(i := None)) j = Some e \<and> info_watch e = v"
    if "(sl(w := None)) v = Some (j, y)" for v y j
  proof -
    from that have v: "v \<noteq> w" "sl v = Some (j, y)" by (auto split: if_splits)
    with l obtain e where e: "is j = Some e" "info_watch e = v"
      unfolding watches_linked_def by blast
    with v i iw show ?thesis by (cases "j = i") auto
  qed
  from other srcs data show ?thesis unfolding watches_linked_def by blast
qed

lemma watch_attach:
  assumes l: "watches_linked sl is srcs n" and w: "sl w = None" and m: "0 < m"
  shows "watches_linked (sl(w \<mapsto> (n, c, cond, f))) (is(n \<mapsto> \<lparr>info_id = m, info_watch = w, info_conn = c\<rparr>))
    (srcs @ [(m, WatchSource n cond f)]) (Suc n)"
proof -
  have n: "is n = None" using l unfolding watches_linked_def by (metis less_irrefl not_None_eq)
  let ?sl = "sl(w \<mapsto> (n, c, cond, f))" and ?is = "is(n \<mapsto> \<lparr>info_id = m, info_watch = w, info_conn = c\<rparr>)"
  let ?srcs = "srcs @ [(m, WatchSource n cond f)]"
  have a: "j < Suc n \<and> 0 < info_id e \<and> (\<exists>cond f. ?sl (info_watch e) = Some (j, info_conn e, cond, f)
      \<and> (info_id e, WatchSource j cond f) \<in> set ?srcs)"
    if e: "?is j = Some e" for j e
  proof (cases "j = n")
    case True
    with e have "e = \<lparr>info_id = m, info_watch = w, info_conn = c\<rparr>" by simp
    with True m show ?thesis by simp
  next
    case False
    with e have "is j = Some e" by simp
    with l obtain cond f where d: "j < n" "0 < info_id e" "sl (info_watch e) = Some (j, info_conn e, cond, f)"
      "(info_id e, WatchSource j cond f) \<in> set srcs"
      unfolding watches_linked_def by blast
    then have "info_watch e \<noteq> w" using w by auto
    with d show ?thesis by auto
  qed
  have b: "\<exists>e. ?is j = Some e \<and> info_id e = s" if "(s, WatchSource j c f) \<in> set ?srcs" for s j c f
  proof (cases "(s, WatchSource j c f) \<in> set srcs")
    case True
    with l obtain e where "is j = Some e" "info_id e = s" unfolding watches_linked_def by blast
    moreover from this n have "j \<noteq> n" by auto
    ultimately show ?thesis by simp
  next
    case False
    with that show ?thesis by simp
  qed
  have c: "\<exists>e. ?is j = Some e \<and> info_watch e = v" if "?sl v = Some (j, x)" for v x j
  proof (cases "v = w")
    case True
    with that show ?thesis by auto
  next
    case False
    with that have "sl v = Some (j, x)" by simp
    with l obtain e where e: "is j = Some e" "info_watch e = v" unfolding watches_linked_def by blast
    with n have "j \<noteq> n" by auto
    with e show ?thesis by simp
  qed
  from a b c show ?thesis unfolding watches_linked_def by blast
qed

lemma watches_frame:
  assumes "watches_linked sl is srcs n" and "n \<le> n'"
    and "\<And>s i c f. (s, WatchSource i c f) \<in> set srcs' \<longleftrightarrow> (s, WatchSource i c f) \<in> set srcs"
  shows "watches_linked sl is srcs' n'"
  using assms(1,2) unfolding watches_linked_def assms(3) by (meson less_le_trans)

lemma timeout_clear:
  assumes l: "timeouts_linked sl hs srcs n" and src: "sources_wf srcs m"
    and t: "sl t = Some h" and h: "hs h = Some th"
    and srcs': "\<And>x. x \<in> set srcs' \<longleftrightarrow> x \<in> set srcs \<and> (th_id th = 0 \<or> fst x \<noteq> th_id th)"
  shows "timeouts_linked (sl(t := None)) (hs(h := None)) srcs' n"
proof -
  from l t obtain e0 where "hs h = Some e0" "th_timeout e0 = t" unfolding timeouts_linked_def by blast
  with h have it: "th_timeout th = t" by simp
  have a: "j < n \<and> (sl(t := None)) (th_timeout e) = Some j
      \<and> (0 < th_id e \<longrightarrow> (\<exists>v. (th_id e, TimeoutSource j v) \<in> set srcs'))"
    if e: "(hs(h := None)) j = Some e" for j e
  proof -
    from e have jh: "j \<noteq> h" and ej: "hs j = Some e" by (auto split: if_splits)
    from l ej have d: "j < n" "sl (th_timeout e) = Some j"
      "0 < th_id e \<longrightarrow> (\<exists>v. (th_id e, TimeoutSource j v) \<in> set srcs)"
      unfolding timeouts_linked_def by blast+
    have "th_timeout e \<noteq> t" using d(2) t jh by auto
    moreover have "\<exists>v. (th_id e, TimeoutSource j v) \<in> set srcs'" if p: "0 < th_id e"
    proof -
      from p d(3) obtain v where v: "(th_id e, TimeoutSource j v) \<in> set srcs" by blast
      have "th_id th = 0 \<or> th_id e \<noteq> th_id th"
      proof (rule ccontr)
        assume "\<not> ?thesis"
        then have pos: "0 < th_id th" and eq: "th_id e = th_id th" by auto
        from l h pos obtain v' where "(th_id th, TimeoutSource h v') \<in> set srcs"
          unfolding timeouts_linked_def by blast
        with source_unique[OF src v] eq jh show False by (metis source.inject(2))
      qed
      with v srcs' show ?thesis by (metis fst_conv)
    qed
    ultimately show ?thesis using d by auto
  qed
  have b: "\<exists>e. (hs(h := None)) j = Some e \<and> th_id e = s" if "(s, TimeoutSource j v) \<in> set srcs'" for s j v
  proof -
    from that srcs' have s: "(s, TimeoutSource j v) \<in> set srcs" "th_id th = 0 \<or> s \<noteq> th_id th" by auto
    with l obtain e where e: "hs j = Some e" "th_id e = s" unfolding timeouts_linked_def by blast
    have "0 < s" using s(1) src by (force simp: sources_wf_def)
    with s e h have "j \<noteq> h" by auto
    with e show ?thesis by simp
  qed
  have c: "\<exists>e. (hs(h := None)) j = Some e \<and> th_timeout e = v" if "(sl(t := None)) v = Some j" for v j
  proof -
    from that have v: "v \<noteq> t" "sl v = Some j" by (auto split: if_splits)
    with l obtain e where e: "hs j = Some e" "th_timeout e = v"
      unfolding timeouts_linked_def by blast
    with v h it have "j \<noteq> h" by auto
    with e show ?thesis by simp
  qed
  from a b c show ?thesis unfolding timeouts_linked_def by blast
qed

lemma timeout_attach:
  assumes l: "timeouts_linked sl hs srcs n" and t: "sl t = None" and m: "0 < m"
  shows "timeouts_linked (sl(t \<mapsto> n)) (hs(n \<mapsto> \<lparr>th_id = m, th_timeout = t\<rparr>))
    (srcs @ [(m, TimeoutSource n v)]) (Suc n)"
proof -
  have n: "hs n = None" using l unfolding timeouts_linked_def by (metis less_irrefl not_None_eq)
  let ?sl = "sl(t \<mapsto> n)" and ?hs = "hs(n \<mapsto> \<lparr>th_id = m, th_timeout = t\<rparr>)"
  let ?srcs = "srcs @ [(m, TimeoutSource n v)]"
  have a: "j < Suc n \<and> ?sl (th_timeout e) = Some j
      \<and> (0 < th_id e \<longrightarrow> (\<exists>u. (th_id e, TimeoutSource j u) \<in> set ?srcs))"
    if e: "?hs j = Some e" for j e
  proof (cases "j = n")
    case True
    with e have "e = \<lparr>th_id = m, th_timeout = t\<rparr>" by simp
    with True show ?thesis by auto
  next
    case False
    with e have "hs j = Some e" by simp
    with l have d: "j < n" "sl (th_timeout e) = Some j"
      "0 < th_id e \<longrightarrow> (\<exists>u. (th_id e, TimeoutSource j u) \<in> set srcs)"
      unfolding timeouts_linked_def by blast+
    then have "th_timeout e \<noteq> t" using t by auto
    with d show ?thesis by auto
  qed
  have b: "\<exists>e. ?hs j = Some e \<and> th_id e = s" if "(s, TimeoutSource j u) \<in> set ?srcs" for s j u
  proof (cases "(s, TimeoutSource j u) \<in> set srcs")
    case True
    with l obtain e where "hs j = Some e" "th_id e = s" unfolding timeouts_linked_def by blast
    moreover from this n have "j \<noteq> n" by auto
    ultimately show ?thesis by simp
  next
    case False
    with that show ?thesis by simp
  qed
  have c: "\<exists>e. ?hs j = Some e \<and> th_timeout e = u" if "?sl u = Some j" for u j
  proof (cases "u = t")
    case True
    with that show ?thesis by auto
  next
    case False
    with that have "sl u = Some j" by simp
    with l obtain e where e: "hs j = Some e" "th_timeout e = u" unfolding timeouts_linked_def by blast
    with n have "j \<noteq> n" by auto
    with e show ?thesis by simp
  qed
  from a b c show ?thesis unfolding timeouts_linked_def by blast
qed

lemma timeouts_frame:
  assumes "timeouts_linked sl hs srcs n" and "n \<le> n'"
    and "\<And>s h v. (s, TimeoutSource h v) \<in> set srcs' \<longleftrightarrow> (s, TimeoutSource h v) \<in> set srcs"
  shows "timeouts_linked sl hs srcs' n'"
  using assms(1,2) unfolding timeouts_linked_def assms(3) by (meson less_le_trans)

section \<open>References to connections\<close>

definition release_conn :: "nat \<Rightarrow> (nat \<Rightarrow> dbus_conn option) \<Rightarrow> nat \<Rightarrow> dbus_conn option" where
  "release_conn c cs =
     (case cs c of
        None \<Rightarrow> cs
      | Some k \<Rightarrow> if 1 < dc_refs k then cs(c \<mapsto> k\<lparr>dc_refs := dc_refs k - 1\<rparr>) else cs(c := None))"

lemma unref_eq:
  assumes "conns st c \<noteq> None"
  obtains u where "dbus_connection_unref c st = Some (st\<lparr>conns := release_conn c (conns st), unclosed := u\<rparr>)"
proof -
  obtain k where k: "conns st c = Some k" using assms by blast
  show ?thesis
  proof (cases "1 < dc_refs k")
    case True
    then have "dbus_connection_unref c st =
        Some (st\<lparr>conns := release_conn c (conns st), unclosed := unclosed st\<rparr>)"
      using k by (simp add: dbus_connection_unref_def release_conn_def)
    then show ?thesis by (rule that)
  next
    case False
    then have "dbus_connection_unref c st =
        Some (st\<lparr>conns := release_conn c (conns st),
          unclosed := unclosed st + (if dc_private k \<and> dc_connected k then 1 else 0)\<rparr>)"
      using k by (simp add: dbus_connection_unref_def release_conn_def)
    then show ?thesis by (rule that)
  qed
qed

lemma refs_upd [simp]:
  "refs (cs(c \<mapsto> k)) = (refs cs)(c := dc_refs k)" "refs (cs(c := None)) = (refs cs)(c := 0)"
  by (auto simp: refs_def fun_eq_iff)

lemma refs_release: "refs (release_conn c cs) = (refs cs)(c := refs cs c - 1)"
  by (auto simp: release_conn_def refs_def fun_eq_iff split: option.split)

lemma release_pos: "(\<forall>c k. cs c = Some k \<longrightarrow> 0 < dc_refs k) \<Longrightarrow> release_conn c cs d = Some k \<Longrightarrow> 0 < dc_refs k"
  by (auto simp: release_conn_def split: option.splits if_splits)

lemma refs_live: "0 < refs cs c \<Longrightarrow> \<exists>k. cs c = Some k"
  by (auto simp: refs_def split: option.splits)

lemma users_attach:
  "is n = None \<Longrightarrow> users (is(n \<mapsto> x)) c = (if c = info_conn x then insert n (users is c) else users is c)"
  by (auto simp: users_def)

lemma users_clear:
  "is i = Some x \<Longrightarrow> users (is(i := None)) c = (if c = info_conn x then users is c - {i} else users is c)"
  by (auto simp: users_def)

lemma users_mem: "is i = Some x \<Longrightarrow> i \<in> users is c \<longleftrightarrow> c = info_conn x"
  by (auto simp: users_def)

lemma held_attach:
  assumes h: "conns_held held is cs" and n: "is n = None" and c: "cs (info_conn x) = Some k"
  shows "conns_held held (is(n \<mapsto> x)) (cs(info_conn x \<mapsto> k\<lparr>dc_refs := Suc (dc_refs k)\<rparr>))"
proof -
  from n have "n \<notin> users is d" for d by (auto simp: users_def)
  moreover have "finite (users is d)" "card (users is d) + held d \<le> refs cs d" for d
    using h by (simp_all add: conns_held_def)
  moreover have "refs cs (info_conn x) = dc_refs k" using c by (simp add: refs_def)
  moreover have "0 < dc_refs j" if "cs d = Some j" for d j using h that by (simp add: conns_held_def)
  ultimately show ?thesis
    unfolding conns_held_def users_attach[of "is", OF n] by (auto split: if_splits) (metis le_SucI)+
qed

lemma held_clear:
  assumes h: "conns_held held is cs" and i: "is i = Some x"
  shows "conns_held held (is(i := None)) (release_conn (info_conn x) cs)" and "0 < refs cs (info_conn x)"
proof -
  have fin: "finite (users is d)" "card (users is d) + held d \<le> refs cs d" for d
    using h by (simp_all add: conns_held_def)
  have "i \<in> users is (info_conn x)" using users_mem[of "is", OF i] by simp
  then have c: "card (users is (info_conn x) - {i}) = card (users is (info_conn x)) - 1"
    "0 < card (users is (info_conn x))"
    using fin(1)[of "info_conn x"] by (auto simp: card_gt_0_iff)
  from c(2) fin(2)[of "info_conn x"] show "0 < refs cs (info_conn x)" by linarith
  have "finite (users (is(i := None)) d) \<and> card (users (is(i := None)) d) + held d \<le> refs (release_conn (info_conn x) cs) d"
    for d
    using fin[of d] fin(2)[of "info_conn x"] c
    unfolding users_clear[of "is", OF i] refs_release by auto
  moreover have "0 < dc_refs k" if "release_conn (info_conn x) cs d = Some k" for d k
    by (rule release_pos[OF _ that]) (use h in \<open>simp add: conns_held_def\<close>)
  ultimately show "conns_held held (is(i := None)) (release_conn (info_conn x) cs)"
    by (simp add: conns_held_def)
qed

lemma held_more:
  assumes "conns_held held is cs" and "cs c = Some k"
  shows "conns_held (held(c := Suc (held c))) is (cs(c \<mapsto> k\<lparr>dc_refs := Suc (dc_refs k)\<rparr>))"
  using assms by (auto simp: conns_held_def) (metis Suc_leI assms(2) le_imp_less_Suc option.simps(5) refs_def)+

lemma held_less:
  assumes h: "conns_held held is cs" and c: "0 < held c"
  shows "conns_held (held(c := held c - 1)) is (release_conn c cs)" and "\<exists>k. cs c = Some k"
proof -
  have fin: "finite (users is d)" "card (users is d) + held d \<le> refs cs d" for d
    using h by (simp_all add: conns_held_def)
  from fin(2)[of c] c show "\<exists>k. cs c = Some k" by (intro refs_live) simp
  have "finite (users is d) \<and> card (users is d) + (held(c := held c - 1)) d \<le> refs (release_conn c cs) d" for d
    using fin[of d] fin(2)[of c] c unfolding refs_release by auto
  moreover have "0 < dc_refs k" if "release_conn c cs d = Some k" for d k
    by (rule release_pos[OF _ that]) (use h in \<open>simp add: conns_held_def\<close>)
  ultimately show "conns_held (held(c := held c - 1)) is (release_conn c cs)"
    by (simp add: conns_held_def)
qed

lemma held_same:
  assumes "conns_held held is cs" and "cs c = Some k" and "dc_refs k' = dc_refs k"
  shows "conns_held held is (cs(c \<mapsto> k'))"
proof -
  have "refs (cs(c \<mapsto> k')) = refs cs" using assms(2,3) by (auto simp: refs_def fun_eq_iff)
  moreover have "0 < dc_refs j" if "(cs(c \<mapsto> k')) d = Some j" for d j
    using assms that by (auto simp: conns_held_def split: if_splits)
  ultimately show ?thesis using assms(1) by (simp add: conns_held_def)
qed

section \<open>The operations keep the links\<close>

lemma linked_source:
  assumes "sources_wf srcs m" and "watches_linked sl is srcs n" and "is i = Some nf"
  shows "(s, TimeoutSource h v) \<in> set (filter (\<lambda>s. fst s \<noteq> info_id nf) srcs) \<longleftrightarrow> (s, TimeoutSource h v) \<in> set srcs"
proof -
  from assms(2,3) obtain c f where "(info_id nf, WatchSource i c f) \<in> set srcs"
    unfolding watches_linked_def by blast
  with source_unique[OF assms(1)] show ?thesis by fastforce
qed

lemma linked_timeout_source:
  assumes "sources_wf srcs m" and "timeouts_linked sl hs srcs n" and "hs h = Some th" and "0 < th_id th"
  shows "(s, WatchSource i c f) \<in> set (filter (\<lambda>s. fst s \<noteq> th_id th) srcs) \<longleftrightarrow> (s, WatchSource i c f) \<in> set srcs"
proof -
  from assms(2-4) obtain v where "(th_id th, TimeoutSource h v) \<in> set srcs"
    unfolding timeouts_linked_def by blast
  with source_unique[OF assms(1)] show ?thesis by fastforce
qed

lemma set_data_clear:
  assumes core: "loop_core held st" and w: "ml_watches st w = Some dw"
  obtains st' where "dbus_watch_set_data w None st = Some st'" "loop_core held st'"
    "ml_watches st' = (ml_watches st)(w \<mapsto> dw\<lparr>dw_data := None\<rparr>)"
proof (cases "dw_data dw")
  case None
  then have eq: "(slot (ml_watches st))(w := None) = slot (ml_watches st)"
    using w by (simp add: fun_eq_iff slot_cases)
  let ?st = "st\<lparr>ml_watches := (ml_watches st)(w \<mapsto> dw\<lparr>dw_data := None\<rparr>)\<rparr>"
  have "dbus_watch_set_data w None st = Some ?st" using w None by (simp add: dbus_watch_set_data_def)
  moreover have "loop_core held ?st" using core by (simp add: loop_core_def eq)
  ultimately show ?thesis by (rule that) simp
next
  case (Some i)
  then have sl: "slot (ml_watches st) w = Some (i, dw_conn dw, poll_condition (dw_flags dw), dw_fd dw)"
    using w by (simp add: slot_cases)
  from core have src: "sources_wf (sources st) (next_source st)"
    and l: "watches_linked (slot (ml_watches st)) (infos st) (sources st) (next_alloc st)"
    and tl: "timeouts_linked (tslot (ml_timeouts st)) (handlers st) (sources st) (next_alloc st)"
    and h: "conns_held held (infos st) (conns st)"
    by (simp_all add: loop_core_def)
  from l sl obtain nf where nf: "infos st i = Some nf" unfolding watches_linked_def by blast
  with l have pos: "0 < info_id nf" unfolding watches_linked_def by blast
  have "conns (g_source_remove (info_id nf) st) (info_conn nf) \<noteq> None"
    using refs_live[OF held_clear(2)[OF h nf]] by (simp add: g_source_remove_def)
  from unref_eq[OF this] obtain u where u: "dbus_connection_unref (info_conn nf) (g_source_remove (info_id nf) st) =
    Some ((g_source_remove (info_id nf) st)\<lparr>conns := release_conn (info_conn nf) (conns (g_source_remove (info_id nf) st)),
      unclosed := u\<rparr>)" by blast
  let ?st = "st\<lparr>sources := filter (\<lambda>s. fst s \<noteq> info_id nf) (sources st),
    conns := release_conn (info_conn nf) (conns st), unclosed := u, infos := (infos st)(i := None),
    ml_watches := (ml_watches st)(w \<mapsto> dw\<lparr>dw_data := None\<rparr>)\<rparr>"
  have "dbus_watch_set_data w None st = Some ?st"
    using w Some nf pos u
    by (simp add: dbus_watch_set_data_def watch_info_free_def Let_def) (simp add: g_source_remove_def)
  moreover have "loop_core held ?st"
    unfolding loop_core_def
    using core sources_remove[OF src] watch_clear[OF l src sl nf] held_clear(1)[OF h nf]
      timeouts_frame[OF tl order_refl, of "filter (\<lambda>s. fst s \<noteq> info_id nf) (sources st)"]
      linked_source[OF src l nf]
    by (simp add: loop_core_def)
  ultimately show ?thesis by (rule that) simp
qed

lemma add_watch_links:
  assumes core: "loop_core held st" and w: "ml_watches st w = Some dw" and en: "dw_enabled dw"
    and none: "dw_data dw = None" and c: "conns st (dw_conn dw) = Some k"
  obtains st' i where "add_watch w st = Some st'" "loop_core held st'"
    "ml_watches st' = (ml_watches st)(w \<mapsto> dw\<lparr>dw_data := Some i\<rparr>)"
proof -
  let ?i = "next_alloc st" and ?s = "next_source st" and ?c = "dw_conn dw"
  let ?nf = "\<lparr>info_id = ?s, info_watch = w, info_conn = ?c\<rparr>"
  let ?srcs = "sources st @ [(?s, WatchSource ?i (poll_condition (dw_flags dw)) (dw_fd dw))]"
  let ?st = "st\<lparr>next_alloc := Suc ?i, infos := (infos st)(?i \<mapsto> ?nf),
    conns := (conns st)(?c \<mapsto> k\<lparr>dc_refs := Suc (dc_refs k)\<rparr>),
    ml_watches := (ml_watches st)(w \<mapsto> dw\<lparr>dw_data := Some ?i\<rparr>), sources := ?srcs, next_source := Suc ?s\<rparr>"
  from core have src: "sources_wf (sources st) ?s" "0 < ?s"
    and l: "watches_linked (slot (ml_watches st)) (infos st) (sources st) ?i"
    and tl: "timeouts_linked (tslot (ml_timeouts st)) (handlers st) (sources st) ?i"
    and h: "conns_held held (infos st) (conns st)"
    by (simp_all add: loop_core_def)
  have new: "infos st ?i = None" using l unfolding watches_linked_def by (metis less_irrefl not_None_eq)
  have sl: "slot (ml_watches st) w = None" using w none by (simp add: slot_cases)
  have "add_watch w st = Some ?st"
    using w en none c
    by (simp add: add_watch_def dbus_connection_ref_def dbus_watch_set_data_def add_source_def Let_def)
  moreover have "loop_core held ?st"
    unfolding loop_core_def
    using src sources_add[OF src] watch_attach[OF l sl src(2)] held_attach[of held "infos st" "conns st" ?i ?nf k] h new c
      timeouts_frame[OF tl, of "Suc ?i" ?srcs]
    by simp
  ultimately show ?thesis by (rule that) simp
qed

lemma timeout_set_data_clear:
  assumes core: "loop_core held st" and t: "ml_timeouts st t = Some dt"
  obtains st' where "dbus_timeout_set_data t None st = Some st'" "loop_core held st'"
    "ml_timeouts st' = (ml_timeouts st)(t \<mapsto> dt\<lparr>dt_data := None\<rparr>)" "ml_watches st' = ml_watches st"
proof (cases "dt_data dt")
  case None
  then have eq: "(tslot (ml_timeouts st))(t := None) = tslot (ml_timeouts st)"
    using t by (simp add: fun_eq_iff slot_cases)
  let ?st = "st\<lparr>ml_timeouts := (ml_timeouts st)(t \<mapsto> dt\<lparr>dt_data := None\<rparr>)\<rparr>"
  have "dbus_timeout_set_data t None st = Some ?st" using t None by (simp add: dbus_timeout_set_data_def)
  moreover have "loop_core held ?st" using core by (simp add: loop_core_def eq)
  ultimately show ?thesis by (rule that) simp_all
next
  case (Some h)
  then have sl: "tslot (ml_timeouts st) t = Some h" using t by (simp add: slot_cases)
  from core have src: "sources_wf (sources st) (next_source st)"
    and l: "watches_linked (slot (ml_watches st)) (infos st) (sources st) (next_alloc st)"
    and tl: "timeouts_linked (tslot (ml_timeouts st)) (handlers st) (sources st) (next_alloc st)"
    by (simp_all add: loop_core_def)
  from tl sl obtain th where th: "handlers st h = Some th" unfolding timeouts_linked_def by blast
  let ?srcs = "if 0 < th_id th then filter (\<lambda>s. fst s \<noteq> th_id th) (sources st) else sources st"
  let ?st = "st\<lparr>sources := ?srcs, handlers := (handlers st)(h := None),
    ml_timeouts := (ml_timeouts st)(t \<mapsto> dt\<lparr>dt_data := None\<rparr>)\<rparr>"
  have "dbus_timeout_set_data t None st = Some ?st"
    using t Some th
    by (simp add: dbus_timeout_set_data_def timeout_handler_free_def Let_def g_source_remove_def)
  moreover have "sources_wf ?srcs (next_source st)" using src sources_remove by simp
  moreover have "timeouts_linked ((tslot (ml_timeouts st))(t := None)) ((handlers st)(h := None)) ?srcs (next_alloc st)"
    by (rule timeout_clear[OF tl src sl th]) auto
  moreover have "watches_linked (slot (ml_watches st)) (infos st) ?srcs (next_alloc st)"
    by (rule watches_frame[OF l order_refl]) (use linked_timeout_source[OF src tl th] in auto)
  ultimately have "dbus_timeout_set_data t None st = Some ?st" "loop_core held ?st"
    using core by (simp_all add: loop_core_def)
  then show ?thesis by (rule that) simp_all
qed

lemma add_timeout_links:
  assumes core: "loop_core held st" and t: "ml_timeouts st t = Some dt" and none: "dt_data dt = None"
  obtains st' where "add_timeout t st = Some st'" "loop_core held st'" "ml_watches st' = ml_watches st"
proof (cases "dt_enabled dt")
  case False
  with t have "add_timeout t st = Some st" by (simp add: add_timeout_def)
  then show ?thesis using core by (rule that) simp
next
  case True
  let ?h = "next_alloc st" and ?s = "next_source st"
  let ?srcs = "sources st @ [(?s, TimeoutSource ?h (dt_interval dt))]"
  let ?st = "st\<lparr>next_alloc := Suc ?h, handlers := (handlers st)(?h \<mapsto> \<lparr>th_id = ?s, th_timeout = t\<rparr>),
    ml_timeouts := (ml_timeouts st)(t \<mapsto> dt\<lparr>dt_data := Some ?h\<rparr>), sources := ?srcs, next_source := Suc ?s\<rparr>"
  from core have src: "sources_wf (sources st) ?s" "0 < ?s"
    and l: "watches_linked (slot (ml_watches st)) (infos st) (sources st) ?h"
    and tl: "timeouts_linked (tslot (ml_timeouts st)) (handlers st) (sources st) ?h"
    and h: "conns_held held (infos st) (conns st)"
    by (simp_all add: loop_core_def)
  have sl: "tslot (ml_timeouts st) t = None" using t none by (simp add: slot_cases)
  have "add_timeout t st = Some ?st"
    using t True none by (simp add: add_timeout_def dbus_timeout_set_data_def add_source_def Let_def)
  moreover have "loop_core held ?st"
    unfolding loop_core_def
    using src sources_add[OF src] timeout_attach[OF tl sl src(2)] h watches_frame[OF l, of "Suc ?h" ?srcs]
    by simp
  ultimately show ?thesis by (rule that) simp
qed

lemma queue_dispatch_links: "loop_core held st \<Longrightarrow> loop_core held (queue_dispatch c b st)"
  by (auto simp: loop_core_def queue_dispatch_def add_source_def intro: sources_add
      elim!: watches_frame timeouts_frame)

section \<open>What libdbus may do\<close>

text \<open>libdbus adds new objects without data, and names only objects and connections it has.\<close>

definition lib_ok :: "lib_action \<Rightarrow> main_loop \<Rightarrow> bool" where
  "lib_ok a st =
     (case a of
        AddWatch w dw \<Rightarrow> ml_watches st w = None \<and> dw_data dw = None \<and> conns st (dw_conn dw) \<noteq> None
      | RemoveWatch w \<Rightarrow> ml_watches st w \<noteq> None
      | ToggleWatch w e \<Rightarrow> \<exists>dw. ml_watches st w = Some dw \<and> conns st (dw_conn dw) \<noteq> None
      | FreeWatch w \<Rightarrow> ml_watches st w \<noteq> None
      | AddTimeout t dt \<Rightarrow> ml_timeouts st t = None \<and> dt_data dt = None
      | RemoveTimeout t \<Rightarrow> ml_timeouts st t \<noteq> None
      | ToggleTimeout t e \<Rightarrow> \<exists>dt. ml_timeouts st t = Some dt \<and> (dt_enabled dt \<or> dt_data dt = None)
      | FreeTimeout t \<Rightarrow> ml_timeouts st t \<noteq> None
      | Receive c n \<Rightarrow> conns st c \<noteq> None)"

lemma loop_wf_watch:
  assumes "loop_core held st" and "\<forall>v dw. v \<noteq> w \<longrightarrow> ml_watches st v = Some dw \<longrightarrow> (dw_enabled dw \<longleftrightarrow> dw_data dw \<noteq> None)"
    and "\<forall>dw. ml_watches st w = Some dw \<longrightarrow> (dw_enabled dw \<longleftrightarrow> dw_data dw \<noteq> None)"
  shows "loop_wf held st"
  unfolding loop_wf_def using assms by metis

lemma loop_wfD:
  assumes "loop_wf held st"
  shows "loop_core held st" "ml_watches st w = Some dw \<Longrightarrow> dw_enabled dw \<longleftrightarrow> dw_data dw \<noteq> None"
  using assms by (simp_all add: loop_wf_def)

lemma core_slot_same:
  "loop_core held st \<Longrightarrow> slot ws = slot (ml_watches st) \<Longrightarrow> loop_core held (st\<lparr>ml_watches := ws\<rparr>)"
  "loop_core held st \<Longrightarrow> tslot ts = tslot (ml_timeouts st) \<Longrightarrow> loop_core held (st\<lparr>ml_timeouts := ts\<rparr>)"
  by (simp_all add: loop_core_def)

text \<open>The steps of libdbus, one by one.\<close>

lemma add_watch_step:
  assumes wf: "loop_wf held st" and ok: "lib_ok a st" and AddWatch: "a = AddWatch w dw"
  obtains st' where "lib_step a st = Some st'" "loop_wf held st'"
proof -
  let ?st = "st\<lparr>ml_watches := (ml_watches st)(w \<mapsto> dw)\<rparr>"
  from AddWatch ok obtain k where new: "ml_watches st w = None" "dw_data dw = None" "conns st (dw_conn dw) = Some k"
    by (auto simp: lib_ok_def)
  have "slot ((ml_watches st)(w \<mapsto> dw)) = slot (ml_watches st)"
    using new by (simp add: fun_eq_iff slot_cases)
  then have core: "loop_core held ?st" by (rule core_slot_same[OF loop_wfD(1)[OF wf]])
  show ?thesis
  proof (cases "dw_enabled dw")
    case True
    have "ml_watches ?st w = Some dw" "conns ?st (dw_conn dw) = Some k" using new by simp_all
    from add_watch_links[OF core this(1) True new(2) this(2)] obtain st' i where
      s: "add_watch w ?st = Some st'" "loop_core held st'"
      "ml_watches st' = (ml_watches ?st)(w \<mapsto> dw\<lparr>dw_data := Some i\<rparr>)" by blast
    show ?thesis
      by (rule that[of st']) (use s AddWatch True loop_wfD(2)[OF wf] in \<open>auto simp: lib_step_def intro!: loop_wf_watch[of _ _ w]\<close>)
  next
    case False
    then have "lib_step a st = Some ?st" using AddWatch by (simp add: lib_step_def add_watch_def)
    moreover have "loop_wf held ?st"
      by (rule loop_wf_watch[of _ _ w]) (use core False new loop_wfD(2)[OF wf] in auto)
    ultimately show ?thesis by (rule that)
  qed
qed

lemma remove_watch_step:
  assumes wf: "loop_wf held st" and ok: "lib_ok a st" and RemoveWatch: "a = RemoveWatch w"
  obtains st' where "lib_step a st = Some st'" "loop_wf held st'"
proof -
  from RemoveWatch ok obtain dw where w: "ml_watches st w = Some dw" by (auto simp: lib_ok_def)
  show ?thesis
  proof (cases "dw_enabled dw")
    case True
    then show ?thesis using RemoveWatch w wf by (intro that[of st]) (simp_all add: lib_step_def remove_watch_def)
  next
    case False
    from set_data_clear[OF loop_wfD(1)[OF wf] w] obtain st' where s: "dbus_watch_set_data w None st = Some st'"
      "loop_core held st'" "ml_watches st' = (ml_watches st)(w \<mapsto> dw\<lparr>dw_data := None\<rparr>)" by blast
    show ?thesis
      by (rule that[of st'])
        (use s w False RemoveWatch loop_wfD(2)[OF wf] in
          \<open>auto simp: lib_step_def remove_watch_def intro!: loop_wf_watch[of _ _ w]\<close>)
  qed
qed

lemma toggle_watch_step:
  assumes wf: "loop_wf held st" and ok: "lib_ok a st" and ToggleWatch: "a = ToggleWatch w e"
  obtains st' where "lib_step a st = Some st'" "loop_wf held st'"
proof -
  from ToggleWatch ok obtain dw k where w: "ml_watches st w = Some dw" "conns st (dw_conn dw) = Some k"
    by (auto simp: lib_ok_def)
  show ?thesis
  proof (cases "dw_enabled dw = e")
    case True
    then show ?thesis using ToggleWatch w wf by (intro that[of st]) (simp_all add: lib_step_def)
  next
    case False
    let ?dw = "dw\<lparr>dw_enabled := e\<rparr>"
    let ?st = "st\<lparr>ml_watches := (ml_watches st)(w \<mapsto> ?dw)\<rparr>"
    have "slot ((ml_watches st)(w \<mapsto> ?dw)) = slot (ml_watches st)"
      using w by (simp add: fun_eq_iff slot_cases)
    then have core: "loop_core held ?st" by (rule core_slot_same[OF loop_wfD(1)[OF wf]])
    have w': "ml_watches ?st w = Some ?dw" "conns ?st (dw_conn ?dw) = Some k" using w by simp_all
    show ?thesis
    proof (cases e)
      case True
      with False loop_wfD(2)[OF wf w(1)] have none: "dw_data ?dw = None" by simp
      from True have en: "dw_enabled ?dw" by simp
      from add_watch_links[OF core w'(1) en none w'(2)] obtain st' i where
        s: "add_watch w ?st = Some st'" "loop_core held st'"
        "ml_watches st' = (ml_watches ?st)(w \<mapsto> ?dw\<lparr>dw_data := Some i\<rparr>)" by blast
      have "lib_step a st = Some st'"
        using ToggleWatch w False True s(1) by (simp add: lib_step_def watch_toggled_def)
      moreover have "loop_wf held st'"
        by (rule loop_wf_watch[of _ _ w]) (use s True loop_wfD(2)[OF wf] in auto)
      ultimately show ?thesis by (rule that)
    next
      case e: False
      from set_data_clear[OF core w'(1)] obtain st' where s: "dbus_watch_set_data w None ?st = Some st'"
        "loop_core held st'" "ml_watches st' = (ml_watches ?st)(w \<mapsto> ?dw\<lparr>dw_data := None\<rparr>)" by blast
      have "lib_step a st = Some st'"
        using ToggleWatch w False e s(1) by (simp add: lib_step_def watch_toggled_def remove_watch_def)
      moreover have "loop_wf held st'"
        by (rule loop_wf_watch[of _ _ w]) (use s e loop_wfD(2)[OF wf] in auto)
      ultimately show ?thesis by (rule that)
    qed
  qed
qed

lemma free_watch_step:
  assumes wf: "loop_wf held st" and ok: "lib_ok a st" and FreeWatch: "a = FreeWatch w"
  obtains st' where "lib_step a st = Some st'" "loop_wf held st'"
proof -
  from FreeWatch ok obtain dw where w: "ml_watches st w = Some dw" by (auto simp: lib_ok_def)
  from set_data_clear[OF loop_wfD(1)[OF wf] w] obtain st' where s: "dbus_watch_set_data w None st = Some st'"
    "loop_core held st'" "ml_watches st' = (ml_watches st)(w \<mapsto> dw\<lparr>dw_data := None\<rparr>)" by blast
  let ?st = "st'\<lparr>ml_watches := (ml_watches st')(w := None)\<rparr>"
  have "slot ((ml_watches st')(w := None)) = slot (ml_watches st')" by (simp add: s(3) fun_eq_iff)
  then have "loop_core held ?st" by (rule core_slot_same[OF s(2)])
  then have "loop_wf held ?st"
    by (rule loop_wf_watch[of _ _ w]) (use s loop_wfD(2)[OF wf] in auto)
  moreover have "lib_step a st = Some ?st" using FreeWatch s(1) by (simp add: lib_step_def)
  ultimately show ?thesis by (intro that)
qed

lemma add_timeout_step:
  assumes wf: "loop_wf held st" and ok: "lib_ok a st" and AddTimeout: "a = AddTimeout t dt"
  obtains st' where "lib_step a st = Some st'" "loop_wf held st'"
proof -
  let ?st = "st\<lparr>ml_timeouts := (ml_timeouts st)(t \<mapsto> dt)\<rparr>"
  from AddTimeout ok have new: "ml_timeouts st t = None" "dt_data dt = None" by (simp_all add: lib_ok_def)
  have "tslot ((ml_timeouts st)(t \<mapsto> dt)) = tslot (ml_timeouts st)"
    using new by (simp add: fun_eq_iff slot_cases)
  then have core: "loop_core held ?st" by (rule core_slot_same[OF loop_wfD(1)[OF wf]])
  have "ml_timeouts ?st t = Some dt" by simp
  from add_timeout_links[OF core this new(2)] obtain st' where
    s: "add_timeout t ?st = Some st'" "loop_core held st'" "ml_watches st' = ml_watches ?st" by blast
  have "loop_wf held st'" using s(2,3) loop_wfD(2)[OF wf] by (simp add: loop_wf_def)
  then show ?thesis by (intro that[of st']) (use s AddTimeout in \<open>simp_all add: lib_step_def\<close>)
qed

lemma remove_timeout_step:
  assumes wf: "loop_wf held st" and ok: "lib_ok a st" and RemoveTimeout: "a = RemoveTimeout t"
  obtains st' where "lib_step a st = Some st'" "loop_wf held st'"
proof -
  from RemoveTimeout ok obtain dt where t: "ml_timeouts st t = Some dt" by (auto simp: lib_ok_def)
  from timeout_set_data_clear[OF loop_wfD(1)[OF wf] t] obtain st' where
    s: "dbus_timeout_set_data t None st = Some st'" "loop_core held st'" "ml_watches st' = ml_watches st" by blast
  have "loop_wf held st'" using s(2,3) loop_wfD(2)[OF wf] by (simp add: loop_wf_def)
  then show ?thesis by (intro that[of st']) (use s RemoveTimeout in \<open>simp_all add: lib_step_def remove_timeout_def\<close>)
qed

lemma toggle_timeout_step:
  assumes wf: "loop_wf held st" and ok: "lib_ok a st" and ToggleTimeout: "a = ToggleTimeout t e"
  obtains st' where "lib_step a st = Some st'" "loop_wf held st'"
proof -
  from ToggleTimeout ok obtain dt where t: "ml_timeouts st t = Some dt" "dt_enabled dt \<or> dt_data dt = None"
    by (auto simp: lib_ok_def)
  show ?thesis
  proof (cases "dt_enabled dt = e")
    case True
    then show ?thesis using ToggleTimeout t wf by (intro that[of st]) (simp_all add: lib_step_def)
  next
    case False
    let ?dt = "dt\<lparr>dt_enabled := e\<rparr>"
    let ?st = "st\<lparr>ml_timeouts := (ml_timeouts st)(t \<mapsto> ?dt)\<rparr>"
    have "tslot ((ml_timeouts st)(t \<mapsto> ?dt)) = tslot (ml_timeouts st)"
      using t by (simp add: fun_eq_iff slot_cases)
    then have core: "loop_core held ?st" by (rule core_slot_same[OF loop_wfD(1)[OF wf]])
    have t': "ml_timeouts ?st t = Some ?dt" by simp
    have step: "lib_step a st = (if e then add_timeout t ?st else remove_timeout t ?st)"
      using ToggleTimeout t False by (simp add: lib_step_def timeout_toggled_def)
    show ?thesis
    proof (cases e)
      case True
      with False t(2) have "dt_data ?dt = None" by simp
      from add_timeout_links[OF core t' this] obtain st' where
        s: "add_timeout t ?st = Some st'" "loop_core held st'" "ml_watches st' = ml_watches ?st" by blast
      have "loop_wf held st'" using s(2,3) loop_wfD(2)[OF wf] by (simp add: loop_wf_def)
      with step s True show ?thesis by (intro that[of st']) simp_all
    next
      case e: False
      from timeout_set_data_clear[OF core t'] obtain st' where
        s: "dbus_timeout_set_data t None ?st = Some st'" "loop_core held st'" "ml_watches st' = ml_watches ?st" by blast
      have "loop_wf held st'" using s(2,3) loop_wfD(2)[OF wf] by (simp add: loop_wf_def)
      with step s e show ?thesis by (intro that[of st']) (simp_all add: remove_timeout_def)
    qed
  qed
qed

lemma free_timeout_step:
  assumes wf: "loop_wf held st" and ok: "lib_ok a st" and FreeTimeout: "a = FreeTimeout t"
  obtains st' where "lib_step a st = Some st'" "loop_wf held st'"
proof -
  from FreeTimeout ok obtain dt where t: "ml_timeouts st t = Some dt" by (auto simp: lib_ok_def)
  from timeout_set_data_clear[OF loop_wfD(1)[OF wf] t] obtain st' where
    s: "dbus_timeout_set_data t None st = Some st'" "loop_core held st'"
      "ml_timeouts st' = (ml_timeouts st)(t \<mapsto> dt\<lparr>dt_data := None\<rparr>)" "ml_watches st' = ml_watches st" by blast
  let ?st = "st'\<lparr>ml_timeouts := (ml_timeouts st')(t := None)\<rparr>"
  have "tslot ((ml_timeouts st')(t := None)) = tslot (ml_timeouts st')" by (simp add: s(3) fun_eq_iff)
  then have "loop_core held ?st" by (rule core_slot_same[OF s(2)])
  then have "loop_wf held ?st" using s(4) loop_wfD(2)[OF wf] by (simp add: loop_wf_def)
  moreover have "lib_step a st = Some ?st" using FreeTimeout s(1) by (simp add: lib_step_def)
  ultimately show ?thesis by (intro that)
qed

lemma receive_step:
  assumes wf: "loop_wf held st" and ok: "lib_ok a st" and Receive: "a = Receive c n"
  obtains st' where "lib_step a st = Some st'" "loop_wf held st'"
proof -
  from Receive ok obtain k where k: "conns st c = Some k" by (auto simp: lib_ok_def)
  let ?k = "k\<lparr>dc_queue := dc_queue k + n\<rparr>"
  let ?st = "st\<lparr>conns := (conns st)(c \<mapsto> ?k)\<rparr>"
  have "conns_held held (infos st) (conns st)" using loop_wfD(1)[OF wf] by (simp add: loop_core_def)
  from held_same[OF this k, of ?k] have wf': "loop_wf held ?st"
    using wf by (simp add: loop_wf_def loop_core_def)
  then have q: "loop_wf held (queue_dispatch c (0 < dc_queue ?k) ?st)"
    using queue_dispatch_links by (auto simp: loop_wf_def queue_dispatch_def add_source_def)
  have "lib_step a st = Some (if dc_connected k then queue_dispatch c (0 < dc_queue ?k) ?st else ?st)"
    using Receive k by (simp add: lib_step_def dispatch_status_def)
  with q wf' show ?thesis by (cases "dc_connected k") (simp_all add: that)
qed

lemma lib_step_wf:
  assumes wf: "loop_wf held st" and ok: "lib_ok a st"
  obtains st' where "lib_step a st = Some st'" "loop_wf held st'"
proof (cases a)
  case (AddWatch w dw)
  from add_watch_step[OF wf ok this] that show ?thesis .
next
  case (RemoveWatch w)
  from remove_watch_step[OF wf ok this] that show ?thesis .
next
  case (ToggleWatch w e)
  from toggle_watch_step[OF wf ok this] that show ?thesis .
next
  case (FreeWatch w)
  from free_watch_step[OF wf ok this] that show ?thesis .
next
  case (AddTimeout t dt)
  from add_timeout_step[OF wf ok this] that show ?thesis .
next
  case (RemoveTimeout t)
  from remove_timeout_step[OF wf ok this] that show ?thesis .
next
  case (ToggleTimeout t e)
  from toggle_timeout_step[OF wf ok this] that show ?thesis .
next
  case (FreeTimeout t)
  from free_timeout_step[OF wf ok this] that show ?thesis .
next
  case (Receive c n)
  from receive_step[OF wf ok this] that show ?thesis .
qed

text \<open>A sequence of callbacks, each of which libdbus may make where it comes.\<close>

fun lib_run_ok :: "lib_action list \<Rightarrow> main_loop \<Rightarrow> bool" where
  "lib_run_ok [] st = True"
| "lib_run_ok (a # as) st =
     (lib_ok a st \<and> (case lib_step a st of None \<Rightarrow> False | Some st' \<Rightarrow> lib_run_ok as st'))"

lemma lib_run_wf:
  assumes "loop_wf held st" and "lib_run_ok as st"
  obtains st' where "lib_run as st = Some st'" "loop_wf held st'"
proof -
  have "\<exists>st'. lib_run as st = Some st' \<and> loop_wf held st'"
    using assms
  proof (induction as arbitrary: st)
    case (Cons a as)
    then have "lib_ok a st" by simp
    from lib_step_wf[OF Cons.prems(1) this] obtain st1 where "lib_step a st = Some st1" "loop_wf held st1" .
    with Cons show ?case by simp
  qed simp
  then show ?thesis using that by blast
qed

section \<open>Runs of the main loop\<close>

datatype loop_event =
    LibCall lib_action
  | WatchReady nat "32 word" "lib_action list"
  | TimeoutFired nat "lib_action list"
  | DispatchIdle nat bool
  | ProgramRef nat
  | ProgramUnref nat

text \<open>
  The source of a function that returns FALSE is taken out when it is called: while it runs
  nothing refers to its id.
\<close>

definition loop_step :: "loop_event \<Rightarrow> main_loop \<Rightarrow> main_loop option" where
  "loop_step e st =
     (case e of
        LibCall a \<Rightarrow> lib_step a st
      | WatchReady s cond as \<Rightarrow>
          (case map_of (sources st) s of
             Some (WatchSource i c f) \<Rightarrow> watch_func i cond as st
           | _ \<Rightarrow> None)
      | TimeoutFired s as \<Rightarrow>
          (case map_of (sources st) s of
             Some (TimeoutSource h v) \<Rightarrow> timeout_handler_dispatch h as (g_source_remove s st)
           | _ \<Rightarrow> None)
      | DispatchIdle s oom \<Rightarrow>
          (case map_of (sources st) s of
             Some (DispatchSource c) \<Rightarrow> message_dispatch oom c (g_source_remove s st)
           | _ \<Rightarrow> None)
      | ProgramRef c \<Rightarrow> dbus_connection_ref c st
      | ProgramUnref c \<Rightarrow> dbus_connection_unref c st)"

definition held_after :: "loop_event \<Rightarrow> (nat \<Rightarrow> nat) \<Rightarrow> nat \<Rightarrow> nat" where
  "held_after e held =
     (case e of
        ProgramRef c \<Rightarrow> held(c := Suc (held c))
      | ProgramUnref c \<Rightarrow> held(c := held c - 1)
      | _ \<Rightarrow> held)"

text \<open>
  An event names a source of its kind; libdbus may make the callbacks; the program releases
  only references it holds. A dispatch needs its connection to be alive.
\<close>

definition loop_event_ok :: "(nat \<Rightarrow> nat) \<Rightarrow> loop_event \<Rightarrow> main_loop \<Rightarrow> bool" where
  "loop_event_ok held e st =
     (case e of
        LibCall a \<Rightarrow> lib_ok a st
      | WatchReady s cond as \<Rightarrow> \<exists>i c f. map_of (sources st) s = Some (WatchSource i c f)
          \<and> (\<forall>nf k. infos st i = Some nf \<longrightarrow> conns st (info_conn nf) = Some k \<longrightarrow>
               lib_run_ok as (st\<lparr>conns := (conns st)(info_conn nf \<mapsto> k\<lparr>dc_refs := Suc (dc_refs k)\<rparr>),
                 handled_watches := handled_watches st @ [(info_watch nf, watch_flags cond)]\<rparr>))
      | TimeoutFired s as \<Rightarrow> \<exists>h v. map_of (sources st) s = Some (TimeoutSource h v)
          \<and> (\<forall>th. handlers st h = Some th \<longrightarrow>
               lib_run_ok as ((g_source_remove s st)\<lparr>handlers := (handlers st)(h \<mapsto> th\<lparr>th_id := 0\<rparr>),
                 handled_timeouts := handled_timeouts st @ [th_timeout th]\<rparr>))
      | DispatchIdle s oom \<Rightarrow> \<exists>c. map_of (sources st) s = Some (DispatchSource c) \<and> conns st c \<noteq> None
      | ProgramRef c \<Rightarrow> conns st c \<noteq> None
      | ProgramUnref c \<Rightarrow> 0 < held c)"

lemma timeout_fire:
  assumes l: "timeouts_linked sl hs srcs n" and src: "sources_wf srcs m"
    and s: "(s, TimeoutSource h v) \<in> set srcs" and h: "hs h = Some th"
  shows "timeouts_linked sl (hs(h \<mapsto> th\<lparr>th_id := 0\<rparr>)) (filter (\<lambda>x. fst x \<noteq> s) srcs) n"
proof -
  from l s obtain e0 where "hs h = Some e0" "th_id e0 = s" unfolding timeouts_linked_def by blast
  with h have id: "th_id th = s" by simp
  let ?hs = "hs(h \<mapsto> th\<lparr>th_id := 0\<rparr>)" and ?srcs = "filter (\<lambda>x. fst x \<noteq> s) srcs"
  have a: "j < n \<and> sl (th_timeout e) = Some j \<and> (0 < th_id e \<longrightarrow> (\<exists>v. (th_id e, TimeoutSource j v) \<in> set ?srcs))"
    if e: "?hs j = Some e" for j e
  proof (cases "j = h")
    case True
    with e have "e = th\<lparr>th_id := 0\<rparr>" by simp
    moreover have "h < n" "sl (th_timeout th) = Some h" using l h unfolding timeouts_linked_def by blast+
    ultimately show ?thesis using True by simp
  next
    case False
    with e have "hs j = Some e" by simp
    with l have d: "j < n" "sl (th_timeout e) = Some j"
      "0 < th_id e \<longrightarrow> (\<exists>u. (th_id e, TimeoutSource j u) \<in> set srcs)"
      unfolding timeouts_linked_def by blast+
    have "th_id e \<noteq> s" if p: "0 < th_id e"
    proof
      assume eq: "th_id e = s"
      from p d(3) obtain u where "(th_id e, TimeoutSource j u) \<in> set srcs" by blast
      with eq source_unique[OF src s, of "TimeoutSource j u"] False show False by simp
    qed
    with d show ?thesis by auto
  qed
  have b: "\<exists>e. ?hs j = Some e \<and> th_id e = r" if "(r, TimeoutSource j u) \<in> set ?srcs" for r j u
  proof -
    from that have r: "(r, TimeoutSource j u) \<in> set srcs" "r \<noteq> s" by auto
    with l obtain e where e: "hs j = Some e" "th_id e = r" unfolding timeouts_linked_def by blast
    with r id h have "j \<noteq> h" by auto
    with e show ?thesis by simp
  qed
  have c: "\<exists>e. ?hs j = Some e \<and> th_timeout e = u" if "sl u = Some j" for u j
  proof -
    from that l obtain e where "hs j = Some e" "th_timeout e = u" unfolding timeouts_linked_def by blast
    with h show ?thesis by (cases "j = h") auto
  qed
  from a b c show ?thesis unfolding timeouts_linked_def by blast
qed

lemma core_more:
  assumes "loop_wf held st" and "conns st c = Some k"
  shows "loop_wf (held(c := Suc (held c))) (st\<lparr>conns := (conns st)(c \<mapsto> k\<lparr>dc_refs := Suc (dc_refs k)\<rparr>)\<rparr>)"
  using assms held_more[of held "infos st" "conns st" c k] by (simp add: loop_wf_def loop_core_def)

lemma core_less:
  assumes wf: "loop_wf held st" and c: "0 < held c"
  obtains st' where "dbus_connection_unref c st = Some st'" "loop_wf (held(c := held c - 1)) st'"
proof -
  from wf have h: "conns_held held (infos st) (conns st)" by (simp add: loop_wf_def loop_core_def)
  from held_less(2)[where held = held, OF h c] have "conns st c \<noteq> None" by simp
  from unref_eq[OF this] obtain u where
    u: "dbus_connection_unref c st = Some (st\<lparr>conns := release_conn c (conns st), unclosed := u\<rparr>)" .
  show ?thesis
    by (rule that[OF u]) (use wf held_less(1)[where held = held, OF h c] in \<open>simp add: loop_wf_def loop_core_def\<close>)
qed

lemma remove_dispatch:
  assumes wf: "loop_wf held st" and s: "(s, DispatchSource c) \<in> set (sources st)"
  shows "loop_wf held (g_source_remove s st)"
proof -
  from wf have src: "sources_wf (sources st) (next_source st)" by (simp add: loop_wf_def loop_core_def)
  let ?srcs = "filter (\<lambda>x. fst x \<noteq> s) (sources st)"
  have keep: "(r, x) \<in> set ?srcs \<longleftrightarrow> (r, x) \<in> set (sources st)" if "\<forall>c. x \<noteq> DispatchSource c" for r x
    using source_unique[OF src s, of x] that by auto
  have "watches_linked (slot (ml_watches st)) (infos st) ?srcs (next_alloc st)"
    by (rule watches_frame) (use wf keep in \<open>auto simp: loop_wf_def loop_core_def\<close>)
  moreover have "timeouts_linked (tslot (ml_timeouts st)) (handlers st) ?srcs (next_alloc st)"
    by (rule timeouts_frame) (use wf keep in \<open>auto simp: loop_wf_def loop_core_def\<close>)
  ultimately show ?thesis
    using wf sources_remove[OF src] by (simp add: loop_wf_def loop_core_def g_source_remove_def)
qed

lemma loop_wf_log:
  "loop_wf held (st\<lparr>handled_watches := x\<rparr>) = loop_wf held st"
  "loop_wf held (st\<lparr>handled_timeouts := y\<rparr>) = loop_wf held st"
  "loop_wf held (st\<lparr>dispatched := n\<rparr>) = loop_wf held st"
  by (simp_all add: loop_wf_def loop_core_def)

lemma queue_dispatch_wf: "loop_wf held st \<Longrightarrow> loop_wf held (queue_dispatch c b st)"
  using queue_dispatch_links by (auto simp: loop_wf_def queue_dispatch_def add_source_def)

lemma watch_func_wf:
  assumes wf: "loop_wf held st" and i: "infos st i = Some nf"
    and ok: "\<And>k. conns st (info_conn nf) = Some k \<Longrightarrow>
      lib_run_ok as (st\<lparr>conns := (conns st)(info_conn nf \<mapsto> k\<lparr>dc_refs := Suc (dc_refs k)\<rparr>),
        handled_watches := handled_watches st @ [(info_watch nf, watch_flags cond)]\<rparr>)"
  obtains st' where "watch_func i cond as st = Some st'" "loop_wf held st'"
proof -
  let ?c = "info_conn nf" and ?held = "held(info_conn nf := Suc (held (info_conn nf)))"
  from wf have h: "conns_held held (infos st) (conns st)" by (simp add: loop_wf_def loop_core_def)
  from refs_live[OF held_clear(2)[OF h i]] obtain k where k: "conns st ?c = Some k" by blast
  let ?st1 = "st\<lparr>conns := (conns st)(?c \<mapsto> k\<lparr>dc_refs := Suc (dc_refs k)\<rparr>)\<rparr>"
  let ?st2 = "?st1\<lparr>handled_watches := handled_watches st @ [(info_watch nf, watch_flags cond)]\<rparr>"
  have "loop_wf ?held ?st2" using core_more[OF wf k] by (simp add: loop_wf_log)
  from lib_run_wf[OF this] ok[OF k] obtain st3 where st3: "lib_run as ?st2 = Some st3" "loop_wf ?held st3"
    by auto
  from st3(2) have "conns_held ?held (infos st3) (conns st3)" by (simp add: loop_wf_def loop_core_def)
  from held_less(2)[where held = ?held, OF this, of ?c] obtain k3 where k3: "conns st3 ?c = Some k3" by auto
  let ?st4 = "queue_dispatch ?c (0 < dc_queue k3) st3"
  have "loop_wf ?held ?st4" by (rule queue_dispatch_wf[OF st3(2)])
  from core_less[OF this, of ?c] obtain st5 where st5: "dbus_connection_unref ?c ?st4 = Some st5" "loop_wf held st5"
    by auto
  have "watch_func i cond as st = Some st5"
    using i k st3(1) k3 st5(1) by (simp add: watch_func_def dbus_connection_ref_def Let_def)
  then show ?thesis using st5(2) by (rule that)
qed

lemma message_dispatch_wf:
  assumes wf: "loop_wf held st" and k: "conns st c = Some k"
  obtains st' where "message_dispatch oom c st = Some st'" "loop_wf held st'"
proof -
  let ?held = "held(c := Suc (held c))" and ?k = "k\<lparr>dc_refs := Suc (dc_refs k)\<rparr>"
  let ?st1 = "st\<lparr>conns := (conns st)(c \<mapsto> ?k)\<rparr>"
  obtain q n where q: "dispatch_loop oom (dc_queue k) (dispatched st) = (q, n)" by fastforce
  have wf1: "loop_wf ?held ?st1" by (rule core_more[OF wf k])
  then have "conns_held ?held (infos ?st1) (conns ?st1)" by (simp add: loop_wf_def loop_core_def)
  from held_same[OF this, of c ?k "?k\<lparr>dc_queue := q\<rparr>"]
  have "conns_held ?held (infos ?st1) ((conns ?st1)(c \<mapsto> ?k\<lparr>dc_queue := q\<rparr>))" by simp
  with wf1 have "loop_wf ?held (?st1\<lparr>conns := (conns ?st1)(c \<mapsto> ?k\<lparr>dc_queue := q\<rparr>), dispatched := n\<rparr>)"
    by (simp add: loop_wf_def loop_core_def)
  from core_less[OF this, of c] obtain st' where st': "dbus_connection_unref c
      (?st1\<lparr>conns := (conns ?st1)(c \<mapsto> ?k\<lparr>dc_queue := q\<rparr>), dispatched := n\<rparr>) = Some st'" "loop_wf held st'"
    by auto
  have "message_dispatch oom c st = Some st'"
    using k q st'(1) by (simp add: message_dispatch_def dbus_connection_ref_def)
  then show ?thesis using st'(2) by (rule that)
qed

lemma timeout_dispatch_wf:
  assumes wf: "loop_wf held st" and s: "(s, TimeoutSource h v) \<in> set (sources st)"
    and ok: "\<And>th. handlers st h = Some th \<Longrightarrow>
      lib_run_ok as ((g_source_remove s st)\<lparr>handlers := (handlers st)(h \<mapsto> th\<lparr>th_id := 0\<rparr>),
        handled_timeouts := handled_timeouts st @ [th_timeout th]\<rparr>)"
  obtains st' where "timeout_handler_dispatch h as (g_source_remove s st) = Some st'" "loop_wf held st'"
proof -
  from wf have src: "sources_wf (sources st) (next_source st)"
    and l: "watches_linked (slot (ml_watches st)) (infos st) (sources st) (next_alloc st)"
    and tl: "timeouts_linked (tslot (ml_timeouts st)) (handlers st) (sources st) (next_alloc st)"
    by (simp_all add: loop_wf_def loop_core_def)
  from tl s obtain th where th: "handlers st h = Some th" unfolding timeouts_linked_def by blast
  from tl th have "tslot (ml_timeouts st) (th_timeout th) = Some h" unfolding timeouts_linked_def by blast
  then obtain dt where dt: "ml_timeouts st (th_timeout th) = Some dt"
    by (auto simp: tslot_def split: option.splits)
  let ?srcs = "filter (\<lambda>x. fst x \<noteq> s) (sources st)"
  let ?st1 = "(g_source_remove s st)\<lparr>handlers := (handlers st)(h \<mapsto> th\<lparr>th_id := 0\<rparr>)\<rparr>"
  have "watches_linked (slot (ml_watches st)) (infos st) ?srcs (next_alloc st)"
    by (rule watches_frame[OF l order_refl]) (use source_unique[OF src s] in fastforce)
  with wf sources_remove[OF src] timeout_fire[OF tl src s th] have wf1: "loop_wf held ?st1"
    by (simp add: loop_wf_def loop_core_def g_source_remove_def)
  show ?thesis
  proof (cases "dt_enabled dt")
    case False
    with th dt have "timeout_handler_dispatch h as (g_source_remove s st) = Some ?st1"
      by (simp add: timeout_handler_dispatch_def Let_def g_source_remove_def)
    then show ?thesis using wf1 by (rule that)
  next
    case True
    have "loop_wf held (?st1\<lparr>handled_timeouts := handled_timeouts st @ [th_timeout th]\<rparr>)"
      using wf1 by (simp add: loop_wf_log)
    from lib_run_wf[OF this] ok[OF th] obtain st2 where
      st2: "lib_run as (?st1\<lparr>handled_timeouts := handled_timeouts st @ [th_timeout th]\<rparr>) = Some st2"
        "loop_wf held st2" by auto
    have "timeout_handler_dispatch h as (g_source_remove s st) = Some st2"
      using th dt True st2(1) by (simp add: timeout_handler_dispatch_def Let_def g_source_remove_def)
    then show ?thesis using st2(2) by (rule that)
  qed
qed

lemma loop_step_wf:
  assumes wf: "loop_wf held st" and ok: "loop_event_ok held e st"
  obtains st' where "loop_step e st = Some st'" "loop_wf (held_after e held) st'"
proof (cases e)
  case (LibCall a)
  with ok have "lib_ok a st" by (simp add: loop_event_ok_def)
  from lib_step_wf[OF wf this] obtain st' where "lib_step a st = Some st'" "loop_wf held st'" .
  with LibCall show ?thesis by (intro that[of st']) (simp_all add: loop_step_def held_after_def)
next
  case (WatchReady s cond as)
  with ok obtain i c f where m: "map_of (sources st) s = Some (WatchSource i c f)"
    and run: "\<And>nf k. infos st i = Some nf \<Longrightarrow> conns st (info_conn nf) = Some k \<Longrightarrow>
      lib_run_ok as (st\<lparr>conns := (conns st)(info_conn nf \<mapsto> k\<lparr>dc_refs := Suc (dc_refs k)\<rparr>),
        handled_watches := handled_watches st @ [(info_watch nf, watch_flags cond)]\<rparr>)"
    by (auto simp: loop_event_ok_def)
  from wf have "watches_linked (slot (ml_watches st)) (infos st) (sources st) (next_alloc st)"
    by (simp add: loop_wf_def loop_core_def)
  with map_of_SomeD[OF m] obtain nf where nf: "infos st i = Some nf" unfolding watches_linked_def by blast
  from watch_func_wf[OF wf nf run[OF nf]] obtain st' where
    "watch_func i cond as st = Some st'" "loop_wf held st'" by blast
  with m WatchReady show ?thesis by (intro that[of st']) (simp_all add: loop_step_def held_after_def)
next
  case (TimeoutFired s as)
  with ok obtain h v where m: "map_of (sources st) s = Some (TimeoutSource h v)"
    and run: "\<And>th. handlers st h = Some th \<Longrightarrow>
      lib_run_ok as ((g_source_remove s st)\<lparr>handlers := (handlers st)(h \<mapsto> th\<lparr>th_id := 0\<rparr>),
        handled_timeouts := handled_timeouts st @ [th_timeout th]\<rparr>)"
    by (auto simp: loop_event_ok_def)
  from timeout_dispatch_wf[OF wf map_of_SomeD[OF m] run] obtain st' where
    "timeout_handler_dispatch h as (g_source_remove s st) = Some st'" "loop_wf held st'" by blast
  with m TimeoutFired show ?thesis by (intro that[of st']) (simp_all add: loop_step_def held_after_def)
next
  case (DispatchIdle s oom)
  with ok obtain c k where m: "map_of (sources st) s = Some (DispatchSource c)" and k: "conns st c = Some k"
    by (auto simp: loop_event_ok_def)
  have "conns (g_source_remove s st) c = Some k" using k by (simp add: g_source_remove_def)
  from message_dispatch_wf[OF remove_dispatch[OF wf map_of_SomeD[OF m]] this, where oom = oom] obtain st' where
    "message_dispatch oom c (g_source_remove s st) = Some st'" "loop_wf held st'" .
  with m DispatchIdle show ?thesis by (intro that[of st']) (simp_all add: loop_step_def held_after_def)
next
  case (ProgramRef c)
  with ok obtain k where k: "conns st c = Some k" by (auto simp: loop_event_ok_def)
  show ?thesis
    by (rule that[of "st\<lparr>conns := (conns st)(c \<mapsto> k\<lparr>dc_refs := Suc (dc_refs k)\<rparr>)\<rparr>"])
      (use core_more[OF wf k] ProgramRef k in
        \<open>simp_all add: loop_step_def held_after_def dbus_connection_ref_def\<close>)
next
  case (ProgramUnref c)
  with ok have "0 < held c" by (simp add: loop_event_ok_def)
  from core_less[OF wf this] obtain st' where
    "dbus_connection_unref c st = Some st'" "loop_wf (held(c := held c - 1)) st'" .
  with ProgramUnref show ?thesis by (intro that[of st']) (simp_all add: loop_step_def held_after_def)
qed

text \<open>The states a program can reach from a loop without sources, whose references it holds.\<close>

inductive loop_reach :: "(nat \<Rightarrow> dbus_conn option) \<Rightarrow> (nat \<Rightarrow> nat) \<Rightarrow> main_loop \<Rightarrow> bool"
  for cs :: "nat \<Rightarrow> dbus_conn option" where
  init: "loop_reach cs (refs cs) (loop_start cs)"
| step: "loop_reach cs held st \<Longrightarrow> loop_event_ok held e st \<Longrightarrow> loop_step e st = Some st' \<Longrightarrow>
    loop_reach cs (held_after e held) st'"

lemma loop_start_wf:
  assumes "\<forall>c k. cs c = Some k \<longrightarrow> 0 < dc_refs k"
  shows "loop_wf (refs cs) (loop_start cs)"
  using assms
  by (simp add: loop_wf_def loop_core_def loop_start_def sources_wf_def watches_linked_def slot_def
      timeouts_linked_def tslot_def conns_held_def users_def)

lemma loop_reach_wf:
  assumes "loop_reach cs held st" and "\<forall>c k. cs c = Some k \<longrightarrow> 0 < dc_refs k"
  shows "loop_wf held st"
  using assms(1)
proof induction
  case init
  show ?case by (rule loop_start_wf[OF assms(2)])
next
  case (step held st e st')
  from loop_step_wf[OF step(4,2)] obtain t where "loop_step e st = Some t" "loop_wf (held_after e held) t" .
  with step(3) show ?case by simp
qed

section \<open>What is polled\<close>

fun polls_for :: "main_loop \<Rightarrow> nat \<Rightarrow> nat \<times> source \<Rightarrow> bool" where
  "polls_for st w (s, WatchSource i c f) =
     (case infos st i of None \<Rightarrow> False | Some nf \<Rightarrow> info_watch nf = w)"
| "polls_for st w (s, _) = False"

fun poll_entry :: "nat \<times> source \<Rightarrow> (32 word \<times> int) option" where
  "poll_entry (s, WatchSource i c f) = Some (c, f)"
| "poll_entry (s, _) = None"

lemma filter_only:
  assumes "distinct xs" and "x \<in> set xs" and "P x" and "\<And>y. y \<in> set xs \<Longrightarrow> P y \<Longrightarrow> y = x"
  shows "filter P xs = [x]"
proof -
  have "y = x" if "y \<in> set (filter P xs)" for y
    by (rule assms(4)) (use that in simp_all)
  then have "set (filter P xs) \<subseteq> {x}" by blast
  moreover have "x \<in> set (filter P xs)" using assms(2,3) by simp
  ultimately have s: "set (filter P xs) = {x}" by blast
  have "length (filter P xs) = card (set (filter P xs))"
    using distinct_card[OF distinct_filter[OF assms(1)]] by metis
  with s have "length (filter P xs) = 1" by simp
  then obtain y where "filter P xs = [y]" by (cases "filter P xs") simp_all
  with s show ?thesis by simp
qed

lemma polls_wf:
  assumes wf: "loop_wf held st"
  shows "map poll_entry (filter (polls_for st w) (sources st)) =
    (case ml_watches st w of
       None \<Rightarrow> []
     | Some dw \<Rightarrow> if dw_enabled dw then [Some (poll_condition (dw_flags dw), dw_fd dw)] else [])"
proof -
  from wf have src: "sources_wf (sources st) (next_source st)"
    and l: "watches_linked (slot (ml_watches st)) (infos st) (sources st) (next_alloc st)"
    by (simp_all add: loop_wf_def loop_core_def)
  have found: "\<exists>i c f nf. y = (info_id nf, WatchSource i c f) \<and> infos st i = Some nf \<and> info_watch nf = w
      \<and> slot (ml_watches st) w = Some (i, info_conn nf, c, f)"
    if y: "y \<in> set (sources st)" "polls_for st w y" for y
  proof -
    obtain s x where sx: "y = (s, x)" by (cases y)
    with y(2) obtain i c f where icf: "x = WatchSource i c f" by (cases x) simp_all
    with sx y(2) obtain nf where "infos st i = Some nf" "info_watch nf = w" by (cases "infos st i") simp_all
    with sx icf have p: "y = (s, WatchSource i c f)" "infos st i = Some nf" "info_watch nf = w" by simp_all
    from y(1) p(1) have src1: "(s, WatchSource i c f) \<in> set (sources st)" by simp
    with l obtain nf2 where "infos st i = Some nf2" "info_id nf2 = s" unfolding watches_linked_def by blast
    with p(2) have id: "info_id nf = s" by simp
    from l p(2,3) obtain c' f' where sl1: "slot (ml_watches st) w = Some (i, info_conn nf, c', f')" and
      "(info_id nf, WatchSource i c' f') \<in> set (sources st)" unfolding watches_linked_def by blast
    with source_unique[OF src src1] id have "c' = c" "f' = f" by auto
    with p id sl1 show ?thesis by (intro exI[of _ i] exI[of _ c] exI[of _ f] exI[of _ nf]) simp
  qed
  show ?thesis
  proof (cases "slot (ml_watches st) w")
    case None
    then have "\<not> polls_for st w y" if "y \<in> set (sources st)" for y
      using found[OF that] by (metis option.distinct(1))
    then have "filter (polls_for st w) (sources st) = []" by (simp add: filter_empty_conv)
    moreover have "\<not> dw_enabled dw" if "ml_watches st w = Some dw" for dw
      using None that loop_wfD(2)[OF wf that] by (simp add: slot_cases)
    ultimately show ?thesis by (simp split: option.split)
  next
    case (Some sl)
    then obtain dw i where dw: "ml_watches st w = Some dw" "dw_data dw = Some i"
      and sl: "sl = (i, dw_conn dw, poll_condition (dw_flags dw), dw_fd dw)"
      by (auto simp: slot_def split: option.splits)
    from l Some sl obtain nf where nf: "infos st i = Some nf" "info_watch nf = w"
      unfolding watches_linked_def by blast
    from l nf(1) obtain c f where cf: "slot (ml_watches st) (info_watch nf) = Some (i, info_conn nf, c, f)"
      "(info_id nf, WatchSource i c f) \<in> set (sources st)" unfolding watches_linked_def by blast
    let ?x = "(info_id nf, WatchSource i (poll_condition (dw_flags dw)) (dw_fd dw))"
    from cf nf Some sl have x: "?x \<in> set (sources st)" by simp
    have "filter (polls_for st w) (sources st) = [?x]"
    proof (rule filter_only[OF _ x])
      show "distinct (sources st)" using src by (simp add: sources_wf_def distinct_map)
      show "polls_for st w ?x" using nf by simp
      show "y = ?x" if y: "y \<in> set (sources st)" "polls_for st w y" for y
      proof -
        from found[OF y] obtain i' c' f' nf' where "y = (info_id nf', WatchSource i' c' f')"
          "infos st i' = Some nf'" "slot (ml_watches st) w = Some (i', info_conn nf', c', f')" by blast
        with Some sl nf(1) show ?thesis by simp
      qed
    qed
    moreover have "dw_enabled dw" using loop_wfD(2)[OF wf dw(1)] dw(2) by simp
    ultimately show ?thesis using dw(1) by simp
  qed
qed

text \<open>
  C28. Whatever libdbus and the program do, the main loop polls each enabled watch of libdbus
  by exactly one source, on its file descriptor and for its conditions, and no watch that is
  disabled or gone. The connection of a polled watch is alive.
\<close>

theorem polls_enabled_watches:
  assumes "loop_reach cs held st" and "\<forall>c k. cs c = Some k \<longrightarrow> 0 < dc_refs k"
  shows "map poll_entry (filter (polls_for st w) (sources st)) =
      (case ml_watches st w of
         None \<Rightarrow> []
       | Some dw \<Rightarrow> if dw_enabled dw then [Some (poll_condition (dw_flags dw), dw_fd dw)] else [])
    \<and> (\<forall>dw. ml_watches st w = Some dw \<longrightarrow> dw_enabled dw \<longrightarrow> conns st (dw_conn dw) \<noteq> None)"
proof -
  note wf = loop_reach_wf[OF assms]
  have "conns st (dw_conn dw) \<noteq> None" if w: "ml_watches st w = Some dw" and en: "dw_enabled dw" for dw
  proof -
    from loop_wfD(2)[OF wf w] en obtain i where "dw_data dw = Some i" by auto
    then have sl: "slot (ml_watches st) w = Some (i, dw_conn dw, poll_condition (dw_flags dw), dw_fd dw)"
      using w by (simp add: slot_cases)
    from wf have l: "watches_linked (slot (ml_watches st)) (infos st) (sources st) (next_alloc st)"
      and h: "conns_held held (infos st) (conns st)" by (simp_all add: loop_wf_def loop_core_def)
    from l sl obtain nf where nf: "infos st i = Some nf" "info_watch nf = w" unfolding watches_linked_def by blast
    from l nf(1) obtain c f where "slot (ml_watches st) (info_watch nf) = Some (i, info_conn nf, c, f)"
      unfolding watches_linked_def by blast
    with sl nf(2) have "info_conn nf = dw_conn dw" by simp
    with refs_live[OF held_clear(2)[OF h nf(1)]] show ?thesis by auto
  qed
  with polls_wf[OF wf] show ?thesis by blast
qed

text \<open>
  C27. The callbacks the main loop and libdbus make never touch a freed object, in whatever
  order they come, even when the watch or timeout that is being handled is removed meanwhile.
  (A dispatch is asked for only while its connection is alive.)
\<close>

theorem loop_callbacks_safe:
  assumes "loop_reach cs held st" and "\<forall>c k. cs c = Some k \<longrightarrow> 0 < dc_refs k" and "loop_event_ok held e st"
  shows "\<exists>st'. loop_step e st = Some st'"
  using loop_step_wf[OF loop_reach_wf[OF assms(1,2)] assms(3)] by blast

definition demo_conn :: dbus_conn where
  "demo_conn = \<lparr>dc_refs = 1, dc_connected = True, dc_queue = 1, dc_private = False, dc_exits = True, dc_hooked = False\<rparr>"

definition demo_conns :: "nat \<Rightarrow> dbus_conn option" where
  "demo_conns = [1 \<mapsto> demo_conn]"

definition demo_dbus_watch :: dbus_watch where
  "demo_dbus_watch = \<lparr>dw_enabled = True, dw_fd = 5, dw_flags = 1, dw_conn = 1, dw_data = None\<rparr>"

definition demo_loop :: main_loop where
  "demo_loop =
     (loop_start demo_conns)\<lparr>next_alloc := 1, infos := [0 \<mapsto> \<lparr>info_id = 1, info_watch = 0, info_conn = 1\<rparr>],
        conns := [1 \<mapsto> demo_conn\<lparr>dc_refs := 2\<rparr>], ml_watches := [0 \<mapsto> demo_dbus_watch\<lparr>dw_data := Some 0\<rparr>],
        sources := [(1, WatchSource 0 25 5)], next_source := 2\<rparr>"

lemma demo_refs_pos: "\<forall>c k. demo_conns c = Some k \<longrightarrow> 0 < dc_refs k"
  by (simp add: demo_conns_def demo_conn_def)

lemma demo_loop_reach: "loop_reach demo_conns (refs demo_conns) demo_loop"
proof -
  have "loop_step (LibCall (AddWatch 0 demo_dbus_watch)) (loop_start demo_conns) = Some demo_loop"
    by (simp add: loop_step_def lib_step_def add_watch_def dbus_connection_ref_def dbus_watch_set_data_def
        add_source_def loop_start_def demo_loop_def demo_dbus_watch_def demo_conns_def demo_conn_def
        poll_condition_def Let_def numeral_2_eq_2)
  moreover have "loop_event_ok (refs demo_conns) (LibCall (AddWatch 0 demo_dbus_watch)) (loop_start demo_conns)"
    by (simp add: loop_event_ok_def lib_ok_def loop_start_def demo_dbus_watch_def demo_conns_def)
  ultimately have "loop_reach demo_conns (held_after (LibCall (AddWatch 0 demo_dbus_watch)) (refs demo_conns)) demo_loop"
    using loop_reach.step loop_reach.init by blast
  then show ?thesis by (simp add: held_after_def)
qed

theorem polls_enabled_watches_witness:
  "map poll_entry (filter (polls_for demo_loop 0) (sources demo_loop)) = [Some (25, 5)]"
  using polls_enabled_watches[OF demo_loop_reach demo_refs_pos, of 0]
  by (simp add: demo_loop_def demo_dbus_watch_def poll_condition_def)

theorem loop_callbacks_safe_witness:
  "\<exists>st'. loop_step (WatchReady 1 1 [ToggleWatch 0 False]) demo_loop = Some st'"
proof (rule loop_callbacks_safe[OF demo_loop_reach demo_refs_pos])
  show "loop_event_ok (refs demo_conns) (WatchReady 1 1 [ToggleWatch 0 False]) demo_loop"
    by (simp add: loop_event_ok_def demo_loop_def lib_ok_def lib_step_def watch_toggled_def
        remove_watch_def dbus_watch_set_data_def watch_info_free_def dbus_connection_unref_def
        g_source_remove_def demo_dbus_watch_def demo_conn_def Let_def)
qed

section \<open>Setting up\<close>

text \<open>
  That condition is needed: \<open>queue_dispatch\<close> takes no reference. A connection that has
  messages when it is set up, and is released before the main loop runs, is read after it was
  freed.
\<close>

lemma dispatch_after_release:
  assumes "loop_core held st" and "conns st c = Some k" and "dc_refs k = 1" and "0 < dc_queue k"
  shows "\<exists>st1 st2 s. g_dbus_setup_bus (Some c) None error result [] st = Some (Some c, st1)
    \<and> dbus_connection_unref c st1 = Some st2 \<and> (s, DispatchSource c) \<in> set (sources st2)
    \<and> loop_step (DispatchIdle s oom) st2 = None"
proof -
  let ?s = "next_source st" and ?k = "k\<lparr>dc_hooked := True\<rparr>"
  let ?st1 = "st\<lparr>conns := (conns st)(c \<mapsto> ?k), sources := sources st @ [(?s, DispatchSource c)],
    next_source := Suc ?s\<rparr>"
  let ?st2 = "?st1\<lparr>conns := (conns ?st1)(c := None),
    unclosed := unclosed st + (if dc_private k \<and> dc_connected k then 1 else 0)\<rparr>"
  have "g_dbus_setup_bus (Some c) None error result [] st = Some (Some c, ?st1)"
    using assms(2,4)
    by (simp add: g_dbus_setup_bus_def setup_bus_def setup_dbus_with_main_loop_def queue_dispatch_def
        add_source_def)
  moreover have "dbus_connection_unref c ?st1 = Some ?st2"
    using assms(3) by (simp add: dbus_connection_unref_def)
  moreover have "map_of (sources st) ?s = None"
    using assms(1) by (force simp: loop_core_def sources_wf_def map_of_eq_None_iff)
  then have "loop_step (DispatchIdle ?s oom) ?st2 = None"
    by (simp add: loop_step_def map_add_def message_dispatch_def dbus_connection_ref_def g_source_remove_def)
  ultimately show ?thesis by (intro exI[of _ ?st1] exI[of _ ?st2] exI[of _ ?s]) simp
qed

lemma setup_bus_cases:
  assumes "loop_wf held st" and "conns st c = Some k"
    and "lib_run_ok as (st\<lparr>conns := (conns st)(c \<mapsto> k\<lparr>dc_hooked := True\<rparr>)\<rparr>)" and "0 < held c"
  shows "if name = None \<or> result = 1
    then (\<exists>st'. g_dbus_setup_bus (Some c) name error result as st = Some (Some c, st') \<and> loop_wf held st'
            \<and> (\<forall>k'. conns st' c = Some k' \<longrightarrow> 0 < dc_queue k' \<longrightarrow> (\<exists>s. (s, DispatchSource c) \<in> set (sources st'))))
    else (\<exists>u. g_dbus_setup_bus (Some c) name error result as st =
            Some (None, st\<lparr>conns := release_conn c (conns st), unclosed := u\<rparr>)
          \<and> g_dbus_setup_private (Some c) name error result as st =
            Some (None, st\<lparr>conns := release_conn c (conns st), unclosed := u\<rparr>)
          \<and> (dc_refs k = 1 \<and> dc_private k \<and> dc_connected k \<longrightarrow> u = Suc (unclosed st)))"
proof (cases "name = None \<or> result = 1")
  case True
  let ?k = "k\<lparr>dc_hooked := True\<rparr>" and ?st1 = "st\<lparr>conns := (conns st)(c \<mapsto> k\<lparr>dc_hooked := True\<rparr>)\<rparr>"
  from assms(1) have "conns_held held (infos st) (conns st)" by (simp add: loop_wf_def loop_core_def)
  from held_same[OF this assms(2), of ?k] have "loop_wf held ?st1"
    using assms(1) by (simp add: loop_wf_def loop_core_def)
  from lib_run_wf[OF this assms(3)] obtain st2 where st2: "lib_run as ?st1 = Some st2" "loop_wf held st2" .
  from st2(2) have "conns_held held (infos st2) (conns st2)" by (simp add: loop_wf_def loop_core_def)
  from held_less(2)[where held = held, OF this assms(4)] obtain k2 where k2: "conns st2 c = Some k2" by blast
  let ?st3 = "queue_dispatch c (0 < dc_queue k2) st2"
  have "setup_bus c name error result as st = Some (True, ?st3)"
    using True assms(2) st2(1) k2
    by (elim disjE) (simp_all add: setup_bus_def g_dbus_request_name_def setup_dbus_with_main_loop_def)
  then have "g_dbus_setup_bus (Some c) name error result as st = Some (Some c, ?st3)"
    by (simp add: g_dbus_setup_bus_def)
  moreover have "loop_wf held ?st3" by (rule queue_dispatch_wf[OF st2(2)])
  moreover have "\<exists>s. (s, DispatchSource c) \<in> set (sources ?st3)"
    if "conns ?st3 c = Some k'" "0 < dc_queue k'" for k'
    using that k2 by (auto simp: queue_dispatch_def add_source_def)
  ultimately show ?thesis unfolding if_P[OF True] by (intro exI[of _ ?st3]) blast
next
  case False
  then have no: "setup_bus c name error result as st = Some (False, st)"
    by (auto simp: setup_bus_def g_dbus_request_name_def)
  define u where "u = unclosed st + (if dc_refs k \<le> 1 \<and> dc_private k \<and> dc_connected k then 1 else 0)"
  have unref: "dbus_connection_unref c st = Some (st\<lparr>conns := release_conn c (conns st), unclosed := u\<rparr>)"
    using assms(2) by (cases "1 < dc_refs k") (simp_all add: dbus_connection_unref_def release_conn_def u_def)
  have "g_dbus_setup_bus (Some c) name error result as st =
      Some (None, st\<lparr>conns := release_conn c (conns st), unclosed := u\<rparr>)"
    "g_dbus_setup_private (Some c) name error result as st =
      Some (None, st\<lparr>conns := release_conn c (conns st), unclosed := u\<rparr>)"
    by (simp_all add: g_dbus_setup_bus_def g_dbus_setup_private_def no unref)
  moreover have "dc_refs k = 1 \<and> dc_private k \<and> dc_connected k \<longrightarrow> u = Suc (unclosed st)" by (simp add: u_def)
  ultimately show ?thesis unfolding if_not_P[OF False] by (intro exI[of _ u]) blast
qed

text \<open>
  A set-up that gets a connection succeeds exactly when no name is asked for or pold
  becomes its primary owner; then the connection is in the main loop and its messages will be
  dispatched. Otherwise the reference is given back and nothing else happens; a private
  connection is dropped open that way, which libdbus forbids.
\<close>

lemma setup_bus_outcome:
  assumes "loop_wf held st" and "conns st c = Some k"
    and "lib_run_ok as (st\<lparr>conns := (conns st)(c \<mapsto> k\<lparr>dc_hooked := True\<rparr>)\<rparr>)" and "0 < held c"
  shows "if name = None \<or> result = 1
    then (\<exists>st'. g_dbus_setup_bus (Some c) name error result as st = Some (Some c, st') \<and> loop_wf held st'
            \<and> (\<forall>k'. conns st' c = Some k' \<longrightarrow> 0 < dc_queue k' \<longrightarrow> (\<exists>s. (s, DispatchSource c) \<in> set (sources st'))))
    else (\<exists>u. g_dbus_setup_bus (Some c) name error result as st =
            Some (None, st\<lparr>conns := release_conn c (conns st), unclosed := u\<rparr>)
          \<and> g_dbus_setup_private (Some c) name error result as st =
            Some (None, st\<lparr>conns := release_conn c (conns st), unclosed := u\<rparr>)
          \<and> (dc_refs k = 1 \<and> dc_private k \<and> dc_connected k \<longrightarrow> u = Suc (unclosed st)))"
  by (rule setup_bus_cases[OF assms])

end
