(* ===== verification/Pold_Main_Props.thy ===== *)
theory Pold_Main_Props
  imports Pold_Main Session_Props Manager_Props Gdbus_Mainloop_Props
begin

text \<open>
  The whole daemon: what is registered when it runs, in which state its components are, and
  what is left when it exits.
\<close>

section \<open>The two interfaces on the bus\<close>

definition client_interface :: "nat \<Rightarrow> string \<Rightarrow> method_table list \<Rightarrow> interface_data" where
  "client_interface i name ms =
     \<lparr>if_ref = i, if_name = name, if_methods = ms, if_signals = [], if_properties = None, if_pending = [],
      if_user_data = ClientData 0, if_destroy = None\<rparr>"

definition pold_object :: "nat \<Rightarrow> 32 word \<Rightarrow> interface_data list \<Rightarrow> generic_data" where
  "pold_object c rc fs =
     \<lparr>g_refcount = rc, g_conn = c, g_path = ''/de/bmw/pold1'',
      g_interfaces = (client_interface 0 introspectable_interface introspect_methods)
        \<lparr>if_user_data := ObjectData 0\<rparr> # fs,
      g_objects = [], g_added = [], g_removed = [], g_process = False, g_pending_prop = False,
      g_introspect = None, g_parent = None\<rparr>"

definition with_pold :: "nat \<Rightarrow> 32 word \<Rightarrow> interface_data list \<Rightarrow> obj_state" where
  "with_pold c rc fs =
     obj_start\<lparr>heap := [0 \<mapsto> pold_object c rc fs], next_object := 1, ticks := 1,
       paths := [((c, ''/de/bmw/pold1''), 0)], next_interface := 1 + length fs\<rparr>"

abbreviation (input) manager_interface :: interface_data where
  "manager_interface \<equiv> client_interface 1 ''de.bmw.pold.Manager1'' pold_manager_methods"
abbreviation (input) notification_interface :: interface_data where
  "notification_interface \<equiv> client_interface 2 ''net.connman.Notification'' notification_methods"

lemma invalidate_alone:
  "(\<forall>q. length q < length p \<longrightarrow> path_data c q st = None) \<Longrightarrow>
     invalidate_parent_data c p st = Some (None, st)"
proof (induction c p st rule: invalidate_parent_data.induct)
  case (1 c p st)
  show ?case
  proof (cases "parent_path p")
    case None
    then show ?thesis by (subst invalidate_parent_data.simps) simp
  next
    case (Some pp)
    note len = parent_path_shorter[OF Some]
    then have "path_data c pp st = None" using 1(2) by blast
    moreover from 1(1)[OF Some refl] 1(2) len have "invalidate_parent_data c pp st = Some (None, st)"
      by (meson less_trans)
    ultimately show ?thesis using Some by (subst invalidate_parent_data.simps) simp
  qed
qed

lemma visible_pold:
  "visible 0 (client_interface i n pold_manager_methods)" "visible 0 (client_interface i n notification_methods)"
  "visible 0 (client_interface i n introspect_methods)"
  "visible 0 ((client_interface i n introspect_methods)\<lparr>if_user_data := u\<rparr>)"
  by (simp_all add: visible_def client_interface_def pold_manager_methods_def notification_methods_def
      introspect_methods_def check_experimental_def flag_set_def)

lemma start_frame [simp]:
  "global_flags obj_start = 0" "security_tab obj_start = None" "pending_data obj_start = []"
  "next_object obj_start = 0" "ticks obj_start = 0" "next_interface obj_start = 0" "paths obj_start = []"
  "heap obj_start = (\<lambda>_. None)"
  by (simp_all add: obj_start_def)

lemma register_first:
  assumes vis: "visible 0 (client_interface 1 name ms)" and name: "name \<noteq> introspectable_interface"
    and ok: "\<not> cannot_register E 0"
  shows "g_dbus_register_interface E c ''/de/bmw/pold1'' name ms [] None (ClientData 0) None obj_start
    = Some (True, with_pold c 1 [client_interface 1 name ms])"
proof -
  let ?p = "''/de/bmw/pold1''"
  let ?d = "(pold_object c 1 [])\<lparr>g_interfaces := [], g_introspect := Some (doctype E @ ''<node></node>'')\<rparr>"
  let ?st = "obj_start\<lparr>next_object := 1, ticks := 1, heap := [0 \<mapsto> ?d], paths := [((c, ?p), 0)]\<rparr>"
  let ?st1 = "obj_start\<lparr>heap := [0 \<mapsto> (pold_object c 1 [])\<lparr>g_introspect := Some (doctype E @ ''<node></node>'')\<rparr>],
    next_object := 1, ticks := 1, paths := [((c, ?p), 0)], next_interface := 1\<rparr>"
  have inv: "invalidate_parent_data c ?p ?st = Some (None, ?st)"
    by (rule invalidate_alone) (auto simp: path_data_def)
  have f0: "visible 0 \<lparr>if_ref = 0, if_name = introspectable_interface, if_methods = introspect_methods,
      if_signals = [], if_properties = None, if_pending = [], if_user_data = ObjectData 0, if_destroy = None\<rparr>"
    using visible_pold(4)[where i = 0 and n = introspectable_interface and u = "ObjectData 0"] by (simp add: client_interface_def)
  have add0: "add_interface 0 introspectable_interface introspect_methods [] None (ObjectData 0) None ?st = Some (True, ?st1)"
    using f0 by (simp add: add_interface_def pold_object_def client_interface_def put_data_def Let_def)
  have d: "?d = \<lparr>g_refcount = 1, g_conn = c, g_path = ?p, g_interfaces = [], g_objects = [], g_added = [],
      g_removed = [], g_process = False, g_pending_prop = False,
      g_introspect = Some (doctype E @ ''<node></node>''), g_parent = None\<rparr>"
    by (simp add: pold_object_def)
  have ref: "object_path_ref E c ?p obj_start = Some (Some 0, ?st1)"
    using inv add0 ok unfolding d
    by (simp add: object_path_ref_def path_data_def put_data_def gh_replace_def Let_def)
  have f1: "visible 0 \<lparr>if_ref = 1, if_name = name, if_methods = ms, if_signals = [], if_properties = None,
      if_pending = [], if_user_data = ClientData 0, if_destroy = None\<rparr>"
    using vis by (simp add: client_interface_def)
  have "find_interface (g_interfaces (pold_object c 1 [])) (Some name) = None"
    using name by (simp add: find_interface_def pold_object_def client_interface_def)
  with ref f1 show ?thesis
    by (simp add: g_dbus_register_interface_def add_interface_def clear_introspect_def put_data_def Let_def)
      (simp add: with_pold_def pold_object_def client_interface_def obj_start_def)
qed

lemma register_second:
  assumes vis: "visible 0 (client_interface 2 name ms)"
    and name: "name \<noteq> introspectable_interface" "name \<noteq> if_name f"
  shows "g_dbus_register_interface E c ''/de/bmw/pold1'' name ms [] None (ClientData 0) None (with_pold c 1 [f])
    = Some (True, with_pold c 2 [f, client_interface 2 name ms])"
proof -
  have f1: "visible 0 \<lparr>if_ref = Suc (Suc 0), if_name = name, if_methods = ms, if_signals = [], if_properties = None,
      if_pending = [], if_user_data = ClientData 0, if_destroy = None\<rparr>"
    using vis by (simp add: client_interface_def numeral_2_eq_2)
  have "find_interface (g_interfaces (pold_object c 2 [f])) (Some name) = None"
    using name by (simp add: find_interface_def pold_object_def client_interface_def)
  moreover have "object_path_ref E c ''/de/bmw/pold1'' (with_pold c 1 [f]) = Some (Some 0, with_pold c 2 [f])"
    by (simp add: object_path_ref_def path_data_def with_pold_def put_data_def pold_object_def)
  moreover have "g_interfaces (pold_object c 2 [f]) @ [g] = g_interfaces (pold_object c 2 [f, g])" for g
    by (simp add: pold_object_def)
  moreover have "g_parent (pold_object c 2 [f]) = None" by (simp add: pold_object_def)
  moreover have "heap (with_pold c 2 [f]) 0 = Some (pold_object c 2 [f])"
    "next_interface (with_pold c 2 [f]) = Suc (Suc 0)" "global_flags (with_pold c 2 [f]) = 0"
    by (simp_all add: with_pold_def)
  ultimately show ?thesis using f1
    by (simp add: g_dbus_register_interface_def add_interface_def clear_introspect_def put_data_def Let_def)
      (simp add: with_pold_def pold_object_def client_interface_def numeral_2_eq_2 obj_start_def)
qed

section \<open>The daemon when its main loop starts\<close>

lemma setup_name:
  "g_dbus_setup_bus (Some c) (Some n) False r as st = Some (Some c', l) \<Longrightarrow> r = 1 \<and> c' = c"
  by (auto simp: g_dbus_setup_bus_def setup_bus_def g_dbus_request_name_def bind_eq_Some_conv
      split: if_splits)

lemma init_dbus_True:
  assumes "init_dbus M d = Some (True, d')" and "d_conn d = None"
  obtains c l where "me_bus M = Some c" "me_name_result M = 1"
    "g_dbus_setup_bus (Some c) (Some ''de.bmw.pold1'') False 1 (me_bus_actions M) (d_loop d) = Some (Some c, l)"
    "d' = d\<lparr>d_conn := Some c, d_loop := l, d_names := d_names d @ [''de.bmw.pold1'']\<rparr>"
proof -
  from assms obtain c' l where s: "g_dbus_setup_bus (me_bus M) (Some ''de.bmw.pold1'') False (me_name_result M)
      (me_bus_actions M) (d_loop d) = Some (Some c', l)"
    and d': "d' = d\<lparr>d_conn := Some c', d_loop := l, d_names := d_names d @ [''de.bmw.pold1'']\<rparr>"
    by (auto simp: init_dbus_def split: option.splits prod.splits)
  from s obtain c where c: "me_bus M = Some c" by (cases "me_bus M") (simp_all add: g_dbus_setup_bus_def)
  from setup_name s c have n: "me_name_result M = 1" "c' = c" by metis+
  show ?thesis by (rule that[OF c n(1)]) (use s d' c n in simp_all)
qed

text \<open>The steps after the policies are loaded, on fresh objects.\<close>

lemma start_manager_eq:
  assumes "d_objects d = obj_start"
  shows "start_manager M c d =
    (if cannot_register (me_objects M) 0
     then Some (Failed OutPolicy (logged (pold_log_error ''Error registering manager in D-Bus'')
            (d\<lparr>d_objects := obj_start\<lparr>next_object := 1, ticks := 1\<rparr>,
               d_manager := snd (pold_manager_init (me_unique_name M) False (d_manager d))\<rparr>)))
     else start_session M c
            (d\<lparr>d_manager := snd (pold_manager_init (me_unique_name M) True (d_manager d)),
               d_objects := with_pold c 2 [manager_interface, notification_interface]\<rparr>))"
proof (cases "cannot_register (me_objects M) 0")
  case True
  have "g_dbus_register_interface (me_objects M) c POLD_MANAGER_PATH POLD_MANAGER_INTERFACE
      pold_manager_methods [] None (ClientData 0) None obj_start
    = Some (False, obj_start\<lparr>next_object := 1, ticks := 1\<rparr>)"
    using True
    by (simp add: g_dbus_register_interface_def object_path_ref_def path_data_def put_data_def Let_def)
  with True assms show ?thesis by (simp add: start_manager_def pold_manager_init_def)
next
  case False
  have n: "''de.bmw.pold.Manager1'' \<noteq> introspectable_interface" "''net.connman.Notification'' \<noteq> introspectable_interface"
    "''net.connman.Notification'' \<noteq> if_name manager_interface"
    by (simp_all add: client_interface_def)
  from register_first[OF visible_pold(1) n(1) False] assms False
    register_second[OF visible_pold(2) n(2,3), of "me_objects M" c]
  show ?thesis
    by (simp add: start_manager_def pold_manager_init_def start_notification_def
        pold_connman_notification_init_def)
qed

text \<open>The parts of the state a step of the start does not touch.\<close>

lemma frame_daemon [simp]:
  "d_conn (logged f d) = d_conn d" "d_loop (logged f d) = d_loop d" "d_names (logged f d) = d_names d"
  "d_http (logged f d) = d_http d" "d_objects (logged f d) = d_objects d"
  "d_manager (logged f d) = d_manager d" "d_session (logged f d) = d_session d"
  "d_signals (logged f d) = d_signals d" "d_shandlers (logged f d) = d_shandlers d"
  "d_glib_loop (logged f d) = d_glib_loop d" "d_next_signal (logged f d) = d_next_signal d"
  "d_quit (logged f d) = d_quit d"
  by (simp_all add: logged_def)

lemma frame_signals [simp]:
  "d_conn (install_signal_handlers d) = d_conn d" "d_loop (install_signal_handlers d) = d_loop d"
  "d_names (install_signal_handlers d) = d_names d" "d_http (install_signal_handlers d) = d_http d"
  "d_objects (install_signal_handlers d) = d_objects d" "d_manager (install_signal_handlers d) = d_manager d"
  "d_session (install_signal_handlers d) = d_session d" "d_glib_loop (install_signal_handlers d) = d_glib_loop d"
  "d_quit (install_signal_handlers d) = d_quit d"
  by (simp_all add: install_signal_handlers_def g_unix_signal_add_def Let_def)

lemma frame_start [simp]:
  "d_conn (daemon_start M cs b) = None" "d_loop (daemon_start M cs b) = loop_start cs"
  "d_names (daemon_start M cs b) = []" "d_objects (daemon_start M cs b) = obj_start"
  "d_session (daemon_start M cs b) = session_start" "d_signals (daemon_start M cs b) = []"
  "d_glib_loop (daemon_start M cs b) = False" "d_next_signal (daemon_start M cs b) = 1"
  "\<not> d_quit (daemon_start M cs b)"
  "d_manager (daemon_start M cs b) = \<lparr>store = policy_start, bus = b, mdisk = me_disk M, unique_name = None,
     waiting = [], agent_watches = []\<rparr>"
  by (simp_all add: daemon_start_def)

lemma http_init_fresh:
  "pold_http_client_init soup handler u p = (ok, h) \<Longrightarrow> \<not> credentials_freed h"
  by (auto simp: pold_http_client_init_def Let_def split: if_splits)

lemma startedE:
  assumes "pold_start M (daemon_start M cs b) = Some (Started d)"
  obtains c l st s k where "me_bus M = Some c" "me_name_result M = 1"
    "g_dbus_setup_bus (Some c) (Some ''de.bmw.pold1'') False 1 (me_bus_actions M) (loop_start cs) = Some (Some c, l)"
    "pold_policy_init (env_json (me_env M)) (env_dir (me_env M)) (me_disk M) policy_start = Some (k, st)" "0 \<le> k"
    "d_manager d = \<lparr>store = st, bus = b\<lparr>object_paths := []\<rparr>, mdisk = me_disk M, unique_name = me_unique_name M,
       waiting = [], agent_watches = []\<rparr>"
    "d_objects d = with_pold c 2 [manager_interface, notification_interface]"
    "pold_session_init (me_session M) c (session_start\<lparr>manager_connection := Some c\<rparr>) = Some s"
    "d_session d = s" "d_conn d = Some c" "d_loop d = l" "d_names d = [''de.bmw.pold1'']" "d_glib_loop d"
    "d_signals d = [(1, 2), (2, 15), (3, 1), (4, 12)]" "d_shandlers d = [1, 2, 3, 4]"
    "map_option credentials_freed (d_http d) = Some False" "map_option soup_session (d_http d) = Some True" "\<not> d_quit d"
proof -
  obtain dbg where o: "me_options M = Some dbg"
    using assms by (cases "me_options M") (simp_all add: pold_start_def parse_options_def)
  let ?d1 = "logged (pold_log_info ''Starting Policy Daemon'') (logged (pold_log_set_debug dbg) (daemon_start M cs b))"
  from assms o obtain d2 where d2: "init_dbus M ?d1 = Some (True, d2)"
    by (auto simp: pold_start_def parse_options_def Let_def split: option.splits prod.splits bool.splits)
  obtain c l where c: "me_bus M = Some c" "me_name_result M = 1"
    "g_dbus_setup_bus (Some c) (Some ''de.bmw.pold1'') False 1 (me_bus_actions M) (loop_start cs) = Some (Some c, l)"
    "d2 = ?d1\<lparr>d_conn := Some c, d_loop := l, d_names := [''de.bmw.pold1'']\<rparr>"
    by (rule init_dbus_True[OF d2]) simp_all
  obtain ok h where h: "pold_http_client_init (me_soup M) (me_soup_handler M) ''someuser'' ''password'' = (ok, h)"
    by fastforce
  have ok: ok and sp: "start_policy M c (d2\<lparr>d_http := Some h\<rparr>) = Some (Started d)"
    using assms o d2 h c(4) by (simp_all add: pold_start_def parse_options_def Let_def split: if_splits)
  let ?d3 = "install_signal_handlers (d2\<lparr>d_http := Some h, d_glib_loop := True\<rparr>)"
  have m3: "d_manager ?d3 = \<lparr>store = policy_start, bus = b, mdisk = me_disk M, unique_name = None, waiting = [],
      agent_watches = []\<rparr>" by (simp add: c(4))
  have m2: "d_manager d2 = \<lparr>store = policy_start, bus = b, mdisk = me_disk M, unique_name = None, waiting = [],
      agent_watches = []\<rparr>" by (simp add: c(4))
  obtain k st where k: "pold_policy_init (env_json (me_env M)) (env_dir (me_env M)) (me_disk M) policy_start = Some (k, st)"
    using sp by (auto simp: start_policy_def m3 m2 Let_def split: option.splits)
  let ?d4 = "?d3\<lparr>d_manager := (d_manager ?d3)\<lparr>store := st\<rparr>\<rparr>"
  have k0: "\<not> k < 0" and sm: "start_manager M c ?d4 = Some (Started d)"
    using sp k by (simp_all add: start_policy_def m3 m2 Let_def split: if_splits)
  have "d_objects ?d4 = obj_start" by (simp add: c(4))
  from start_manager_eq[OF this, of M c] sm
  have ss: "start_session M c (?d4\<lparr>d_manager := snd (pold_manager_init (me_unique_name M) True (d_manager ?d4)),
      d_objects := with_pold c 2 [manager_interface, notification_interface]\<rparr>) = Some (Started d)"
    by (simp split: if_splits)
  have s4: "d_session d2 = session_start" by (simp add: c(4))
  from ss obtain s where s: "pold_session_init (me_session M) c (session_start\<lparr>manager_connection := Some c\<rparr>) = Some s"
    "d = logged (pold_log_info ''Entering main loop'')
      (?d4\<lparr>d_manager := snd (pold_manager_init (me_unique_name M) True (d_manager ?d4)),
        d_objects := with_pold c 2 [manager_interface, notification_interface], d_session := s\<rparr>)"
    by (auto simp: start_session_def pold_connman_manager_init_def s4)
  have sg: "d_signals ?d3 = [(1, 2), (2, 15), (3, 1), (4, 12)]" "d_shandlers ?d3 = [1, 2, 3, 4]"
    by (simp_all add: install_signal_handlers_def g_unix_signal_add_def c(4) Let_def)
  have hf: "\<not> credentials_freed h" "soup_session h"
    using http_init_fresh[OF h] h ok by (auto simp: pold_http_client_init_def Let_def split: if_splits)
  show ?thesis
    by (rule that[OF c(1-3) k _ _ _ s(1)])
      (use k0 sg hf in \<open>simp_all add: s(2) m3 c(4) pold_manager_init_def\<close>)
qed

section \<open>What is served\<close>

definition pold_calls :: "(string \<times> string \<times> string \<times> nat) list" where
  "pold_calls =
     [(''de.bmw.pold.Manager1'', ''GetPolicyConfig'', ''s'', 0),
      (''de.bmw.pold.Manager1'', ''RegisterAgent'', ''o'', 1),
      (''de.bmw.pold.Manager1'', ''UnregisterAgent'', ''o'', 2),
      (''net.connman.Notification'', ''Release'', [], 3),
      (''net.connman.Notification'', ''Update'', ''a{sv}'', 4)]"

lemma args_one: "arg_signature a \<noteq> [] \<Longrightarrow> g_dbus_args_have_signature [a] sg \<longleftrightarrow> sg = arg_signature a"
  using args_have_signature_concat[of "[a]"] by simp

lemma args_none: "g_dbus_args_have_signature [] sg \<longleftrightarrow> sg = []"
  by (simp add: g_dbus_args_have_signature_def)

lemma no_privilege:
  "check_privilege E c msg m u (with_pold a rc fs) = Some (False, with_pold a rc fs)"
  by (simp add: check_privilege_def with_pold_def)

lemma with_pold_data [simp]:
  "heap (with_pold c rc fs) 0 = Some (pold_object c rc fs)" "global_flags (with_pold c rc fs) = 0"
  "path_data c ''/de/bmw/pold1'' (with_pold c rc fs) = Some 0" "pending_data (with_pold c rc fs) = []"
  by (simp_all add: with_pold_def path_data_def)

end
