(* ===== verification/Pold_Main_Run.thy ===== *)
theory Pold_Main_Run
  imports Pold_Main_Props
begin

text \<open>
  The daemon from its start to its exit: the events of its main loop are those of the components,
  in any order, until a signal ends it.
\<close>

section \<open>The session while the daemon runs\<close>

text \<open>The watch of \<open>session.c\<close>, with the question about the owner under way or answered.\<close>

definition answered_watches :: "nat \<Rightarrow> watch_state" where
  "answered_watches c =
     (session_watches c)\<lparr>listeners := [(new_listener 0 c ''net.connman'')\<lparr>callbacks := [first_callback\<lparr>cb_data := None\<rparr>]\<rparr>],
        services := (\<lambda>_. None)\<rparr>"

definition session_ok :: "nat \<Rightarrow> connman_session \<Rightarrow> bool" where
  "session_ok c s \<longleftrightarrow> (\<exists>ks. watches s = (session_watches c)\<lparr>calls := ks\<rparr> \<or> watches s = (answered_watches c)\<lparr>calls := ks\<rparr>)
     \<and> watch_id s = 1 \<and> manager_connection s = Some c \<and> settings_state s = NullPtr
     \<and> (\<exists>p. session_path s = g_strdup p)"

datatype connman_event =
    OwnerChanged string string
  | OwnerReply "string option"
  | Call session_event

definition connman_step :: "session_env \<Rightarrow> nat \<Rightarrow> connman_event \<Rightarrow> connman_session \<Rightarrow> connman_session option" where
  "connman_step E c e s =
     (case e of
        OwnerChanged old new \<Rightarrow>
          after_watch E (message_filter (watch_answers E) c True (owner_signal old new) (watches s)) s
      | OwnerReply r \<Rightarrow> after_watch E (service_reply r 0 (watches s)) s
      | Call e \<Rightarrow> session_step E e s)"

text \<open>The owner is told once; the functions of the watch are called by the watch only.\<close>

definition connman_event_ok :: "connman_event \<Rightarrow> connman_session \<Rightarrow> bool" where
  "connman_event_ok e s =
     (case e of
        OwnerChanged old new \<Rightarrow> True
      | OwnerReply r \<Rightarrow> services (watches s) 0 \<noteq> None
      | Call e \<Rightarrow> e \<noteq> Appears \<and> e \<noteq> Disappears \<and> session_event_ok e s)"

lemma create_session_frame:
  obtains s' where "pold_connman_manager_create_session E s = Some s'" "watches s' = watches s"
    "watch_id s' = watch_id s" "manager_connection s' = manager_connection s"
    "settings_state s' = settings_state s" "session_path s' = session_path s"
  by (cases "create_outcome E (attempts s)"; cases "manager_connection s")
    (simp_all add: pold_connman_manager_create_session_def create_session_body_eq Let_def)

lemma run_calls_frame:
  obtains s' where "run_calls E ks s = Some s'" "watches s' = watches s"
    "watch_id s' = watch_id s" "manager_connection s' = manager_connection s"
    "settings_state s' = settings_state s" "session_path s' = session_path s"
proof -
  have "\<exists>s'. run_calls E ks s = Some s' \<and> watches s' = watches s \<and> watch_id s' = watch_id s
    \<and> manager_connection s' = manager_connection s \<and> settings_state s' = settings_state s
    \<and> session_path s' = session_path s"
  proof (induction ks arbitrary: s)
    case (Cons k ks)
    show ?case
    proof (cases "\<exists>u. k = ConnCalled appeared_fn u")
      case True
      from create_session_frame[of E s] obtain s1 where s1: "pold_connman_manager_create_session E s = Some s1"
        "watches s1 = watches s" "watch_id s1 = watch_id s" "manager_connection s1 = manager_connection s"
        "settings_state s1 = settings_state s" "session_path s1 = session_path s" .
      with True Cons.IH[of s1] show ?thesis by (auto simp: connman_appeared_def)
    next
      case False
      with Cons.IH[of s] show ?thesis
        by (cases k) (auto simp: connman_disappeared_def)
    qed
  qed simp
  then show ?thesis using that by blast
qed

lemma after_watch_ok:
  assumes "w = (session_watches c)\<lparr>calls := ks\<rparr> \<or> w = (answered_watches c)\<lparr>calls := ks\<rparr>" and "session_ok c s"
  obtains s' where "after_watch E (Some w) s = Some s'" "session_ok c s'"
proof -
  from run_calls_frame[of E "drop (length (calls (watches s))) (calls w)" "s\<lparr>watches := w\<rparr>"] obtain s' where
    s': "run_calls E (drop (length (calls (watches s))) (calls w)) (s\<lparr>watches := w\<rparr>) = Some s'" "watches s' = w"
    "watch_id s' = watch_id s" "manager_connection s' = manager_connection s"
    "settings_state s' = settings_state s" "session_path s' = session_path s"
    by (metis connman_session.select_convs(1-6) connman_session.surjective connman_session.update_convs(6))
  have "session_ok c s'" unfolding session_ok_def s'(2-) using assms by (auto simp: session_ok_def)
  then show ?thesis using that s'(1) by (simp add: after_watch_def)
qed

lemma owner_changed_ok:
  assumes "session_ok c s"
  shows "\<exists>ks. message_filter E c True (owner_signal old new) (watches s) = Some ((session_watches c)\<lparr>calls := ks\<rparr>)
    \<or> message_filter E c True (owner_signal old new) (watches s) = Some ((answered_watches c)\<lparr>calls := ks\<rparr>)"
proof -
  let ?a = "(new_listener 0 c ''net.connman'')\<lparr>callbacks := [first_callback\<lparr>cb_data := None\<rparr>]\<rparr>"
  have m: "matches c (owner_signal old new) ?a = Some True"
    by (simp add: matches_def owner_signal_def field_matches_def first_string_def new_listener_def)
  have args: "sig_sender (owner_signal old new) \<noteq> None"
    "sig_args (owner_signal old new) = [Some ''net.connman'', Some old, Some new]"
    by (simp_all add: owner_signal_def)
  from assms obtain ks where
    "watches s = (session_watches c)\<lparr>calls := ks\<rparr> \<or> watches s = (answered_watches c)\<lparr>calls := ks\<rparr>"
    by (auto simp: session_ok_def)
  then show ?thesis
  proof
    assume w: "watches s = (session_watches c)\<lparr>calls := ks\<rparr>"
    have l: "listeners (watches s) = [] @ connman_listener c # []" by (simp add: w session_watches_def)
    have "message_filter E c True (owner_signal old new) (watches s) =
        Some ((watches s)\<lparr>calls := calls (watches s) @ concat (map (name_calls new) (callbacks (connman_listener c)))\<rparr>)"
      by (rule known_name_changes[OF _ l connman_listener_matches _ _ _ _ _ _ _ args])
        (simp_all add: l connman_listener_def new_listener_def)
    then show ?thesis using w by auto
  next
    assume w: "watches s = (answered_watches c)\<lparr>calls := ks\<rparr>"
    have l: "listeners (watches s) = [] @ ?a # []" by (simp add: w answered_watches_def)
    have "message_filter E c True (owner_signal old new) (watches s) =
        Some ((watches s)\<lparr>calls := calls (watches s) @ concat (map (name_calls new) (callbacks ?a))\<rparr>)"
      by (rule known_name_changes[OF _ l m _ _ _ _ _ _ _ args])
        (simp_all add: l new_listener_def)
    then show ?thesis using w by auto
  qed
qed

lemma owner_reply_ok:
  assumes "session_ok c s" and "services (watches s) 0 \<noteq> None"
  obtains ks where "service_reply r 0 (watches s) = Some ((answered_watches c)\<lparr>calls := ks\<rparr>)"
proof -
  from assms obtain ks where w: "watches s = (session_watches c)\<lparr>calls := ks\<rparr>"
    by (auto simp: session_ok_def answered_watches_def)
  have c: "first_callback\<lparr>cb_data := None\<rparr> = clear_cb_data 1 first_callback"
    by (simp add: clear_cb_data_def first_callback_def)
  have "\<exists>ks. service_reply r 0 (watches s) = Some ((answered_watches c)\<lparr>calls := ks\<rparr>)"
    by (cases r) (auto simp: w service_reply_def update_service_def update_name_cache_def service_data_free_def
        on_callbacks_def find_cb_def session_watches_def connman_listener_def answered_watches_def c
        call_client_eq new_listener_def first_callback_def clear_cb_data_def split: option.split)
  then show ?thesis using that by blast
qed

lemma session_step_ok:
  assumes ok: "session_ok c s" and e: "session_event_ok e s" "e \<noteq> Appears" "e \<noteq> Disappears"
  obtains s' where "session_step E e s = Some s'" "session_ok c s'"
proof -
  from ok obtain p where p: "session_path s = g_strdup p" "settings_state s = NullPtr"
    by (auto simp: session_ok_def)
  from session_run_spec_core[OF session_run.start p] e(1)
  obtain s' where s': "session_step E e s = Some s'" by blast
  from session_run_spec_core[OF session_run.event[OF session_run.start e(1) s'] p]
  have path: "session_path s' = g_strdup (fold next_path ([] @ [e]) p)" "settings_state s' = NullPtr" by blast+
  have "watches s' = watches s \<and> watch_id s' = watch_id s \<and> manager_connection s' = manager_connection s"
    using s' e
    by (cases e) (auto simp: session_step_def create_session_cb_def release_def update_nothing
        session_event_ok_def pold_session_set_path_def Let_def split: option.splits if_splits)
  then have "session_ok c s'" using ok path unfolding session_ok_def by metis
  then show ?thesis using s' that by blast
qed

lemma connman_step_ok:
  assumes ok: "session_ok c s" and e: "connman_event_ok e s"
  obtains s' where "connman_step E c e s = Some s'" "session_ok c s'"
proof (cases e)
  case (OwnerChanged old new)
  from owner_changed_ok[OF ok, of "watch_answers E" old new] obtain w ks where
    w: "message_filter (watch_answers E) c True (owner_signal old new) (watches s) = Some w"
      "w = (session_watches c)\<lparr>calls := ks\<rparr> \<or> w = (answered_watches c)\<lparr>calls := ks\<rparr>" by blast
  from after_watch_ok[OF w(2) ok] obtain s' where "after_watch E (Some w) s = Some s'" "session_ok c s'" .
  then show ?thesis using OwnerChanged w(1) that by (simp add: connman_step_def)
next
  case (OwnerReply r)
  with e have "services (watches s) 0 \<noteq> None" by (simp add: connman_event_ok_def)
  from owner_reply_ok[OF ok this] obtain ks where
    w: "service_reply r 0 (watches s) = Some ((answered_watches c)\<lparr>calls := ks\<rparr>)" .
  from after_watch_ok[OF disjI2[OF refl] ok] obtain s' where
    "after_watch E (Some ((answered_watches c)\<lparr>calls := ks\<rparr>)) s = Some s'" "session_ok c s'" .
  then show ?thesis using OwnerReply w that by (simp add: connman_step_def)
next
  case (Call f)
  with e have "session_event_ok f s" "f \<noteq> Appears" "f \<noteq> Disappears" by (simp_all add: connman_event_ok_def)
  from session_step_ok[OF ok this] obtain s' where "session_step E f s = Some s'" "session_ok c s'" .
  then show ?thesis using Call that by (simp add: connman_step_def)
qed


section \<open>Whether the daemon starts\<close>

definition policies_of :: "main_env \<Rightarrow> (int \<times> policy_state) option" where
  "policies_of M = pold_policy_init (env_json (me_env M)) (env_dir (me_env M)) (me_disk M) policy_start"

definition policies_loaded :: "main_env \<Rightarrow> bool" where
  "policies_loaded M \<longleftrightarrow> (case policies_of M of None \<Rightarrow> False | Some (error, st) \<Rightarrow> 0 \<le> error)"

definition starts_up :: "main_env \<Rightarrow> bool" where
  "starts_up M \<longleftrightarrow> me_options M \<noteq> None \<and> me_bus M \<noteq> None \<and> me_name_result M = 1
     \<and> me_soup M \<and> 1 \<le> me_soup_handler M \<and> policies_loaded M \<and> \<not> cannot_register (me_objects M) 0"

text \<open>What the daemon holds from the bus on, and from the signals on.\<close>

definition connected :: "nat \<Rightarrow> main_loop \<Rightarrow> daemon \<Rightarrow> bool" where
  "connected c l d \<longleftrightarrow> d_conn d = Some c \<and> d_loop d = l \<and> d_names d = [''de.bmw.pold1'']
     \<and> map_option credentials_freed (d_http d) = Some False"

definition handling :: "daemon \<Rightarrow> bool" where
  "handling d \<longleftrightarrow> d_signals d = [(1, 2), (2, 15), (3, 1), (4, 12)] \<and> d_shandlers d = [1, 2, 3, 4]"

lemma policies_of_outcome:
  assumes "policies_of M = Some (k, st)"
  shows "k = 0 \<and> store_ok st \<or> k = - ENOENT \<and> holds_nothing st"
  using init_outcome[where J = "env_json (me_env M)" and dir = "env_dir (me_env M)" and d = "me_disk M"]
  unfolding assms[unfolded policies_of_def] store_ok_def option.case prod.case by (cases "k = 0") auto

lemma policies_of_Some:
  assumes "\<not> open_fails (me_disk M)"
  obtains k st where "policies_of M = Some (k, st)"
  using assms init_outcome[where J = "env_json (me_env M)" and dir = "env_dir (me_env M)" and d = "me_disk M"]
  by (cases "policies_of M") (auto simp: policies_of_def)


lemma init_manager_store: "store (snd (pold_manager_init name reg m)) = store m"
  by (simp add: pold_manager_init_def)

lemma start_policy_cases:
  assumes d: "connected c l d" "d_objects d = obj_start" "d_session d = session_start" "d_signals d = []"
      "d_next_signal d = 1" "d_manager d = d_manager (daemon_start M cs b)"
    and pol: "policies_of M = Some (k, st)"
    and s: "pold_session_init (me_session M) c (session_start\<lparr>manager_connection := Some c\<rparr>) = Some s"
  obtains d' where "start_policy M c d =
      Some (if k < 0 then Failed OutSignalHandlers d'
            else if cannot_register (me_objects M) 0 then Failed OutPolicy d' else Started d')"
    "connected c l d'" "handling d'" "d_glib_loop d'"
    "store (d_manager d') = st"
proof -
  let ?d3 = "install_signal_handlers (d\<lparr>d_glib_loop := True\<rparr>)"
  let ?d4 = "?d3\<lparr>d_manager := (d_manager ?d3)\<lparr>store := st\<rparr>\<rparr>"
  have sg: "d_signals ?d3 = [(1, 2), (2, 15), (3, 1), (4, 12)]" "d_shandlers ?d3 = [1, 2, 3, 4]"
    by (simp_all add: install_signal_handlers_def g_unix_signal_add_def d(4,5) Let_def)
  have base: "connected c l ?d4" "handling ?d4" "d_glib_loop ?d4" "d_objects ?d4 = obj_start"
    "d_session ?d4 = session_start" "store (d_manager ?d4) = st"
    using d sg by (simp_all add: connected_def handling_def)
  have p: "pold_policy_init (env_json (me_env M)) (env_dir (me_env M)) (mdisk (d_manager ?d3)) (store (d_manager ?d3))
      = Some (k, st)"
    using pol by (simp add: d(6) policies_of_def)
  show ?thesis
  proof (cases "k < 0")
    case True
    then have "start_policy M c d = Some (Failed OutSignalHandlers ?d4)"
      unfolding start_policy_def Let_def p by simp
    then show ?thesis using that[of ?d4] True base by simp
  next
    case False
    then have sp: "start_policy M c d = start_manager M c ?d4"
      unfolding start_policy_def Let_def p by simp
    show ?thesis
    proof (cases "cannot_register (me_objects M) 0")
      case True
      with sp start_manager_eq[OF base(4), of M c] obtain o' m' where m': "store m' = st" and "start_policy M c d =
          Some (Failed OutPolicy (logged (pold_log_error ''Error registering manager in D-Bus'')
            (?d4\<lparr>d_objects := o', d_manager := m'\<rparr>)))"
        by (intro that[of "snd (pold_manager_init (me_unique_name M) False (d_manager ?d4))"
              "obj_start\<lparr>next_object := 1, ticks := 1\<rparr>"])
          (simp_all add: init_manager_store base(6))
      then show ?thesis
        by (intro that[of "logged (pold_log_error ''Error registering manager in D-Bus'')
            (?d4\<lparr>d_objects := o', d_manager := m'\<rparr>)"])
          (use False True base(1-3) m' in \<open>simp_all add: connected_def handling_def\<close>)
    next
      case no: False
      with sp start_manager_eq[OF base(4), of M c] obtain o' m' where m': "store m' = st" and ss: "start_policy M c d =
          start_session M c (?d4\<lparr>d_manager := m', d_objects := o'\<rparr>)"
        by (intro that[of "snd (pold_manager_init (me_unique_name M) True (d_manager ?d4))"
              "with_pold c 2 [manager_interface, notification_interface]"])
          (simp_all add: init_manager_store base(6))
      note ss
      also have "start_session M c (?d4\<lparr>d_manager := m', d_objects := o'\<rparr>)
        = Some (Started (logged (pold_log_info ''Entering main loop'')
          (?d4\<lparr>d_manager := m', d_objects := o', d_session := s\<rparr>)))"
        using s base(5) by (simp add: start_session_def pold_connman_manager_init_def)
      finally show ?thesis
        by (intro that[of "logged (pold_log_info ''Entering main loop'')
            (?d4\<lparr>d_manager := m', d_objects := o', d_session := s\<rparr>)"])
          (use False no base(1-3) m' in \<open>simp_all add: connected_def handling_def\<close>)
    qed
  qed
qed

lemma start_with_bus:
  assumes opt: "me_options M = Some dbg" and bus: "me_bus M = Some c" "me_name_result M = 1"
    and su: "g_dbus_setup_bus (Some c) (Some ''de.bmw.pold1'') False 1 (me_bus_actions M) (loop_start cs) = Some (Some c, l)"
    and s: "pold_session_init (me_session M) c (session_start\<lparr>manager_connection := Some c\<rparr>) = Some s"
    and opens: "\<not> open_fails (me_disk M)"
  obtains d lab where "pold_start M (daemon_start M cs b) = Some (if starts_up M then Started d else Failed lab d)"
    "connected c l d" "lab \<in> {OutHttpClient, OutSignalHandlers, OutPolicy}"
    "starts_up M \<or> lab \<noteq> OutHttpClient \<longrightarrow> handling d \<and> d_glib_loop d"
    "\<not> starts_up M \<and> lab = OutHttpClient \<longrightarrow> d_signals d = [] \<and> \<not> d_glib_loop d"
    "\<not> starts_up M \<and> lab \<noteq> OutPolicy \<longrightarrow> holds_nothing (store (d_manager d))"
    "lab = OutPolicy \<longrightarrow> store_ok (store (d_manager d))"
proof -
  let ?d1 = "logged (pold_log_info ''Starting Policy Daemon'') (logged (pold_log_set_debug dbg) (daemon_start M cs b))"
  let ?d2 = "?d1\<lparr>d_conn := Some c, d_loop := l, d_names := [''de.bmw.pold1'']\<rparr>"
  obtain ok h where h: "pold_http_client_init (me_soup M) (me_soup_handler M) ''someuser'' ''password'' = (ok, h)"
    by fastforce
  have okh: "ok \<longleftrightarrow> me_soup M \<and> 1 \<le> me_soup_handler M" and hf: "\<not> credentials_freed h"
    using h http_init_fresh[OF h] by (auto simp: pold_http_client_init_def Let_def split: if_splits)
  let ?d3 = "?d2\<lparr>d_http := Some h\<rparr>"
  have "init_dbus M ?d1 = Some (True, ?d2)" using bus su by (simp add: init_dbus_def)
  then have start: "pold_start M (daemon_start M cs b) =
      (if \<not> ok then Some (Failed OutHttpClient ?d3) else start_policy M c ?d3)"
    using opt h by (simp add: pold_start_def parse_options_def)
  have base: "connected c l ?d3" "d_objects ?d3 = obj_start" "d_session ?d3 = session_start"
    "d_signals ?d3 = []" "d_next_signal ?d3 = 1" "d_manager ?d3 = d_manager (daemon_start M cs b)"
    "\<not> d_glib_loop ?d3"
    using hf by (simp_all add: connected_def)
  show ?thesis
  proof (cases ok)
    case False
    moreover have "holds_nothing (store (d_manager ?d3))"
      by (simp add: base(6) holds_nothing_def policy_start_def)
    moreover have "\<not> starts_up M" using False okh by (auto simp: starts_up_def)
    ultimately show ?thesis
      using start base by (intro that[where d = ?d3 and lab = OutHttpClient]) simp_all
  next
    case True
    from policies_of_Some[OF opens] obtain k st where pol: "policies_of M = Some (k, st)" .
    have k: "k < 0 \<longrightarrow> holds_nothing st" "\<not> k < 0 \<longrightarrow> store_ok st"
      using policies_of_outcome[OF pol] by auto
    from start_policy_cases[OF base(1-6) pol s] obtain d' where d': "start_policy M c ?d3 =
        Some (if k < 0 then Failed OutSignalHandlers d'
              else if cannot_register (me_objects M) 0 then Failed OutPolicy d' else Started d')"
      "connected c l d'" "handling d'" "d_glib_loop d'" "store (d_manager d') = st" .
    have up: "starts_up M \<longleftrightarrow> \<not> k < 0 \<and> \<not> cannot_register (me_objects M) 0"
      using True okh opt bus pol by (auto simp: starts_up_def policies_loaded_def)
    show ?thesis
      by (rule that[where d = d' and lab = "if k < 0 then OutSignalHandlers else OutPolicy"])
        (use start d' True up k in auto)
  qed
qed

section \<open>Leaving\<close>









section \<open>The main loop\<close>

text \<open>
  One event of the main loop. The listeners of \<open>watch.c\<close> are one static list in the program. Here
  the listener of the session is kept apart, as its own watch state, from those of agents and
  applications, which the manager and the store keep as ids: a signal about connman's name reaches
  only the one (\<open>known_name_changes\<close>: listeners that do not match are left as they are), a signal
  about a unique name only the others. What this split cannot show is what goes wrong between
  listeners; that is the subject of the theories about \<open>watch.c\<close> itself
  (\<open>two_deletions_use_after_free\<close>). Neither does it show what the handlers of the disconnect
  watches of agents read: they read freed memory (theory \<open>Manager_Props\<close>), and the run goes on here
  with any agent name they may have found. \<open>held\<close> are the references the program has to
  connections.
\<close>

datatype daemon_event =
    Signal nat
  | ManagerEvent event
  | LoopEvent loop_event
  | ConnmanEvent connman_event

fun keeps_references :: "loop_event \<Rightarrow> bool" where
  "keeps_references (ProgramRef c) = False"
| "keeps_references (ProgramUnref c) = False"
| "keeps_references _ = True"

inductive daemon_step :: "main_env \<Rightarrow> (nat \<Rightarrow> nat) \<Rightarrow> daemon \<Rightarrow> daemon_event \<Rightarrow> daemon \<Rightarrow> bool"
  for M :: main_env and held :: "nat \<Rightarrow> nat"
where
  quit: "sig \<in> {SIGHUP, SIGINT, SIGTERM} \<Longrightarrow> sig \<in> snd ` set (d_signals d) \<Longrightarrow>
    daemon_step M held d (Signal sig) (snd (signal_quit d))"
| usr2: "SIGUSR2 \<in> snd ` set (d_signals d) \<Longrightarrow> signal_update d = Some (go_on, d') \<Longrightarrow>
    daemon_step M held d (Signal SIGUSR2) d'"
| manager_event: "mstep (me_env M) (d_manager d) e m \<Longrightarrow>
    daemon_step M held d (ManagerEvent e) (d\<lparr>d_manager := m\<rparr>)"
| loop_event: "keeps_references e \<Longrightarrow> loop_event_ok held e (d_loop d) \<Longrightarrow> loop_step e (d_loop d) = Some l \<Longrightarrow>
    daemon_step M held d (LoopEvent e) (d\<lparr>d_loop := l\<rparr>)"
| connman_event: "d_conn d = Some c \<Longrightarrow> connman_event_ok e (d_session d) \<Longrightarrow>
    connman_step (me_session M) c e (d_session d) = Some s \<Longrightarrow>
    daemon_step M held d (ConnmanEvent e) (d\<lparr>d_session := s\<rparr>)"

inductive daemon_run :: "main_env \<Rightarrow> (nat \<Rightarrow> nat) \<Rightarrow> daemon \<Rightarrow> daemon_event list \<Rightarrow> daemon \<Rightarrow> bool"
  for M :: main_env and held :: "nat \<Rightarrow> nat" and d0 :: daemon
where
  no_event: "daemon_run M held d0 [] d0"
| next_event: "daemon_run M held d0 es d \<Longrightarrow> \<not> d_quit d \<Longrightarrow> daemon_step M held d e d' \<Longrightarrow>
    daemon_run M held d0 (es @ [e]) d'"

fun manager_events :: "daemon_event list \<Rightarrow> event list" where
  "manager_events [] = []"
| "manager_events (ManagerEvent e # es) = e # manager_events es"
| "manager_events (_ # es) = manager_events es"

text \<open>What every event keeps.\<close>

definition daemon_ok :: "(nat \<Rightarrow> nat) \<Rightarrow> nat \<Rightarrow> daemon \<Rightarrow> bool" where
  "daemon_ok held c d \<longleftrightarrow> connected c (d_loop d) d \<and> loop_wf held (d_loop d) \<and> handling d
     \<and> store_ok (store (d_manager d)) \<and> session_ok c (d_session d)
     \<and> map_option soup_session (d_http d) = Some True
     \<and> d_objects d = with_pold c 2 [client_interface 1 ''de.bmw.pold.Manager1'' pold_manager_methods,
                                     client_interface 2 ''net.connman.Notification'' notification_methods]"

lemma held_kept: "keeps_references e \<Longrightarrow> held_after e held = held"
  by (cases e) (simp_all add: held_after_def)

lemma daemon_step_ok:
  assumes "daemon_step M held d e d'" and "daemon_ok held c d"
  shows "daemon_ok held c d'"
  using assms
proof cases
  case (quit sig)
  with assms(2) show ?thesis by (simp add: signal_quit_def daemon_ok_def connected_def handling_def)
next
  case (usr2 go_on)
  from usr2(3) obtain h h' where h: "d_http d = Some h" "pold_http_client_update_policies 0 h = Some h'"
    "d' = (logged (pold_log_debug ''src/main.c'' ''signal_update''
             ''Received SIGUSR2 - policy update from server triggered'') d)\<lparr>d_http := Some h'\<rparr>"
    by (auto simp: signal_update_def Let_def bind_eq_Some_conv split: option.splits)
  then have "credentials_freed h' = credentials_freed h" "soup_session h' = soup_session h"
    by (auto simp: pold_http_client_update_policies_def split: if_splits)
  with assms(2) h(1) show ?thesis
    unfolding h(3) by (simp add: daemon_ok_def connected_def handling_def)
next
  case (manager_event e m)
  with assms(2) mstep_store_ok[OF manager_event(3)] show ?thesis
    by (simp add: daemon_ok_def connected_def handling_def)
next
  case (loop_event e l)
  from assms(2) have "loop_wf held (d_loop d)" by (simp add: daemon_ok_def)
  from loop_step_wf[OF this loop_event(4)] loop_event(5) held_kept[OF loop_event(3)]
  have "loop_wf held l" by auto
  with loop_event(2) assms(2) show ?thesis by (simp add: daemon_ok_def connected_def handling_def)
next
  case (connman_event c' e s)
  from assms(2) have c: "session_ok c (d_session d)" "c' = c"
    using connman_event(3) by (simp_all add: daemon_ok_def connected_def)
  from connman_step_ok[OF c(1) connman_event(4), of "me_session M"] connman_event(5) c(2)
  have "session_ok c s" by auto
  with connman_event(2) assms(2) show ?thesis by (simp add: daemon_ok_def connected_def handling_def)
qed

lemma daemon_run_ok: "daemon_run M held d es d' \<Longrightarrow> daemon_ok held c d \<Longrightarrow> daemon_ok held c d'"
  by (induction rule: daemon_run.induct) (auto dest: daemon_step_ok)

lemma manager_events_append [simp]: "manager_events (xs @ ys) = manager_events xs @ manager_events ys"
  by (induction xs rule: manager_events.induct) simp_all

lemma mrun_snoc: "mrun E m es m1 \<Longrightarrow> mstep E m1 e m2 \<Longrightarrow> mrun E m (es @ [e]) m2"
  by (induction rule: mrun.induct) (auto intro: mrun.intros)

text \<open>Seen from the manager a run of the daemon is a run of the manager.\<close>

lemma daemon_run_manager:
  "daemon_run M held d es d' \<Longrightarrow> mrun (me_env M) (d_manager d) (manager_events es) (d_manager d')"
proof (induction rule: daemon_run.induct)
  case no_event
  show ?case by (simp add: mrun.run_nil)
next
  case (next_event es d1 e d2)
  from next_event(3) show ?case
  proof cases
    case (usr2 go_on)
    then show ?thesis using next_event(4)
      by (auto simp: signal_update_def Let_def split: option.splits)
  qed (use next_event(4) in \<open>auto simp: signal_quit_def intro: mrun_snoc\<close>)
qed

section \<open>What is served while the daemon runs\<close>

text \<open>
  C6. When the main loop starts, the one object of pold answers for both interfaces: a call of
  one of the five methods with the declared signature runs the function of that method, whose
  reply is sent; any other call to one of the interfaces is passed on unhandled.
\<close>

theorem interfaces_served:
  assumes "pold_start M (daemon_start M cs b) = Some (Started d)"
  shows "\<exists>c. d_conn d = Some c \<and> path_data c ''/de/bmw/pold1'' (d_objects d) = Some 0
    \<and> (\<forall>iface member sg k. (iface, member, sg, k) \<in> set pold_calls \<longrightarrow>
         (\<forall>E msg. c_is_call msg \<and> c_interface msg = Some iface \<and> c_member msg = member
            \<and> items_sig (c_body msg) = sg \<longrightarrow>
            (\<exists>m. m_function m = Some (ClientMethod k) \<and> generic_message E c msg 0 (d_objects d)
               = Gdbus_Object_Calls.process_message E c msg m (ClientData 0) (d_objects d))))
    \<and> (\<forall>E msg iface. c_interface msg = Some iface \<and> iface \<in> fst ` set pold_calls
         \<and> (\<forall>k. (iface, c_member msg, items_sig (c_body msg), k) \<notin> set pold_calls) \<longrightarrow>
           generic_message E c msg 0 (d_objects d) = Some (NotYetHandled, d_objects d))"
proof -
  from assms obtain c where c: "d_conn d = Some c"
    and o: "d_objects d = with_pold c 2 [manager_interface, notification_interface]" by (rule startedE)
  define o0 where "o0 = with_pold c 2 [manager_interface, notification_interface]"
  define f1 where "f1 = manager_interface"
  define f2 where "f2 = notification_interface"
  have f: "find_interface (g_interfaces (pold_object c 2 [f1, f2])) (Some ''de.bmw.pold.Manager1'') = Some f1"
    "find_interface (g_interfaces (pold_object c 2 [f1, f2])) (Some ''net.connman.Notification'') = Some f2"
    "if_methods f1 = pold_manager_methods" "if_methods f2 = notification_methods"
    "if_user_data f1 = ClientData 0" "if_user_data f2 = ClientData 0"
    by (simp_all add: f1_def f2_def find_interface_def pold_object_def client_interface_def)
  have o0: "heap o0 0 = Some (pold_object c 2 [f1, f2])" "global_flags o0 = 0"
    "path_data c ''/de/bmw/pold1'' o0 = Some 0" "check_privilege E c msg m u o0 = Some (False, o0)" for E msg m u
    by (simp_all add: o0_def f1_def f2_def no_privilege)
  have gm: "generic_message E c msg 0 o0 = method_loop E c msg f1 pold_manager_methods o0"
    if "c_interface msg = Some ''de.bmw.pold.Manager1''" for E msg
    using that f o0 by (simp add: generic_message_def)
  have gn: "generic_message E c msg 0 o0 = method_loop E c msg f2 notification_methods o0"
    if "c_interface msg = Some ''net.connman.Notification''" for E msg
    using that f o0 by (simp add: generic_message_def)
  note loop = pold_manager_methods_def notification_methods_def check_experimental_def flag_set_def
    args_one args_none o0 f
  have "generic_message E c msg 0 o0 = Gdbus_Object_Calls.process_message E c msg
      (if k < 3 then pold_manager_methods ! k else notification_methods ! (k - 3)) (ClientData 0) o0
    \<and> m_function (if k < 3 then pold_manager_methods ! k else notification_methods ! (k - 3)) = Some (ClientMethod k)"
    if "(iface, member, sg, k) \<in> set pold_calls" "c_is_call msg" "c_interface msg = Some iface"
      "c_member msg = member" "items_sig (c_body msg) = sg" for iface member sg k E msg
    using that by (auto simp: pold_calls_def gm gn loop)
  moreover have "generic_message E c msg 0 o0 = Some (NotYetHandled, o0)"
    if "c_interface msg = Some iface" "iface \<in> fst ` set pold_calls"
      "\<forall>k. (iface, c_member msg, items_sig (c_body msg), k) \<notin> set pold_calls" for E msg iface
    using that by (auto simp: pold_calls_def gm gn loop)
  moreover have "d_objects d = o0" by (simp add: o o0_def)
  ultimately show ?thesis using c o0(3) by (intro exI[of _ c]) blast
qed

section \<open>From start to exit\<close>

text \<open>
  What is asked of the surroundings: every connection the bus has is referenced, the bus gives
  out one of them with callbacks libdbus may make, the error codes of GLib are not negative.
\<close>

definition surroundings_ok :: "main_env \<Rightarrow> (nat \<Rightarrow> dbus_conn option) \<Rightarrow> bool" where
  "surroundings_ok M cs \<longleftrightarrow> (\<forall>c k. cs c = Some k \<longrightarrow> 0 < dc_refs k)
     \<and> (\<forall>c. me_bus M = Some c \<longrightarrow> (\<exists>k. cs c = Some k
          \<and> lib_run_ok (me_bus_actions M) ((loop_start cs)\<lparr>conns := cs(c \<mapsto> k\<lparr>dc_hooked := True\<rparr>)\<rparr>)))
     \<and> \<not> open_fails (me_disk M)
     \<and> libdbus_fine (watch_answers (me_session M))"

lemma surroundings_setup:
  assumes "surroundings_ok M cs" and "me_bus M = Some c"
  shows "if me_name_result M = 1
    then \<exists>l. g_dbus_setup_bus (Some c) (Some n) False (me_name_result M) (me_bus_actions M) (loop_start cs) = Some (Some c, l)
      \<and> loop_wf (refs cs) l
    else \<exists>l. g_dbus_setup_bus (Some c) (Some n) False (me_name_result M) (me_bus_actions M) (loop_start cs) = Some (None, l)"
    and "0 < refs cs c"
proof -
  from assms obtain k where k: "cs c = Some k"
    "lib_run_ok (me_bus_actions M) ((loop_start cs)\<lparr>conns := cs(c \<mapsto> k\<lparr>dc_hooked := True\<rparr>)\<rparr>)"
    "\<forall>c k. cs c = Some k \<longrightarrow> 0 < dc_refs k" unfolding surroundings_ok_def by blast
  have c: "conns (loop_start cs) = cs" by (simp add: loop_start_def)
  show held: "0 < refs cs c" using k by (simp add: refs_def)
  from setup_bus_cases[OF loop_start_wf[OF k(3)], unfolded c, OF k(1,2) held, of "Some n" "me_name_result M" False]
  show "if me_name_result M = 1
    then \<exists>l. g_dbus_setup_bus (Some c) (Some n) False (me_name_result M) (me_bus_actions M) (loop_start cs) = Some (Some c, l)
      \<and> loop_wf (refs cs) l
    else \<exists>l. g_dbus_setup_bus (Some c) (Some n) False (me_name_result M) (me_bus_actions M) (loop_start cs) = Some (None, l)"
    by (cases "me_name_result M = 1") auto
qed

lemma session_of_start:
  assumes "surroundings_ok M cs"
  obtains s where "pold_session_init (me_session M) c (session_start\<lparr>manager_connection := Some c\<rparr>) = Some s"
    "session_ok c s"
proof -
  have "libdbus_fine (watch_answers (me_session M))" using assms by (simp add: surroundings_ok_def)
  from session_init_start[OF this, of "session_start\<lparr>manager_connection := Some c\<rparr>" c]
  have "pold_session_init (me_session M) c (session_start\<lparr>manager_connection := Some c\<rparr>) =
      Some (session_start\<lparr>manager_connection := Some c, session_connection := Some c, watch_id := 1,
              watches := session_watches c, settings_state := NullPtr\<rparr>)"
    by (simp add: session_start_def)
  moreover have "session_watches c = (session_watches c)\<lparr>calls := []\<rparr>" by (simp add: session_watches_def)
  moreover have "NullPtr = g_strdup None" by (simp add: g_strdup_def)
  ultimately show ?thesis by (intro that) (auto simp: session_ok_def session_start_def)
qed

lemma started_ok:
  assumes ok: "surroundings_ok M cs" and start: "pold_start M (daemon_start M cs b) = Some (Started d)"
  obtains c where "me_bus M = Some c" "daemon_ok (refs cs) c d" "0 < refs cs c"
    "bus (d_manager d) = b\<lparr>object_paths := []\<rparr>" "waiting (d_manager d) = []"
proof -
  from start obtain c l st s k where c: "me_bus M = Some c" "me_name_result M = 1"
    and l: "g_dbus_setup_bus (Some c) (Some ''de.bmw.pold1'') False 1 (me_bus_actions M) (loop_start cs) = Some (Some c, l)"
    and p: "pold_policy_init (env_json (me_env M)) (env_dir (me_env M)) (me_disk M) policy_start = Some (k, st)" "0 \<le> k"
    and m: "d_manager d = \<lparr>store = st, bus = b\<lparr>object_paths := []\<rparr>, mdisk = me_disk M, unique_name = me_unique_name M,
       waiting = [], agent_watches = []\<rparr>"
    and o: "d_objects d = with_pold c 2 [client_interface 1 ''de.bmw.pold.Manager1'' pold_manager_methods,
       client_interface 2 ''net.connman.Notification'' notification_methods]"
    and s: "pold_session_init (me_session M) c (session_start\<lparr>manager_connection := Some c\<rparr>) = Some s" "d_session d = s"
    and rest: "d_conn d = Some c" "d_loop d = l" "d_names d = [''de.bmw.pold1'']"
      "d_signals d = [(1, 2), (2, 15), (3, 1), (4, 12)]" "d_shandlers d = [1, 2, 3, 4]"
      "map_option credentials_freed (d_http d) = Some False" "map_option soup_session (d_http d) = Some True"
    by (rule startedE) (rule that)
  from surroundings_setup(1)[OF ok c(1), of "''de.bmw.pold1''"] surroundings_setup(2)[OF ok c(1)] c(2) l
  have wf: "loop_wf (refs cs) l" and held: "0 < refs cs c" by auto
  have "store_ok st" using policies_of_outcome[of M k st] p by (auto simp: policies_of_def)
  moreover from session_of_start[OF ok, of c] s have "session_ok c (d_session d)" by auto
  ultimately have "daemon_ok (refs cs) c d"
    using wf m o rest by (simp add: daemon_ok_def connected_def handling_def)
  then show ?thesis using that c(1) held m by simp
qed





text \<open>
  A run of the daemon is a run of its manager, so what is shown of the manager holds in the daemon.
\<close>

lemma daemon_run_answers:
  assumes ok: "surroundings_ok M cs" and start: "pold_start M (daemon_start M cs b) = Some (Started d)"
    and run: "daemon_run M (refs cs) d es d'" and fresh: "sent b = []" "requests s (manager_events es) \<le> 1"
  shows "store_ok (store (d_manager d')) \<and> answers s (bus (d_manager d')) + due s (d_manager d') \<le> 1
    \<and> d_objects d' = d_objects d"
proof -
  from started_ok[OF ok start] obtain c where c: "daemon_ok (refs cs) c d"
    "bus (d_manager d) = b\<lparr>object_paths := []\<rparr>" "waiting (d_manager d) = []" .
  from daemon_run_ok[OF run c(1)] have ok': "daemon_ok (refs cs) c d'" .
  have "accounted s (d_manager d') \<le> accounted s (d_manager d) + requests s (manager_events es)"
    by (rule mrun_accounted[OF daemon_run_manager[OF run]])
  then have "answers s (bus (d_manager d')) + due s (d_manager d') \<le> 1"
    using c fresh by (simp add: accounted_def answers_def due_def)
  with c(1) ok' show ?thesis by (simp add: daemon_ok_def)
qed

lemma daemon_run_session:
  "daemon_run M held d es d' \<Longrightarrow> \<forall>e. ConnmanEvent e \<notin> set es \<Longrightarrow> d_session d' = d_session d"
proof (induction rule: daemon_run.induct)
  case (next_event es d1 e d2)
  from next_event(3) have "d_session d2 = d_session d1"
  proof cases
    case (usr2 go_on)
    then show ?thesis by (auto simp: signal_update_def Let_def split: option.splits)
  next
    case (connman_event c f s)
    with next_event(5) show ?thesis by auto
  qed (simp_all add: signal_quit_def)
  with next_event show ?case by simp
qed simp

text \<open>
  C5. The failure that the surroundings of C4 leave out. If the question for the owner of
  connman's name could not be sent when the daemon started, it runs all the same; but if no event
  of connman arrives, being asked to end is undefined: the watch keeps a pointer to the freed data
  of the question, and \<open>pold_session_final\<close> uses it when it removes the watch.
\<close>

theorem exit_after_failed_query:
  assumes fails: "owner_call_fails (watch_answers (me_session M))" "\<not> add_filter_fails (watch_answers (me_session M))"
      "\<forall>rule. \<not> add_match_fails (watch_answers (me_session M)) rule"
    and start: "pold_start M (daemon_start M cs b) = Some (Started d)"
    and run: "run d = Some d'" "daemon_run M held d es d'" "\<forall>e. ConnmanEvent e \<notin> set es"
  shows "pold_main M run (daemon_start M cs b) = None"
proof -
  from start obtain c where s: "pold_session_init (me_session M) c (session_start\<lparr>manager_connection := Some c\<rparr>)
      = Some (d_session d)" by (rule startedE) simp
  from failed_owner_query_dangles[where f = 0 and g = "Some 1" and u = 0 and destroy = None, OF fails connman_rule_length]
  obtain w st where w: "g_dbus_add_service_watch (watch_answers (me_session M)) c (Some ''net.connman'') (Some 0) (Some 1) 0
      None watch_start = Some (w, st)" "g_dbus_remove_watch (watch_answers (me_session M)) w st = None" by blast
  have "watch_id (d_session d) = w \<and> watches (d_session d) = st \<and> settings_state (d_session d) = NullPtr"
    using s w(1) by (cases "d_session d") (simp add: pold_session_init_def session_start_def)
  with w(2) daemon_run_session[OF run(2,3)] have "pold_session_final (me_session M) (d_session d') = None"
    by (simp add: pold_session_final_def)
  with start run(1) show ?thesis by (simp add: pold_main_def)
qed

section \<open>A concrete daemon\<close>

definition demo_main :: main_env where
  "demo_main =
     \<lparr>me_options = Some False, me_bus = Some 1, me_name_result = 1, me_bus_actions = [], me_soup = True,
      me_soup_handler = 1, me_env = demo_env, me_disk = demo_disk\<lparr>policy_dir := []\<rparr>,
      me_unique_name = Some '':1.0'', me_objects = demo_obj_env, me_session = demo_session_env\<rparr>"

lemma demo_surroundings: "surroundings_ok demo_main demo_conns"
  by (simp add: surroundings_ok_def demo_main_def demo_conns_def demo_conn_def demo_disk_def
      demo_session_env_def libdbus_fine_def demo_watch_env_def)

lemma demo_policies: "policies_loaded demo_main"
  by (simp add: policies_loaded_def policies_of_def demo_main_def demo_env_def pold_policy_init_def
      init_default_policy_def init_own_policy_def load_policy_def load_policies_def dir_entries_def
      demo_disk_def demo_jansson_def demo_policy_def Let_def)

lemma demo_starts_up: "starts_up demo_main"
proof -
  have "me_options demo_main \<noteq> None" "me_bus demo_main \<noteq> None" "me_name_result demo_main = 1" "me_soup demo_main"
    "me_soup_handler demo_main = 1" "\<not> cannot_register (me_objects demo_main) 0"
    by (simp_all add: demo_main_def demo_obj_env_def)
  then show ?thesis using demo_policies by (simp add: starts_up_def)
qed

lemma demo_started:
  obtains d where "pold_start demo_main (daemon_start demo_main demo_conns demo_bus) = Some (Started d)"
proof -
  have c: "me_options demo_main = Some False" "me_bus demo_main = Some 1" "me_name_result demo_main = 1"
    by (simp_all add: demo_main_def)
  from surroundings_setup(1)[OF demo_surroundings c(2)] c(3) obtain l where
    l: "g_dbus_setup_bus (Some 1) (Some ''de.bmw.pold1'') False 1 (me_bus_actions demo_main) (loop_start demo_conns)
      = Some (Some 1, l)" by auto
  from session_of_start[OF demo_surroundings, of 1] obtain s where
    s: "pold_session_init (me_session demo_main) 1 (session_start\<lparr>manager_connection := Some 1\<rparr>) = Some s" .
  show ?thesis
    by (rule start_with_bus[OF c l s, of demo_bus], simp add: demo_main_def demo_disk_def, rule that)
      (use demo_starts_up in simp)
qed

lemma demo_terminated:
  assumes "pold_start M (daemon_start M cs b) = Some (Started d)"
  shows "daemon_run M held d [Signal SIGTERM] (d\<lparr>d_quit := True\<rparr>)"
proof -
  from assms have "\<not> d_quit d" "d_signals d = [(1, 2), (2, 15), (3, 1), (4, 12)]" by (rule startedE, simp)+
  then have "daemon_step M held d (Signal SIGTERM) (snd (signal_quit d))"
    by (intro daemon_step.quit) auto
  then have "daemon_step M held d (Signal SIGTERM) (d\<lparr>d_quit := True\<rparr>)" by (simp add: signal_quit_def)
  from daemon_run.next_event[OF daemon_run.no_event \<open>\<not> d_quit d\<close> this] show ?thesis by simp
qed


theorem interfaces_served_witness:
  "\<exists>d. pold_start demo_main (daemon_start demo_main demo_conns demo_bus) = Some (Started d)
    \<and> path_data 1 ''/de/bmw/pold1'' (d_objects d) = Some 0"
proof -
  obtain d where d: "pold_start demo_main (daemon_start demo_main demo_conns demo_bus) = Some (Started d)"
    by (rule demo_started)
  from started_ok[OF demo_surroundings d] have "d_conn d = Some 1"
    by (auto simp: daemon_ok_def connected_def demo_main_def)
  with interfaces_served[OF d] d show ?thesis by auto
qed

text \<open>The same surroundings, but no question can be sent to the bus.\<close>

definition demo_mute :: main_env where
  "demo_mute = demo_main\<lparr>me_session := \<lparr>watch_answers = demo_watch_env\<lparr>owner_call_fails := True\<rparr>,
     create_outcome = (\<lambda>_. SentCall)\<rparr>\<rparr>"

lemma demo_mute_started:
  obtains d where "pold_start demo_mute (daemon_start demo_mute demo_conns demo_bus) = Some (Started d)"
proof -
  have same: "me_options demo_mute = Some False" "me_bus demo_mute = Some 1" "me_name_result demo_mute = 1"
    "me_bus_actions demo_mute = me_bus_actions demo_main" "policies_loaded demo_mute = policies_loaded demo_main"
    "me_soup demo_mute" "me_soup_handler demo_mute = 1" "\<not> cannot_register (me_objects demo_mute) 0"
    by (simp_all add: demo_mute_def demo_main_def policies_loaded_def policies_of_def demo_obj_env_def)
  have c: "me_bus demo_main = Some 1" "me_name_result demo_main = 1" by (simp_all add: demo_main_def)
  from surroundings_setup(1)[OF demo_surroundings c(1)] c(2) obtain l where
    l: "g_dbus_setup_bus (Some 1) (Some ''de.bmw.pold1'') False 1 (me_bus_actions demo_mute) (loop_start demo_conns)
      = Some (Some 1, l)" unfolding same(4) by auto
  let ?E = "demo_watch_env\<lparr>owner_call_fails := True\<rparr>"
  have "owner_call_fails ?E" "\<not> add_filter_fails ?E" "\<forall>rule. \<not> add_match_fails ?E rule"
    by (simp_all add: demo_watch_env_def)
  from failed_owner_query_dangles[where f = 0 and g = "Some 1" and u = 0 and destroy = None, OF this connman_rule_length]
  obtain w st where "g_dbus_add_service_watch ?E 1 (Some ''net.connman'') (Some 0) (Some 1) 0 None watch_start
      = Some (w, st)" by blast
  moreover have "watch_answers (me_session demo_mute) = ?E" by (simp add: demo_mute_def)
  moreover have "watches (session_start\<lparr>manager_connection := Some 1\<rparr>) = watch_start" by (simp add: session_start_def)
  ultimately obtain s where
    s: "pold_session_init (me_session demo_mute) 1 (session_start\<lparr>manager_connection := Some 1\<rparr>) = Some s"
    by (simp add: pold_session_init_def)
  have "starts_up demo_mute" using same demo_policies by (simp add: starts_up_def)
  then show ?thesis
    by - (rule start_with_bus[OF same(1-3) l s, of demo_bus], simp add: demo_mute_def demo_main_def demo_disk_def,
        rule that, simp)
qed

theorem exit_after_failed_query_witness:
  "\<exists>d. pold_start demo_mute (daemon_start demo_mute demo_conns demo_bus) = Some (Started d)
    \<and> daemon_run demo_mute (refs demo_conns) d [Signal SIGTERM] (d\<lparr>d_quit := True\<rparr>)
    \<and> pold_main demo_mute (\<lambda>d. Some (d\<lparr>d_quit := True\<rparr>)) (daemon_start demo_mute demo_conns demo_bus) = None"
proof -
  obtain d where d: "pold_start demo_mute (daemon_start demo_mute demo_conns demo_bus) = Some (Started d)"
    by (rule demo_mute_started)
  have fails: "owner_call_fails (watch_answers (me_session demo_mute))"
    "\<not> add_filter_fails (watch_answers (me_session demo_mute))"
    "\<forall>rule. \<not> add_match_fails (watch_answers (me_session demo_mute)) rule"
    by (simp_all add: demo_mute_def demo_watch_env_def)
  note run = demo_terminated[OF d, of "refs demo_conns"]
  have "\<forall>e. ConnmanEvent e \<notin> set [Signal SIGTERM]" by simp
  from exit_after_failed_query[where run = "\<lambda>d. Some (d\<lparr>d_quit := True\<rparr>)", OF fails d refl run this] d run show ?thesis by blast
qed

end
