(* ===== verification/Spec2Isabelle.thy ===== *)
theory Spec2Isabelle
  imports Manager_Agents Dbus_Json_Props Dbus_Common Http_Client Gdbus_Watch_Props Gdbus_Object_Run
    Gdbus_Object_Forest Gdbus_Client_Errors Polkit_Props Pold_Main_Run
begin

text \<open>
  Verification of the policy daemon pold.

  The program. pold hands network policies to agents (a connection manager, for instance) over
  D-Bus. An agent registers with an object path and asks for the policy of an application by
  its bus name. pold identifies the application through the bus daemon (SELinux context, user,
  group), files it under these ids, and answers with the policy of the most specific id. The
  policies are JSON files of one directory, which is refreshed from an HTTP server; after a
  refresh each agent is told the policies of its applications that changed.

  Conventions. A pointer is a reference into a heap, and reading a freed object, dereferencing
  NULL, writing behind a buffer or overflowing an \<open>int\<close> makes an operation \<open>None\<close>; an
  error number is an \<open>int\<close> as in C. What is not in the repository is an argument: Jansson
  (record \<open>jansson\<close>), the user and group databases (record \<open>env\<close>), libdbus failures (fields
  of \<open>bus\<close> and \<open>watch_env\<close>), the chunks of libsoup (\<open>get_chunk\<close>), the disk (record
  \<open>disk\<close>; the order in which a directory is listed is a function of it, since GLib promises none).
  \<open>g_new\<close> and \<open>g_strdup\<close> do not fail, as in GLib. The iteration order of a \<open>GHashTable\<close> is taken to
  be that of insertion.

  Undefined behaviour that is written into the code is \<open>None\<close> too: the uninitialised \<open>GError *\<close> of a
  policy directory that cannot be opened, freeing the policies a second time after a failed start
  (fields \<open>default_dangling\<close> and \<open>own_dangling\<close>), \<open>dbus_message_unref (NULL)\<close> in \<open>fdo-dbus.c\<close> and
  when an agent is told of a policy (\<open>session.c\<close> counts it), and the disconnect handler of an
  agent, whose user data is part of a message that is freed when its request has been handled
  (\<open>message_freed\<close>). The last is reached by every agent that goes away; a run of the model goes on
  after it with any name the handler may have found, and claims that would depend on that exclude
  it.

  Theories and code.
  \<^item> \<open>Pold_Prelude\<close>: GLib strings, lists and hash tables (locale \<open>hash_table\<close>, interpreted by
    the association lists the model uses); \<open>Jansson\<close>: JSON values and the library's interface.
  \<^item> \<open>Policy\<close>: \<open>src/policy.c\<close>, state \<open>policy_state\<close> (its static variables and the heap of
    applications). \<open>Policy_Active\<close>: ids, priorities, which policy is active, which
    applications are stale. \<open>Policy_Apps\<close>: the invariant \<open>policy_wf\<close> of the three indexes of
    applications, watching and removing. \<open>Policy_Files\<close>, \<open>Policy_Update\<close>: loading and saving in
    whatever order the directory is listed, the update from the server (locales \<open>agent_updates\<close>: what
    the update loop needs of the function that tells an agent for its result to be right, and
    \<open>total_updates\<close>: what it needs to be defined), start.
  \<^item> \<open>Dbus_Data\<close>: D-Bus values with their typing rule; \<open>Dbus_Json\<close>, \<open>Dbus_Json_Props\<close>:
    \<open>src/dbus-json.c\<close>, with type correctness and the round trip; \<open>Dbus_Common\<close>:
    \<open>src/dbus-common.c\<close>.
  \<^item> \<open>Fdo_Dbus\<close>: \<open>src/fdo-dbus.c\<close>, the questions to the bus daemon; \<open>Http_Client\<close>:
    \<open>src/http-client.c\<close>, buffers and chunks.
  \<^item> \<open>Bus\<close>: sending and the running of method handlers from \<open>gdbus/object.c\<close>; \<open>Manager\<close>:
    \<open>src/pold-manager.c\<close>, its handlers and callbacks, and the daemon as the step relation
    \<open>mstep\<close> over the events it can meet. \<open>Manager_Props\<close>: accounting of requests and
    answers over all runs, preservation of the store, what can crash a handler; \<open>Manager_Agents\<close>:
    registration, and the update from the server with the manager's own function, by which
    \<open>agent_updates\<close> and \<open>total_updates\<close> are interpreted.
  \<^item> \<open>Gdbus_Watch\<close>, \<open>Gdbus_Watch_Props\<close>: \<open>gdbus/watch.c\<close>, the registry of signal and name
    watches the manager and the policy store use to learn that a client has gone.
    \<open>Gdbus_Watch_Registry\<close>: what the other parts rely on (locale \<open>watch_registry\<close>, interpreted by the
    functions of the file), and the set of registered watches over all sequences of requests.

  \<^item> \<open>Gdbus_Object\<close>, \<open>Gdbus_Object_Tree\<close>, \<open>Gdbus_Object_Calls\<close>: \<open>gdbus/object.c\<close>, all of it:
    tables, introspection, the tree of exported objects with its change signals, registration,
    dispatch, properties, privileged methods. \<open>Gdbus_Object_Props\<close>: signatures, typing of the
    standard messages, lost property changes; \<open>Gdbus_Object_Flush\<close>: which signals announce what an
    object has collected (\<open>announcements\<close>), and that they are sent before any other message;
    \<open>Gdbus_Object_Run\<close>: \<open>Bus\<close> is an abstraction of this model, and privileged methods wait;
    \<open>Gdbus_Object_Forest\<close>: the well-formedness \<open>obj_wf\<close> of the tree, what the object manager
    reports, and the orders of registration that leave freed objects in the tree.
  \<^item> \<open>Gdbus_Client\<close>: \<open>gdbus/client.c\<close>, clients and proxies that mirror the objects of a service;
    pold does not call it. Its state is two heaps, of clients and of proxies, beside the registry of
    watches and the calls whose replies are awaited; the functions of the program are recorded when
    they are called. \<open>Gdbus_Client_Props\<close>: the tables of properties; \<open>Gdbus_Client_Refs\<close>: the
    invariant \<open>client_ok\<close> of references, watches, filters and pending calls, kept while clients and
    proxies are made, used and released; the calls Get and Set and those of methods are modelled only;
    \<open>Gdbus_Client_View\<close>: the view of the service a client has, changed by each signal exactly as it
    says; \<open>Gdbus_Client_Run\<close>: the specification \<open>says\<close> of everything a client can hear and the
    simulation that a client follows it; \<open>Gdbus_Client_Calls\<close>: proxies the program makes itself;
    \<open>Gdbus_Client_Errors\<close>: late replies and paths that are too long.

  \<^item> \<open>Polkit\<close>, \<open>Polkit_Props\<close>: \<open>gdbus/polkit.c\<close>, the question and the answer, and the two
    together with the privileged methods of \<open>gdbus/object.c\<close>.

  \<^item> \<open>Gdbus_Mainloop\<close>, \<open>Gdbus_Mainloop_Props\<close>: \<open>gdbus/mainloop.c\<close>, the watches and timeouts of libdbus
    in the main loop of GLib, with the invariant \<open>loop_wf\<close> of the two and set-up of connections.
  \<^item> \<open>Session\<close>, \<open>Session_Props\<close>: \<open>src/session.c\<close>, \<open>src/connman-manager.c\<close>,
    \<open>src/connman-notification.c\<close>, on top of the watches.
  \<^item> \<open>Pold_Main\<close>: \<open>src/main.c\<close> and \<open>src/log.c\<close>; its state \<open>daemon\<close> holds the states of the
    other components. \<open>Pold_Main_Props\<close>: what a started daemon consists of and serves.
    \<open>Pold_Main_Run\<close>: the events of all components interleaved (\<open>daemon_step\<close>), their common
    invariant, and the way from start to exit. The one list of listeners of \<open>gdbus/watch.c\<close> is split
    there: the session has its listener in a watch state of its own, agents and applications have
    theirs as ids in the manager and the store; what happens between listeners is the subject of
    \<open>Gdbus_Watch_Props\<close> and \<open>Gdbus_Watch_Registry\<close> only.

  Loops. All loops over lists are structural recursions. The mutual recursion of
  \<open>filter_data_remove_callback\<close>, \<open>filter_data_free\<close> and \<open>g_dbus_remove_watch\<close> ends because
  each round drops a listener. The recursion of \<open>invalidate_parent_data\<close> shortens the path. The loops that may not
  end, \<open>chunk_loop\<close>, \<open>g_dbus_remove_all_watches\<close>, \<open>delete_again\<close> and \<open>append_objects\<close>, are \<open>partial_function\<close>s, where \<open>None\<close> is
  also the value of a loop that never returns. No fuel is used.

  Not modelled: the tests; the
  Python test server; the patch for connman.
\<close>

end
